(* ===== verification/Base.thy ===== *)
theory Base
  imports Complex_Main "HOL-Library.List_Lexorder" "HOL-Library.Char_ord"
    "HOL-Library.Product_Lexorder" "HOL-Library.Multiset"
begin

text \<open>
  The prelude of the development: Python exceptions as values, computations that return a value or
  raise (\<open>'a result\<close>), computations over an explicit state that may raise after having changed it
  (\<open>('w, 'a) io\<close>), a small Hoare calculus for them, and the generic list lemmas the components
  share.  Debug logging of the program has no effect on any result and is left out everywhere.
\<close>

section \<open>Exceptions\<close>

text \<open>
  The exception classes the program raises or lets through.  \<open>PolarsError\<close>, \<open>DatabaseError\<close> and
  \<open>HttpxError\<close> stand for what third-party packages raise, \<open>StructError\<close> for \<open>struct.error\<close>.  \<open>KeyboardInterrupt\<close>, \<open>SystemExit\<close> and
  \<open>GeneratorExit\<close> derive from \<open>BaseException\<close> only: \<open>except Exception\<close> does not catch them.
\<close>

datatype exc_class =
    ValueError | TypeError | KeyError | IndexError | LookupError | OverflowError
  | AssertionError | RuntimeError | OSError | FileNotFoundError | FileExistsError | TimeoutException
  | ProviderHttpError | ProviderPayloadError | GoldSyncSourceError | GoldSyncCompatibilityError
  | GoldSyncVerificationError | PostgresGoldRepositoryError | PostgresConformanceError
  | PolarsError | DatabaseError | HttpxError
  | PostgresOperationTimeoutError | PostgresLockContentionError | AttributeError
  | StopIteration | StructError
  | KeyboardInterrupt | SystemExit | GeneratorExit

datatype exn = Exn (exc_class: exc_class) (exc_message: string)

text \<open>What an \<open>except Exception\<close> clause catches.\<close>

definition is_exception :: "exn \<Rightarrow> bool" where
  "is_exception e \<longleftrightarrow> exc_class e \<notin> {KeyboardInterrupt, SystemExit, GeneratorExit}"

text \<open>What an \<open>except OSError\<close> clause catches (\<open>FileNotFoundError\<close> and \<open>FileExistsError\<close> are subclasses).\<close>

definition is_os_error :: "exn \<Rightarrow> bool" where
  "is_os_error e \<longleftrightarrow> exc_class e \<in> {OSError, FileNotFoundError, FileExistsError}"

section \<open>Results\<close>

type_synonym 'a result = "exn + 'a"

definition raise :: "exc_class \<Rightarrow> string \<Rightarrow> 'a result" where
  "raise c msg = Inl (Exn c msg)"

fun rbind :: "'a result \<Rightarrow> ('a \<Rightarrow> 'b result) \<Rightarrow> 'b result" where
  "rbind (Inl e) f = Inl e"
| "rbind (Inr x) f = f x"

text \<open>\<open>if b: raise c(msg)\<close>\<close>

definition raise_if :: "bool \<Rightarrow> exc_class \<Rightarrow> string \<Rightarrow> unit result" where
  "raise_if b c msg = (if b then raise c msg else Inr ())"

fun rmap :: "('a \<Rightarrow> 'b result) \<Rightarrow> 'a list \<Rightarrow> 'b list result" where
  "rmap f [] = Inr []"
| "rmap f (x # xs) = rbind (f x) (\<lambda>y. rbind (rmap f xs) (\<lambda>ys. Inr (y # ys)))"

text \<open>A loop whose body only checks.\<close>

fun rfor :: "('a \<Rightarrow> unit result) \<Rightarrow> 'a list \<Rightarrow> unit result" where
  "rfor f [] = Inr ()"
| "rfor f (x # xs) = rbind (f x) (\<lambda>_. rfor f xs)"

definition is_ok :: "'a result \<Rightarrow> bool" where
  "is_ok r = (case r of Inl _ \<Rightarrow> False | Inr _ \<Rightarrow> True)"

definition opt_all :: "('a \<Rightarrow> bool) \<Rightarrow> 'a option \<Rightarrow> bool" where
  "opt_all P x = (case x of None \<Rightarrow> True | Some y \<Rightarrow> P y)"

named_theorems result_simps

lemma raise_not_Inr [simp]: "raise c m \<noteq> Inr x" "Inr x \<noteq> raise c m"
  by (simp_all add: raise_def)

lemma rbind_raise [simp]: "rbind (raise c m) f = raise c m"
  by (simp add: raise_def)

lemma raise_if_simps [simp]:
  "raise_if False c m = Inr ()" "raise_if True c m = raise c m"
  by (simp_all add: raise_if_def)

lemma raise_if_Inr [simp]: "raise_if b c m = Inr u \<longleftrightarrow> \<not> b"
  by (simp add: raise_if_def)

lemma rbind_Inr [result_simps]: "rbind r f = Inr y \<longleftrightarrow> (\<exists>x. r = Inr x \<and> f x = Inr y)"
  by (cases r) auto

lemma rbind_Inl [result_simps]:
  "rbind r f = Inl e \<longleftrightarrow> r = Inl e \<or> (\<exists>x. r = Inr x \<and> f x = Inl e)"
  by (cases r) auto

lemma guard_Inr: "rbind (raise_if b c m) f = Inr y \<longleftrightarrow> \<not> b \<and> f () = Inr y"
  by (cases b) simp_all

lemma rbind_raise_if: "rbind (raise_if b c m) f = (if b then raise c m else f ())"
  by (simp add: raise_if_def)

lemma is_ok_simps [simp]: "is_ok (Inr x)" "\<not> is_ok (Inl e)" "\<not> is_ok (raise c m)"
  by (simp_all add: is_ok_def raise_def)

lemma is_ok_iff: "is_ok r \<longleftrightarrow> (\<exists>x. r = Inr x)"
  by (cases r) auto

lemma rfor_Inr [result_simps]: "rfor f xs = Inr u \<longleftrightarrow> (\<forall>x \<in> set xs. f x = Inr ())"
  by (induction xs) (auto simp: result_simps)

lemma rfor_append: "rfor f (xs @ ys) = rbind (rfor f xs) (\<lambda>_. rfor f ys)"
  by (induction xs) (auto, metis rbind.simps old.sum.exhaust)

lemma rmap_Inr_length: "rmap f xs = Inr ys \<Longrightarrow> length ys = length xs"
  by (induction xs arbitrary: ys) (auto simp: result_simps)

lemma rmap_Inr: "rmap f xs = Inr ys \<longleftrightarrow> list_all2 (\<lambda>x y. f x = Inr y) xs ys"
  by (induction xs arbitrary: ys) (auto simp: result_simps list_all2_Cons1)

lemma rmap_map_Inr: "(\<And>x. x \<in> set xs \<Longrightarrow> f (g x) = Inr (h x)) \<Longrightarrow> rmap f (map g xs) = Inr (map h xs)"
  by (induction xs) auto

lemma rmap_all_Inr: "(\<And>x. x \<in> set xs \<Longrightarrow> f x = Inr (h x)) \<Longrightarrow> rmap f xs = Inr (map h xs)"
  by (induction xs) auto

lemma opt_all_simps [simp]: "opt_all P None" "opt_all P (Some x) = P x"
  by (simp_all add: opt_all_def)

section \<open>Computations over a state\<close>

type_synonym ('w, 'a) io = "'w \<Rightarrow> 'a result \<times> 'w"

definition ret :: "'a \<Rightarrow> ('w, 'a) io" where
  "ret x w = (Inr x, w)"

definition throw :: "exn \<Rightarrow> ('w, 'a) io" where
  "throw e w = (Inl e, w)"

definition lift :: "'a result \<Rightarrow> ('w, 'a) io" where
  "lift r w = (r, w)"

definition bind :: "('w, 'a) io \<Rightarrow> ('a \<Rightarrow> ('w, 'b) io) \<Rightarrow> ('w, 'b) io" where
  "bind m f w = (case m w of (Inl e, w') \<Rightarrow> (Inl e, w') | (Inr x, w') \<Rightarrow> f x w')"

text \<open>\<open>m; n\<close>\<close>

definition seq :: "('w, 'a) io \<Rightarrow> ('w, 'b) io \<Rightarrow> ('w, 'b) io" where
  "seq m n = bind m (\<lambda>_. n)"

text \<open>\<open>try: m except <those satisfying p> as e: h e\<close>\<close>

definition try_except :: "('w, 'a) io \<Rightarrow> (exn \<Rightarrow> bool) \<Rightarrow> (exn \<Rightarrow> ('w, 'a) io) \<Rightarrow> ('w, 'a) io" where
  "try_except m p h w =
    (case m w of (Inl e, w') \<Rightarrow> if p e then h e w' else (Inl e, w') | (Inr x, w') \<Rightarrow> (Inr x, w'))"

text \<open>
  \<open>try: m finally: n\<close>: an exception of \<open>n\<close> replaces the outcome of \<open>m\<close>.
\<close>

definition try_finally :: "('w, 'a) io \<Rightarrow> ('w, unit) io \<Rightarrow> ('w, 'a) io" where
  "try_finally m n w =
    (case m w of (r, w') \<Rightarrow> (case n w' of (Inl e, w'') \<Rightarrow> (Inl e, w'') | (Inr _, w'') \<Rightarrow> (r, w'')))"

definition gets :: "('w \<Rightarrow> 'a) \<Rightarrow> ('w, 'a) io" where
  "gets f w = (Inr (f w), w)"

definition modify :: "('w \<Rightarrow> 'w) \<Rightarrow> ('w, unit) io" where
  "modify f w = (Inr (), f w)"

fun for_each :: "('a \<Rightarrow> ('w, unit) io) \<Rightarrow> 'a list \<Rightarrow> ('w, unit) io" where
  "for_each f [] = ret ()"
| "for_each f (x # xs) = seq (f x) (for_each f xs)"

fun collect :: "('a \<Rightarrow> ('w, 'b) io) \<Rightarrow> 'a list \<Rightarrow> ('w, 'b list) io" where
  "collect f [] = ret []"
| "collect f (x # xs) = bind (f x) (\<lambda>y. bind (collect f xs) (\<lambda>ys. ret (y # ys)))"

named_theorems io_simps

lemma ret_apply [io_simps]: "ret x w = (Inr x, w)"
  by (simp add: ret_def)

lemma throw_apply [io_simps]: "throw e w = (Inl e, w)"
  by (simp add: throw_def)

lemma lift_apply [io_simps]: "lift r w = (r, w)"
  by (simp add: lift_def)

lemma gets_apply [io_simps]: "gets f w = (Inr (f w), w)"
  by (simp add: gets_def)

lemma modify_apply [io_simps]: "modify f w = (Inr (), f w)"
  by (simp add: modify_def)

lemma bind_Inr: "m w = (Inr x, w') \<Longrightarrow> bind m f w = f x w'"
  by (simp add: bind_def)

lemma bind_Inl: "m w = (Inl e, w') \<Longrightarrow> bind m f w = (Inl e, w')"
  by (simp add: bind_def)

lemma bind_eq_Inr:
  "bind m f w = (Inr y, w'') \<longleftrightarrow> (\<exists>x w'. m w = (Inr x, w') \<and> f x w' = (Inr y, w''))"
  by (auto simp: bind_def split: prod.splits sum.splits)

lemma bind_eq_Inl:
  "bind m f w = (Inl e, w'') \<longleftrightarrow>
    m w = (Inl e, w'') \<or> (\<exists>x w'. m w = (Inr x, w') \<and> f x w' = (Inl e, w''))"
  by (auto simp: bind_def split: prod.splits sum.splits)

lemma bind_ret [simp]: "bind (ret x) f = f x"
  by (rule ext) (simp add: bind_def ret_def)

lemma bind_lift_Inr [simp]: "bind (lift (Inr x)) f = f x"
  by (rule ext) (simp add: bind_def lift_def)

lemma bind_assoc: "bind (bind m f) g = bind m (\<lambda>x. bind (f x) g)"
  by (rule ext) (auto simp: bind_def split: prod.splits sum.splits)

lemma seq_eq_Inr:
  "seq m n w = (Inr y, w'') \<longleftrightarrow> (\<exists>x w'. m w = (Inr x, w') \<and> n w' = (Inr y, w''))"
  by (simp add: seq_def bind_eq_Inr)

lemma seq_eq_Inl:
  "seq m n w = (Inl e, w'') \<longleftrightarrow>
    m w = (Inl e, w'') \<or> (\<exists>x w'. m w = (Inr x, w') \<and> n w' = (Inl e, w''))"
  by (simp add: seq_def bind_eq_Inl)

lemma try_except_eq_Inr:
  "try_except m p h w = (Inr x, w'') \<longleftrightarrow>
    m w = (Inr x, w'') \<or> (\<exists>e w'. m w = (Inl e, w') \<and> p e \<and> h e w' = (Inr x, w''))"
  by (auto simp: try_except_def split: prod.splits sum.splits)

lemma try_except_eq_Inl:
  "try_except m p h w = (Inl e, w'') \<longleftrightarrow>
    (m w = (Inl e, w'') \<and> \<not> p e) \<or> (\<exists>e' w'. m w = (Inl e', w') \<and> p e' \<and> h e' w' = (Inl e, w''))"
  by (auto simp: try_except_def split: prod.splits sum.splits)

text \<open>Inverting a run of a composed computation.\<close>

lemmas io_inv = bind_eq_Inr bind_eq_Inl seq_eq_Inr seq_eq_Inl try_except_eq_Inr try_except_eq_Inl

lemmas io_run = io_simps bind_def seq_def try_except_def try_finally_def

section \<open>A Hoare calculus with exceptional postconditions\<close>

definition hoare ::
  "('w \<Rightarrow> bool) \<Rightarrow> ('w, 'a) io \<Rightarrow> ('a \<Rightarrow> 'w \<Rightarrow> bool) \<Rightarrow> (exn \<Rightarrow> 'w \<Rightarrow> bool) \<Rightarrow> bool" where
  "hoare P m Q E \<longleftrightarrow>
    (\<forall>w. P w \<longrightarrow> (case m w of (Inl e, w') \<Rightarrow> E e w' | (Inr x, w') \<Rightarrow> Q x w'))"

text \<open>\<open>m\<close> keeps \<open>P\<close>, whether it returns or raises.\<close>

definition keeps :: "('w \<Rightarrow> bool) \<Rightarrow> ('w, 'a) io \<Rightarrow> bool" where
  "keeps P m \<longleftrightarrow> hoare P m (\<lambda>_. P) (\<lambda>_. P)"

text \<open>\<open>m\<close> never changes the view \<open>v\<close> of the state.\<close>

definition preserves :: "('w \<Rightarrow> 'v) \<Rightarrow> ('w, 'a) io \<Rightarrow> bool" where
  "preserves v m \<longleftrightarrow> (\<forall>w. v (snd (m w)) = v w)"

lemma hoareI:
  "(\<And>w x w'. P w \<Longrightarrow> m w = (Inr x, w') \<Longrightarrow> Q x w') \<Longrightarrow>
   (\<And>w e w'. P w \<Longrightarrow> m w = (Inl e, w') \<Longrightarrow> E e w') \<Longrightarrow> hoare P m Q E"
  by (auto simp: hoare_def split: prod.splits sum.splits)

lemma hoareD_Inr: "hoare P m Q E \<Longrightarrow> P w \<Longrightarrow> m w = (Inr x, w') \<Longrightarrow> Q x w'"
  by (auto simp: hoare_def split: prod.splits sum.splits)

lemma hoareD_Inl: "hoare P m Q E \<Longrightarrow> P w \<Longrightarrow> m w = (Inl e, w') \<Longrightarrow> E e w'"
  by (auto simp: hoare_def split: prod.splits sum.splits)

lemma hoare_pre: "hoare P' m Q E \<Longrightarrow> (\<And>w. P w \<Longrightarrow> P' w) \<Longrightarrow> hoare P m Q E"
  by (auto simp: hoare_def)

lemma hoare_conseq:
  "hoare P' m Q' E' \<Longrightarrow> (\<And>w. P w \<Longrightarrow> P' w) \<Longrightarrow> (\<And>x w. Q' x w \<Longrightarrow> Q x w) \<Longrightarrow>
   (\<And>e w. E' e w \<Longrightarrow> E e w) \<Longrightarrow> hoare P m Q E"
  by (fastforce simp: hoare_def split: prod.splits sum.splits)

lemma hoare_ret: "(\<And>w. P w \<Longrightarrow> Q x w) \<Longrightarrow> hoare P (ret x) Q E"
  by (auto simp: hoare_def ret_def)

lemma hoare_throw: "(\<And>w. P w \<Longrightarrow> E e w) \<Longrightarrow> hoare P (throw e) Q E"
  by (auto simp: hoare_def throw_def)

lemma hoare_lift:
  "(\<And>w x. P w \<Longrightarrow> r = Inr x \<Longrightarrow> Q x w) \<Longrightarrow> (\<And>w e. P w \<Longrightarrow> r = Inl e \<Longrightarrow> E e w) \<Longrightarrow>
   hoare P (lift r) Q E"
  by (cases r) (auto simp: hoare_def lift_def)

lemma hoare_bind:
  "hoare P m R E \<Longrightarrow> (\<And>x. hoare (R x) (f x) Q E) \<Longrightarrow> hoare P (bind m f) Q E"
  by (fastforce simp: hoare_def bind_def split: prod.splits sum.splits)

lemma hoare_seq:
  "hoare P m (\<lambda>_. R) E \<Longrightarrow> hoare R n Q E \<Longrightarrow> hoare P (seq m n) Q E"
  unfolding seq_def by (rule hoare_bind)

lemma hoare_try_except:
  "hoare P m Q F \<Longrightarrow> (\<And>e. p e \<Longrightarrow> hoare (F e) (h e) Q E) \<Longrightarrow>
   (\<And>e w. \<not> p e \<Longrightarrow> F e w \<Longrightarrow> E e w) \<Longrightarrow> hoare P (try_except m p h) Q E"
  by (fastforce simp: hoare_def try_except_def split: prod.splits sum.splits)

lemma hoare_try_finally:
  "hoare P m Q E \<Longrightarrow> (\<And>x. hoare (Q x) n (\<lambda>_. R x) F) \<Longrightarrow> (\<And>e. hoare (E e) n (\<lambda>_. F e) F) \<Longrightarrow>
   hoare P (try_finally m n) R F"
  by (fastforce simp: hoare_def try_finally_def split: prod.splits sum.splits)

lemma hoare_if:
  "(b \<Longrightarrow> hoare P m Q E) \<Longrightarrow> (\<not> b \<Longrightarrow> hoare P n Q E) \<Longrightarrow> hoare P (if b then m else n) Q E"
  by simp

lemma hoare_conj:
  "hoare P m Q E \<Longrightarrow> hoare P' m Q' E' \<Longrightarrow>
   hoare (\<lambda>w. P w \<and> P' w) m (\<lambda>x w. Q x w \<and> Q' x w) (\<lambda>e w. E e w \<and> E' e w)"
  by (fastforce simp: hoare_def split: prod.splits sum.splits)

lemma hoare_pure: "(C \<Longrightarrow> hoare P m Q E) \<Longrightarrow> hoare (\<lambda>w. P w \<and> C) m Q E"
  by (auto simp: hoare_def)

lemma hoare_post_pure: "C \<Longrightarrow> hoare P m Q E \<Longrightarrow> hoare P m (\<lambda>x w. Q x w \<and> C) E"
  by simp

lemma hoare_at: "(\<And>w. P w \<Longrightarrow> hoare (\<lambda>w'. w' = w) m Q E) \<Longrightarrow> hoare P m Q E"
  by (auto simp: hoare_def)

lemma hoare_for_each:
  "(\<And>x. x \<in> set xs \<Longrightarrow> hoare P (f x) (\<lambda>_. P) E) \<Longrightarrow> hoare P (for_each f xs) (\<lambda>_. P) E"
  by (induction xs) (auto intro: hoare_seq hoare_ret)

lemma preservesI: "(\<And>w r w'. m w = (r, w') \<Longrightarrow> v w' = v w) \<Longrightarrow> preserves v m"
  unfolding preserves_def by (metis prod.collapse)

lemma preservesD: "preserves v m \<Longrightarrow> m w = (r, w') \<Longrightarrow> v w' = v w"
  by (metis preserves_def snd_conv)

lemma preserves_hoare: "preserves v m \<Longrightarrow> hoare (\<lambda>w. P (v w)) m (\<lambda>_ w. P (v w)) (\<lambda>_ w. P (v w))"
  by (auto intro!: hoareI dest: preservesD)

lemma preserves_pair: "preserves u m \<Longrightarrow> preserves v m \<Longrightarrow> preserves (\<lambda>w. (u w, v w)) m"
  by (simp add: preserves_def)

lemma preserves_keeps2:
  assumes "preserves u m" "preserves v m"
  shows "hoare (\<lambda>w. P (u w) (v w)) m (\<lambda>_ w. P (u w) (v w)) (\<lambda>_ w. P (u w) (v w))"
  using preserves_hoare [OF preserves_pair [OF assms], of "\<lambda>(x, y). P x y"] by simp

lemma preserves_keeps3:
  assumes "preserves u m" "preserves v m" "preserves x m"
  shows "hoare (\<lambda>w. P (u w) (v w) (x w)) m (\<lambda>_ w. P (u w) (v w) (x w)) (\<lambda>_ w. P (u w) (v w) (x w))"
  using preserves_hoare [OF preserves_pair [OF assms(1) preserves_pair [OF assms(2,3)]], of "\<lambda>(x, y, z). P x y z"] by simp

named_theorems preserves_intros

lemma preserves_basic [preserves_intros]:
  "preserves v (ret x)" "preserves v (throw e)" "preserves v (lift r)" "preserves v (gets f)"
  by (auto simp: preserves_def io_simps)

lemma preserves_bind [preserves_intros]:
  "preserves v m \<Longrightarrow> (\<And>x. preserves v (f x)) \<Longrightarrow> preserves v (bind m f)"
  by (rule preservesI) (auto simp: bind_def split: prod.splits sum.splits, (metis preservesD)+)

lemma preserves_seq [preserves_intros]:
  "preserves v m \<Longrightarrow> preserves v n \<Longrightarrow> preserves v (seq m n)"
  unfolding seq_def by (rule preserves_bind)

lemma preserves_try_except [preserves_intros]:
  "preserves v m \<Longrightarrow> (\<And>e. preserves v (h e)) \<Longrightarrow> preserves v (try_except m p h)"
  by (rule preservesI) (auto simp: try_except_def split: prod.splits sum.splits if_splits, (metis preservesD)+)

lemma preserves_try_finally [preserves_intros]:
  "preserves v m \<Longrightarrow> preserves v n \<Longrightarrow> preserves v (try_finally m n)"
  by (rule preservesI) (auto simp: try_finally_def split: prod.splits sum.splits, (metis preservesD)+)

lemma preserves_modify: "(\<And>w. v (f w) = v w) \<Longrightarrow> preserves v (modify f)"
  by (simp add: preserves_def modify_def)

lemma preserves_for_each [preserves_intros]:
  "(\<And>x. preserves v (f x)) \<Longrightarrow> preserves v (for_each f xs)"
  by (induction xs) (auto intro: preserves_intros)

lemma preserves_collect [preserves_intros]:
  "(\<And>x. preserves v (f x)) \<Longrightarrow> preserves v (collect f xs)"
  by (induction xs) (auto intro: preserves_intros)

lemma preserves_if [preserves_intros]:
  "preserves v m \<Longrightarrow> preserves v n \<Longrightarrow> preserves v (if b then m else n)"
  by simp

lemma preserves_case_option [preserves_intros]:
  "preserves v m \<Longrightarrow> (\<And>x. preserves v (f x)) \<Longrightarrow> preserves v (case y of None \<Rightarrow> m | Some x \<Rightarrow> f x)"
  by (cases y) auto

section \<open>Fault plans\<close>

text \<open>
  Every call that may fail consumes one entry of the fault plan of its world: \<open>Some e\<close> makes it raise
  \<open>e\<close> without effect, \<open>None\<close> (and an exhausted plan) lets it succeed.  A theorem about all plans
  covers an exception at any such call.
\<close>

record fault_world =
  faults :: "exn option list"

definition fault_point :: "('z fault_world_scheme, unit) io" where
  "fault_point w =
    (case faults w of
      [] \<Rightarrow> (Inr (), w)
    | None # fs \<Rightarrow> (Inr (), w\<lparr>faults := fs\<rparr>)
    | Some e # fs \<Rightarrow> (Inl e, w\<lparr>faults := fs\<rparr>))"

lemma preserves_fault_point:
  "(\<And>w fs. v (w\<lparr>faults := fs\<rparr>) = v w) \<Longrightarrow> preserves v fault_point"
  by (rule preservesI) (auto simp: fault_point_def split: list.splits option.splits)

lemma fault_point_quiet: "faults w = [] \<Longrightarrow> fault_point w = (Inr (), w)"
  by (simp add: fault_point_def)

section \<open>Lists\<close>

text \<open>\<open>next((x for x in xs if p x), None)\<close> is the library's \<open>find\<close>.\<close>

lemma find_Some_unique:
  "distinct (map k xs) \<Longrightarrow> x \<in> set xs \<Longrightarrow> find (\<lambda>y. k y = k x) xs = Some x"
  by (induction xs) (auto simp: rev_image_eqI)

lemma distinct_map_eqD: "distinct (map k xs) \<Longrightarrow> x \<in> set xs \<Longrightarrow> y \<in> set xs \<Longrightarrow> k x = k y \<Longrightarrow> x = y"
  by (metis distinct_map inj_onD)

lemma length_le_1_iff: "length xs \<le> 1 \<longleftrightarrow> xs = [] \<or> (\<exists>x. xs = [x])"
  by (cases xs) (auto simp: length_Suc_conv)

lemma filter_single_mem: "filter P xs = [x] \<Longrightarrow> y \<in> set xs \<Longrightarrow> P y \<Longrightarrow> y = x"
  by (metis (mono_tags, lifting) empty_iff filter_set insert_iff list.set(1,2) mem_Collect_eq set_filter)

lemma filter_map_eq:
  "filter P (map f xs) = map f (filter (\<lambda>x. P (f x)) xs)"
  by (induction xs) auto

lemma distinct_filter_single:
  "distinct (map k xs) \<Longrightarrow> x \<in> set xs \<Longrightarrow> filter (\<lambda>y. k y = k x) xs = [x]"
proof (induction xs)
  case (Cons a xs)
  have "\<And>y. y \<in> set xs \<Longrightarrow> k y \<noteq> k a"
    using Cons.prems(1) by (metis distinct.simps(2) image_eqI list.set_map list.simps(9))
  then show ?case
    using Cons by (auto simp: filter_empty_conv)
qed simp

end
