(* ===== verification/Py_Time.thy ===== *)
theory Py_Time
  imports Base
begin

text \<open>
  Python's \<open>datetime\<close> and \<open>date\<close> as far as the program uses them.  A \<open>datetime\<close> is naive (its wall
  clock in microseconds) or aware (the instant in microseconds since the epoch, and the UTC offset
  of its time zone in microseconds).  Two aware values are compared by their instants; ordering a
  naive against an aware value raises \<open>TypeError\<close>, comparing them for equality gives \<open>False\<close>.
  Values outside the years 1 to 9999 are not excluded: integers are unbounded.  A \<open>date\<close> is its
  proleptic Gregorian ordinal.
\<close>

datatype datetime = Naive int | Aware (instant_us: int) (offset_us: int)

fun is_aware :: "datetime \<Rightarrow> bool" where
  "is_aware (Naive _) = False"
| "is_aware (Aware _ _) = True"

text \<open>\<open>value.utcoffset()\<close>\<close>

fun utcoffset :: "datetime \<Rightarrow> int option" where
  "utcoffset (Naive _) = None"
| "utcoffset (Aware _ off) = Some off"

fun dt_eq :: "datetime \<Rightarrow> datetime \<Rightarrow> bool" where
  "dt_eq (Naive a) (Naive b) = (a = b)"
| "dt_eq (Aware a _) (Aware b _) = (a = b)"
| "dt_eq _ _ = False"

fun dt_less :: "datetime \<Rightarrow> datetime \<Rightarrow> bool result" where
  "dt_less (Naive a) (Naive b) = Inr (a < b)"
| "dt_less (Aware a _) (Aware b _) = Inr (a < b)"
| "dt_less _ _ = raise TypeError ''can't compare offset-naive and offset-aware datetimes''"

text \<open>\<open>value.astimezone(UTC)\<close>; it is only called on aware values.\<close>

fun astimezone_utc :: "datetime \<Rightarrow> datetime" where
  "astimezone_utc (Aware t _) = Aware t 0"
| "astimezone_utc (Naive t) = Naive t"

text \<open>The number a datetime is ordered by among values of its own kind.\<close>

fun dt_num :: "datetime \<Rightarrow> int" where
  "dt_num (Naive a) = a"
| "dt_num (Aware a _) = a"

text \<open>An aware datetime in UTC: what the Parquet type \<open>Datetime("us", "UTC")\<close> reads back.\<close>

fun is_utc :: "datetime \<Rightarrow> bool" where
  "is_utc (Aware _ off) = (off = 0)"
| "is_utc (Naive _) = False"

lemma is_utc_iff: "is_utc d \<longleftrightarrow> (\<exists>t. d = Aware t 0)"
  by (cases d) auto

lemma is_utc_aware [simp]: "is_utc d \<Longrightarrow> is_aware d"
  by (cases d) auto

lemma astimezone_utc_id [simp]: "is_utc d \<Longrightarrow> astimezone_utc d = d"
  by (cases d) auto

lemma astimezone_utc_is_utc [simp]: "is_utc (astimezone_utc d) = is_aware d"
  by (cases d) auto

lemma astimezone_utc_aware [simp]: "is_aware (astimezone_utc d) = is_aware d"
  by (cases d) auto

lemma astimezone_utc_num [simp]: "dt_num (astimezone_utc d) = dt_num d"
  by (cases d) auto

lemma dt_less_aware: "is_aware a \<Longrightarrow> is_aware b \<Longrightarrow> dt_less a b = Inr (dt_num a < dt_num b)"
  by (cases a; cases b) auto

lemma dt_less_Inr: "dt_less a b = Inr x \<longleftrightarrow> is_aware a = is_aware b \<and> x = (dt_num a < dt_num b)"
  by (cases a; cases b) auto

lemma dt_eq_iff: "dt_eq a b \<longleftrightarrow> is_aware a = is_aware b \<and> dt_num a = dt_num b"
  by (cases a; cases b) auto

lemma is_utc_eqI: "is_utc a \<Longrightarrow> is_utc b \<Longrightarrow> dt_num a = dt_num b \<Longrightarrow> a = b"
  by (cases a; cases b) auto

section \<open>Keys of a datetime and a string\<close>

text \<open>Tuple comparison: the first component decides unless the two are equal.\<close>

fun time_key_less :: "datetime \<times> string \<Rightarrow> datetime \<times> string \<Rightarrow> bool result" where
  "time_key_less (a, s) (b, t) = (if dt_eq a b then Inr (s < t) else dt_less a b)"

definition key_num :: "datetime \<times> string \<Rightarrow> int \<times> string" where
  "key_num k = (dt_num (fst k), snd k)"

text \<open>\<open>max(xs, key=k)\<close> on a non-empty list: the first of the maximal elements.\<close>

fun max_by_from :: "('a \<Rightarrow> (datetime \<times> string) result) \<Rightarrow> 'a \<Rightarrow> 'a list \<Rightarrow> 'a result" where
  "max_by_from k best [] = Inr best"
| "max_by_from k best (x # xs) =
    rbind (k best) (\<lambda>kb. rbind (k x) (\<lambda>kx. rbind (time_key_less kb kx) (\<lambda>greater.
      max_by_from k (if greater then x else best) xs)))"

definition max_by :: "('a \<Rightarrow> (datetime \<times> string) result) \<Rightarrow> 'a list \<Rightarrow> 'a result" where
  "max_by k xs =
    (case xs of
      [] \<Rightarrow> raise ValueError ''max() iterable argument is empty''
    | x # rest \<Rightarrow> rbind (k x) (\<lambda>_. max_by_from k x rest))"

text \<open>
  \<open>sorted(xs, key=k)\<close>: all keys are computed first, then the list is sorted stably.  Any comparison
  sort compares some naive key with some aware key when both occur, which raises.
\<close>

definition sort_by :: "('a \<Rightarrow> (datetime \<times> string) result) \<Rightarrow> 'a list \<Rightarrow> 'a list result" where
  "sort_by k xs =
    rbind (rmap k xs) (\<lambda>ks.
      if (\<forall>c \<in> set ks. is_aware (fst c)) \<or> (\<forall>c \<in> set ks. \<not> is_aware (fst c))
      then Inr (map snd (sort_key (\<lambda>p. key_num (fst p)) (zip ks xs)))
      else raise TypeError ''can't compare offset-naive and offset-aware datetimes'')"

lemma time_key_less_aware:
  "is_aware (fst a) \<Longrightarrow> is_aware (fst b) \<Longrightarrow> time_key_less a b = Inr (key_num a < key_num b)"
  by (cases a; cases b) (auto simp: dt_eq_iff dt_less_aware key_num_def less_prod_def)

lemma max_by_from_aware:
  assumes "\<And>x. x \<in> set (b # xs) \<Longrightarrow> k x = Inr (f x) \<and> is_aware (fst (f x))"
  shows "\<exists>m. max_by_from k b xs = Inr m \<and> m \<in> set (b # xs) \<and>
    (\<forall>x \<in> set (b # xs). key_num (f x) \<le> key_num (f m))"
  using assms
proof (induction xs arbitrary: b)
  case (Cons a xs)
  let ?c = "if key_num (f b) < key_num (f a) then a else b"
  have k: "k a = Inr (f a)" "k b = Inr (f b)" "is_aware (fst (f a))" "is_aware (fst (f b))"
    using Cons.prems by auto
  have "\<And>x. x \<in> set (?c # xs) \<Longrightarrow> k x = Inr (f x) \<and> is_aware (fst (f x))"
    using Cons.prems by (auto split: if_splits)
  from Cons.IH [OF this] obtain m where
    m: "max_by_from k ?c xs = Inr m" "m \<in> set (?c # xs)"
      "\<forall>x \<in> set (?c # xs). key_num (f x) \<le> key_num (f m)"
    by blast
  have "max_by_from k b (a # xs) = Inr m"
    using m(1) k by (simp add: time_key_less_aware)
  moreover have "m \<in> set (b # a # xs)"
    using m(2) by (auto split: if_splits)
  moreover have "key_num (f a) \<le> key_num (f ?c)" "key_num (f b) \<le> key_num (f ?c)"
    by auto
  ultimately show ?case
    using m(3) by (metis (no_types, lifting) list.set_intros(1,2) order_trans set_ConsD)
qed simp

lemma max_by_aware:
  assumes "\<And>x. x \<in> set xs \<Longrightarrow> k x = Inr (f x) \<and> is_aware (fst (f x))" "xs \<noteq> []"
  shows "\<exists>m. max_by k xs = Inr m \<and> m \<in> set xs \<and> (\<forall>x \<in> set xs. key_num (f x) \<le> key_num (f m))"
proof -
  obtain b rest where xs: "xs = b # rest"
    using assms(2) by (cases xs) auto
  show ?thesis
    using max_by_from_aware [of b rest k f] assms(1) unfolding xs by (auto simp: max_by_def)
qed

lemma sort_key_zip_map:
  "map snd (sort_key (\<lambda>p. g (fst p)) (zip (map f xs) xs)) = sort_key (\<lambda>x. g (f x)) xs"
proof -
  have "zip (map f xs) xs = map (\<lambda>x. (f x, x)) xs"
    by (induction xs) auto
  moreover have "sort_key (\<lambda>p. g (fst p)) (map (\<lambda>x. (f x, x)) xs) = map (\<lambda>x. (f x, x)) (sort_key (\<lambda>x. g (f x)) xs)"
  proof (induction xs)
    case (Cons a xs)
    have "insort_key (\<lambda>p. g (fst p)) (f a, a) (map (\<lambda>x. (f x, x)) ys)
        = map (\<lambda>x. (f x, x)) (insort_key (\<lambda>x. g (f x)) a ys)" for ys
      by (induction ys) auto
    then show ?case using Cons by simp
  qed simp
  ultimately show ?thesis
    by (simp add: comp_def)
qed

lemma sort_by_aware:
  assumes "\<And>x. x \<in> set xs \<Longrightarrow> k x = Inr (f x) \<and> is_aware (fst (f x))"
  shows "sort_by k xs = Inr (sort_key (\<lambda>x. key_num (f x)) xs)"
proof -
  have "rmap k xs = Inr (map f xs)"
    by (rule rmap_all_Inr) (use assms in auto)
  then show ?thesis
    using assms by (simp add: sort_by_def sort_key_zip_map)
qed

lemma sort_by_perm: "sort_by k xs = Inr ys \<Longrightarrow> mset ys = mset xs"
proof -
  assume a: "sort_by k xs = Inr ys"
  then obtain ks where ks: "rmap k xs = Inr ks"
    and ys: "ys = map snd (sort_key (\<lambda>p. key_num (fst p)) (zip ks xs))"
    by (auto simp: sort_by_def result_simps split: if_splits)
  have "mset ys = mset (map snd (zip ks xs))"
    unfolding ys by (simp only: mset_map mset_sort)
  then show ?thesis
    using rmap_Inr_length [OF ks] by simp
qed

text \<open>Equality of two optional datetimes.\<close>

fun opt_dt_eq :: "datetime option \<Rightarrow> datetime option \<Rightarrow> bool" where
  "opt_dt_eq None None = True"
| "opt_dt_eq (Some a) (Some b) = dt_eq a b"
| "opt_dt_eq _ _ = False"

end
