(* ===== verification/Gold_Catalog.thy ===== *)
theory Gold_Catalog
  imports Py_Time
begin

text \<open>
  \<open>src/application/gold_catalog.py\<close>: the rows of the authoritative Gold catalog and the two
  policies by which a consumer resolves the build it reads.
\<close>

section \<open>Rows\<close>

datatype gold_build_status = BUILDING | COMPLETE | FAILED

fun status_value :: "gold_build_status \<Rightarrow> string" where
  "status_value BUILDING = ''building''"
| "status_value COMPLETE = ''complete''"
| "status_value FAILED = ''failed''"

record gold_record =
  dataset_id :: string
  build_id :: string
  status :: gold_build_status
  current :: bool
  started_at_utc :: datetime
  completed_at_utc :: "datetime option"
  schema_version :: int
  feature_version :: int
  min_timestamp :: "datetime option"
  max_timestamp :: "datetime option"
  row_count :: "int option"
  data_path :: "string option"
  build_manifest_path :: "string option"
  plot_path :: "string option"
  pruned_at_utc :: "datetime option"

definition artifact_paths :: "gold_record \<Rightarrow> string option list" where
  "artifact_paths r = [data_path r, build_manifest_path r, plot_path r]"

definition artifact_paths_complete :: "gold_record \<Rightarrow> bool" where
  "artifact_paths_complete r =
    list_all (\<lambda>v. case v of None \<Rightarrow> False | Some s \<Rightarrow> s \<noteq> []) (artifact_paths r)"

definition selectable_complete :: "gold_record \<Rightarrow> bool" where
  "selectable_complete r \<longleftrightarrow>
    status r = COMPLETE \<and> completed_at_utc r \<noteq> None \<and> pruned_at_utc r = None
      \<and> artifact_paths_complete r"

record gold_compatibility =
  wanted_schema_version :: int
  wanted_feature_version :: int

definition matches :: "gold_compatibility \<Rightarrow> gold_record \<Rightarrow> bool" where
  "matches c r \<longleftrightarrow>
    schema_version r = wanted_schema_version c \<and> feature_version r = wanted_feature_version c"

section \<open>Resolution\<close>

definition single_current :: "gold_record list \<Rightarrow> gold_record option result" where
  "single_current records =
    (let cur = filter current records in
     if length cur > 1 then raise ValueError ''Gold catalog contains multiple current rows''
     else Inr (case cur of [] \<Rightarrow> None | r # _ \<Rightarrow> Some r))"

definition completed_key :: "gold_record \<Rightarrow> (datetime \<times> string) result" where
  "completed_key r =
    (case completed_at_utc r of
      None \<Rightarrow> raise ValueError ''selectable Gold build must have completed_at_utc''
    | Some t \<Rightarrow> Inr (t, build_id r))"

definition strict_current_resolve ::
  "gold_record list \<Rightarrow> gold_compatibility \<Rightarrow> gold_record result" where
  "strict_current_resolve records c =
    rbind (single_current records) (\<lambda>cur.
      case cur of
        None \<Rightarrow> raise LookupError ''Gold catalog has no current row''
      | Some r \<Rightarrow>
          if \<not> selectable_complete r
          then raise LookupError ''Gold current row is not a selectable complete build''
          else if \<not> matches c r then raise LookupError ''Gold current row is not compatible''
          else Inr r)"

definition latest_compatible_resolve ::
  "gold_record list \<Rightarrow> gold_compatibility \<Rightarrow> gold_record result" where
  "latest_compatible_resolve records c =
    rbind (single_current records) (\<lambda>cur.
      let usable = (case cur of None \<Rightarrow> None
                    | Some r \<Rightarrow> if selectable_complete r \<and> matches c r then Some r else None);
          candidates = filter (\<lambda>r. selectable_complete r \<and> matches c r) records
      in case usable of
           Some r \<Rightarrow> Inr r
         | None \<Rightarrow>
             if candidates = []
             then raise LookupError ''Gold catalog has no compatible complete build''
             else max_by completed_key candidates)"

section \<open>Facts\<close>

lemma artifact_paths_complete_iff:
  "artifact_paths_complete r \<longleftrightarrow>
    (\<exists>d m p. data_path r = Some d \<and> build_manifest_path r = Some m \<and> plot_path r = Some p
      \<and> d \<noteq> [] \<and> m \<noteq> [] \<and> p \<noteq> [])"
  by (auto simp: artifact_paths_complete_def artifact_paths_def split: option.splits)

lemma single_current_Inr:
  "single_current rs = Inr c \<longleftrightarrow>
    (filter current rs = [] \<and> c = None) \<or> (\<exists>r. filter current rs = [r] \<and> c = Some r)"
  by (auto simp: single_current_def Let_def length_le_1_iff not_less split: list.splits)

lemma single_current_Inl:
  "single_current rs = Inl e \<longleftrightarrow>
    length (filter current rs) > 1 \<and> e = Exn ValueError ''Gold catalog contains multiple current rows''"
  by (auto simp: single_current_def Let_def raise_def)

lemma strict_current_resolve_Inr:
  "strict_current_resolve rs c = Inr r \<longleftrightarrow>
    filter current rs = [r] \<and> selectable_complete r \<and> matches c r"
  by (auto simp: strict_current_resolve_def result_simps single_current_Inr split: option.splits if_splits)

text \<open>
  C6: the default resolution policy fails closed.  It returns a row exactly when that row is the only current
  row, is a complete unpruned build with all artifact paths, and matches the consumer's schema and
  feature versions; otherwise it raises ValueError (several current rows) or LookupError.
\<close>

theorem strict_current_resolution:
  "case strict_current_resolve rs c of
     Inr r \<Rightarrow> filter current rs = [r] \<and> selectable_complete r \<and> matches c r
   | Inl e \<Rightarrow> exc_class e = (if length (filter current rs) > 1 then ValueError else LookupError)
       \<and> \<not> (\<exists>r. filter current rs = [r] \<and> selectable_complete r \<and> matches c r)"
proof (cases "strict_current_resolve rs c")
  case (Inl e)
  then have "exc_class e = (if length (filter current rs) > 1 then ValueError else LookupError)"
    by (auto simp: strict_current_resolve_def result_simps single_current_Inr single_current_Inl
        raise_def split: option.splits if_splits)
  moreover have "\<not> (\<exists>r. filter current rs = [r] \<and> selectable_complete r \<and> matches c r)"
    using Inl strict_current_resolve_Inr by (metis sum.distinct(1))
  ultimately show ?thesis
    unfolding Inl sum.case by blast
next
  case (Inr r)
  show ?thesis
    unfolding Inr sum.case using Inr [unfolded strict_current_resolve_Inr] .
qed

end
