(* ===== verification/Gold_Catalog_Port.thy ===== *)
theory Gold_Catalog_Port
  imports Gold_Catalog
begin

text \<open>
  The contract of the authoritative catalog: which rows
  \<open>src/ingestion/gold_catalog_repository.py\<close> accepts (\<open>_validate_record\<close> and the checks of \<open>_frame\<close>),
  the form in which it keeps them, and the port \<open>GoldCatalogPort\<close> of
  \<open>src/application/gold_publication.py\<close> as a locale.
\<close>

section \<open>Accepted rows\<close>

definition catalog_times :: "gold_record \<Rightarrow> (string \<times> datetime option) list" where
  "catalog_times r =
    [(''started_at_utc'', Some (started_at_utc r)), (''completed_at_utc'', completed_at_utc r),
     (''min_timestamp'', min_timestamp r), (''max_timestamp'', max_timestamp r),
     (''pruned_at_utc'', pruned_at_utc r)]"

definition opt_less :: "datetime option \<Rightarrow> datetime option \<Rightarrow> bool result" where
  "opt_less a b = (case (a, b) of (Some x, Some y) \<Rightarrow> dt_less x y | _ \<Rightarrow> Inr False)"

definition validate_record :: "gold_record \<Rightarrow> unit result" where
  "validate_record r =
    rbind (rfor (\<lambda>(name, v). raise_if (\<not> opt_all is_aware v) ValueError (name @ '' must be timezone-aware''))
             (catalog_times r)) (\<lambda>_.
    rbind (raise_if (\<not> opt_all (\<lambda>n. 0 \<le> n) (row_count r)) ValueError ''row_count cannot be negative'') (\<lambda>_.
    rbind (opt_less (completed_at_utc r) (Some (started_at_utc r))) (\<lambda>early.
    rbind (raise_if early ValueError ''completed_at_utc cannot precede started_at_utc'') (\<lambda>_.
    rbind (opt_less (max_timestamp r) (min_timestamp r)) (\<lambda>inverted.
    rbind (raise_if inverted ValueError ''max_timestamp cannot precede min_timestamp'') (\<lambda>_.
    rbind (raise_if (list_ex (\<lambda>p. p \<noteq> None) (artifact_paths r) \<and> \<not> list_all (\<lambda>p. p \<noteq> None) (artifact_paths r))
             ValueError ''Gold artifact paths must be all present or all null'') (\<lambda>_.
    rbind (raise_if (current r \<and> status r \<noteq> COMPLETE)
             ValueError ''only a complete Gold build may be current'') (\<lambda>_.
    rbind (raise_if (current r \<and> pruned_at_utc r \<noteq> None)
             ValueError ''a pruned Gold build cannot be current'') (\<lambda>_.
    raise_if (status r = COMPLETE \<and> pruned_at_utc r = None
        \<and> (completed_at_utc r = None \<or> row_count r = None \<or> \<not> artifact_paths_complete r))
      ValueError ''unpruned complete Gold build requires completion metadata and all artifact paths'')))))))))"

text \<open>The three checks \<open>_frame\<close> makes before it builds the table.\<close>

definition check_catalog :: "gold_record list \<Rightarrow> unit result" where
  "check_catalog rs =
    rbind (rfor validate_record rs) (\<lambda>_.
    rbind (raise_if (length (remdups (map build_id rs)) \<noteq> length rs)
             ValueError ''duplicate Gold build_id in catalog'') (\<lambda>_.
    raise_if (length (filter current rs) > 1) ValueError ''Gold catalog contains multiple current rows''))"

text \<open>What the checks establish, as properties of one row and of the catalog.\<close>

definition valid_record :: "gold_record \<Rightarrow> bool" where
  "valid_record r \<longleftrightarrow>
    is_aware (started_at_utc r) \<and> opt_all is_aware (completed_at_utc r)
    \<and> opt_all is_aware (min_timestamp r) \<and> opt_all is_aware (max_timestamp r)
    \<and> opt_all is_aware (pruned_at_utc r)
    \<and> opt_all (\<lambda>n. 0 \<le> n) (row_count r)
    \<and> opt_all (\<lambda>c. dt_num (started_at_utc r) \<le> dt_num c) (completed_at_utc r)
    \<and> opt_all (\<lambda>hi. opt_all (\<lambda>lo. dt_num lo \<le> dt_num hi) (min_timestamp r)) (max_timestamp r)
    \<and> ((data_path r = None \<and> build_manifest_path r = None \<and> plot_path r = None)
       \<or> (data_path r \<noteq> None \<and> build_manifest_path r \<noteq> None \<and> plot_path r \<noteq> None))
    \<and> (current r \<longrightarrow> status r = COMPLETE \<and> pruned_at_utc r = None)
    \<and> (status r = COMPLETE \<and> pruned_at_utc r = None \<longrightarrow>
        completed_at_utc r \<noteq> None \<and> row_count r \<noteq> None \<and> artifact_paths_complete r)"

definition valid_catalog :: "gold_record list \<Rightarrow> bool" where
  "valid_catalog rs \<longleftrightarrow>
    list_all valid_record rs \<and> distinct (map build_id rs) \<and> length (filter current rs) \<le> 1"

section \<open>The form in which rows are kept\<close>

text \<open>All times in UTC; rows ordered by start time and build id.\<close>

definition utc_record :: "gold_record \<Rightarrow> gold_record" where
  "utc_record r = r\<lparr>started_at_utc := astimezone_utc (started_at_utc r),
    completed_at_utc := map_option astimezone_utc (completed_at_utc r),
    min_timestamp := map_option astimezone_utc (min_timestamp r),
    max_timestamp := map_option astimezone_utc (max_timestamp r),
    pruned_at_utc := map_option astimezone_utc (pruned_at_utc r)\<rparr>"

definition is_utc_record :: "gold_record \<Rightarrow> bool" where
  "is_utc_record r \<longleftrightarrow> list_all (\<lambda>(_, v). opt_all is_utc v) (catalog_times r)"

definition start_key :: "gold_record \<Rightarrow> int \<times> string" where
  "start_key r = (dt_num (started_at_utc r), build_id r)"

definition canonical_catalog :: "gold_record list \<Rightarrow> gold_record list" where
  "canonical_catalog rs = sort_key start_key (map utc_record rs)"

section \<open>Facts\<close>

lemma length_remdups_distinct: "length (remdups xs) = length xs \<longleftrightarrow> distinct xs"
  by (metis distinct_remdups length_remdups_card_conv card_distinct distinct_remdups_id)

lemma opt_less_aware:
  "opt_all is_aware a \<Longrightarrow> opt_all is_aware b \<Longrightarrow>
    opt_less a b = Inr (\<not> opt_all (\<lambda>x. opt_all (\<lambda>y. dt_num y \<le> dt_num x) b) a)"
  by (auto simp: opt_less_def dt_less_aware opt_all_def split: option.splits)

lemma artifact_paths_all_or_none:
  "list_ex (\<lambda>p. p \<noteq> None) (artifact_paths r) \<and> \<not> list_all (\<lambda>p. p \<noteq> None) (artifact_paths r) \<longleftrightarrow>
    \<not> ((data_path r = None \<and> build_manifest_path r = None \<and> plot_path r = None)
       \<or> (data_path r \<noteq> None \<and> build_manifest_path r \<noteq> None \<and> plot_path r \<noteq> None))"
  by (auto simp: artifact_paths_def)

lemma catalog_times_aware:
  "rfor (\<lambda>(name, v). raise_if (\<not> opt_all is_aware v) ValueError (name @ m)) (catalog_times r) = Inr u \<longleftrightarrow>
    is_aware (started_at_utc r) \<and> opt_all is_aware (completed_at_utc r)
    \<and> opt_all is_aware (min_timestamp r) \<and> opt_all is_aware (max_timestamp r)
    \<and> opt_all is_aware (pruned_at_utc r)"
  by (simp add: catalog_times_def result_simps)

lemma validate_record_Inr: "validate_record r = Inr u \<longleftrightarrow> valid_record r"
proof (cases "is_aware (started_at_utc r) \<and> opt_all is_aware (completed_at_utc r)
    \<and> opt_all is_aware (min_timestamp r) \<and> opt_all is_aware (max_timestamp r)
    \<and> opt_all is_aware (pruned_at_utc r)")
  case True
  then show ?thesis
    unfolding validate_record_def valid_record_def artifact_paths_all_or_none
    by (simp add: rbind_Inr catalog_times_aware opt_less_aware) (cases "pruned_at_utc r"; auto)
next
  case False
  then show ?thesis
    by (auto simp: validate_record_def valid_record_def rbind_Inr catalog_times_aware)
qed

lemma check_catalog_Inr: "check_catalog rs = Inr u \<longleftrightarrow> valid_catalog rs"
  by (auto simp: check_catalog_def valid_catalog_def result_simps validate_record_Inr list_all_iff
      length_remdups_distinct [of "map build_id rs", simplified])

lemma utc_record_simps [simp]:
  "build_id (utc_record r) = build_id r" "status (utc_record r) = status r"
  "current (utc_record r) = current r" "dataset_id (utc_record r) = dataset_id r"
  "schema_version (utc_record r) = schema_version r" "feature_version (utc_record r) = feature_version r"
  "row_count (utc_record r) = row_count r" "data_path (utc_record r) = data_path r"
  "build_manifest_path (utc_record r) = build_manifest_path r" "plot_path (utc_record r) = plot_path r"
  "pruned_at_utc (utc_record r) = map_option astimezone_utc (pruned_at_utc r)"
  "completed_at_utc (utc_record r) = map_option astimezone_utc (completed_at_utc r)"
  "min_timestamp (utc_record r) = map_option astimezone_utc (min_timestamp r)"
  "max_timestamp (utc_record r) = map_option astimezone_utc (max_timestamp r)"
  "started_at_utc (utc_record r) = astimezone_utc (started_at_utc r)"
  "artifact_paths_complete (utc_record r) = artifact_paths_complete r"
  "selectable_complete (utc_record r) = selectable_complete r"
  "matches c (utc_record r) = matches c r" "start_key (utc_record r) = start_key r"
  by (simp_all add: utc_record_def artifact_paths_complete_def artifact_paths_def
      selectable_complete_def matches_def start_key_def)

lemma is_utc_record_iff:
  "is_utc_record r \<longleftrightarrow> is_utc (started_at_utc r) \<and> opt_all is_utc (completed_at_utc r)
    \<and> opt_all is_utc (min_timestamp r) \<and> opt_all is_utc (max_timestamp r) \<and> opt_all is_utc (pruned_at_utc r)"
  by (auto simp: is_utc_record_def catalog_times_def)

lemma map_option_utc: "opt_all is_utc v \<Longrightarrow> map_option astimezone_utc v = v"
  by (cases v) auto

lemma utc_record_id: "is_utc_record r \<Longrightarrow> utc_record r = r"
  by (cases r) (simp add: utc_record_def is_utc_record_iff map_option_utc)

lemma valid_utc_record [simp]: "valid_record (utc_record r) = valid_record r"
  by (auto simp: valid_record_def opt_all_def split: option.splits)

lemma valid_is_utc_record: "valid_record r \<Longrightarrow> is_utc_record (utc_record r)"
  by (auto simp: valid_record_def is_utc_record_iff opt_all_def split: option.splits)

lemma mset_canonical: "mset (canonical_catalog rs) = mset (map utc_record rs)"
  by (simp add: canonical_catalog_def)

lemma set_canonical: "set (canonical_catalog rs) = utc_record ` set rs"
  by (simp add: canonical_catalog_def)

lemma set_canonical_utc: "list_all is_utc_record rs \<Longrightarrow> set (canonical_catalog rs) = set rs"
  by (simp add: set_canonical list_all_iff utc_record_id)

lemma map_build_id_canonical: "mset (map build_id (canonical_catalog rs)) = mset (map build_id rs)"
  by (simp only: mset_map mset_canonical) (simp add: image_mset.compositionality comp_def)

lemma count_filter_canonical:
  "length (filter P (canonical_catalog rs)) = length (filter (\<lambda>r. P (utc_record r)) rs)"
proof -
  have "length (filter P (canonical_catalog rs)) = size (filter_mset P (mset (canonical_catalog rs)))"
    by (metis mset_filter size_mset)
  also have "\<dots> = length (filter P (map utc_record rs))"
    by (metis mset_canonical mset_filter size_mset)
  finally show ?thesis by (simp add: filter_map_eq)
qed

lemma valid_canonical [simp]: "valid_catalog (canonical_catalog rs) = valid_catalog rs"
proof -
  have "distinct (map build_id (canonical_catalog rs)) = distinct (map build_id rs)"
    by (metis map_build_id_canonical mset_eq_imp_distinct_iff)
  moreover have "length (filter current (canonical_catalog rs)) = length (filter current rs)"
    by (simp add: count_filter_canonical)
  ultimately show ?thesis
    by (simp add: valid_catalog_def list_all_iff set_canonical)
qed

lemma valid_catalog_distinct: "valid_catalog rs \<Longrightarrow> distinct (map build_id rs)"
  by (simp add: valid_catalog_def)

lemma valid_catalog_current: "valid_catalog rs \<Longrightarrow> length (filter current rs) \<le> 1"
  by (simp add: valid_catalog_def)

text \<open>Two valid catalogs with the same set of current rows have the same current row.\<close>

lemma same_current:
  assumes "set (filter current rs) = set (filter current qs)" "valid_catalog rs" "valid_catalog qs"
  shows "filter current rs = filter current qs"
proof -
  have rs: "filter current rs = [] \<or> (\<exists>x. filter current rs = [x])"
    using valid_catalog_current [OF assms(2)] unfolding length_le_1_iff .
  have qs: "filter current qs = [] \<or> (\<exists>x. filter current qs = [x])"
    using valid_catalog_current [OF assms(3)] unfolding length_le_1_iff .
  show ?thesis
    using rs qs assms(1) by (elim disjE exE) (simp_all del: set_filter)
qed

lemma valid_catalog_record: "valid_catalog rs \<Longrightarrow> r \<in> set rs \<Longrightarrow> valid_record r"
  by (simp add: valid_catalog_def list_all_iff)

text \<open>The current row of a valid catalog is a selectable complete build.\<close>

lemma valid_current_selectable: "valid_record r \<Longrightarrow> current r \<Longrightarrow> selectable_complete r"
  by (auto simp: valid_record_def selectable_complete_def)

lemma valid_selectable_iff:
  "valid_record r \<Longrightarrow> selectable_complete r \<longleftrightarrow> status r = COMPLETE \<and> pruned_at_utc r = None"
  by (auto simp: valid_record_def selectable_complete_def)

text \<open>A row a consumer with the given versions may read.\<close>

definition usable :: "gold_compatibility \<Rightarrow> gold_record \<Rightarrow> bool" where
  "usable c r \<longleftrightarrow> selectable_complete r \<and> matches c r"

definition completion_order :: "gold_record \<Rightarrow> int \<times> string" where
  "completion_order r = key_num (the (completed_at_utc r), build_id r)"

lemma completed_key_valid:
  "valid_record r \<Longrightarrow> selectable_complete r \<Longrightarrow>
    completed_key r = Inr (the (completed_at_utc r), build_id r) \<and> is_aware (fst (the (completed_at_utc r), build_id r))"
  by (auto simp: completed_key_def selectable_complete_def valid_record_def)

text \<open>
  C5: the resilience policy falls back to the newest compatible build.  On every valid catalog it fails, with
  LookupError, exactly when no row is a selectable complete build of the wanted versions; otherwise it
  returns such a row: the current one whenever the current row is usable, and else one that no usable row
  follows in the order of completion time and build id.
\<close>

theorem latest_compatible_resolution:
  assumes "valid_catalog rs"
  shows "case latest_compatible_resolve rs c of
      Inl e \<Rightarrow> exc_class e = LookupError \<and> filter (usable c) rs = []
    | Inr r \<Rightarrow> r \<in> set (filter (usable c) rs)
        \<and> (if list_ex (\<lambda>q. current q \<and> usable c q) rs then current r
           else list_all (\<lambda>q. completion_order q \<le> completion_order r) (filter (usable c) rs))"
proof -
  let ?us = "filter (usable c) rs"
  have max: "\<exists>m. max_by completed_key ?us = Inr m \<and> m \<in> set ?us
      \<and> (\<forall>x \<in> set ?us. completion_order x \<le> completion_order m)" if "?us \<noteq> []"
    unfolding completion_order_def
    by (rule max_by_aware [OF _ that])
      (use valid_catalog_record [OF assms] completed_key_valid in \<open>auto simp: usable_def\<close>)
  have us: "filter (\<lambda>r. selectable_complete r \<and> matches c r) rs = ?us"
    by (simp add: usable_def [abs_def])
  consider "filter current rs = []" | q where "filter current rs = [q]"
    using valid_catalog_current [OF assms] unfolding length_le_1_iff by blast
  then show ?thesis
  proof cases
    case 1
    then have "\<not> list_ex (\<lambda>q. current q \<and> usable c q) rs"
      by (auto simp: filter_empty_conv list_ex_iff)
    then show ?thesis
      using max 1 unfolding latest_compatible_resolve_def us single_current_def
      by (cases "?us = []") (auto simp: raise_def list_all_iff)
  next
    case (2 q)
    have q: "q \<in> set rs" "current q" 
      using arg_cong [OF 2, of set] by auto
    have only: "x = q" if "x \<in> set rs" "current x" for x
      using filter_single_mem [OF 2 that] .
    show ?thesis
    proof (cases "usable c q")
      case True
      then have "latest_compatible_resolve rs c = Inr q"
        using 2 by (simp add: latest_compatible_resolve_def single_current_def usable_def)
      with True q show ?thesis by (auto simp: list_ex_iff)
    next
      case False
      then have none: "\<not> list_ex (\<lambda>q. current q \<and> usable c q) rs"
        using only by (auto simp: list_ex_iff)
      show ?thesis
        using max 2 none False unfolding latest_compatible_resolve_def us single_current_def
        by (cases "?us = []") (auto simp: raise_def list_all_iff usable_def)
    qed
  qed
qed

section \<open>The port\<close>

text \<open>
  \<open>view w\<close> is the catalog the world \<open>w\<close> holds, \<open>None\<close> when what is stored cannot be read as a
  catalog.  Reading never changes it.  A successful replacement stores the accepted rows; a failing
  one leaves the old catalog or, when the failure comes after the rename, the new one.
\<close>

locale gold_catalog_port =
  fixes view :: "'w \<Rightarrow> gold_record list option"
    and cat_read :: "('w, gold_record list) io"
    and cat_replace :: "gold_record list \<Rightarrow> ('w, unit) io"
  assumes view_valid: "view w = Some rs \<Longrightarrow> valid_catalog rs \<and> list_all is_utc_record rs"
    and read_preserves: "preserves view cat_read"
    and read_view: "cat_read w = (Inr rs, w') \<Longrightarrow> view w = Some rs"
    and replace_Inr:
      "cat_replace rs w = (Inr u, w') \<Longrightarrow> valid_catalog rs \<and> view w' = Some (canonical_catalog rs)"
    and replace_Inl:
      "cat_replace rs w = (Inl e, w') \<Longrightarrow>
        view w' = view w \<or> (valid_catalog rs \<and> view w' = Some (canonical_catalog rs))"
begin

lemma read_utc: "cat_read w = (Inr rs, w') \<Longrightarrow> map utc_record rs = rs"
  using view_valid [OF read_view] by (simp add: list_all_iff map_idI utc_record_id)

lemma read_after:
  assumes "cat_read w = (r, w')" shows "view w' = view w"
  using preservesD [OF read_preserves assms] .

lemma replace_cases:
  assumes "cat_replace rs w = (r, w')"
  shows "view w' = view w \<or> (valid_catalog rs \<and> view w' = Some (canonical_catalog rs))"
  using assms by (cases r) (auto dest: replace_Inr replace_Inl)

end

text \<open>A port that also makes progress: in a world where nothing fails, storable rows are stored.\<close>

locale gold_catalog_port_live = gold_catalog_port +
  fixes quiet :: "'a \<Rightarrow> bool"
    and storable :: "gold_record list \<Rightarrow> bool"
  assumes read_live: "quiet w \<Longrightarrow> view w = Some rs \<Longrightarrow> \<exists>w'. cat_read w = (Inr rs, w') \<and> quiet w'"
    and replace_live:
      "quiet w \<Longrightarrow> valid_catalog rs \<Longrightarrow> storable rs \<Longrightarrow> \<exists>w'. cat_replace rs w = (Inr (), w') \<and> quiet w'"

end
