(* ===== verification/Frame.thy ===== *)
theory Frame
  imports Py_Time "HOL-Library.Word"
begin

text \<open>
  Tables as the program sees them through the third-party package polars.  A frame is its schema
  (column names and types in order) and its rows of cells.  Building a frame from Python
  dictionaries and sorting it are operations of the package: they are the fields of the parameter
  \<open>polars\<close>, and the locale \<open>polars_frames\<close> states the documented behaviour the program relies
  on.  \<open>reference_polars\<close> is a list-based instance of it.  Doubles are their IEEE bits; no sort
  key of the program is a float column.
\<close>

text \<open>A double is its 64 bits.\<close>

type_synonym f64 = "64 word"

datatype dtype = DString | DBoolean | DInt64 | DFloat64 | DDate | DDatetimeUtc | DOther string

datatype cell =
    CNull | CStr string | CBool bool | CInt int | CFloat f64 | CDate int | CDatetime int

text \<open>Python values that enter a frame.\<close>

datatype pyval =
    PNone | PStr string | PBool bool | PInt int | PFloat f64 | PDate int | PDatetime datetime

type_synonym schema = "(string \<times> dtype) list"

record frame =
  f_schema :: schema
  f_rows :: "cell list list"

definition f_columns :: "frame \<Rightarrow> string list" where
  "f_columns f = map fst (f_schema f)"

definition f_height :: "frame \<Rightarrow> nat" where
  "f_height f = length (f_rows f)"

definition is_empty_frame :: "frame \<Rightarrow> bool" where
  "is_empty_frame f \<longleftrightarrow> f_height f = 0"

text \<open>\<open>row[name]\<close> of \<open>iter_rows(named=True)\<close>\<close>

definition row_get :: "schema \<Rightarrow> cell list \<Rightarrow> string \<Rightarrow> cell result" where
  "row_get s row name =
    (case map_of (zip (map fst s) row) name of None \<Rightarrow> raise KeyError name | Some c \<Rightarrow> Inr c)"

definition fits_int64 :: "int \<Rightarrow> bool" where
  "fits_int64 i \<longleftrightarrow> - (2 ^ 63) \<le> i \<and> i < 2 ^ 63"

text \<open>The cell a Python value becomes in a column of the given type, when it fits the type.\<close>

fun encode_cell :: "dtype \<Rightarrow> pyval \<Rightarrow> cell option" where
  "encode_cell _ PNone = Some CNull"
| "encode_cell DString (PStr s) = Some (CStr s)"
| "encode_cell DBoolean (PBool b) = Some (CBool b)"
| "encode_cell DInt64 (PInt i) = (if fits_int64 i then Some (CInt i) else None)"
| "encode_cell DFloat64 (PFloat x) = Some (CFloat x)"
| "encode_cell DDate (PDate d) = Some (CDate d)"
| "encode_cell DDatetimeUtc (PDatetime (Aware t _)) = (if fits_int64 t then Some (CDatetime t) else None)"
| "encode_cell _ _ = None"

fun decode_cell :: "cell \<Rightarrow> pyval" where
  "decode_cell CNull = PNone"
| "decode_cell (CStr s) = PStr s"
| "decode_cell (CBool b) = PBool b"
| "decode_cell (CInt i) = PInt i"
| "decode_cell (CFloat x) = PFloat x"
| "decode_cell (CDate d) = PDate d"
| "decode_cell (CDatetime t) = PDatetime (Aware t 0)"

text \<open>One row: the value of each column of the schema, null where the dictionary has no such key.\<close>

fun encode_row :: "schema \<Rightarrow> (string \<times> pyval) list \<Rightarrow> cell list option" where
  "encode_row [] d = Some []"
| "encode_row ((n, t) # s) d =
    (case encode_cell t (case map_of d n of None \<Rightarrow> PNone | Some v \<Rightarrow> v) of
      None \<Rightarrow> None
    | Some c \<Rightarrow> (case encode_row s d of None \<Rightarrow> None | Some cs \<Rightarrow> Some (c # cs)))"

fun encode_rows :: "schema \<Rightarrow> (string \<times> pyval) list list \<Rightarrow> cell list list option" where
  "encode_rows s [] = Some []"
| "encode_rows s (d # ds) =
    (case encode_row s d of
      None \<Rightarrow> None
    | Some r \<Rightarrow> (case encode_rows s ds of None \<Rightarrow> None | Some rs \<Rightarrow> Some (r # rs)))"

text \<open>The order of cells of one column: nulls first.\<close>

fun cell_key :: "cell \<Rightarrow> nat \<times> int \<times> string" where
  "cell_key CNull = (0, 0, [])"
| "cell_key (CStr s) = (1, 0, s)"
| "cell_key (CBool b) = (1, if b then 1 else 0, [])"
| "cell_key (CInt i) = (1, i, [])"
| "cell_key (CFloat x) = (1, uint x, [])"
| "cell_key (CDate d) = (1, d, [])"
| "cell_key (CDatetime t) = (1, t, [])"

definition row_key :: "schema \<Rightarrow> string list \<Rightarrow> cell list \<Rightarrow> (nat \<times> int \<times> string) list" where
  "row_key s cols row =
    map (\<lambda>c. case map_of (zip (map fst s) row) c of None \<Rightarrow> (0, 0, []) | Some x \<Rightarrow> cell_key x) cols"

record polars =
  pl_dataframe :: "(string \<times> pyval) list list \<Rightarrow> schema \<Rightarrow> frame result"
  pl_sort :: "string list \<Rightarrow> frame \<Rightarrow> frame result"

text \<open>
  \<open>pl.DataFrame(rows, schema=s)\<close> is strict: it raises when a value does not fit its column.
  \<open>frame.sort(cols)\<close> permutes the rows into ascending order of the key columns, nulls first, and
  raises when a column is missing.
\<close>

locale polars_frames =
  fixes pl :: polars
  assumes dataframe_fits:
    "encode_rows s ds = Some rows \<Longrightarrow> pl_dataframe pl ds s = Inr \<lparr>f_schema = s, f_rows = rows\<rparr>"
    and dataframe_strict: "encode_rows s ds = None \<Longrightarrow> \<exists>m. pl_dataframe pl ds s = Inl (Exn PolarsError m)"
    and sort_total: "set cols \<subseteq> set (f_columns f) \<Longrightarrow> \<exists>g. pl_sort pl cols f = Inr g"
    and sort_schema: "pl_sort pl cols f = Inr g \<Longrightarrow> f_schema g = f_schema f"
    and sort_perm: "pl_sort pl cols f = Inr g \<Longrightarrow> mset (f_rows g) = mset (f_rows f)"
    and sort_sorted:
      "pl_sort pl cols f = Inr g \<Longrightarrow> sorted (map (row_key (f_schema f) cols) (f_rows g))"

definition reference_polars :: polars where
  "reference_polars =
    \<lparr>pl_dataframe = (\<lambda>ds s. case encode_rows s ds of
        None \<Rightarrow> raise PolarsError ''unexpected value while building Series''
      | Some rows \<Rightarrow> Inr \<lparr>f_schema = s, f_rows = rows\<rparr>),
     pl_sort = (\<lambda>cols f.
        if list_all (\<lambda>c. c \<in> set (f_columns f)) cols
        then Inr (f\<lparr>f_rows := sort_key (row_key (f_schema f) cols) (f_rows f)\<rparr>)
        else raise PolarsError ''column not found'')\<rparr>"

interpretation ref_polars: polars_frames reference_polars
  by unfold_locales
    (auto simp: reference_polars_def raise_def list_all_iff f_columns_def split: option.splits if_splits)

section \<open>Facts\<close>

lemma encode_rows_append:
  "encode_rows s (ds @ es) =
    (case encode_rows s ds of None \<Rightarrow> None
     | Some rs \<Rightarrow> (case encode_rows s es of None \<Rightarrow> None | Some qs \<Rightarrow> Some (rs @ qs)))"
  by (induction ds) (auto split: option.splits)

lemma encode_rows_map:
  "(\<And>x. x \<in> set xs \<Longrightarrow> encode_row s (f x) = Some (g x)) \<Longrightarrow> encode_rows s (map f xs) = Some (map g xs)"
  by (induction xs) auto

lemma encode_rows_mapD:
  "encode_rows s (map f xs) = Some rows \<Longrightarrow>
    list_all2 (\<lambda>x row. encode_row s (f x) = Some row) xs rows"
  by (induction xs arbitrary: rows) (auto split: option.splits)

lemma encode_cell_decode:
  "encode_cell t v = Some c \<Longrightarrow> decode_cell c = (case v of PDatetime d \<Rightarrow> PDatetime (astimezone_utc d) | _ \<Rightarrow> v)"
  by (cases "(t, v)" rule: encode_cell.cases) (auto split: if_splits)

end
