(* ===== verification/Py_Float.thy ===== *)
theory Py_Float
  imports Frame
begin

unbundle bit_operations_syntax

text \<open>
  Python's \<open>float\<close> is an IEEE double, kept as its 64 bits: one sign bit, 11 bits of exponent, 52 bits
  of fraction.  The program only classifies doubles, compares them for equality and writes their
  bytes, so no arithmetic is modelled.  The byte order of \<open>struct.pack\<close> and \<open>int.from_bytes\<close> is here
  too.
\<close>

definition f64_exponent :: "f64 \<Rightarrow> 64 word" where
  "f64_exponent x = drop_bit 52 x AND 2047"

text \<open>\<open>math.isfinite(x)\<close>\<close>

definition f64_finite :: "f64 \<Rightarrow> bool" where
  "f64_finite x \<longleftrightarrow> f64_exponent x \<noteq> 2047"

definition f64_nan :: "f64 \<Rightarrow> bool" where
  "f64_nan x \<longleftrightarrow> \<not> f64_finite x \<and> x AND 4503599627370495 \<noteq> 0"

text \<open>\<open>x == 0.0\<close> holds of both zeros.\<close>

definition f64_zero :: "f64 \<Rightarrow> bool" where
  "f64_zero x \<longleftrightarrow> x = 0 \<or> x = 9223372036854775808"

text \<open>\<open>x == y\<close>\<close>

definition f64_eq :: "f64 \<Rightarrow> f64 \<Rightarrow> bool" where
  "f64_eq x y \<longleftrightarrow> \<not> f64_nan x \<and> \<not> f64_nan y \<and> (x = y \<or> f64_zero x \<and> f64_zero y)"

text \<open>Equality of values that are a float or \<open>None\<close>.\<close>

fun opt_f64_eq :: "f64 option \<Rightarrow> f64 option \<Rightarrow> bool" where
  "opt_f64_eq None None = True"
| "opt_f64_eq (Some x) (Some y) = f64_eq x y"
| "opt_f64_eq _ _ = False"

lemma f64_zero_finite: "f64_zero x \<Longrightarrow> f64_finite x"
  by (auto simp: f64_zero_def f64_finite_def f64_exponent_def)

lemma f64_finite_not_nan: "f64_finite x \<Longrightarrow> \<not> f64_nan x"
  by (simp add: f64_nan_def)

lemma f64_eq_refl: "f64_finite x \<Longrightarrow> f64_eq x x"
  by (simp add: f64_eq_def f64_nan_def)

section \<open>Bytes\<close>

text \<open>The big-endian bytes of a 64-bit word (\<open>struct.pack(">q", i)\<close>, \<open>struct.pack(">d", x)\<close>).\<close>

type_synonym byte = "8 word"

definition be_bytes :: "64 word \<Rightarrow> byte list" where
  "be_bytes x = map (\<lambda>i. ucast (drop_bit (8 * i) x)) [7, 6, 5, 4, 3, 2, 1, 0]"

fun of_be_bytes :: "byte list \<Rightarrow> nat" where
  "of_be_bytes bs = foldl (\<lambda>n b. n * 256 + unat b) 0 bs"

text \<open>\<open>struct.pack(">q", i)\<close> raises \<open>struct.error\<close> outside the range of a signed 64-bit integer.\<close>

definition pack_q :: "int \<Rightarrow> byte list result" where
  "pack_q i =
    (if fits_int64 i then Inr (be_bytes (word_of_int i))
     else raise StructError ''int too large to convert'')"

definition ascii_bytes :: "string \<Rightarrow> byte list" where
  "ascii_bytes s = map (\<lambda>c. word_of_nat (of_char c)) s"

lemma be_bytes_length [simp]: "length (be_bytes x) = 8"
  by (simp add: be_bytes_def)

lemma be_bytes_inject [simp]: "be_bytes x = be_bytes y \<longleftrightarrow> x = y"
proof
  assume eq: "be_bytes x = be_bytes y"
  have ucasts: "ucast (drop_bit (8 * i) x) = (ucast (drop_bit (8 * i) y) :: byte)" if "i < 8" for i
  proof -
    have "i \<in> {0, 1, 2, 3, 4, 5, 6, 7}"
      using that by auto
    then show ?thesis
      using eq by (auto simp: be_bytes_def)
  qed
  show "x = y"
  proof (rule bit_eqI)
    fix n :: nat
    assume "possible_bit TYPE(64 word) n"
    then have n: "n div 8 < 8"
      by simp
    have "bit (ucast (drop_bit (8 * (n div 8)) z) :: byte) (n mod 8) = bit z n" for z :: "64 word"
      by (simp add: bit_ucast_iff bit_drop_bit_eq)
    then show "bit x n = bit y n"
      using ucasts [OF n] by metis
  qed
qed simp

lemma word_of_int64_inject:
  assumes "fits_int64 i" "fits_int64 j" "(word_of_int i :: 64 word) = word_of_int j"
  shows "i = j"
proof -
  have "sint (word_of_int k :: 64 word) = k" if "fits_int64 k" for k
    using that by (simp add: fits_int64_def sint_sbintrunc' signed_take_bit_int_eq_self)
  then show ?thesis
    using assms by metis
qed

lemma pack_q_inject: "pack_q i = Inr bs \<Longrightarrow> pack_q j = Inr bs \<Longrightarrow> i = j"
  by (auto simp: pack_q_def word_of_int64_inject split: if_splits)

lemma pack_q_length: "pack_q i = Inr bs \<Longrightarrow> length bs = 8"
  by (auto simp: pack_q_def split: if_splits)

end
