(* ===== verification/Py_Text.thy ===== *)
theory Py_Text
  imports Py_Time
begin

text \<open>
  Texts the program builds: decimal numbers, zero padding, the civil calendar behind \<open>date.year\<close>,
  \<open>strftime\<close> and \<open>isoformat\<close>, and the whitespace \<open>str.strip\<close> removes.  Characters are the first 256
  code points.
\<close>

definition digit_char :: "nat \<Rightarrow> char" where
  "digit_char n = ''0123456789'' ! n"

fun string_of_nat :: "nat \<Rightarrow> string" where
  "string_of_nat n = (if n < 10 then [digit_char n] else string_of_nat (n div 10) @ [digit_char (n mod 10)])"

declare string_of_nat.simps [simp del]

definition string_of_int :: "int \<Rightarrow> string" where
  "string_of_int i = (if i < 0 then CHR ''-'' # string_of_nat (nat (- i)) else string_of_nat (nat i))"

text \<open>\<open>f"{n:0<w>d}"\<close> for a number that is not negative\<close>

definition zero_pad :: "nat \<Rightarrow> string \<Rightarrow> string" where
  "zero_pad w s = replicate (w - length s) (CHR ''0'') @ s"

definition pad_int :: "nat \<Rightarrow> int \<Rightarrow> string" where
  "pad_int w i = zero_pad w (string_of_int i)"

definition is_digit :: "char \<Rightarrow> bool" where
  "is_digit c \<longleftrightarrow> c \<in> set ''0123456789''"

definition is_space :: "char \<Rightarrow> bool" where
  "is_space c \<longleftrightarrow> (of_char c :: nat) \<in> {9, 10, 11, 12, 13, 28, 29, 30, 31, 32, 133, 160}"

text \<open>\<open>not s.strip()\<close>\<close>

definition is_blank :: "string \<Rightarrow> bool" where
  "is_blank s \<longleftrightarrow> list_all is_space s"

section \<open>The calendar\<close>

text \<open>
  Year, month and day of a number of days since 1970-01-01, in the proleptic Gregorian calendar:
  count 400-year eras from 0000-03-01, then years, then months of the year that starts in March.
\<close>

definition civil_of_days :: "int \<Rightarrow> int \<times> int \<times> int" where
  "civil_of_days days =
    (let z = days + 719468;
         era = z div 146097;
         doe = z mod 146097;
         yoe = (doe - doe div 1460 + doe div 36524 - doe div 146096) div 365;
         doy = doe - (365 * yoe + yoe div 4 - yoe div 100);
         mp = (5 * doy + 2) div 153;
         d = doy - (153 * mp + 2) div 5 + 1;
         m = (if mp < 10 then mp + 3 else mp - 9);
         y = yoe + era * 400
     in (if m \<le> 2 then y + 1 else y, m, d))"

text \<open>The ordinal of 1970-01-01 is 719163.\<close>

definition civil_of_date :: "int \<Rightarrow> int \<times> int \<times> int" where
  "civil_of_date ordinal = civil_of_days (ordinal - 719163)"

definition date_year :: "int \<Rightarrow> int" where
  "date_year ordinal = fst (civil_of_date ordinal)"

definition date_month :: "int \<Rightarrow> int" where
  "date_month ordinal = fst (snd (civil_of_date ordinal))"

definition us_per_day :: int where
  "us_per_day = 86400000000"

text \<open>Hour, minute, second and microsecond of a number of microseconds since midnight.\<close>

definition clock_of_us :: "int \<Rightarrow> int \<times> int \<times> int \<times> int" where
  "clock_of_us t =
    (t div 3600000000, t div 60000000 mod 60, t div 1000000 mod 60, t mod 1000000)"

text \<open>\<open>isoformat(timespec="microseconds")\<close> of an instant in UTC, with the suffix \<open>Z\<close>\<close>

definition iso_utc_z :: "int \<Rightarrow> string" where
  "iso_utc_z t =
    (case civil_of_days (t div us_per_day) of (y, mo, d) \<Rightarrow>
     case clock_of_us (t mod us_per_day) of (h, mi, s, us) \<Rightarrow>
       pad_int 4 y @ ''-'' @ pad_int 2 mo @ ''-'' @ pad_int 2 d @ ''T'' @ pad_int 2 h @ '':''
         @ pad_int 2 mi @ '':'' @ pad_int 2 s @ ''.'' @ pad_int 6 us @ ''Z'')"

text \<open>\<open>date.isoformat()\<close>\<close>

definition date_iso :: "int \<Rightarrow> string" where
  "date_iso d =
    (case civil_of_date d of (y, m, dd) \<Rightarrow> pad_int 4 y @ ''-'' @ pad_int 2 m @ ''-'' @ pad_int 2 dd)"

text \<open>The numbers a digit and a text of decimal digits stand for.\<close>

definition digit_value :: "char \<Rightarrow> int" where
  "digit_value c = int (of_char c) - 48"

definition decimal_value :: "string \<Rightarrow> int" where
  "decimal_value s = foldl (\<lambda>n c. 10 * n + digit_value c) 0 s"

lemma digit_value_char: "n < 10 \<Longrightarrow> is_digit (digit_char n) \<and> digit_value (digit_char n) = int n"
proof -
  assume "n < 10"
  then have "n \<in> {0, 1, 2, 3, 4, 5, 6, 7, 8, 9}"
    by auto
  then show ?thesis
    by (auto simp: digit_char_def is_digit_def digit_value_def)
qed

lemma string_of_nat_digits:
  "list_all is_digit (string_of_nat n) \<and> string_of_nat n \<noteq> []
    \<and> foldl (\<lambda>a c. 10 * a + digit_value c) 0 (string_of_nat n) = int n"
proof (induction n rule: string_of_nat.induct)
  case (1 n)
  show ?case
  proof (cases "n < 10")
    case True
    then show ?thesis
      using digit_value_char by (simp add: string_of_nat.simps [of n])
  next
    case False
    have "10 * int (n div 10) + int (n mod 10) = int n"
      by presburger
    then show ?thesis
      using 1 False digit_value_char [of "n mod 10"] by (simp add: string_of_nat.simps [of n])
  qed
qed

end
