(* ===== verification/Polars_Ops.thy ===== *)
theory Polars_Ops
  imports Py_Float Py_Text
begin

text \<open>
  The column expressions and joins of polars that the Silver and Gold transformations use.  As for
  building and sorting frames, the package is a parameter (\<open>polars_ops\<close>) and the locale
  \<open>polars_expressions\<close> states the documented behaviour the program relies on; \<open>reference_polars_ops\<close>
  is a list-based instance.
\<close>

section \<open>Well-formed frames and their columns\<close>

fun cell_fits :: "dtype \<Rightarrow> cell \<Rightarrow> bool" where
  "cell_fits _ CNull = True"
| "cell_fits DString (CStr _) = True"
| "cell_fits DBoolean (CBool _) = True"
| "cell_fits DInt64 (CInt _) = True"
| "cell_fits DFloat64 (CFloat _) = True"
| "cell_fits DDate (CDate _) = True"
| "cell_fits DDatetimeUtc (CDatetime _) = True"
| "cell_fits (DOther _) _ = True"
| "cell_fits _ _ = False"

definition row_fits :: "schema \<Rightarrow> cell list \<Rightarrow> bool" where
  "row_fits s row \<longleftrightarrow> list_all2 (\<lambda>p c. cell_fits (snd p) c) s row"

definition wf_frame :: "frame \<Rightarrow> bool" where
  "wf_frame f \<longleftrightarrow> distinct (f_columns f) \<and> list_all (row_fits (f_schema f)) (f_rows f)"

definition row_cell :: "schema \<Rightarrow> cell list \<Rightarrow> string \<Rightarrow> cell" where
  "row_cell s row name = (case map_of (zip (map fst s) row) name of None \<Rightarrow> CNull | Some c \<Rightarrow> c)"

text \<open>\<open>frame.get_column(name)\<close> and \<open>frame.schema[name]\<close>; a missing column raises.\<close>

definition column_cells :: "frame \<Rightarrow> string \<Rightarrow> cell list" where
  "column_cells f name = map (\<lambda>row. row_cell (f_schema f) row name) (f_rows f)"

definition get_column :: "frame \<Rightarrow> string \<Rightarrow> cell list result" where
  "get_column f name =
    (if name \<in> set (f_columns f) then Inr (column_cells f name) else raise PolarsError name)"

definition schema_type :: "frame \<Rightarrow> string \<Rightarrow> dtype result" where
  "schema_type f name =
    (case map_of (f_schema f) name of None \<Rightarrow> raise KeyError name | Some t \<Rightarrow> Inr t)"

text \<open>\<open>column.is_finite().all()\<close> ignores nulls.\<close>

fun cell_finite :: "cell \<Rightarrow> bool" where
  "cell_finite (CFloat x) = f64_finite x"
| "cell_finite _ = True"

lemma row_cell_simps [simp]:
  "row_cell ((n, t) # s) (c # cs) m = (if m = n then c else row_cell s cs m)"
  "row_cell s [] m = CNull" "row_cell [] r m = CNull"
  by (auto simp: row_cell_def)

lemma row_fits_simps [simp]:
  "row_fits [] r \<longleftrightarrow> r = []" "row_fits (p # s) [] \<longleftrightarrow> False"
  "row_fits (p # s) (c # cs) \<longleftrightarrow> cell_fits (snd p) c \<and> row_fits s cs"
  by (auto simp: row_fits_def)

lemma row_fits_cell: "row_fits s row \<Longrightarrow> map_of s n = Some t \<Longrightarrow> cell_fits t (row_cell s row n)"
  by (induction s arbitrary: row) (auto simp: row_fits_def list_all2_Cons1)

lemma row_cell_missing: "n \<notin> set (map fst s) \<Longrightarrow> row_cell s row n = CNull"
proof -
  assume "n \<notin> set (map fst s)"
  then have "map_of (zip (map fst s) row) n = None"
    by (metis map_of_SomeD not_None_eq set_zip_leftD)
  then show ?thesis
    by (simp add: row_cell_def)
qed

lemma row_cell_map:
  "n \<in> set (map fst s) \<Longrightarrow> row_cell s (map (\<lambda>p. g (fst p)) s) n = g n"
proof (induction s)
  case (Cons p s) then show ?case by (cases p) auto
qed simp

lemma row_fits_map:
  "(\<And>n t. (n, t) \<in> set s \<Longrightarrow> cell_fits t (g n)) \<Longrightarrow> row_fits s (map (\<lambda>p. g (fst p)) s)"
  by (induction s) auto

section \<open>Expressions and joins\<close>

text \<open>
  \<open>pl.col(c)\<close>; \<open>pl.col(c).cast(pl.Float64, strict=False)\<close>; \<open>pl.lit(x)\<close>;
  \<open>pl.col(c).cast(pl.Datetime("us")).dt.replace_time_zone("UTC")\<close> of a Date column;
  \<open>pl.col(c).fill_nan(None)\<close>.
\<close>

datatype pl_expr = PlCol string | PlFloat string | PlLit cell dtype | PlUtcMidnight string | PlFillNan string

fun expr_columns :: "pl_expr \<Rightarrow> string list" where
  "expr_columns (PlLit _ _) = []"
| "expr_columns (PlCol c) = [c]"
| "expr_columns (PlFloat c) = [c]"
| "expr_columns (PlUtcMidnight c) = [c]"
| "expr_columns (PlFillNan c) = [c]"

fun expr_type :: "schema \<Rightarrow> pl_expr \<Rightarrow> dtype option" where
  "expr_type s (PlCol c) = map_of s c"
| "expr_type s (PlFloat c) = (if map_of s c = None then None else Some DFloat64)"
| "expr_type s (PlLit x t) = Some t"
| "expr_type s (PlUtcMidnight c) = (if map_of s c = Some DDate then Some DDatetimeUtc else None)"
| "expr_type s (PlFillNan c) = (if map_of s c = Some DFloat64 then Some DFloat64 else None)"

text \<open>The instant of the midnight in UTC that starts a date.\<close>

definition utc_midnight :: "int \<Rightarrow> int" where
  "utc_midnight d = (d - 719163) * us_per_day"

fun midnight_cell :: "cell \<Rightarrow> cell" where
  "midnight_cell (CDate d) = CDatetime (utc_midnight d)"
| "midnight_cell _ = CNull"

fun fill_nan_cell :: "cell \<Rightarrow> cell" where
  "fill_nan_cell (CFloat x) = (if f64_nan x then CNull else CFloat x)"
| "fill_nan_cell c = c"

fun expr_cell :: "(cell \<Rightarrow> cell) \<Rightarrow> schema \<Rightarrow> cell list \<Rightarrow> pl_expr \<Rightarrow> cell" where
  "expr_cell cast s row (PlCol c) = row_cell s row c"
| "expr_cell cast s row (PlFloat c) = cast (row_cell s row c)"
| "expr_cell cast s row (PlLit x t) = x"
| "expr_cell cast s row (PlUtcMidnight c) = midnight_cell (row_cell s row c)"
| "expr_cell cast s row (PlFillNan c) = fill_nan_cell (row_cell s row c)"

definition select_schema :: "schema \<Rightarrow> (string \<times> pl_expr) list \<Rightarrow> schema" where
  "select_schema s es = map (\<lambda>(n, e). (n, the (expr_type s e))) es"

definition select_rows :: "(cell \<Rightarrow> cell) \<Rightarrow> frame \<Rightarrow> (string \<times> pl_expr) list \<Rightarrow> frame" where
  "select_rows cast f es = \<lparr>f_schema = select_schema (f_schema f) es,
    f_rows = map (\<lambda>row. map (\<lambda>p. expr_cell cast (f_schema f) row (snd p)) es) (f_rows f)\<rparr>"

text \<open>The cell of a column in the row whose key is \<open>k\<close>; null where there is no such row.\<close>

definition cell_at :: "string \<Rightarrow> frame \<Rightarrow> cell \<Rightarrow> string \<Rightarrow> cell" where
  "cell_at key f k c =
    (case find (\<lambda>row. row_cell (f_schema f) row key = k) (f_rows f) of
      None \<Rightarrow> CNull
    | Some row \<Rightarrow> row_cell (f_schema f) row c)"

text \<open>A frame whose rows are identified by the non-null cells of one column.\<close>

definition keyed :: "string \<Rightarrow> frame \<Rightarrow> bool" where
  "keyed key f \<longleftrightarrow> wf_frame f \<and> key \<in> set (f_columns f) \<and> CNull \<notin> set (column_cells f key)
    \<and> distinct (column_cells f key)"

definition join_schema :: "string \<Rightarrow> schema \<Rightarrow> schema \<Rightarrow> schema" where
  "join_schema key s t = s @ filter (\<lambda>p. fst p \<noteq> key) t"

text \<open>\<open>f.join(g, on=key, how="full", coalesce=True)\<close>\<close>

definition is_full_join :: "string \<Rightarrow> frame \<Rightarrow> frame \<Rightarrow> frame \<Rightarrow> bool" where
  "is_full_join key f g h \<longleftrightarrow>
    f_schema h = join_schema key (f_schema f) (f_schema g) \<and> keyed key h
    \<and> set (column_cells h key) = set (column_cells f key) \<union> set (column_cells g key)
    \<and> (\<forall>k \<in> set (column_cells h key). \<forall>c. c \<noteq> key \<longrightarrow>
        (c \<in> set (f_columns f) \<longrightarrow> cell_at key h k c = cell_at key f k c)
        \<and> (c \<in> set (f_columns g) \<longrightarrow> cell_at key h k c = cell_at key g k c))"

record polars_ops =
  pl_cast_float :: "cell \<Rightarrow> cell"
  pl_select :: "(string \<times> pl_expr) list \<Rightarrow> frame \<Rightarrow> frame result"
  pl_full_join :: "string \<Rightarrow> frame \<Rightarrow> frame \<Rightarrow> frame result"

locale polars_expressions =
  fixes ops :: polars_ops
  assumes cast_float_null [simp]: "pl_cast_float ops CNull = CNull"
    and cast_float_id [simp]: "pl_cast_float ops (CFloat v) = CFloat v"
    and cast_float_fits: "cell_fits DFloat64 (pl_cast_float ops x)"
    and select_ok:
      "distinct (map fst es) \<Longrightarrow> list_all (\<lambda>p. expr_type (f_schema f) (snd p) \<noteq> None) es \<Longrightarrow>
       concat (map (\<lambda>p. expr_columns (snd p)) es) \<noteq> [] \<Longrightarrow>
       pl_select ops es f = Inr (select_rows (pl_cast_float ops) f es)"
    and select_missing:
      "p \<in> set es \<Longrightarrow> c \<in> set (expr_columns (snd p)) \<Longrightarrow> c \<notin> set (f_columns f) \<Longrightarrow>
       \<exists>m. pl_select ops es f = Inl (Exn PolarsError m)"
    and full_join_ok:
      "keyed key f \<Longrightarrow> keyed key g \<Longrightarrow> map_of (f_schema f) key = map_of (f_schema g) key \<Longrightarrow>
       set (f_columns f) \<inter> set (f_columns g) = {key} \<Longrightarrow>
       \<exists>h. pl_full_join ops key f g = Inr h \<and> is_full_join key f g h"

section \<open>Sorting by one column\<close>

lemma row_key_single: "row_key s [n] row = [cell_key (row_cell s row n)]"
  by (simp add: row_key_def row_cell_def split: option.split)

lemma single_le_single: "[a] \<le> [b :: 'a :: order] \<longleftrightarrow> a \<le> b"
  by (simp add: order_le_less)

context polars_frames
begin

lemma sort_single_sorted:
  assumes "pl_sort pl [n] f = Inr g"
  shows "sorted (map cell_key (column_cells g n))"
  using sort_sorted [OF assms] sort_schema [OF assms]
  by (simp add: column_cells_def sorted_wrt_map comp_def row_key_single single_le_single del: Cons_le_Cons)

lemma sort_column_perm:
  assumes "pl_sort pl cols f = Inr g"
  shows "mset (column_cells g n) = mset (column_cells f n)"
  using sort_perm [OF assms] sort_schema [OF assms] by (simp add: column_cells_def)

end

section \<open>The reference instance\<close>

definition ref_cast_float :: "cell \<Rightarrow> cell" where
  "ref_cast_float c = (case c of CFloat x \<Rightarrow> c | _ \<Rightarrow> CNull)"

definition ref_join_row :: "string \<Rightarrow> frame \<Rightarrow> frame \<Rightarrow> cell \<Rightarrow> cell list" where
  "ref_join_row key f g k =
    map (\<lambda>p. if fst p = key then k
             else if fst p \<in> set (f_columns f) then cell_at key f k (fst p)
             else cell_at key g k (fst p))
      (join_schema key (f_schema f) (f_schema g))"

definition ref_full_join :: "string \<Rightarrow> frame \<Rightarrow> frame \<Rightarrow> frame" where
  "ref_full_join key f g = \<lparr>f_schema = join_schema key (f_schema f) (f_schema g),
    f_rows = map (ref_join_row key f g)
      (column_cells f key @ filter (\<lambda>k. k \<notin> set (column_cells f key)) (column_cells g key))\<rparr>"

definition reference_polars_ops :: polars_ops where
  "reference_polars_ops = \<lparr>pl_cast_float = ref_cast_float,
     pl_select = (\<lambda>es f.
       if list_all (\<lambda>p. list_all (\<lambda>c. c \<in> set (f_columns f)) (expr_columns (snd p))) es
       then Inr (select_rows ref_cast_float f es) else raise PolarsError ''column not found''),
     pl_full_join = (\<lambda>key f g. Inr (ref_full_join key f g))\<rparr>"

lemma cell_at_unique:
  assumes "keyed key f" "row \<in> set (f_rows f)"
  shows "cell_at key f (row_cell (f_schema f) row key) c = row_cell (f_schema f) row c"
proof -
  have "distinct (map (\<lambda>r. row_cell (f_schema f) r key) (f_rows f))"
    using assms(1) by (simp add: keyed_def column_cells_def)
  from find_Some_unique [OF this assms(2)] show ?thesis
    by (simp add: cell_at_def)
qed

lemma keyedD:
  assumes "keyed key f"
  shows "wf_frame f" "key \<in> set (f_columns f)" "CNull \<notin> set (column_cells f key)"
    "distinct (column_cells f key)" "distinct (map fst (f_schema f))"
  using assms by (auto simp: keyed_def wf_frame_def f_columns_def)

lemma map_of_columns: "c \<in> set (f_columns f) \<longleftrightarrow> map_of (f_schema f) c \<noteq> None"
  by (simp add: f_columns_def map_of_eq_None_iff)

lemma cell_at_fits:
  assumes "wf_frame f" "map_of (f_schema f) c = Some t"
  shows "cell_fits t (cell_at key f k c)"
proof (cases "find (\<lambda>row. row_cell (f_schema f) row key = k) (f_rows f)")
  case (Some row)
  then have "row \<in> set (f_rows f)"
    by (auto simp: find_Some_iff)
  then show ?thesis
    using assms Some by (simp add: cell_at_def wf_frame_def list_all_iff row_fits_cell)
qed (simp add: cell_at_def)

lemma cell_at_key:
  "k \<in> set (column_cells f key) \<Longrightarrow> cell_at key f k key = k"
  by (auto simp: cell_at_def column_cells_def split: option.splits simp: find_None_iff find_Some_iff)

lemma cell_at_absent: "k \<notin> set (column_cells f key) \<Longrightarrow> cell_at key f k c = CNull"
  by (auto simp: cell_at_def column_cells_def find_None_iff image_iff split: option.splits
      simp: find_Some_iff dest: nth_mem)

lemma ref_select_ok:
  assumes "list_all (\<lambda>p. expr_type (f_schema f) (snd p) \<noteq> None) es"
  shows "list_all (\<lambda>p. list_all (\<lambda>c. c \<in> set (f_columns f)) (expr_columns (snd p))) es"
proof -
  have "expr_type (f_schema f) e \<noteq> None \<Longrightarrow> c \<in> set (expr_columns e) \<Longrightarrow> c \<in> set (f_columns f)" for e c
    by (cases e) (auto simp: map_of_columns split: if_splits)
  then show ?thesis
    using assms by (fastforce simp: list_all_iff)
qed

lemma ref_full_join_ok:
  assumes f: "keyed key f" and g: "keyed key g"
    and t: "map_of (f_schema f) key = map_of (f_schema g) key"
    and disj: "set (f_columns f) \<inter> set (f_columns g) = {key}"
  shows "is_full_join key f g (ref_full_join key f g)"
proof -
  let ?h = "ref_full_join key f g"
  let ?s = "join_schema key (f_schema f) (f_schema g)"
  let ?ks = "column_cells f key @ filter (\<lambda>k. k \<notin> set (column_cells f key)) (column_cells g key)"
  note fk = keyedD [OF f] and gk = keyedD [OF g]
  have s: "f_schema ?h = ?s" and rows: "f_rows ?h = map (ref_join_row key f g) ?ks"
    by (simp_all add: ref_full_join_def)
  have dist: "distinct (map fst ?s)"
    using fk(5) distinct_map_filter [OF gk(5)] disj
    by (auto simp: join_schema_def f_columns_def image_iff) (metis IntI image_eqI fst_conv singletonD)
  have keys: "key \<in> set (map fst ?s)"
    using fk(2) by (simp add: join_schema_def f_columns_def)
  have row: "row_cell ?s (ref_join_row key f g k) c =
      (if c = key then k else if c \<in> set (f_columns f) then cell_at key f k c else cell_at key g k c)"
    if "c \<in> set (map fst ?s)" for k c
    unfolding ref_join_row_def using row_cell_map [OF that, of "\<lambda>n. if n = key then k
      else if n \<in> set (f_columns f) then cell_at key f k n else cell_at key g k n"] by simp
  have col: "column_cells ?h key = ?ks"
    unfolding column_cells_def s rows using row [OF keys] by (simp add: comp_def)
  have ks: "distinct ?ks" "CNull \<notin> set ?ks"
    using fk gk by auto
  obtain kt where kt: "map_of (f_schema f) key = Some kt"
    using fk(2) map_of_columns by auto
  have kfits: "cell_fits kt k" if "k \<in> set ?ks" for k
    using that cell_at_fits [OF fk(1) kt, of key k] cell_at_fits [OF gk(1), of key kt key k] t kt
      cell_at_key [of k f key] cell_at_key [of k g key] by auto
  have fits: "row_fits ?s (ref_join_row key f g k)" if k: "k \<in> set ?ks" for k
    unfolding ref_join_row_def
  proof (rule row_fits_map [where g = "\<lambda>n. if n = key then k
      else if n \<in> set (f_columns f) then cell_at key f k n else cell_at key g k n"])
    fix n ty
    assume "(n, ty) \<in> set ?s"
    then consider "(n, ty) \<in> set (f_schema f)" | "(n, ty) \<in> set (f_schema g)" "n \<noteq> key"
      by (auto simp: join_schema_def)
    then show "cell_fits ty (if n = key then k
      else if n \<in> set (f_columns f) then cell_at key f k n else cell_at key g k n)"
    proof cases
      case 1
      then have "map_of (f_schema f) n = Some ty"
        using fk(5) by simp
      then show ?thesis
        using kfits [OF k] kt cell_at_fits [OF fk(1)] by (auto simp: map_of_columns)
    next
      case 2
      then have "map_of (f_schema g) n = Some ty"
        using gk(5) by simp
      moreover have "n \<notin> set (f_columns f)"
        using 2 disj by (force simp: f_columns_def)
      ultimately show ?thesis
        using 2 cell_at_fits [OF gk(1)] by simp
    qed
  qed
  have wf: "wf_frame ?h"
    using dist fits unfolding wf_frame_def f_columns_def s rows by (auto simp: list_all_iff)
  have keyed: "keyed key ?h"
    using wf keys ks gk(3) unfolding keyed_def col f_columns_def s by simp
  have at_h: "cell_at key ?h k c = row_cell ?s (ref_join_row key f g k) c" if "k \<in> set ?ks" for k c
  proof -
    have "ref_join_row key f g k \<in> set (f_rows ?h)"
      using that unfolding rows set_map by (rule imageI)
    from cell_at_unique [OF keyed this, of c] show ?thesis
      using row [OF keys, of k] unfolding s by simp
  qed
  have "cell_at key ?h k c = cell_at key f k c"
    if "k \<in> set ?ks" "c \<noteq> key" "c \<in> set (f_columns f)" for k c
  proof -
    have "c \<in> set (map fst ?s)"
      using that(3) by (simp add: join_schema_def f_columns_def)
    then show ?thesis
      using at_h [OF that(1)] row that by simp
  qed
  moreover have "cell_at key ?h k c = cell_at key g k c"
    if "k \<in> set ?ks" "c \<noteq> key" "c \<in> set (f_columns g)" for k c
  proof -
    have "c \<in> set (map fst ?s)" "c \<notin> set (f_columns f)"
      using that(2,3) disj by (auto simp: join_schema_def f_columns_def)
    then show ?thesis
      using at_h [OF that(1)] row that by simp
  qed
  ultimately show ?thesis
    unfolding is_full_join_def using s keyed col by auto
qed

interpretation ref_ops: polars_expressions reference_polars_ops
proof unfold_locales
  show "pl_cast_float reference_polars_ops CNull = CNull"
    "pl_cast_float reference_polars_ops (CFloat v) = CFloat v" for v
    by (simp_all add: reference_polars_ops_def ref_cast_float_def)
  show "cell_fits DFloat64 (pl_cast_float reference_polars_ops x)" for x
    by (cases x) (simp_all add: reference_polars_ops_def ref_cast_float_def)
  show "pl_select reference_polars_ops es f = Inr (select_rows (pl_cast_float reference_polars_ops) f es)"
    if "list_all (\<lambda>p. expr_type (f_schema f) (snd p) \<noteq> None) es" for es f
    using ref_select_ok [OF that] by (simp add: reference_polars_ops_def)
  show "\<exists>m. pl_select reference_polars_ops es f = Inl (Exn PolarsError m)"
    if "p \<in> set es" "c \<in> set (expr_columns (snd p))" "c \<notin> set (f_columns f)" for p es c f
    using that by (auto simp: reference_polars_ops_def list_all_iff raise_def)
  show "\<exists>h. pl_full_join reference_polars_ops key f g = Inr h \<and> is_full_join key f g h"
    if "keyed key f" "keyed key g" "map_of (f_schema f) key = map_of (f_schema g) key"
      "set (f_columns f) \<inter> set (f_columns g) = {key}" for key f g
    using ref_full_join_ok [OF that] by (simp add: reference_polars_ops_def)
qed

end
