(* ===== verification/Contracts.thy ===== *)
theory Contracts
  imports Py_Text
begin

text \<open>
  \<open>src/application/contracts.py\<close>: providers, native shapes, fetch capabilities and the contract of one
  source series, with the validation of a registry of contracts.  The \<open>isinstance\<close> checks of the
  constructor hold by typing.
\<close>

datatype provider = CBOE | STOXX | YAHOO | ECB | FRED

fun provider_value :: "provider \<Rightarrow> string" where
  "provider_value CBOE = ''cboe''"
| "provider_value STOXX = ''stoxx''"
| "provider_value YAHOO = ''yahoo''"
| "provider_value ECB = ''ecb''"
| "provider_value FRED = ''fred''"

datatype native_shape = OHLC | SCALAR

datatype fetch_capability = DATE_RANGE | FULL_FILE

datatype frequency = DAILY

datatype bootstrap_policy = MAXIMUM_EXPOSED_HISTORY

record series_contract =
  series_id :: string
  series_provider :: provider
  source_id :: string
  unit_name :: string
  native_shape :: native_shape
  frequency :: frequency
  bootstrap_policy :: bootstrap_policy
  fetch_capability :: fetch_capability

text \<open>\<open>SeriesContract.__post_init__\<close>\<close>

definition validate_contract :: "series_contract \<Rightarrow> unit result" where
  "validate_contract c =
    rbind (raise_if (is_blank (series_id c)) ValueError ''series_id must be non-empty'') (\<lambda>_.
    rbind (raise_if (is_blank (source_id c)) ValueError ''source_id must be non-empty'') (\<lambda>_.
    raise_if (is_blank (unit_name c)) ValueError ''unit must be non-empty''))"

text \<open>The constructor: the fields in the order of the class, then the checks.\<close>

definition SeriesContract ::
  "string \<Rightarrow> provider \<Rightarrow> string \<Rightarrow> string \<Rightarrow> native_shape \<Rightarrow> frequency \<Rightarrow> bootstrap_policy \<Rightarrow>
    fetch_capability \<Rightarrow> series_contract result" where
  "SeriesContract sid p src u shape freq boot fetch =
    (let c = \<lparr>series_id = sid, series_provider = p, source_id = src, unit_name = u,
       native_shape = shape, frequency = freq, bootstrap_policy = boot, fetch_capability = fetch\<rparr>
     in rbind (validate_contract c) (\<lambda>_. Inr c))"

text \<open>
  A read-only mapping in insertion order.  The loop of \<open>validate_series_registry\<close> carries the mapping
  built so far.
\<close>

fun registry_from ::
  "(string \<times> series_contract) list \<Rightarrow> series_contract list \<Rightarrow> (string \<times> series_contract) list result"
  where
  "registry_from by_id [] = Inr by_id"
| "registry_from by_id (e # es) =
    (if map_of by_id (series_id e) \<noteq> None
     then raise ValueError (''duplicate canonical series_id: '' @ series_id e)
     else registry_from (by_id @ [(series_id e, e)]) es)"

definition validate_series_registry ::
  "series_contract list \<Rightarrow> (string \<times> series_contract) list result" where
  "validate_series_registry entries = registry_from [] entries"

lemma registry_from_Inr:
  "registry_from m es = Inr m' \<longleftrightarrow>
    m' = m @ map (\<lambda>e. (series_id e, e)) es \<and> distinct (map series_id es)
    \<and> set (map fst m) \<inter> set (map series_id es) = {}"
  by (induction es arbitrary: m) (auto simp: map_of_eq_None_iff)

lemma validate_series_registry_Inr:
  "validate_series_registry es = Inr m \<longleftrightarrow>
    m = map (\<lambda>e. (series_id e, e)) es \<and> distinct (map series_id es)"
  by (simp add: validate_series_registry_def registry_from_Inr)

end
