(* ===== verification/Silver.thy ===== *)
theory Silver
  imports Polars_Ops Contracts
begin

text \<open>
  \<open>src/application/silver.py\<close>: mapping one retained Bronze series to the Silver schema.
  Where a message of the program embeds what polars prints, the text before it is kept.
\<close>

definition SILVER_SCHEMA :: schema where
  "SILVER_SCHEMA =
    [(''observation_date'', DDate), (''series_id'', DString), (''value'', DFloat64),
     (''open'', DFloat64), (''high'', DFloat64), (''low'', DFloat64), (''close'', DFloat64),
     (''unit'', DString), (''provider'', DString), (''source_id'', DString),
     (''fetched_at_utc'', DDatetimeUtc)]"

text \<open>\<open>f"{xs}"\<close> of a list of names without quotes\<close>

fun join_with :: "string \<Rightarrow> string list \<Rightarrow> string" where
  "join_with sep [] = []"
| "join_with sep [x] = x"
| "join_with sep (x # y # ys) = x @ sep @ join_with sep (y # ys)"

definition names_repr :: "string list \<Rightarrow> string" where
  "names_repr xs = ''['' @ join_with '', '' (map (\<lambda>x. [CHR 39] @ x @ [CHR 39]) xs) @ '']''"

definition assert_identity_of :: "frame \<Rightarrow> string \<times> string \<Rightarrow> unit result" where
  "assert_identity_of f = (\<lambda>(c, v).
    rbind (raise_if (c \<notin> set (f_columns f)) ValueError (''Bronze frame is missing '' @ c)) (\<lambda>_.
    raise_if (set (filter (\<lambda>x. x \<noteq> CNull) (column_cells f c)) \<noteq> {CStr v}) ValueError
      (''Bronze '' @ c @ '' does not match registry contract'')))"

definition assert_identity :: "frame \<Rightarrow> series_contract \<Rightarrow> unit result" where
  "assert_identity f c = rfor (assert_identity_of f)
    [(''series_id'', series_id c), (''provider'', provider_value (series_provider c)), (''source_id'', source_id c)]"

definition BRONZE_COMMON :: "string list" where
  "BRONZE_COMMON =
    [''series_id'', ''provider'', ''observation_date'', ''fetched_at_utc'', ''source_id'', ''source_url'']"

definition assert_common :: "frame \<Rightarrow> series_contract \<Rightarrow> unit result" where
  "assert_common f c =
    (let missing = filter (\<lambda>n. n \<notin> set (f_columns f)) BRONZE_COMMON in
     rbind (raise_if (missing \<noteq> []) ValueError
       (''Bronze frame is missing common columns: '' @ names_repr (sort missing))) (\<lambda>_.
     rbind (schema_type f ''observation_date'') (\<lambda>t.
     rbind (raise_if (t \<noteq> DDate) TypeError ''Bronze observation_date must be Date'') (\<lambda>_.
     rbind (schema_type f ''fetched_at_utc'') (\<lambda>t.
     rbind (raise_if (t \<noteq> DDatetimeUtc) TypeError ''Bronze fetched_at_utc must be Datetime(us, UTC)'') (\<lambda>_.
     rbind (assert_identity f c) (\<lambda>_.
     rbind (raise_if (CNull \<in> set (column_cells f ''observation_date'')) ValueError
       ''Bronze observation_date cannot be null'') (\<lambda>_.
     raise_if (\<not> distinct (zip (column_cells f ''series_id'') (column_cells f ''observation_date''))) ValueError
       ''Bronze contains duplicate Silver natural keys''))))))))"

definition finite_non_null_in :: "polars_ops \<Rightarrow> frame \<Rightarrow> string \<Rightarrow> unit result" where
  "finite_non_null_in ops f c =
    rbind (raise_if (c \<notin> set (f_columns f)) ValueError (''Bronze frame is missing '' @ c)) (\<lambda>_.
    let values = map (pl_cast_float ops) (column_cells f c) in
    rbind (raise_if (CNull \<in> set values) ValueError
      (''Bronze '' @ c @ '' contains missing/non-numeric values'')) (\<lambda>_.
    raise_if (\<not> list_all cell_finite values) ValueError
      (''Bronze '' @ c @ '' contains non-finite values'')))"

definition finite_non_null :: "polars_ops \<Rightarrow> frame \<Rightarrow> string list \<Rightarrow> unit result" where
  "finite_non_null ops f cs = rfor (finite_non_null_in ops f) cs"

text \<open>The selections of the two native shapes.\<close>

definition ohlc_selection :: "series_contract \<Rightarrow> (string \<times> pl_expr) list" where
  "ohlc_selection c =
    [(''observation_date'', PlCol ''observation_date''), (''series_id'', PlCol ''series_id''),
     (''value'', PlFloat ''close''), (''open'', PlFloat ''open''), (''high'', PlFloat ''high''),
     (''low'', PlFloat ''low''), (''close'', PlFloat ''close''), (''unit'', PlLit (CStr (unit_name c)) DString),
     (''provider'', PlCol ''provider''), (''source_id'', PlCol ''source_id''),
     (''fetched_at_utc'', PlCol ''fetched_at_utc'')]"

definition scalar_selection :: "series_contract \<Rightarrow> (string \<times> pl_expr) list" where
  "scalar_selection c =
    [(''observation_date'', PlCol ''observation_date''), (''series_id'', PlCol ''series_id''),
     (''value'', PlFloat ''value''), (''open'', PlLit CNull DFloat64), (''high'', PlLit CNull DFloat64),
     (''low'', PlLit CNull DFloat64), (''close'', PlLit CNull DFloat64),
     (''unit'', PlLit (CStr (unit_name c)) DString), (''provider'', PlCol ''provider''),
     (''source_id'', PlCol ''source_id''), (''fetched_at_utc'', PlCol ''fetched_at_utc'')]"

definition silver_payload :: "polars_ops \<Rightarrow> series_contract \<Rightarrow> frame \<Rightarrow> frame result" where
  "silver_payload ops c bronze =
    (case native_shape c of
      OHLC \<Rightarrow> rbind (finite_non_null ops bronze [''open'', ''high'', ''low'', ''close'']) (\<lambda>_.
        pl_select ops (ohlc_selection c) bronze)
    | SCALAR \<Rightarrow> rbind (finite_non_null ops bronze [''value'']) (\<lambda>_.
        pl_select ops (scalar_selection c) bronze))"

definition canonicalize_silver :: "polars \<Rightarrow> polars_ops \<Rightarrow> series_contract \<Rightarrow> frame \<Rightarrow> frame result" where
  "canonicalize_silver pl ops c bronze =
    (if is_empty_frame bronze \<and> f_columns bronze = [] then Inr \<lparr>f_schema = SILVER_SCHEMA, f_rows = []\<rparr>
     else
       rbind (assert_common bronze c) (\<lambda>_.
       rbind (silver_payload ops c bronze) (\<lambda>payload.
       rbind (pl_sort pl [''observation_date''] payload) (\<lambda>silver.
       rbind (raise_if (f_schema silver \<noteq> SILVER_SCHEMA) TypeError ''canonical Silver schema drift: '') (\<lambda>_.
       rbind (raise_if (\<not> list_all cell_finite (column_cells silver ''value'')) ValueError
         ''Silver value must be finite'') (\<lambda>_.
       Inr silver))))))"

section \<open>What the canonicalization does\<close>

definition value_columns :: "series_contract \<Rightarrow> string list" where
  "value_columns c = (case native_shape c of OHLC \<Rightarrow> [''open'', ''high'', ''low'', ''close''] | SCALAR \<Rightarrow> [''value''])"

text \<open>The Bronze frames that are accepted.\<close>

definition silver_accepts :: "polars_ops \<Rightarrow> series_contract \<Rightarrow> frame \<Rightarrow> bool" where
  "silver_accepts ops c f \<longleftrightarrow>
    set BRONZE_COMMON \<subseteq> set (f_columns f)
    \<and> map_of (f_schema f) ''observation_date'' = Some DDate
    \<and> map_of (f_schema f) ''fetched_at_utc'' = Some DDatetimeUtc
    \<and> (\<forall>n \<in> {''series_id'', ''provider'', ''source_id''}. map_of (f_schema f) n = Some DString)
    \<and> set (filter (\<lambda>x. x \<noteq> CNull) (column_cells f ''series_id'')) = {CStr (series_id c)}
    \<and> set (filter (\<lambda>x. x \<noteq> CNull) (column_cells f ''provider'')) = {CStr (provider_value (series_provider c))}
    \<and> set (filter (\<lambda>x. x \<noteq> CNull) (column_cells f ''source_id'')) = {CStr (source_id c)}
    \<and> CNull \<notin> set (column_cells f ''observation_date'')
    \<and> distinct (zip (column_cells f ''series_id'') (column_cells f ''observation_date''))
    \<and> (\<forall>n \<in> set (value_columns c). n \<in> set (f_columns f)
        \<and> (\<forall>x \<in> set (column_cells f n). \<exists>v. pl_cast_float ops x = CFloat v \<and> f64_finite v))"

text \<open>The Silver row of a Bronze row.\<close>

definition silver_row :: "polars_ops \<Rightarrow> series_contract \<Rightarrow> schema \<Rightarrow> cell list \<Rightarrow> cell list" where
  "silver_row ops c s row =
    (let cell = row_cell s row; number = (\<lambda>n. pl_cast_float ops (row_cell s row n)) in
     [cell ''observation_date'', cell ''series_id'']
     @ (case native_shape c of
         OHLC \<Rightarrow> [number ''close'', number ''open'', number ''high'', number ''low'', number ''close'']
       | SCALAR \<Rightarrow> [number ''value'', CNull, CNull, CNull, CNull])
     @ [CStr (unit_name c), cell ''provider'', cell ''source_id'', cell ''fetched_at_utc''])"

lemma silver_accepts_values:
  assumes "silver_accepts ops c f" "n \<in> set (value_columns c)" "x \<in> set (column_cells f n)"
  shows "\<exists>v. pl_cast_float ops x = CFloat v \<and> f64_finite v"
  using assms unfolding silver_accepts_def by (elim conjE) (drule (1) bspec, elim conjE, drule (1) bspec)

locale silver_polars = polars_frames pl + polars_expressions ops for pl ops
begin

lemma cast_float_cell: "pl_cast_float ops x \<noteq> CNull \<Longrightarrow> \<exists>v. pl_cast_float ops x = CFloat v"
  using cast_float_fits [of x] by (cases "pl_cast_float ops x") auto

lemma finite_non_null_Inr:
  "finite_non_null ops f cs = Inr u \<longleftrightarrow>
    (\<forall>n \<in> set cs. n \<in> set (f_columns f)
      \<and> (\<forall>x \<in> set (column_cells f n). \<exists>v. pl_cast_float ops x = CFloat v \<and> f64_finite v))"
proof -
  have "pl_cast_float ops x \<noteq> CNull \<and> cell_finite (pl_cast_float ops x)
      \<longleftrightarrow> (\<exists>v. pl_cast_float ops x = CFloat v \<and> f64_finite v)" for x
    using cast_float_cell [of x] by auto
  then show ?thesis
    by (auto simp: finite_non_null_def finite_non_null_in_def result_simps Let_def list_all_iff image_iff)
      metis+
qed

lemma selection_rows:
  "f_rows (select_rows (pl_cast_float ops) f (case native_shape c of OHLC \<Rightarrow> ohlc_selection c | SCALAR \<Rightarrow> scalar_selection c))
    = map (silver_row ops c (f_schema f)) (f_rows f)"
  by (simp add: select_rows_def silver_row_def ohlc_selection_def scalar_selection_def Let_def split: native_shape.split)

lemma payload_accepted:
  assumes "silver_accepts ops c bronze"
  shows "silver_payload ops c bronze =
    Inr \<lparr>f_schema = SILVER_SCHEMA, f_rows = map (silver_row ops c (f_schema bronze)) (f_rows bronze)\<rparr>"
proof -
  let ?es = "case native_shape c of OHLC \<Rightarrow> ohlc_selection c | SCALAR \<Rightarrow> scalar_selection c"
  let ?s = "f_schema bronze"
  have t: "map_of ?s ''observation_date'' = Some DDate" "map_of ?s ''fetched_at_utc'' = Some DDatetimeUtc"
    "map_of ?s ''series_id'' = Some DString" "map_of ?s ''provider'' = Some DString"
    "map_of ?s ''source_id'' = Some DString"
    using assms unfolding silver_accepts_def by blast+
  have "\<forall>n \<in> set (value_columns c). n \<in> set (f_columns bronze)"
    using assms unfolding silver_accepts_def by blast
  then have v: "list_all (\<lambda>n. map_of ?s n \<noteq> None) (value_columns c)"
    unfolding list_all_iff map_of_columns .
  have fin: "finite_non_null ops bronze (value_columns c) = Inr ()"
    using assms unfolding finite_non_null_Inr silver_accepts_def by blast
  have "list_all (\<lambda>p. expr_type ?s (snd p) \<noteq> None) ?es \<and> select_schema ?s ?es = SILVER_SCHEMA"
  proof (cases "native_shape c")
    case OHLC
    have v: "map_of ?s ''open'' \<noteq> None" "map_of ?s ''high'' \<noteq> None" "map_of ?s ''low'' \<noteq> None"
      "map_of ?s ''close'' \<noteq> None"
      using v by (simp_all only: OHLC value_columns_def native_shape.case list.pred_inject simp_thms)
    show ?thesis
      unfolding OHLC native_shape.case ohlc_selection_def select_schema_def SILVER_SCHEMA_def
      by (simp only: list.pred_inject list.map snd_conv prod.case expr_type.simps t v if_False option.simps
          option.sel option.distinct simp_thms)
  next
    case SCALAR
    have v: "map_of ?s ''value'' \<noteq> None"
      using v by (simp only: SCALAR value_columns_def native_shape.case list.pred_inject simp_thms)
    show ?thesis
      unfolding SCALAR native_shape.case scalar_selection_def select_schema_def SILVER_SCHEMA_def
      by (simp only: list.pred_inject list.map snd_conv prod.case expr_type.simps t v if_False option.simps
          option.sel option.distinct simp_thms)
  qed
  then have types: "list_all (\<lambda>p. expr_type ?s (snd p) \<noteq> None) ?es" "select_schema ?s ?es = SILVER_SCHEMA"
    by blast+
  have "distinct (map fst ?es)" "concat (map (\<lambda>p. expr_columns (snd p)) ?es) \<noteq> []"
    by (cases "native_shape c"; simp add: ohlc_selection_def scalar_selection_def)+
  from select_ok [OF this(1) types(1) this(2)]
  have sel: "pl_select ops ?es bronze =
      Inr \<lparr>f_schema = SILVER_SCHEMA, f_rows = map (silver_row ops c ?s) (f_rows bronze)\<rparr>"
    using types(2) selection_rows [of bronze c] by (simp add: select_rows_def)
  show ?thesis
    using sel fin by (cases "native_shape c") (simp_all add: silver_payload_def value_columns_def)
qed

lemma assert_identity_Inr:
  assumes "set BRONZE_COMMON \<subseteq> set (f_columns f)"
  shows "assert_identity f c = Inr v \<longleftrightarrow>
      set (filter (\<lambda>x. x \<noteq> CNull) (column_cells f ''series_id'')) = {CStr (series_id c)}
      \<and> set (filter (\<lambda>x. x \<noteq> CNull) (column_cells f ''provider'')) = {CStr (provider_value (series_provider c))}
      \<and> set (filter (\<lambda>x. x \<noteq> CNull) (column_cells f ''source_id'')) = {CStr (source_id c)}"
proof -
  have cols: "''series_id'' \<in> set (f_columns f)" "''provider'' \<in> set (f_columns f)" "''source_id'' \<in> set (f_columns f)"
    using assms by (auto simp: BRONZE_COMMON_def)
  show ?thesis
    unfolding assert_identity_def assert_identity_of_def
    by (simp only: rfor.simps prod.case cols not_True_eq_False raise_if_simps rbind.simps) (simp add: rbind_Inr)
qed

lemma assert_common_Inr:
  "assert_common f c = Inr u \<longleftrightarrow>
    set BRONZE_COMMON \<subseteq> set (f_columns f)
    \<and> map_of (f_schema f) ''observation_date'' = Some DDate
    \<and> map_of (f_schema f) ''fetched_at_utc'' = Some DDatetimeUtc
    \<and> set (filter (\<lambda>x. x \<noteq> CNull) (column_cells f ''series_id'')) = {CStr (series_id c)}
    \<and> set (filter (\<lambda>x. x \<noteq> CNull) (column_cells f ''provider'')) = {CStr (provider_value (series_provider c))}
    \<and> set (filter (\<lambda>x. x \<noteq> CNull) (column_cells f ''source_id'')) = {CStr (source_id c)}
    \<and> CNull \<notin> set (column_cells f ''observation_date'')
    \<and> distinct (zip (column_cells f ''series_id'') (column_cells f ''observation_date''))"
proof -
  have missing: "filter (\<lambda>n. n \<notin> set (f_columns f)) BRONZE_COMMON = [] \<longleftrightarrow> set BRONZE_COMMON \<subseteq> set (f_columns f)"
    by (auto simp: filter_empty_conv)
  have type: "rbind (schema_type f n) (\<lambda>t. rbind (raise_if (t \<noteq> T) X m) k) = Inr v
      \<longleftrightarrow> map_of (f_schema f) n = Some T \<and> k () = Inr v" for n T X m v and k :: "unit \<Rightarrow> unit result"
    by (cases "map_of (f_schema f) n") (simp_all add: schema_type_def rbind_Inr)
  have rbind_unit: "rbind r k = Inr v \<longleftrightarrow> r = Inr () \<and> k () = Inr v" for r v and k :: "unit \<Rightarrow> unit result"
    by (cases r) simp_all
  show ?thesis
    unfolding assert_common_def Let_def
    by (simp only: guard_Inr type missing not_not raise_if_Inr rbind_unit assert_identity_Inr conj_assoc
        cong: conj_cong)
qed

lemma silver_of_payload:
  assumes "silver_accepts ops c bronze"
  shows "\<exists>silver. canonicalize_silver pl ops c bronze = Inr silver \<and> f_schema silver = SILVER_SCHEMA
    \<and> mset (f_rows silver) = mset (map (silver_row ops c (f_schema bronze)) (f_rows bronze))
    \<and> sorted (map cell_key (column_cells silver ''observation_date''))"
proof -
  let ?p = "\<lparr>f_schema = SILVER_SCHEMA, f_rows = map (silver_row ops c (f_schema bronze)) (f_rows bronze)\<rparr>"
  have "set BRONZE_COMMON \<subseteq> set (f_columns bronze)" and common: "assert_common bronze c = Inr ()"
    using assms unfolding assert_common_Inr silver_accepts_def by blast+
  then have "f_columns bronze \<noteq> []"
    by (auto simp: BRONZE_COMMON_def)
  moreover have "set [''observation_date''] \<subseteq> set (f_columns ?p)"
    by (simp add: f_columns_def SILVER_SCHEMA_def)
  then obtain silver where sort: "pl_sort pl [''observation_date''] ?p = Inr silver"
    using sort_total by blast
  have schema: "f_schema silver = SILVER_SCHEMA"
    using sort_schema [OF sort] by simp
  have rows: "mset (f_rows silver) = mset (f_rows ?p)"
    using sort_perm [OF sort] .
  have valcell: "row_cell SILVER_SCHEMA (silver_row ops c s row) ''value''
      = pl_cast_float ops (row_cell s row (case native_shape c of OHLC \<Rightarrow> ''close'' | SCALAR \<Rightarrow> ''value''))"
    for s row
    by (simp add: SILVER_SCHEMA_def silver_row_def Let_def split: native_shape.split)
  have "cell_finite (pl_cast_float ops x)"
    if "x \<in> set (column_cells bronze (case native_shape c of OHLC \<Rightarrow> ''close'' | SCALAR \<Rightarrow> ''value''))" for x
  proof -
    have "(case native_shape c of OHLC \<Rightarrow> ''close'' | SCALAR \<Rightarrow> ''value'') \<in> set (value_columns c)"
      by (simp add: value_columns_def split: native_shape.split)
    from silver_accepts_values [OF assms this that] show ?thesis
      by auto
  qed
  then have "list_all cell_finite (column_cells silver ''value'')"
    using mset_eq_setD [OF rows] by (simp add: column_cells_def schema list_all_iff valcell)
  moreover have "sorted (map cell_key (column_cells silver ''observation_date''))"
    by (rule sort_single_sorted [OF sort])
  ultimately show ?thesis
    using common sort rows schema payload_accepted [OF assms] by (simp add: canonicalize_silver_def)
qed

lemma canonicalized_accepts:
  assumes "f_columns bronze \<noteq> []" "canonicalize_silver pl ops c bronze = Inr silver"
  shows "silver_accepts ops c bronze"
proof -
  let ?es = "case native_shape c of OHLC \<Rightarrow> ohlc_selection c | SCALAR \<Rightarrow> scalar_selection c"
  let ?s = "f_schema bronze"
  obtain payload where common: "assert_common bronze c = Inr ()" and pay: "silver_payload ops c bronze = Inr payload"
    and sort: "pl_sort pl [''observation_date''] payload = Inr silver" and schema: "f_schema silver = SILVER_SCHEMA"
    using assms by (auto simp: canonicalize_silver_def rbind_Inr guard_Inr)
  note facts = common [unfolded assert_common_Inr]
  have fin: "finite_non_null ops bronze (value_columns c) = Inr ()"
    and sel: "pl_select ops ?es bronze = Inr payload"
    using pay by (auto simp: silver_payload_def value_columns_def rbind_Inr split: native_shape.splits)
  have "\<forall>n \<in> set (value_columns c). map_of ?s n \<noteq> None"
    using fin unfolding finite_non_null_Inr map_of_columns by blast
  moreover have "\<forall>n \<in> set BRONZE_COMMON. map_of ?s n \<noteq> None"
    using facts unfolding map_of_columns [symmetric] by blast
  ultimately have "list_all (\<lambda>p. expr_type ?s (snd p) \<noteq> None) ?es"
    unfolding BRONZE_COMMON_def value_columns_def
    by (cases "native_shape c") (simp_all add: ohlc_selection_def scalar_selection_def)
  moreover have "distinct (map fst ?es)" "concat (map (\<lambda>p. expr_columns (snd p)) ?es) \<noteq> []"
    by (cases "native_shape c"; simp add: ohlc_selection_def scalar_selection_def)+
  ultimately have "payload = select_rows (pl_cast_float ops) bronze ?es"
    using select_ok [of ?es bronze] sel by simp
  then have sch: "select_schema ?s ?es = SILVER_SCHEMA"
    using sort_schema [OF sort] schema by (simp add: select_rows_def)
  have "the (map_of ?s n) = DString" if "n \<in> {''series_id'', ''provider'', ''source_id''}" for n
    using sch that
    by (cases "native_shape c"; simp add: ohlc_selection_def scalar_selection_def select_schema_def SILVER_SCHEMA_def)
      auto
  then have "map_of ?s n = Some DString" if "n \<in> {''series_id'', ''provider'', ''source_id''}" for n
    using that \<open>\<forall>n \<in> set BRONZE_COMMON. map_of ?s n \<noteq> None\<close>
    by (metis BRONZE_COMMON_def list.set_intros(1,2) insert_iff option.collapse empty_iff)
  then show ?thesis
    unfolding silver_accepts_def using facts fin [unfolded finite_non_null_Inr] by blast
qed

end

interpretation ref_silver: silver_polars reference_polars reference_polars_ops
  by unfold_locales

section \<open>The property\<close>


definition demo_contract :: series_contract where
  "demo_contract = \<lparr>series_id = ''vix'', series_provider = CBOE, source_id = ''VIX_History.csv'',
     unit_name = ''index_points'', native_shape = OHLC, frequency = DAILY,
     bootstrap_policy = MAXIMUM_EXPOSED_HISTORY, fetch_capability = FULL_FILE\<rparr>"

text \<open>One row of Bronze with the four prices 20.0 (bits 0x4034000000000000).\<close>

definition demo_bronze :: frame where
  "demo_bronze = \<lparr>f_schema = [(''provider'', DString), (''series_id'', DString), (''observation_date'', DDate),
      (''fetched_at_utc'', DDatetimeUtc), (''source_id'', DString), (''source_url'', DString),
      (''open'', DFloat64), (''high'', DFloat64), (''low'', DFloat64), (''close'', DFloat64)],
     f_rows = [[CStr ''cboe'', CStr ''vix'', CDate 738000, CDatetime 5, CStr ''VIX_History.csv'', CStr ''u'',
       CFloat 0x4034000000000000, CFloat 0x4034000000000000, CFloat 0x4034000000000000, CFloat 0x4034000000000000]]\<rparr>"


end
