(* ===== verification/Registry.thy ===== *)
theory Registry
  imports Contracts
begin

text \<open>
  \<open>src/application/registry.py\<close>: the 25 source series of the program, in order, provider by provider,
  the registry made of them and its lookup.
\<close>

text \<open>A registry entry with the frequency and bootstrap policy every entry has.\<close>

definition daily_entry ::
  "string \<Rightarrow> provider \<Rightarrow> string \<Rightarrow> string \<Rightarrow> native_shape \<Rightarrow> fetch_capability \<Rightarrow> series_contract result" where
  "daily_entry sid p src u shape fetch =
    SeriesContract sid p src u shape DAILY MAXIMUM_EXPOSED_HISTORY fetch"

definition cboe_entries :: "series_contract result list" where
  "cboe_entries =
    [daily_entry ''vix'' CBOE ''VIX_History.csv'' ''index_points'' OHLC FULL_FILE,
     daily_entry ''vix9d'' CBOE ''VIX9D_History.csv'' ''index_points'' OHLC FULL_FILE,
     daily_entry ''vix3m'' CBOE ''VIX3M_History.csv'' ''index_points'' OHLC FULL_FILE,
     daily_entry ''vix6m'' CBOE ''VIX6M_History.csv'' ''index_points'' OHLC FULL_FILE,
     daily_entry ''vix1y'' CBOE ''VIX1Y_History.csv'' ''index_points'' OHLC FULL_FILE]"

definition stoxx_entries :: "series_contract result list" where
  "stoxx_entries =
    [daily_entry ''vstoxx'' STOXX ''V2TX'' ''index_points'' SCALAR FULL_FILE,
     daily_entry ''vstoxx1m'' STOXX ''V6I1'' ''index_points'' SCALAR FULL_FILE,
     daily_entry ''vstoxx2m'' STOXX ''V6I2'' ''index_points'' SCALAR FULL_FILE,
     daily_entry ''vstoxx3m'' STOXX ''V6I3'' ''index_points'' SCALAR FULL_FILE]"

definition yahoo_entries :: "series_contract result list" where
  "yahoo_entries =
    [daily_entry ''move'' YAHOO ''^MOVE'' ''index_points'' OHLC DATE_RANGE]"

definition ecb_entries :: "series_contract result list" where
  "ecb_entries =
    [daily_entry ''ciss'' ECB ''CISS.D.U2.Z0Z.4F.EC.SS_CIN.IDX'' ''index'' SCALAR DATE_RANGE,
     daily_entry ''ciss_money'' ECB ''CISS.D.U2.Z0Z.4F.EC.SS_MMN.CON'' ''dimensionless_contribution'' SCALAR DATE_RANGE,
     daily_entry ''ciss_bonds'' ECB ''CISS.D.U2.Z0Z.4F.EC.SS_BMN.CON'' ''dimensionless_contribution'' SCALAR DATE_RANGE,
     daily_entry ''ciss_equity'' ECB ''CISS.D.U2.Z0Z.4F.EC.SS_EMN.CON'' ''dimensionless_contribution'' SCALAR DATE_RANGE,
     daily_entry ''ciss_financials'' ECB ''CISS.D.U2.Z0Z.4F.EC.SS_FIN.CON'' ''dimensionless_contribution'' SCALAR DATE_RANGE,
     daily_entry ''estr'' ECB ''EST.B.EU000A2X2A25.WT'' ''percent'' SCALAR DATE_RANGE]"

definition fred_entries :: "series_contract result list" where
  "fred_entries =
    [daily_entry ''euro_hy_oas'' FRED ''BAMLHE00EHYIOAS'' ''percent'' SCALAR DATE_RANGE,
     daily_entry ''euro_hy_yield'' FRED ''BAMLHE00EHYIEY'' ''percent'' SCALAR DATE_RANGE,
     daily_entry ''euro_hy_ytw'' FRED ''BAMLHE00EHYISYTW'' ''percent'' SCALAR DATE_RANGE,
     daily_entry ''euro_hy_total_return'' FRED ''BAMLHE00EHYITRIV'' ''index'' SCALAR DATE_RANGE,
     daily_entry ''us_2y'' FRED ''DGS2'' ''percent'' SCALAR DATE_RANGE,
     daily_entry ''us_10y'' FRED ''DGS10'' ''percent'' SCALAR DATE_RANGE,
     daily_entry ''usd_broad'' FRED ''DTWEXBGS'' ''index'' SCALAR DATE_RANGE,
     daily_entry ''us_3m'' FRED ''DGS3MO'' ''percent'' SCALAR DATE_RANGE,
     daily_entry ''us_5y'' FRED ''DGS5'' ''percent'' SCALAR DATE_RANGE]"

text \<open>The module evaluates every constructor, then validates the registry.\<close>

definition INITIAL_SERIES :: "series_contract list result" where
  "INITIAL_SERIES = rmap id (cboe_entries @ stoxx_entries @ yahoo_entries @ ecb_entries @ fred_entries)"

definition load_registry :: "(string \<times> series_contract) list result" where
  "load_registry = rbind INITIAL_SERIES validate_series_registry"

definition SERIES_REGISTRY :: "(string \<times> series_contract) list" where
  "SERIES_REGISTRY = (case load_registry of Inl _ \<Rightarrow> [] | Inr m \<Rightarrow> m)"

definition OHLC_SERIES :: "string list" where
  "OHLC_SERIES = map fst (filter (\<lambda>(_, c). native_shape c = OHLC) SERIES_REGISTRY)"

definition OHLC_FIELDS :: "string list" where
  "OHLC_FIELDS = [''open'', ''high'', ''low'', ''close'']"

definition lookup_contract :: "string \<Rightarrow> series_contract result" where
  "lookup_contract sid =
    (case map_of SERIES_REGISTRY sid of
       None \<Rightarrow> raise KeyError (''unknown canonical series_id: '' @ sid)
     | Some c \<Rightarrow> Inr c)"

section \<open>Facts\<close>

lemma blank_simps [simp]: "is_blank [] = True" "is_blank (c # s) = (is_space c \<and> is_blank s)"
  by (simp_all add: is_blank_def)

lemma daily_entry_eq:
  "\<not> is_blank sid \<Longrightarrow> \<not> is_blank src \<Longrightarrow> \<not> is_blank u \<Longrightarrow>
    daily_entry sid p src u shape fetch =
      Inr \<lparr>series_id = sid, series_provider = p, source_id = src, unit_name = u, native_shape = shape,
        frequency = DAILY, bootstrap_policy = MAXIMUM_EXPOSED_HISTORY, fetch_capability = fetch\<rparr>"
  by (simp add: daily_entry_def SeriesContract_def validate_contract_def)

definition registry_entries :: "series_contract list" where
  "registry_entries = (case INITIAL_SERIES of Inl _ \<Rightarrow> [] | Inr es \<Rightarrow> es)"

lemmas registry_defs = INITIAL_SERIES_def cboe_entries_def stoxx_entries_def yahoo_entries_def
  ecb_entries_def fred_entries_def

lemma initial_series_ok: "INITIAL_SERIES = Inr registry_entries"
proof -
  have "\<exists>es. INITIAL_SERIES = Inr es"
    by (simp add: registry_defs daily_entry_eq is_space_def)
  then obtain es where es: "INITIAL_SERIES = Inr es" ..
  show ?thesis unfolding registry_entries_def es by simp
qed

lemma registry_ids:
  "map series_id registry_entries =
    [''vix'', ''vix9d'', ''vix3m'', ''vix6m'', ''vix1y'', ''vstoxx'', ''vstoxx1m'', ''vstoxx2m'', ''vstoxx3m'', ''move'', ''ciss'', ''ciss_money'', ''ciss_bonds'', ''ciss_equity'', ''ciss_financials'', ''estr'', ''euro_hy_oas'', ''euro_hy_yield'', ''euro_hy_ytw'', ''euro_hy_total_return'', ''us_2y'', ''us_10y'', ''usd_broad'', ''us_3m'', ''us_5y'']"
  by (simp add: registry_entries_def registry_defs daily_entry_eq is_space_def)

lemma registry_shapes:
  "map native_shape registry_entries = [OHLC, OHLC, OHLC, OHLC, OHLC, SCALAR, SCALAR, SCALAR, SCALAR, OHLC, SCALAR, SCALAR, SCALAR, SCALAR, SCALAR, SCALAR, SCALAR, SCALAR, SCALAR, SCALAR, SCALAR, SCALAR, SCALAR, SCALAR, SCALAR]"
  by (simp add: registry_entries_def registry_defs daily_entry_eq is_space_def)

lemma registry_fetch:
  "map fetch_capability registry_entries = [FULL_FILE, FULL_FILE, FULL_FILE, FULL_FILE, FULL_FILE, FULL_FILE, FULL_FILE, FULL_FILE, FULL_FILE, DATE_RANGE, DATE_RANGE, DATE_RANGE, DATE_RANGE, DATE_RANGE, DATE_RANGE, DATE_RANGE, DATE_RANGE, DATE_RANGE, DATE_RANGE, DATE_RANGE, DATE_RANGE, DATE_RANGE, DATE_RANGE, DATE_RANGE, DATE_RANGE]"
  by (simp add: registry_entries_def registry_defs daily_entry_eq is_space_def)

lemma registry_distinct: "distinct (map series_id registry_entries)"
  unfolding registry_ids by simp

lemma load_registry_ok: "load_registry = Inr (map (\<lambda>e. (series_id e, e)) registry_entries)"
  by (simp add: load_registry_def initial_series_ok validate_series_registry_Inr registry_distinct)

lemma series_registry_eq: "SERIES_REGISTRY = map (\<lambda>e. (series_id e, e)) registry_entries"
  by (simp add: SERIES_REGISTRY_def load_registry_ok)

lemma filter_zip_map:
  "map f (filter (\<lambda>x. P (g x)) xs) = map fst (filter (\<lambda>p. P (snd p)) (zip (map f xs) (map g xs)))"
  by (induction xs) auto

lemma ohlc_series_eq: "OHLC_SERIES = [''vix'', ''vix9d'', ''vix3m'', ''vix6m'', ''vix1y'', ''move'']"
proof -
  have "OHLC_SERIES = map series_id (filter (\<lambda>e. native_shape e = OHLC) registry_entries)"
    by (simp add: OHLC_SERIES_def series_registry_eq filter_map_eq comp_def split_def)
  then show ?thesis
    unfolding filter_zip_map [where f = series_id and g = native_shape and P = "\<lambda>s. s = OHLC"]
      registry_ids registry_shapes by simp
qed

text \<open>
  C11: the source-controlled registry loads: no entry violates its contract and no canonical series id occurs twice.
  It has 25 entries; looking up the id of an entry returns that entry and any other id raises KeyError;
  the OHLC series are exactly vix, vix9d, vix3m, vix6m, vix1y and move, in this order.
\<close>

theorem registry_correct:
  "load_registry = Inr SERIES_REGISTRY \<and> length SERIES_REGISTRY = 25
   \<and> distinct (map fst SERIES_REGISTRY)
   \<and> (lookup_contract sid = Inr c \<longleftrightarrow> (sid, c) \<in> set SERIES_REGISTRY \<and> series_id c = sid)
   \<and> (is_ok (lookup_contract sid) \<longleftrightarrow> sid \<in> set (map fst SERIES_REGISTRY))
   \<and> OHLC_SERIES = [''vix'', ''vix9d'', ''vix3m'', ''vix6m'', ''vix1y'', ''move'']"
proof -
  have fst: "map fst SERIES_REGISTRY = map series_id registry_entries"
    by (simp add: series_registry_eq)
  have "length SERIES_REGISTRY = 25"
    using arg_cong [OF registry_ids, of length] by (simp add: series_registry_eq)
  moreover have "(sid, c) \<in> set SERIES_REGISTRY \<Longrightarrow> series_id c = sid"
    by (auto simp: series_registry_eq)
  moreover have "map_of SERIES_REGISTRY sid = Some c \<longleftrightarrow> (sid, c) \<in> set SERIES_REGISTRY"
    by (rule map_of_eq_Some_iff) (simp add: fst registry_distinct)
  moreover have "map_of SERIES_REGISTRY sid = None \<longleftrightarrow> sid \<notin> set (map fst SERIES_REGISTRY)"
    by (simp add: map_of_eq_None_iff)
  moreover have "a = b" if "(sid, a) \<in> set SERIES_REGISTRY" "(sid, b) \<in> set SERIES_REGISTRY" for a b
    using that eq_key_imp_eq_value [of SERIES_REGISTRY sid a b] by (simp add: fst registry_distinct)
  ultimately show ?thesis
    by (auto simp: lookup_contract_def load_registry_ok series_registry_eq [symmetric] fst
        registry_distinct ohlc_series_eq split: option.split simp del: set_map)
qed

end
