(* ===== verification/Gold_Frame.thy ===== *)
theory Gold_Frame
  imports Silver Registry
begin

text \<open>
  \<open>src/application/gold_frame.py\<close>: the Gold columns and versions, the checks of Silver inputs, their
  signatures, and the assembly of the Gold frame as a full outer join of all series on the
  observation date.  The Silver inputs are an association list by series id.  \<open>csv\<close> is polars'
  \<open>write_csv\<close> as bytes and \<open>sha256\<close> the hexadecimal digest of \<open>hashlib\<close>: both are parameters.
\<close>

definition GOLD_SCHEMA_VERSION :: int where
  "GOLD_SCHEMA_VERSION = 11"

definition GOLD_FEATURE_VERSION :: int where
  "GOLD_FEATURE_VERSION = 6"

definition GOLD_SOURCE_SERIES :: "string list" where
  "GOLD_SOURCE_SERIES = map fst SERIES_REGISTRY"

definition level_column :: "string \<Rightarrow> string" where
  "level_column s = s @ ''_level''"

definition field_column :: "string \<Rightarrow> string \<Rightarrow> string" where
  "field_column s field = s @ ''_'' @ field"

definition GOLD_COLUMNS :: "string list" where
  "GOLD_COLUMNS = ''timestamp_m1'' # map level_column GOLD_SOURCE_SERIES
    @ concat (map (\<lambda>s. map (field_column s) OHLC_FIELDS) OHLC_SERIES)"

record gold_versions =
  gv_schema_version :: int
  gv_feature_version :: int

definition GoldSemanticVersions :: "int \<Rightarrow> int \<Rightarrow> gold_versions result" where
  "GoldSemanticVersions sv fv =
    rbind (raise_if (sv \<noteq> GOLD_SCHEMA_VERSION) ValueError
      ''schema_version is source-controlled and fixed at 11'') (\<lambda>_.
    rbind (raise_if (fv \<noteq> GOLD_FEATURE_VERSION) ValueError
      ''feature_version is source-controlled and fixed at 6'') (\<lambda>_.
    Inr \<lparr>gv_schema_version = sv, gv_feature_version = fv\<rparr>))"

definition GOLD_VERSIONS :: gold_versions where
  "GOLD_VERSIONS = \<lparr>gv_schema_version = GOLD_SCHEMA_VERSION, gv_feature_version = GOLD_FEATURE_VERSION\<rparr>"

text \<open>\<open>identities and identities != [series_id]\<close>: a null is an identity of its own.\<close>

definition wrong_identity :: "frame \<Rightarrow> string \<Rightarrow> bool" where
  "wrong_identity f s \<longleftrightarrow>
    column_cells f ''series_id'' \<noteq> [] \<and> set (column_cells f ''series_id'') \<noteq> {CStr s}"

definition validate_silver :: "polars \<Rightarrow> string \<Rightarrow> frame \<Rightarrow> frame result" where
  "validate_silver pl s f =
    rbind (raise_if (f_schema f \<noteq> SILVER_SCHEMA) ValueError (s @ '' Silver schema mismatch'')) (\<lambda>_.
    rbind (raise_if (wrong_identity f s) ValueError (s @ '' Silver identity mismatch'')) (\<lambda>_.
    rbind (raise_if (CNull \<in> set (column_cells f ''value'')) ValueError
      (s @ '' Silver value cannot be null'')) (\<lambda>_.
    rbind (raise_if (\<not> list_all cell_finite (column_cells f ''value'')) ValueError
      (s @ '' Silver value must be finite'')) (\<lambda>_.
    rbind (raise_if (\<not> distinct (column_cells f ''observation_date'')) ValueError
      (s @ '' Silver observation dates must be unique'')) (\<lambda>_.
    pl_sort pl [''observation_date''] f)))))"

section \<open>Provenance signatures\<close>

text \<open>\<open>column.min()\<close> and \<open>column.max()\<close>: null when there is no value.\<close>

fun cells_min :: "cell list \<Rightarrow> cell" where
  "cells_min [] = CNull"
| "cells_min (c # cs) =
    (let m = cells_min cs in if c = CNull then m else if m = CNull \<or> cell_key c \<le> cell_key m then c else m)"

fun cells_max :: "cell list \<Rightarrow> cell" where
  "cells_max [] = CNull"
| "cells_max (c # cs) =
    (let m = cells_max cs in if c = CNull then m else if m = CNull \<or> cell_key m \<le> cell_key c then c else m)"

text \<open>\<open>minimum is not None and not isinstance(minimum, date)\<close> raises.\<close>

definition date_or_none :: "string \<Rightarrow> cell \<Rightarrow> int option result" where
  "date_or_none what c =
    (case c of CNull \<Rightarrow> Inr None | CDate d \<Rightarrow> Inr (Some d)
     | _ \<Rightarrow> raise TypeError (''Silver '' @ what @ '' observation date must be Date''))"

record silver_input_signature =
  sig_series_id :: string
  sig_row_count :: int
  sig_min_observation_date :: "int option"
  sig_max_observation_date :: "int option"
  sig_sha256 :: string

record gold_frame_build =
  gfb_frame :: frame
  gfb_schema_version :: int
  gfb_feature_version :: int
  gfb_inputs :: "silver_input_signature list"

definition silver_signature ::
  "polars \<Rightarrow> (frame \<Rightarrow> byte list) \<Rightarrow> (byte list \<Rightarrow> string) \<Rightarrow> string \<Rightarrow> frame \<Rightarrow> silver_input_signature result"
where
  "silver_signature pl csv sha256 s f =
    rbind (raise_if (f_schema f \<noteq> SILVER_SCHEMA) ValueError (s @ '' Silver schema mismatch for provenance'')) (\<lambda>_.
    rbind (raise_if (wrong_identity f s) ValueError (s @ '' Silver identity mismatch for provenance'')) (\<lambda>_.
    rbind (pl_sort pl [''observation_date''] f) (\<lambda>ordered.
    let dates = column_cells ordered ''observation_date'' in
    rbind (date_or_none ''min'' (cells_min dates)) (\<lambda>minimum.
    rbind (date_or_none ''max'' (cells_max dates)) (\<lambda>maximum.
    Inr \<lparr>sig_series_id = s, sig_row_count = int (f_height ordered),
      sig_min_observation_date = minimum, sig_max_observation_date = maximum,
      sig_sha256 = sha256 (csv ordered)\<rparr>)))))"

text \<open>\<open>silver_by_series[series_id]\<close>\<close>

definition silver_of :: "(string \<times> frame) list \<Rightarrow> string \<Rightarrow> frame result" where
  "silver_of inputs s = (case map_of inputs s of None \<Rightarrow> raise KeyError s | Some f \<Rightarrow> Inr f)"

definition input_signatures ::
  "polars \<Rightarrow> (frame \<Rightarrow> byte list) \<Rightarrow> (byte list \<Rightarrow> string) \<Rightarrow> (string \<times> frame) list \<Rightarrow>
    silver_input_signature list result" where
  "input_signatures pl csv sha256 inputs =
    (let missing = filter (\<lambda>s. s \<notin> set (map fst inputs)) GOLD_SOURCE_SERIES in
     rbind (raise_if (missing \<noteq> []) KeyError
       (''missing Silver provenance inputs: '' @ join_with '', '' missing)) (\<lambda>_.
     rmap (\<lambda>s. rbind (silver_of inputs s) (silver_signature pl csv sha256 s)) GOLD_SOURCE_SERIES))"

section \<open>Assembly\<close>

definition gold_selection :: "string \<Rightarrow> (string \<times> pl_expr) list" where
  "gold_selection s =
    [(''timestamp_m1'', PlUtcMidnight ''observation_date''), (level_column s, PlCol ''value'')]
    @ (if s \<in> set OHLC_SERIES then map (\<lambda>field. (field_column s field, PlCol field)) OHLC_FIELDS else [])"

definition series_frame :: "polars \<Rightarrow> polars_ops \<Rightarrow> (string \<times> frame) list \<Rightarrow> string \<Rightarrow> frame result" where
  "series_frame pl ops inputs s =
    rbind (silver_of inputs s) (\<lambda>f. rbind (validate_silver pl s f) (pl_select ops (gold_selection s)))"

fun join_frames :: "polars_ops \<Rightarrow> frame \<Rightarrow> frame list \<Rightarrow> frame result" where
  "join_frames ops joined [] = Inr joined"
| "join_frames ops joined (f # fs) =
    rbind (pl_full_join ops ''timestamp_m1'' joined f) (\<lambda>joined. join_frames ops joined fs)"

definition check_numeric :: "frame \<Rightarrow> string \<Rightarrow> unit result" where
  "check_numeric f c =
    (let values = filter (\<lambda>x. x \<noteq> CNull) (column_cells f c) in
     raise_if (values \<noteq> [] \<and> \<not> list_all cell_finite values) ValueError
       (''non-finite canonical Gold feature: '' @ c))"

definition assemble_gold_frame ::
  "polars \<Rightarrow> polars_ops \<Rightarrow> (frame \<Rightarrow> byte list) \<Rightarrow> (byte list \<Rightarrow> string) \<Rightarrow> (string \<times> frame) list \<Rightarrow>
    gold_versions \<Rightarrow> gold_frame_build result" where
  "assemble_gold_frame pl ops csv sha256 inputs versions =
    rbind (rmap (series_frame pl ops inputs) GOLD_SOURCE_SERIES) (\<lambda>frames.
    rbind (join_frames ops (hd frames) (tl frames)) (\<lambda>joined.
    rbind (pl_sort pl [''timestamp_m1''] joined) (\<lambda>joined.
    rbind (pl_select ops (map (\<lambda>c. (c, PlCol c)) GOLD_COLUMNS) joined) (\<lambda>joined.
    rbind (pl_select ops ((''timestamp_m1'', PlCol ''timestamp_m1'')
      # map (\<lambda>c. (c, PlFillNan c)) (tl GOLD_COLUMNS)) joined) (\<lambda>joined.
    rbind (rfor (check_numeric joined) (tl GOLD_COLUMNS)) (\<lambda>_.
    rbind (raise_if (CNull \<in> set (column_cells joined ''timestamp_m1'')) ValueError
      ''canonical Gold timestamp_m1 cannot be null'') (\<lambda>_.
    rbind (raise_if (\<not> distinct (column_cells joined ''timestamp_m1'')) ValueError
      ''canonical Gold timestamp_m1 must be unique'') (\<lambda>_.
    rbind (raise_if (f_columns joined \<noteq> GOLD_COLUMNS) AssertionError ''canonical Gold column order drift'') (\<lambda>_.
    rbind (raise_if (''observation_date'' \<in> set (f_columns joined)) AssertionError
      ''canonical Gold cannot contain observation_date'') (\<lambda>_.
    rbind (input_signatures pl csv sha256 inputs) (\<lambda>signatures.
    Inr \<lparr>gfb_frame = joined, gfb_schema_version = gv_schema_version versions,
      gfb_feature_version = gv_feature_version versions, gfb_inputs = signatures\<rparr>)))))))))))"

section \<open>The columns\<close>

lemma source_series_eq: "GOLD_SOURCE_SERIES = map series_id registry_entries"
  by (simp add: GOLD_SOURCE_SERIES_def series_registry_eq comp_def)

lemma source_series: "GOLD_SOURCE_SERIES = [''vix'', ''vix9d'', ''vix3m'', ''vix6m'', ''vix1y'', ''vstoxx'', ''vstoxx1m'', ''vstoxx2m'', ''vstoxx3m'', ''move'', ''ciss'', ''ciss_money'', ''ciss_bonds'', ''ciss_equity'', ''ciss_financials'', ''estr'', ''euro_hy_oas'', ''euro_hy_yield'', ''euro_hy_ytw'', ''euro_hy_total_return'', ''us_2y'', ''us_10y'', ''usd_broad'', ''us_3m'', ''us_5y'']"
  unfolding source_series_eq registry_ids ..

lemmas gold_columns_eval = GOLD_COLUMNS_def source_series ohlc_series_eq OHLC_FIELDS_def level_column_def field_column_def

lemma gold_columns_distinct: "distinct GOLD_COLUMNS"
  by (simp add: gold_columns_eval)

lemma gold_columns_tl: "GOLD_COLUMNS = ''timestamp_m1'' # tl GOLD_COLUMNS"
  by (simp add: GOLD_COLUMNS_def)

lemma timestamp_not_feature: "''timestamp_m1'' \<notin> set (tl GOLD_COLUMNS)"
  using gold_columns_distinct by (subst (asm) gold_columns_tl) simp

lemma gold_columns_length: "length GOLD_COLUMNS = 50"
  by (simp add: gold_columns_eval)

lemma ohlc_in_source: "s \<in> set OHLC_SERIES \<Longrightarrow> s \<in> set GOLD_SOURCE_SERIES"
  by (auto simp: source_series ohlc_series_eq)

lemma source_series_distinct: "distinct GOLD_SOURCE_SERIES"
  by (simp add: source_series)

end
