(* ===== verification/Gold_Publication.thy ===== *)
theory Gold_Publication
  imports Gold_Catalog_Port Gold_Frame
begin

text \<open>
  \<open>src/application/gold_publication.py\<close>: the publication state machine.  Its collaborators are the
  fields of \<open>publisher\<close>; \<open>'w\<close> is the world they act on, \<open>'f\<close> the type of Gold frames and \<open>'i\<close> the
  type of the Silver input signatures.  The locale \<open>gold_publisher\<close> assumes the catalog port and that
  no other collaborator touches the catalog, and proves that replacing the catalog is the only commit
  point of a publication.
\<close>

definition DATASET_ID :: string where
  "DATASET_ID = ''macro_features_daily''"

definition publication_utc :: "datetime \<Rightarrow> datetime result" where
  "publication_utc d =
    (if \<not> is_aware d then raise ValueError ''Gold publication clock must be timezone-aware''
     else Inr (astimezone_utc d))"

record gold_bundle =
  cand_build_id :: string
  cand_completed_at_utc :: datetime
  cand_schema_version :: int
  cand_feature_version :: int
  cand_row_count :: int
  cand_min_timestamp :: "datetime option"
  cand_max_timestamp :: "datetime option"
  cand_data_path :: string
  cand_build_manifest_path :: string
  cand_plot_path :: string

record ('w, 'f, 'i) publisher =
  pub_read :: "('w, gold_record list) io"
  pub_replace :: "gold_record list \<Rightarrow> ('w, unit) io"
  pub_next_build_id :: "('w, string) io"
  pub_create_and_validate :: "'f \<Rightarrow> string \<Rightarrow> datetime \<Rightarrow> 'i \<Rightarrow> ('w, gold_bundle) io"
  pub_refresh_views :: "gold_record list \<Rightarrow> ('w, unit) io"
  pub_mirror_sync :: "('w, unit) io option"
  pub_clock :: "('w, datetime) io"
  pub_event :: "string \<Rightarrow> ('w, unit) io"

section \<open>Operations\<close>

text \<open>The row of an attempt that is finalized as failed.\<close>

definition failed_row :: "datetime \<Rightarrow> gold_record \<Rightarrow> gold_record" where
  "failed_row failed_at r = r\<lparr>status := FAILED, current := False, completed_at_utc := Some failed_at,
    min_timestamp := None, max_timestamp := None, row_count := None, data_path := None,
    build_manifest_path := None, plot_path := None, pruned_at_utc := None\<rparr>"

definition fail_stale :: "datetime \<Rightarrow> gold_record list \<Rightarrow> gold_record list" where
  "fail_stale failed_at records =
    (let stale_ids = map build_id (filter (\<lambda>r. status r = BUILDING \<and> \<not> current r) records)
     in map (\<lambda>r. if build_id r \<in> set stale_ids then failed_row failed_at r else r) records)"

definition reconcile :: "('w, 'f, 'i) publisher \<Rightarrow> ('w, gold_record list) io" where
  "reconcile P =
    bind (pub_read P) (\<lambda>records.
      if list_ex (\<lambda>r. current r \<and> status r = BUILDING) records
      then throw (Exn ValueError ''current Gold building row is invalid and requires manual recovery'')
      else
        bind (if filter (\<lambda>r. status r = BUILDING \<and> \<not> current r) records \<noteq> [] then
                bind (pub_clock P) (\<lambda>now.
                bind (lift (publication_utc now)) (\<lambda>failed_at.
                seq (pub_replace P (fail_stale failed_at records))
                  (seq (pub_event P ''catalog:stale-building-failed'') (ret (fail_stale failed_at records)))))
              else ret records) (\<lambda>records'.
        seq (pub_refresh_views P records')
          (seq (pub_event P ''views:reconciled'') (ret records'))))"

definition building_row :: "string \<Rightarrow> datetime \<Rightarrow> gold_record" where
  "building_row bid started =
    \<lparr>dataset_id = DATASET_ID, build_id = bid, status = BUILDING, current = False,
     started_at_utc = started, completed_at_utc = None, schema_version = GOLD_SCHEMA_VERSION,
     feature_version = GOLD_FEATURE_VERSION, min_timestamp = None, max_timestamp = None,
     row_count = None, data_path = None, build_manifest_path = None, plot_path = None,
     pruned_at_utc = None\<rparr>"

definition complete_row :: "gold_record \<Rightarrow> gold_bundle \<Rightarrow> datetime \<Rightarrow> gold_record" where
  "complete_row attempt c completed = attempt\<lparr>status := COMPLETE, current := True,
    completed_at_utc := Some completed, schema_version := cand_schema_version c,
    feature_version := cand_feature_version c, min_timestamp := cand_min_timestamp c,
    max_timestamp := cand_max_timestamp c, row_count := Some (cand_row_count c),
    data_path := Some (cand_data_path c), build_manifest_path := Some (cand_build_manifest_path c),
    plot_path := Some (cand_plot_path c), pruned_at_utc := None\<rparr>"

definition promoted_records :: "gold_record list \<Rightarrow> gold_bundle \<Rightarrow> gold_record list result" where
  "promoted_records registered c =
    rbind (raise_if (cand_schema_version c \<noteq> GOLD_SCHEMA_VERSION)
             ValueError ''Gold candidate schema_version mismatch'') (\<lambda>_.
    rbind (raise_if (cand_feature_version c \<noteq> GOLD_FEATURE_VERSION)
             ValueError ''Gold candidate feature_version mismatch'') (\<lambda>_.
    (case filter (\<lambda>r. build_id r = cand_build_id c) registered of
       [attempt] \<Rightarrow>
         if status attempt \<noteq> BUILDING \<or> current attempt
         then raise ValueError ''Gold candidate attempt is not a non-current building row''
         else rbind (publication_utc (cand_completed_at_utc c)) (\<lambda>completed.
           Inr (map (\<lambda>r. if build_id r = cand_build_id c then complete_row attempt c completed
                         else if current r then r\<lparr>current := False\<rparr> else r) registered))
     | _ \<Rightarrow> raise ValueError ''Gold candidate build_id does not match exactly one registered attempt'')))"

definition finalize_failed_if_uncommitted :: "('w, 'f, 'i) publisher \<Rightarrow> string \<Rightarrow> ('w, unit) io" where
  "finalize_failed_if_uncommitted P bid =
    bind (pub_read P) (\<lambda>records.
      case find (\<lambda>r. build_id r = bid) records of
        None \<Rightarrow> ret ()
      | Some target \<Rightarrow>
          if status target \<noteq> BUILDING then ret ()
          else
            bind (pub_clock P) (\<lambda>now.
            bind (lift (publication_utc now)) (\<lambda>failed_at.
            let replaced = map (\<lambda>r. if build_id r = bid then failed_row failed_at target else r) records in
            seq (pub_replace P replaced)
              (seq (pub_event P ''catalog:failed'')
                (try_except
                  (seq (pub_refresh_views P replaced) (pub_event P ''views:failed''))
                  (\<lambda>_. True) (\<lambda>_. pub_event P ''views:failed-refresh-error''))))))"

text \<open>The part of \<open>publish\<close> inside the first \<open>try\<close>: views, bundle, promotion.\<close>

definition build_and_promote ::
  "('w, 'f, 'i) publisher \<Rightarrow> 'f \<Rightarrow> 'i \<Rightarrow> string \<Rightarrow> datetime \<Rightarrow> gold_record list \<Rightarrow> ('w, gold_record list) io"
  where
  "build_and_promote P frame inputs bid started registered =
    seq (pub_refresh_views P registered)
      (seq (pub_event P ''views:building'')
        (bind (pub_create_and_validate P frame bid started inputs) (\<lambda>candidate.
          seq (pub_event P ''bundle:validated'')
            (bind (lift (promoted_records registered candidate)) (\<lambda>promoted.
              seq (pub_replace P promoted)
                (seq (pub_event P ''catalog:promoted'') (ret promoted)))))))"

text \<open>What follows the commit: refresh the views, synchronize the mirror, return the new row.\<close>

definition after_commit ::
  "('w, 'f, 'i) publisher \<Rightarrow> string \<Rightarrow> gold_record list \<Rightarrow> ('w, gold_record) io" where
  "after_commit P bid promoted =
    (case find (\<lambda>r. build_id r = bid) promoted of
       None \<Rightarrow> throw (Exn StopIteration [])
     | Some cur \<Rightarrow>
         seq (try_except
               (seq (pub_refresh_views P promoted) (pub_event P ''views:promoted''))
               (\<lambda>_. True)
               (\<lambda>e. seq (pub_event P ''views:promoted-failed'') (throw e)))
           (case pub_mirror_sync P of
              None \<Rightarrow> ret cur
            | Some sync \<Rightarrow> seq sync (seq (pub_event P ''mirror:synchronized'') (ret cur))))"

definition publish :: "('w, 'f, 'i) publisher \<Rightarrow> 'f \<Rightarrow> 'i \<Rightarrow> ('w, gold_record) io" where
  "publish P frame inputs =
    bind (reconcile P) (\<lambda>records.
    bind (pub_next_build_id P) (\<lambda>bid.
    bind (pub_clock P) (\<lambda>now.
    bind (lift (publication_utc now)) (\<lambda>started.
    let registered = records @ [building_row bid started] in
    seq (pub_replace P registered)
      (seq (pub_event P ''catalog:building'')
        (bind
          (try_except (build_and_promote P frame inputs bid started registered)
             (\<lambda>_. True) (\<lambda>e. seq (finalize_failed_if_uncommitted P bid) (throw e)))
          (after_commit P bid)))))))"

section \<open>The abstract view of a publication\<close>

text \<open>
  \<open>settled old rows\<close>: nothing has been published since \<open>old\<close>.  Every finished row of \<open>old\<close> is still
  there unchanged, and any other row is an unfinished or failed attempt that is not current.
\<close>

definition settled :: "gold_record list \<Rightarrow> gold_record list \<Rightarrow> bool" where
  "settled old rows \<longleftrightarrow>
    (\<forall>r \<in> set old. status r \<noteq> BUILDING \<longrightarrow> r \<in> set rows)
    \<and> (\<forall>r \<in> set rows. r \<in> set old \<or> (status r \<noteq> COMPLETE \<and> \<not> current r))"

text \<open>
  \<open>published old new rows\<close>: \<open>new\<close> has been published on top of \<open>old\<close>.  It is a complete selectable
  build of the program's versions under an id \<open>old\<close> does not have; the finished rows of \<open>old\<close> are
  kept, no longer current, and any other row is an unfinished or failed attempt.
\<close>

definition published :: "gold_record list \<Rightarrow> gold_record \<Rightarrow> gold_record list \<Rightarrow> bool" where
  "published old new rows \<longleftrightarrow>
    new \<in> set rows \<and> current new \<and> selectable_complete new
    \<and> schema_version new = GOLD_SCHEMA_VERSION \<and> feature_version new = GOLD_FEATURE_VERSION
    \<and> build_id new \<notin> build_id ` set old
    \<and> (\<forall>r \<in> set old. status r \<noteq> BUILDING \<longrightarrow> r\<lparr>current := False\<rparr> \<in> set rows)
    \<and> (\<forall>r \<in> set rows. r = new \<or> \<not> current r \<and> (status r = COMPLETE \<longrightarrow> (\<exists>q \<in> set old. r = q\<lparr>current := False\<rparr>)))"

lemma current_update_id: "\<not> current r \<Longrightarrow> r\<lparr>current := False\<rparr> = r"
  by simp

lemma settled_refl: "settled rs rs"
  by (simp add: settled_def)

lemma settled_current:
  assumes "settled old rows" "valid_catalog old" "valid_catalog rows"
  shows "filter current rows = filter current old"
proof -
  have "status r \<noteq> BUILDING" if "r \<in> set old" "current r" for r
    using valid_catalog_record [OF assms(2) that(1)] that(2) by (auto simp: valid_record_def)
  then have "set (filter current rows) = set (filter current old)"
    using assms(1) by (auto simp: settled_def)
  then show ?thesis
    using same_current assms(2,3) by blast
qed

lemma published_current:
  assumes "published old new rows" "valid_catalog rows"
  shows "filter current rows = [new]"
proof -
  have "new \<in> set (filter current rows)" using assms(1) by (simp add: published_def)
  moreover have "length (filter current rows) \<le> 1"
    using assms(2) by (rule valid_catalog_current)
  ultimately show ?thesis
    unfolding length_le_1_iff by (metis empty_iff list.set(1) set_ConsD)
qed

lemma published_settled:
  assumes "published old new rows" "settled rows rows'" "valid_catalog rows" "valid_catalog rows'"
  shows "new \<in> set rows'"
  using assms by (auto simp: published_def settled_def selectable_complete_def)

section \<open>How each step changes the catalog\<close>

lemma settled_canonical:
  "list_all is_utc_record rows \<Longrightarrow> settled old rows \<Longrightarrow> settled old (canonical_catalog rows)"
  by (simp add: settled_def set_canonical list_all_iff utc_record_id)

lemma failed_row_simps [simp]:
  "build_id (failed_row t r) = build_id r" "status (failed_row t r) = FAILED"
  "\<not> current (failed_row t r)"
  by (simp_all add: failed_row_def)

lemma failed_row_utc: "is_utc_record r \<Longrightarrow> is_utc t \<Longrightarrow> is_utc_record (failed_row t r)"
  by (simp add: failed_row_def is_utc_record_iff)

lemma publication_utc_Inr: "publication_utc d = Inr t \<Longrightarrow> is_utc t"
  by (auto simp: publication_utc_def split: if_splits)

lemma fail_stale_ids: "map build_id (fail_stale t rs) = map build_id rs"
  by (auto simp: fail_stale_def Let_def)

lemma fail_stale_same:
  assumes "distinct (map build_id rs)" "r \<in> set rs"
  shows "build_id r \<in> build_id ` set (filter (\<lambda>r. status r = BUILDING \<and> \<not> current r) rs) \<longleftrightarrow>
    status r = BUILDING \<and> \<not> current r"
  using assms by (auto dest: distinct_map_eqD)

lemma fail_stale_eq:
  assumes "distinct (map build_id rs)"
  shows "fail_stale t rs = map (\<lambda>r. if status r = BUILDING \<and> \<not> current r then failed_row t r else r) rs"
  unfolding fail_stale_def Let_def set_map using fail_stale_same [OF assms] by (intro map_cong) auto

lemma fail_stale_settled:
  assumes "distinct (map build_id rs)" shows "settled rs (fail_stale t rs)"
  unfolding fail_stale_eq [OF assms] settled_def by force

lemma fail_stale_utc:
  "list_all is_utc_record rs \<Longrightarrow> is_utc t \<Longrightarrow> list_all is_utc_record (fail_stale t rs)"
  by (auto simp: fail_stale_def Let_def list_all_iff failed_row_utc)

lemma fail_stale_no_building:
  assumes "valid_catalog rs" shows "\<forall>r \<in> set (fail_stale t rs). status r \<noteq> BUILDING"
  using valid_catalog_record [OF assms]
  unfolding fail_stale_eq [OF valid_catalog_distinct [OF assms]] by (auto simp: valid_record_def)

lemma building_row_simps [simp]:
  "build_id (building_row b t) = b" "status (building_row b t) = BUILDING" "\<not> current (building_row b t)"
  by (simp_all add: building_row_def)

lemma building_row_utc: "is_utc t \<Longrightarrow> is_utc_record (building_row b t)"
  by (simp add: building_row_def is_utc_record_iff)

lemma settled_register: "settled old rs \<Longrightarrow> settled old (rs @ [building_row b t])"
  by (auto simp: settled_def)

lemma promoted_records_Inr:
  assumes "promoted_records rs c = Inr rs'"
  shows "\<exists>a t. filter (\<lambda>r. build_id r = cand_build_id c) rs = [a] \<and> status a = BUILDING \<and> \<not> current a
    \<and> cand_schema_version c = GOLD_SCHEMA_VERSION \<and> cand_feature_version c = GOLD_FEATURE_VERSION
    \<and> publication_utc (cand_completed_at_utc c) = Inr t
    \<and> rs' = map (\<lambda>r. if build_id r = cand_build_id c then complete_row a c t
                     else if current r then r\<lparr>current := False\<rparr> else r) rs"
  using assms
  by (auto simp: promoted_records_def rbind_Inr split: list.splits if_splits)

lemma complete_row_simps [simp]:
  "build_id (complete_row a c t) = build_id a" "status (complete_row a c t) = COMPLETE"
  "current (complete_row a c t)" "pruned_at_utc (complete_row a c t) = None"
  "schema_version (complete_row a c t) = cand_schema_version c"
  "feature_version (complete_row a c t) = cand_feature_version c"
  by (simp_all add: complete_row_def)

lemma promoted_published:
  assumes promoted: "promoted_records rs c = Inr rs'"
    and old: "settled old rs" "build_id ` set old \<subseteq> build_id ` set records"
    and rs: "rs = records @ [building_row b t]" "distinct (map build_id rs)" "list_all is_utc_record rs"
      "\<forall>r \<in> set records. status r \<noteq> BUILDING"
    and valid: "valid_catalog rs'"
  shows "\<exists>cur. find (\<lambda>r. build_id r = b) rs' = Some cur \<and> build_id cur = b
    \<and> published old (utc_record cur) (canonical_catalog rs')"
proof -
  obtain a u where a: "filter (\<lambda>r. build_id r = cand_build_id c) rs = [a]" "status a = BUILDING"
      "cand_schema_version c = GOLD_SCHEMA_VERSION" "cand_feature_version c = GOLD_FEATURE_VERSION"
    and rs': "rs' = map (\<lambda>r. if build_id r = cand_build_id c then complete_row a c u
                     else if current r then r\<lparr>current := False\<rparr> else r) rs"
    using promoted_records_Inr [OF promoted] by blast
  have "a \<in> set rs" "build_id a = cand_build_id c"
    using a(1) by (metis (mono_tags) filter_eq_Cons_iff in_set_conv_decomp, metis (mono_tags) filter_eq_Cons_iff)
  then have "a = building_row b t"
    using a(2) rs(1,4) by auto
  then have b: "cand_build_id c = b"
    using \<open>build_id a = cand_build_id c\<close> by simp
  let ?new = "complete_row a c u"
  have b_new: "b \<notin> build_id ` set records"
    using rs(1,2) by auto
  have rs'_eq: "rs' = map (\<lambda>r. if current r then r\<lparr>current := False\<rparr> else r) records @ [?new]"
    unfolding rs' rs(1) b using b_new by (auto intro!: map_cong)
  have find: "find (\<lambda>r. build_id r = b) rs' = Some ?new"
  proof -
    have "find (\<lambda>r. build_id r = b) (map (\<lambda>r. if current r then r\<lparr>current := False\<rparr> else r) records) = None"
      using b_new by (auto simp: find_None_iff)
    then show ?thesis
      unfolding rs'_eq using \<open>a = building_row b t\<close> by (induction records) (auto split: if_splits)
  qed
  have utc: "utc_record r = r" if "r \<in> set records" for r
    using that rs(1,3) by (simp add: list_all_iff utc_record_id)
  have utc_demoted: "utc_record (r\<lparr>current := False\<rparr>) = r\<lparr>current := False\<rparr>" if "r \<in> set records" for r
    using that rs(1,3) by (intro utc_record_id) (auto simp: list_all_iff is_utc_record_iff)
  have can: "set (canonical_catalog rs') = (\<lambda>r. r\<lparr>current := False\<rparr>) ` set records \<union> {utc_record ?new}"
  proof -
    have "utc_record (if current r then r\<lparr>current := False\<rparr> else r) = r\<lparr>current := False\<rparr>"
      if "r \<in> set records" for r
      using utc [OF that] utc_demoted [OF that] by simp
    then have "(\<lambda>r. utc_record (if current r then r\<lparr>current := False\<rparr> else r)) ` set records
        = (\<lambda>r. r\<lparr>current := False\<rparr>) ` set records"
      by (rule image_cong [OF refl])
    then show ?thesis
      unfolding set_canonical rs'_eq set_append set_map image_Un image_image
      by (simp only: list.set image_insert image_empty)
  qed
  have new: "valid_record ?new"
    using valid_catalog_record [OF valid, of ?new] rs'_eq by simp
  have "selectable_complete ?new"
    using new by (simp add: valid_selectable_iff)
  moreover have "b \<notin> build_id ` set old"
    using old(2) b_new by blast
  moreover have "r\<lparr>current := False\<rparr> \<in> set (canonical_catalog rs')" if "r \<in> set old" "status r \<noteq> BUILDING" for r
    using old(1) that rs(1) unfolding can settled_def by (auto simp: building_row_def)
  moreover have "r = utc_record ?new \<or> \<not> current r \<and> (status r = COMPLETE \<longrightarrow> (\<exists>q \<in> set old. r = q\<lparr>current := False\<rparr>))"
    if "r \<in> set (canonical_catalog rs')" for r
    using that old(1) rs(1) unfolding can settled_def by auto
  ultimately have "published old (utc_record ?new) (canonical_catalog rs')"
    unfolding published_def using a(3,4) \<open>a = building_row b t\<close> can by auto
  with find \<open>a = building_row b t\<close> show ?thesis by auto
qed

lemma finalize_settled:
  assumes "settled old rows" "distinct (map build_id rows)" "find (\<lambda>r. build_id r = b) rows = Some x"
    "status x = BUILDING"
  shows "settled old (map (\<lambda>r. if build_id r = b then failed_row t x else r) rows)"
proof -
  have x: "x \<in> set rows" "build_id x = b"
    using assms(3) by (auto simp: find_Some_iff)
  have "r = x" if "r \<in> set rows" "build_id r = b" for r
    using distinct_map_eqD [OF assms(2) that(1) x(1)] that(2) x(2) by simp
  then show ?thesis
    using assms(1,4) unfolding settled_def by (force simp: image_iff)
qed

section \<open>Replacing the catalog is the only commit point\<close>

locale gold_publisher = gold_catalog_port view "pub_read P" "pub_replace P"
  for view :: "'w \<Rightarrow> gold_record list option" and P :: "('w, 'f, 'i) publisher" +
  assumes next_build_id_preserves: "preserves view (pub_next_build_id P)"
    and create_preserves: "preserves view (pub_create_and_validate P f b t i)"
    and views_preserves: "preserves view (pub_refresh_views P rs)"
    and mirror_preserves: "pub_mirror_sync P = Some m \<Longrightarrow> preserves view m"
    and clock_preserves: "preserves view (pub_clock P)"
    and event_preserves: "preserves view (pub_event P e)"
begin

lemmas port_preserves = next_build_id_preserves create_preserves views_preserves mirror_preserves
  clock_preserves event_preserves read_preserves

text \<open>The catalog before the commit, and after it.\<close>

definition pending :: "gold_record list \<Rightarrow> 'w \<Rightarrow> bool" where
  "pending old w \<longleftrightarrow> (\<exists>rs. view w = Some rs \<and> settled old rs)"

definition committed :: "gold_record list \<Rightarrow> string \<Rightarrow> 'w \<Rightarrow> bool" where
  "committed old b w \<longleftrightarrow> (\<exists>rs new. view w = Some rs \<and> published old new rs \<and> build_id new = b)"

lemma keeps_pending: "preserves view m \<Longrightarrow> hoare (pending old) m (\<lambda>_. pending old) (\<lambda>_. pending old)"
  unfolding pending_def using preserves_hoare [where P = "\<lambda>v. \<exists>rs. v = Some rs \<and> settled old rs"] .

lemma keeps_committed:
  "preserves view m \<Longrightarrow> hoare (committed old b) m (\<lambda>_. committed old b) (\<lambda>_. committed old b)"
  unfolding committed_def
  using preserves_hoare [where P = "\<lambda>v. \<exists>rs new. v = Some rs \<and> published old new rs \<and> build_id new = b"] .

lemma view_utc: "view w = Some rs \<Longrightarrow> list_all is_utc_record rs"
  using view_valid by blast

lemma replace_pending:
  assumes "settled old rs" "list_all is_utc_record rs"
  shows "hoare (pending old) (pub_replace P rs) (\<lambda>_ w. pending old w \<and> valid_catalog rs) (\<lambda>_. pending old)"
  using settled_canonical [OF assms(2,1)]
  by (intro hoareI) (auto simp: pending_def dest: replace_Inr replace_Inl)

text \<open>What \<open>reconcile\<close> returns.\<close>

definition reconciled :: "gold_record list \<Rightarrow> gold_record list \<Rightarrow> bool" where
  "reconciled old rs \<longleftrightarrow> settled old rs \<and> list_all is_utc_record rs \<and> valid_catalog rs
    \<and> build_id ` set old = build_id ` set rs \<and> (\<forall>r \<in> set rs. status r \<noteq> BUILDING)"

lemma reconciled_fail_stale:
  assumes "view w = Some old" "is_utc t" "valid_catalog (fail_stale t old)"
  shows "reconciled old (fail_stale t old)"
  using assms view_valid [OF assms(1)] fail_stale_ids [of t old]
  by (auto simp: reconciled_def fail_stale_settled fail_stale_utc fail_stale_no_building valid_catalog_distinct
      simp flip: set_map)

lemma reconciled_clean:
  assumes "view w = Some old" "filter (\<lambda>r. status r = BUILDING \<and> \<not> current r) old = []"
  shows "reconciled old old"
  using assms view_valid [OF assms(1)]
  by (auto simp: reconciled_def settled_refl filter_empty_conv valid_record_def dest!: valid_catalog_record)

text \<open>The catalog holds the rows, in some order.\<close>

definition holds :: "gold_record list \<Rightarrow> 'w \<Rightarrow> bool" where
  "holds rs w \<longleftrightarrow> (\<exists>rs'. view w = Some rs' \<and> set rs' = set rs)"

lemma keeps_holds: "preserves view m \<Longrightarrow> hoare (holds rs) m (\<lambda>_. holds rs) (\<lambda>_. holds rs)"
  unfolding holds_def using preserves_hoare [where P = "\<lambda>v. \<exists>rs'. v = Some rs' \<and> set rs' = set rs"] .

lemma holds_pending: "holds rs w \<Longrightarrow> reconciled old rs \<Longrightarrow> pending old w"
  by (auto simp: holds_def pending_def reconciled_def settled_def)

lemma keeps_held:
  assumes "preserves view m" "reconciled old rs"
  shows "hoare (holds rs) m (\<lambda>_. holds rs) (\<lambda>_. pending old)"
  by (rule hoare_conseq [OF keeps_holds [OF assms(1)]]) (use holds_pending assms(2) in auto)

lemma reconcile_catalog:
  "hoare (\<lambda>w. view w = Some old) (reconcile P) (\<lambda>rs w. holds rs w \<and> reconciled old rs) (\<lambda>_. pending old)"
proof -
  have pending_old: "pending old w" if "view w = Some old" for w
    using that settled_refl by (auto simp: pending_def)
  have read: "hoare (\<lambda>w. view w = Some old) (pub_read P) (\<lambda>rs w. view w = Some old \<and> rs = old) (\<lambda>_. pending old)"
    by (intro hoareI conjI) (metis pending_old read_after read_view option.inject)+
  have clock: "hoare (\<lambda>w. view w = Some old) (pub_clock P) (\<lambda>_ w. view w = Some old) (\<lambda>_. pending old)"
    by (intro hoareI) (metis pending_old preservesD clock_preserves)+
  have event: "hoare (holds rs) (seq (pub_event P e) (ret rs))
      (\<lambda>rs w. holds rs w \<and> reconciled old rs) (\<lambda>_. pending old)" if "reconciled old rs" for e rs
    by (rule hoare_seq [OF keeps_held [OF event_preserves that]], rule hoare_ret) (use that in simp)
  have finalize: "hoare (\<lambda>w. view w = Some old)
      (seq (pub_replace P (fail_stale t old)) (seq (pub_event P e) (ret (fail_stale t old))))
      (\<lambda>rs w. holds rs w \<and> reconciled old rs) (\<lambda>_. pending old)" if t: "is_utc t" for t e
  proof (rule hoare_at)
    fix w assume w: "view w = Some old"
    have settled: "settled old (fail_stale t old)" and utc: "list_all is_utc_record (fail_stale t old)"
      using t view_valid [OF w] by (simp_all add: fail_stale_settled fail_stale_utc valid_catalog_distinct)
    have "hoare (\<lambda>w'. w' = w) (pub_replace P (fail_stale t old))
        (\<lambda>_ w'. holds (fail_stale t old) w' \<and> reconciled old (fail_stale t old)) (\<lambda>_. pending old)"
    proof (rule hoareI)
      fix w1 x w2 assume "w1 = w" "pub_replace P (fail_stale t old) w1 = (Inr x, w2)"
      then show "holds (fail_stale t old) w2 \<and> reconciled old (fail_stale t old)"
        using replace_Inr reconciled_fail_stale [OF w t] set_canonical_utc [OF utc] by (auto simp: holds_def)
    next
      fix w1 e w2 assume "w1 = w" "pub_replace P (fail_stale t old) w1 = (Inl e, w2)"
      then show "pending old w2"
        using hoareD_Inl [OF replace_pending [OF settled utc]] w pending_old by blast
    qed
    then show "hoare (\<lambda>w'. w' = w)
      (seq (pub_replace P (fail_stale t old)) (seq (pub_event P e) (ret (fail_stale t old))))
      (\<lambda>rs w. holds rs w \<and> reconciled old rs) (\<lambda>_. pending old)"
      by (rule hoare_seq) (rule hoare_pure, rule event)
  qed
  have clean: "hoare (\<lambda>w. view w = Some old) (ret old) (\<lambda>rs w. holds rs w \<and> reconciled old rs) E"
    if "filter (\<lambda>r. status r = BUILDING \<and> \<not> current r) old = []" for E
    using that reconciled_clean by (intro hoare_ret) (auto simp: holds_def)
  have stale: "hoare (\<lambda>w. view w = Some old)
     (bind (pub_clock P) (\<lambda>now. bind (lift (publication_utc now)) (\<lambda>t.
        seq (pub_replace P (fail_stale t old)) (seq (pub_event P e) (ret (fail_stale t old))))))
     (\<lambda>rs w. holds rs w \<and> reconciled old rs) (\<lambda>_. pending old)" for e
    apply (rule hoare_bind [OF clock])
    apply (rule hoare_bind [where R = "\<lambda>t w. view w = Some old \<and> is_utc t"])
     apply (rule hoare_lift; use pending_old publication_utc_Inr in blast)
    apply (rule hoare_pure, erule finalize)
    done
  show ?thesis
    unfolding reconcile_def
    apply (rule hoare_bind [OF read], rule hoare_pure, hypsubst)
    apply (rule hoare_if, rule hoare_throw, erule pending_old)
    apply (rule hoare_bind [where R = "\<lambda>rs w. holds rs w \<and> reconciled old rs"])
     apply (rule hoare_if, rule stale, rule clean, simp)
    apply (rule hoare_pure, rule hoare_seq [OF keeps_held [OF views_preserves]], assumption, erule event)
    done
qed

lemma reconcile_hoare:
  "hoare (\<lambda>w. view w = Some old) (reconcile P) (\<lambda>rs w. pending old w \<and> reconciled old rs) (\<lambda>_. pending old)"
  by (rule hoare_conseq [OF reconcile_catalog]) (use holds_pending in auto)

text \<open>The part inside the first \<open>try\<close>.\<close>

definition settled_or_published :: "gold_record list \<Rightarrow> string \<Rightarrow> 'w \<Rightarrow> bool" where
  "settled_or_published old b w \<longleftrightarrow> pending old w \<or> committed old b w"

lemma keeps_outcome:
  "preserves view m \<Longrightarrow>
    hoare (settled_or_published old b) m (\<lambda>_. settled_or_published old b) (\<lambda>_. settled_or_published old b)"
  unfolding settled_or_published_def pending_def committed_def
  using preserves_hoare [where P = "\<lambda>v. (\<exists>rs. v = Some rs \<and> settled old rs)
    \<or> (\<exists>rs new. v = Some rs \<and> published old new rs \<and> build_id new = b)"] .

lemma replace_promoted:
  assumes "reconciled old records" "registered = records @ [building_row b t]" "is_utc t"
    "valid_catalog registered" "promoted_records registered c = Inr promoted"
  shows "hoare (pending old) (pub_replace P promoted)
    (\<lambda>_ w. \<exists>cur. find (\<lambda>r. build_id r = b) promoted = Some cur
        \<and> (\<exists>rs. view w = Some rs \<and> published old (utc_record cur) rs \<and> build_id cur = b))
    (\<lambda>_. settled_or_published old b)"
proof -
  have settled: "settled old registered" and utc: "list_all is_utc_record registered"
    using assms(1-3) by (auto simp: reconciled_def settled_register building_row_utc)
  have *: "\<exists>cur. find (\<lambda>r. build_id r = b) promoted = Some cur \<and> build_id cur = b
      \<and> published old (utc_record cur) (canonical_catalog promoted)" if "valid_catalog promoted"
    by (rule promoted_published [OF assms(5) settled _ assms(2) valid_catalog_distinct [OF assms(4)] utc _ that])
      (use assms(1) in \<open>auto simp: reconciled_def\<close>)
  show ?thesis
  proof (rule hoareI)
    fix w x w' assume "pub_replace P promoted w = (Inr x, w')"
    with * replace_Inr show "\<exists>cur. find (\<lambda>r. build_id r = b) promoted = Some cur
        \<and> (\<exists>rs. view w' = Some rs \<and> published old (utc_record cur) rs \<and> build_id cur = b)"
      by blast
  next
    fix w e w' assume w: "pending old w" "pub_replace P promoted w = (Inl e, w')"
    from replace_Inl [OF w(2)] show "settled_or_published old b w'"
    proof
      assume "view w' = view w"
      with w(1) show ?thesis by (auto simp: settled_or_published_def pending_def)
    next
      assume "valid_catalog promoted \<and> view w' = Some (canonical_catalog promoted)"
      with * show ?thesis
        unfolding settled_or_published_def committed_def by (metis utc_record_simps(1))
    qed
  qed
qed

lemma build_and_promote_hoare:
  assumes "reconciled old records" "registered = records @ [building_row b t]" "is_utc t"
    "valid_catalog registered"
  shows "hoare (pending old) (build_and_promote P frame inputs b t registered)
    (\<lambda>promoted w. \<exists>cur. find (\<lambda>r. build_id r = b) promoted = Some cur
        \<and> (\<exists>rs. view w = Some rs \<and> published old (utc_record cur) rs \<and> build_id cur = b))
    (\<lambda>_. settled_or_published old b)"
proof -
  have step: "hoare (pending old) m (\<lambda>_. pending old) (\<lambda>_. settled_or_published old b)"
    if "preserves view m" for m :: "('w, 'x) io"
    by (rule hoare_conseq [OF keeps_pending [OF that]]) (auto simp: settled_or_published_def)
  have promoted: "hoare (pending old) (lift (promoted_records registered c))
      (\<lambda>promoted w. pending old w \<and> promoted_records registered c = Inr promoted)
      (\<lambda>_. settled_or_published old b)" for c
    by (rule hoare_lift) (auto simp: settled_or_published_def)
  have event: "hoare (\<lambda>w. Q (view w)) (seq (pub_event P e) (ret x)) (\<lambda>y w. Q (view w) \<and> y = x) (\<lambda>_ w. Q (view w))"
    for Q e and x :: "gold_record list"
    by (rule hoare_seq [OF preserves_hoare [OF event_preserves]], rule hoare_ret) simp
  let ?C = "\<lambda>promoted v. \<exists>cur. find (\<lambda>r. build_id r = b) promoted = Some cur
      \<and> (\<exists>rs. v = Some rs \<and> published old (utc_record cur) rs \<and> build_id cur = b)"
  have commit: "?C promoted (view w) \<Longrightarrow> settled_or_published old b w" for promoted w
    unfolding settled_or_published_def committed_def by (metis utc_record_simps(1))
  show ?thesis
    unfolding build_and_promote_def
    apply (rule hoare_seq [OF step [OF views_preserves]])
    apply (rule hoare_seq [OF step [OF event_preserves]])
    apply (rule hoare_bind [OF step [OF create_preserves]])
    apply (rule hoare_seq [OF step [OF event_preserves]])
    apply (rule hoare_bind [OF promoted], rule hoare_pure)
    apply (rule hoare_seq [OF replace_promoted [OF assms]], assumption)
    subgoal for c promoted
      by (rule hoare_conseq [OF event [of "?C promoted"]]) (use commit in blast)+
    done
qed

lemma replace_outcome:
  assumes "settled old rs" "list_all is_utc_record rs"
  shows "hoare (settled_or_published old b) (pub_replace P rs)
    (\<lambda>_. settled_or_published old b) (\<lambda>_. settled_or_published old b)"
proof -
  have new: "settled_or_published old b w" if "view w = Some (canonical_catalog rs)" for w
    using that settled_canonical [OF assms(2,1)] by (auto simp: settled_or_published_def pending_def)
  have same: "settled_or_published old b w'" if "settled_or_published old b w" "view w' = view w" for w w'
    using that by (simp add: settled_or_published_def pending_def committed_def)
  show ?thesis
    using replace_cases new same by (intro hoareI) blast+
qed

lemma finalize_hoare:
  "hoare (settled_or_published old b) (finalize_failed_if_uncommitted P b)
    (\<lambda>_. settled_or_published old b) (\<lambda>_. settled_or_published old b)"
proof -
  let ?O = "settled_or_published old b"
  have read: "hoare ?O (pub_read P) (\<lambda>rs w. ?O w \<and> valid_catalog rs \<and> list_all is_utc_record rs
      \<and> (settled old rs \<or> (\<exists>new. published old new rs \<and> build_id new = b))) (\<lambda>_. ?O)"
  proof (rule hoareI)
    fix w rs w' assume w: "?O w" "pub_read P w = (Inr rs, w')"
    then have "view w = Some rs" "view w' = Some rs"
      using read_view read_after by force+
    with w(1) view_valid show "?O w' \<and> valid_catalog rs \<and> list_all is_utc_record rs
      \<and> (settled old rs \<or> (\<exists>new. published old new rs \<and> build_id new = b))"
      by (auto simp: settled_or_published_def pending_def committed_def)
  qed (use hoareD_Inl [OF keeps_outcome [OF read_preserves]] in blast)
  have mark: "hoare (\<lambda>w. ?O w)
      (bind (pub_clock P) (\<lambda>now. bind (lift (publication_utc now)) (\<lambda>failed_at.
        let replaced = map (\<lambda>r. if build_id r = b then failed_row failed_at x else r) rs in
        seq (pub_replace P replaced) (seq (pub_event P ''catalog:failed'')
          (try_except (seq (pub_refresh_views P replaced) (pub_event P ''views:failed''))
            (\<lambda>_. True) (\<lambda>_. pub_event P ''views:failed-refresh-error''))))))
      (\<lambda>_. ?O) (\<lambda>_. ?O)"
    if rs: "settled old rs" "valid_catalog rs" "list_all is_utc_record rs"
      and x: "find (\<lambda>r. build_id r = b) rs = Some x" "status x = BUILDING" for rs x
  proof -
    have "x \<in> set rs" using x(1) by (auto simp: find_Some_iff)
    then have utc: "list_all is_utc_record (map (\<lambda>r. if build_id r = b then failed_row t x else r) rs)"
      if "is_utc t" for t
      using rs(3) that by (auto simp: list_all_iff failed_row_utc)
    have replace: "hoare ?O (pub_replace P (map (\<lambda>r. if build_id r = b then failed_row t x else r) rs))
        (\<lambda>_. ?O) (\<lambda>_. ?O)" if "is_utc t" for t
      by (rule replace_outcome [OF finalize_settled [OF rs(1) valid_catalog_distinct [OF rs(2)] x] utc [OF that]])
    have views: "preserves view (try_except (seq (pub_refresh_views P rs') (pub_event P e))
        (\<lambda>_. True) (\<lambda>_. pub_event P e'))" for rs' e e'
      by (intro preserves_intros views_preserves event_preserves)
    show ?thesis
      unfolding Let_def
      apply (rule hoare_bind [OF keeps_outcome [OF clock_preserves]])
      apply (rule hoare_bind [where R = "\<lambda>t w. ?O w \<and> is_utc t"])
       apply (rule hoare_lift; use publication_utc_Inr in blast)
      apply (rule hoare_pure)
      apply (rule hoare_seq [OF replace], assumption)
      apply (rule hoare_seq [OF keeps_outcome [OF event_preserves] keeps_outcome [OF views]])
      done
  qed
  have not_building: "status x \<noteq> BUILDING"
    if "published old new rs" "build_id new = b" "valid_catalog rs" "find (\<lambda>r. build_id r = b) rs = Some x"
    for new rs x
  proof -
    have "x \<in> set rs" "build_id x = build_id new" "new \<in> set rs"
      using that by (auto simp: find_Some_iff published_def)
    then have "x = new"
      using distinct_map_eqD [OF valid_catalog_distinct [OF that(3)]] by blast
    with that(1) show ?thesis by (auto simp: published_def selectable_complete_def)
  qed
  show ?thesis
    unfolding finalize_failed_if_uncommitted_def
    apply (rule hoare_bind [OF read], rule hoare_pure)
    subgoal for rs
      by (auto split: option.split intro!: hoare_ret mark dest: not_building)
    done
qed

lemma after_commit_preserves: "preserves view (after_commit P b promoted)"
proof -
  have mirror: "preserves view (case pub_mirror_sync P of None \<Rightarrow> ret cur
      | Some sync \<Rightarrow> seq sync (seq (pub_event P e) (ret cur)))" for cur :: gold_record and e
    by (cases "pub_mirror_sync P") (auto intro!: preserves_intros event_preserves mirror_preserves)
  show ?thesis
    unfolding after_commit_def
    by (intro preserves_intros views_preserves event_preserves mirror)
qed

lemma after_commit_Inr: "after_commit P b promoted w = (Inr cur, w') \<Longrightarrow> find (\<lambda>r. build_id r = b) promoted = Some cur"
  by (auto simp: after_commit_def io_inv throw_apply ret_apply split: option.splits)

lemma publish_hoare:
  "hoare (\<lambda>w. view w = Some old) (publish P frame inputs)
    (\<lambda>cur w. \<exists>rs. view w = Some rs \<and> published old (utc_record cur) rs)
    (\<lambda>_ w. \<exists>rs. view w = Some rs \<and> (settled old rs \<or> (\<exists>new. published old new rs)))"
proof -
  let ?X = "\<lambda>w. \<exists>rs. view w = Some rs \<and> (settled old rs \<or> (\<exists>new. published old new rs))"
  have X: "pending old w \<Longrightarrow> ?X w" "settled_or_published old b w \<Longrightarrow> ?X w" for w b
    by (auto simp: pending_def settled_or_published_def committed_def)
  have step: "hoare (pending old) m (\<lambda>_. pending old) (\<lambda>_. ?X)" if "preserves view m" for m :: "('w, 'x) io"
    by (rule hoare_conseq [OF keeps_pending [OF that]]) (use X in auto)
  let ?C = "\<lambda>b promoted v. \<exists>cur. find (\<lambda>r. build_id r = b) promoted = Some cur
      \<and> (\<exists>rs. v = Some rs \<and> published old (utc_record cur) rs \<and> build_id cur = b)"
  have tail: "hoare (\<lambda>w. ?C b promoted (view w)) (after_commit P b promoted)
      (\<lambda>cur w. \<exists>rs. view w = Some rs \<and> published old (utc_record cur) rs) (\<lambda>_. ?X)" for b promoted
  proof (rule hoareI)
    fix w cur w' assume w: "?C b promoted (view w)" "after_commit P b promoted w = (Inr cur, w')"
    then show "\<exists>rs. view w' = Some rs \<and> published old (utc_record cur) rs"
      using preservesD [OF after_commit_preserves w(2)] after_commit_Inr [OF w(2)] by auto
  next
    fix w e w' assume w: "?C b promoted (view w)" "after_commit P b promoted w = (Inl e, w')"
    then show "?X w'"
      using preservesD [OF after_commit_preserves w(2)] by auto
  qed
  have attempt: "hoare (pending old)
      (try_except (build_and_promote P frame inputs b t registered) (\<lambda>_. True)
         (\<lambda>e. seq (finalize_failed_if_uncommitted P b) (throw e)))
      (\<lambda>promoted w. ?C b promoted (view w)) (\<lambda>_. ?X)"
    if "reconciled old records" "registered = records @ [building_row b t]" "is_utc t"
      "valid_catalog registered" for b t registered records
  proof (rule hoare_try_except [OF build_and_promote_hoare [OF that]])
    have "hoare (settled_or_published old b) (finalize_failed_if_uncommitted P b)
        (\<lambda>_. settled_or_published old b) (\<lambda>_. ?X)"
      by (rule hoare_conseq [OF finalize_hoare]) (use X in auto)
    then show "hoare (settled_or_published old b) (seq (finalize_failed_if_uncommitted P b) (throw e))
        (\<lambda>promoted w. ?C b promoted (view w)) (\<lambda>_. ?X)" for e
      by (rule hoare_seq) (rule hoare_throw, erule X)
  qed simp
  have register: "hoare (pending old) (pub_replace P (records @ [building_row b t]))
      (\<lambda>_ w. pending old w \<and> valid_catalog (records @ [building_row b t])) (\<lambda>_. ?X)"
    if "reconciled old records" "is_utc t" for b t records
    by (rule hoare_conseq [OF replace_pending])
      (use that X in \<open>auto simp: reconciled_def settled_register building_row_utc\<close>)
  have start: "hoare (pending old) (lift (publication_utc now)) (\<lambda>t w. pending old w \<and> is_utc t) (\<lambda>_. ?X)" for now
    by (rule hoare_lift) (use X publication_utc_Inr in blast)+
  show ?thesis
    unfolding publish_def Let_def
    apply (rule hoare_bind [OF hoare_conseq [OF reconcile_hoare]], assumption, assumption, erule X)
    apply (rule hoare_pure)
    apply (rule hoare_bind [OF step [OF next_build_id_preserves]])
    apply (rule hoare_bind [OF step [OF clock_preserves]])
    apply (rule hoare_bind [OF start], rule hoare_pure)
    apply (rule hoare_seq [OF register], assumption, assumption, rule hoare_pure)
    apply (rule hoare_seq [OF step [OF event_preserves]])
    apply (rule hoare_bind [OF attempt], assumption, rule refl, assumption, assumption)
    apply (rule tail)
    done
qed

end

end
