(* ===== verification/Gold_Retention.thy ===== *)
theory Gold_Retention
  imports Gold_Catalog_Port
begin

text \<open>
  \<open>src/application/gold_retention.py\<close>: the mark-and-sweep retention of complete Gold builds.  The policy
  selects, per pair of schema and feature version, the oldest builds beyond the number to retain; the
  service tombstones their rows in the catalog and only then deletes files.  The locale
  \<open>gold_retention\<close> assumes the catalog port and harmless views and clock.
\<close>

definition retention_utc :: "datetime \<Rightarrow> datetime result" where
  "retention_utc d =
    (if \<not> is_aware d then raise ValueError ''Gold retention clock must be timezone-aware''
     else Inr (astimezone_utc d))"

section \<open>The policy\<close>

text \<open>\<open>GoldRetentionPolicy(retain_successful_builds)\<close>; the default is 5.\<close>

definition GoldRetentionPolicy :: "int \<Rightarrow> int result" where
  "GoldRetentionPolicy retain =
    rbind (raise_if (retain < 1) ValueError ''retain_successful_builds must be at least 1'') (\<lambda>_. Inr retain)"

definition completion_key :: "gold_record \<Rightarrow> (datetime \<times> string) result" where
  "completion_key r =
    (case completed_at_utc r of
       None \<Rightarrow> raise ValueError ''complete Gold retention candidate requires completed_at_utc''
     | Some t \<Rightarrow> Inr (t, build_id r))"

definition retained :: "gold_record \<Rightarrow> bool" where
  "retained r \<longleftrightarrow> status r = COMPLETE \<and> pruned_at_utc r = None \<and> artifact_paths_complete r"

definition version_key :: "gold_record \<Rightarrow> int \<times> int" where
  "version_key r = (schema_version r, feature_version r)"

text \<open>The builds of one version pair, in catalog order, and the ids selected among them.\<close>

definition version_group :: "gold_record list \<Rightarrow> int \<times> int \<Rightarrow> gold_record list" where
  "version_group records key = filter (\<lambda>r. retained r \<and> version_key r = key) records"

definition excess :: "int \<Rightarrow> gold_record list \<Rightarrow> nat" where
  "excess retain builds = nat (max 0 (int (length builds) - retain))"

definition select_in_group :: "int \<Rightarrow> gold_record list \<Rightarrow> string list result" where
  "select_in_group retain builds =
    (if excess retain builds = 0 then Inr []
     else
       rbind (sort_by completion_key (filter (\<lambda>r. \<not> current r) builds)) (\<lambda>candidates.
         if length candidates < excess retain builds
         then raise ValueError ''Gold retention cannot satisfy policy without pruning current''
         else Inr (map build_id (take (excess retain builds) candidates))))"

definition version_keys :: "gold_record list \<Rightarrow> (int \<times> int) list" where
  "version_keys records = sort (remdups (map version_key (filter retained records)))"

definition select_for_mark :: "int \<Rightarrow> gold_record list \<Rightarrow> string list result" where
  "select_for_mark retain records =
    rbind (rmap (\<lambda>key. select_in_group retain (version_group records key)) (version_keys records))
      (\<lambda>selected. Inr (concat selected))"

section \<open>The service\<close>

record 'w retention =
  ret_read :: "('w, gold_record list) io"
  ret_replace :: "gold_record list \<Rightarrow> ('w, unit) io"
  ret_sweep :: "string \<Rightarrow> ('w, unit) io"
  ret_refresh_views :: "gold_record list \<Rightarrow> ('w, unit) io"
  ret_clock :: "('w, datetime) io"

record retention_result =
  marked_build_ids :: "string list"
  swept_build_ids :: "string list"

definition tombstone :: "datetime \<Rightarrow> gold_record \<Rightarrow> gold_record" where
  "tombstone marked_at r = r\<lparr>current := False, data_path := None, build_manifest_path := None,
    plot_path := None, pruned_at_utc := Some marked_at\<rparr>"

definition mark_record :: "datetime \<Rightarrow> gold_record \<Rightarrow> gold_record result" where
  "mark_record marked_at r =
    rbind (raise_if (status r \<noteq> COMPLETE) ValueError ''only complete Gold builds may be marked for retention'') (\<lambda>_.
    rbind (raise_if (current r) ValueError ''current Gold build cannot be marked for retention'') (\<lambda>_.
    rbind (raise_if (pruned_at_utc r \<noteq> None) ValueError ''already-pruned Gold build cannot be marked again'') (\<lambda>_.
    rbind (raise_if (\<not> artifact_paths_complete r) ValueError ''Gold retention mark requires complete artifact paths'') (\<lambda>_.
    Inr (tombstone marked_at r)))))"

definition mark_records :: "datetime \<Rightarrow> string list \<Rightarrow> gold_record list \<Rightarrow> gold_record list result" where
  "mark_records marked_at ids records =
    rmap (\<lambda>r. if build_id r \<in> set ids then mark_record marked_at r else Inr r) records"

definition is_tombstone :: "gold_record \<Rightarrow> bool" where
  "is_tombstone r \<longleftrightarrow>
    status r = COMPLETE \<and> \<not> current r \<and> pruned_at_utc r \<noteq> None \<and> data_path r = None
      \<and> build_manifest_path r = None \<and> plot_path r = None"

definition marked_key :: "gold_record \<Rightarrow> (datetime \<times> string) result" where
  "marked_key r =
    (case pruned_at_utc r of
       None \<Rightarrow> raise ValueError ''marked Gold retention row requires pruned_at_utc''
     | Some t \<Rightarrow> Inr (t, build_id r))"

definition retention_mark :: "'w retention \<Rightarrow> string list \<Rightarrow> gold_record list \<Rightarrow> ('w, gold_record list) io" where
  "retention_mark R mark_ids records =
    (if mark_ids = [] then ret records
     else
       bind (ret_clock R) (\<lambda>now.
       bind (lift (retention_utc now)) (\<lambda>marked_at.
       bind (lift (mark_records marked_at mark_ids records)) (\<lambda>records'.
       seq (ret_replace R records') (seq (ret_refresh_views R records') (ret records'))))))"

definition retention_run :: "int \<Rightarrow> 'w retention \<Rightarrow> ('w, retention_result) io" where
  "retention_run retain R =
    bind (ret_read R) (\<lambda>records.
    bind (lift (select_for_mark retain records)) (\<lambda>mark_ids.
    bind (retention_mark R mark_ids records) (\<lambda>records'.
    let marked = filter is_tombstone records' in
    seq (if marked \<noteq> [] \<and> mark_ids = [] then ret_refresh_views R records' else ret ())
      (bind (lift (sort_by marked_key marked)) (\<lambda>queue.
       seq (for_each (\<lambda>r. ret_sweep R (build_id r)) queue)
         (ret \<lparr>marked_build_ids = mark_ids, swept_build_ids = map build_id queue\<rparr>))))))"

section \<open>The policy selects exactly the oldest excess builds\<close>

lemma completion_key_retained:
  assumes "valid_record r" "retained r"
  shows "completion_key r = Inr (the (completed_at_utc r), build_id r)
    \<and> is_aware (fst (the (completed_at_utc r), build_id r))"
  using assms by (auto simp: valid_record_def retained_def completion_key_def split: option.splits)

definition age_key :: "gold_record \<Rightarrow> int \<times> string" where
  "age_key r = key_num (the (completed_at_utc r), build_id r)"

lemma select_in_group_eq:
  assumes "\<forall>r \<in> set builds. valid_record r \<and> retained r"
  shows "select_in_group retain builds =
    (if length (filter (\<lambda>r. \<not> current r) builds) < excess retain builds
     then raise ValueError ''Gold retention cannot satisfy policy without pruning current''
     else Inr (map build_id (take (excess retain builds)
            (sort_key age_key (filter (\<lambda>r. \<not> current r) builds)))))"
proof -
  have "sort_by completion_key (filter (\<lambda>r. \<not> current r) builds)
      = Inr (sort_key (\<lambda>r. key_num (the (completed_at_utc r), build_id r)) (filter (\<lambda>r. \<not> current r) builds))"
    by (rule sort_by_aware) (use assms completion_key_retained in auto)
  then show ?thesis
    by (simp add: select_in_group_def age_key_def [abs_def])
qed

lemma group_valid: "valid_catalog rs \<Longrightarrow> r \<in> set (version_group rs k) \<Longrightarrow> valid_record r \<and> retained r"
  by (auto simp: version_group_def valid_catalog_record)

lemma non_current_many:
  assumes "valid_catalog rs"
  shows "length (version_group rs k) \<le> Suc (length (filter (\<lambda>r. \<not> current r) (version_group rs k)))"
proof -
  have "length (filter current (version_group rs k)) \<le> length (filter current rs)"
    unfolding version_group_def
    by (metis (no_types, lifting) filter_cong filter_filter conj_commute length_filter_le)
  also have "\<dots> \<le> 1"
    using valid_catalog_current [OF assms] .
  finally show ?thesis
    using sum_length_filter_compl [of current "version_group rs k"] by linarith
qed

lemma excess_small:
  assumes "valid_catalog rs" "1 \<le> retain"
  shows "excess retain (version_group rs k) \<le> length (filter (\<lambda>r. \<not> current r) (version_group rs k))"
  using non_current_many [OF assms(1), of k] assms(2) by (simp add: excess_def)

definition selected_rows :: "int \<Rightarrow> gold_record list \<Rightarrow> int \<times> int \<Rightarrow> gold_record list" where
  "selected_rows retain rs k =
    take (excess retain (version_group rs k)) (sort_key age_key (filter (\<lambda>r. \<not> current r) (version_group rs k)))"

lemma select_for_mark_eq:
  assumes "valid_catalog rs" "1 \<le> retain"
  shows "select_for_mark retain rs =
    Inr (concat (map (\<lambda>k. map build_id (selected_rows retain rs k)) (version_keys rs)))"
proof -
  have "rmap (\<lambda>key. select_in_group retain (version_group rs key)) (version_keys rs)
      = Inr (map (\<lambda>k. map build_id (selected_rows retain rs k)) (version_keys rs))"
    by (rule rmap_all_Inr)
      (use group_valid [OF assms(1)] excess_small [OF assms]
        in \<open>auto simp: select_in_group_eq selected_rows_def not_less\<close>)
  then show ?thesis by (simp add: select_for_mark_def)
qed

lemma set_selected_rows:
  "r \<in> set (selected_rows retain rs k) \<Longrightarrow> r \<in> set rs \<and> retained r \<and> version_key r = k \<and> \<not> current r"
  by (auto simp: selected_rows_def version_group_def dest!: in_set_takeD)

lemma length_selected_rows:
  assumes "valid_catalog rs" "1 \<le> retain"
  shows "length (selected_rows retain rs k) = excess retain (version_group rs k)"
  using excess_small [OF assms, of k] by (simp add: selected_rows_def)

lemma selected_rows_oldest:
  assumes "r \<in> set (selected_rows retain rs k)" "q \<in> set (version_group rs k)" "\<not> current q"
    "q \<notin> set (selected_rows retain rs k)"
  shows "age_key r \<le> age_key q"
proof -
  let ?s = "sort_key age_key (filter (\<lambda>r. \<not> current r) (version_group rs k))"
  let ?n = "excess retain (version_group rs k)"
  have "q \<in> set ?s" using assms(2,3) by simp
  then have q: "q \<in> set (drop ?n ?s)"
    using assms(4) unfolding selected_rows_def by (metis Un_iff append_take_drop_id set_append)
  have "sorted (map age_key (take ?n ?s) @ map age_key (drop ?n ?s))"
    by (metis append_take_drop_id map_append sorted_sort_key)
  then show ?thesis
    using assms(1) q by (auto simp: sorted_append selected_rows_def)
qed

lemma in_version_keys: "k \<in> set (version_keys rs) \<longleftrightarrow> (\<exists>r \<in> set rs. retained r \<and> version_key r = k)"
  by (auto simp: version_keys_def)

lemma selected_ids:
  assumes "valid_catalog rs" "1 \<le> retain" "select_for_mark retain rs = Inr ids" "r \<in> set rs"
  shows "build_id r \<in> set ids \<longleftrightarrow> r \<in> set (selected_rows retain rs (version_key r))"
proof
  assume "build_id r \<in> set ids"
  then obtain k q where q: "q \<in> set (selected_rows retain rs k)" "build_id q = build_id r"
    using assms(3) unfolding select_for_mark_eq [OF assms(1,2)] by auto
  then have "q = r"
    using distinct_map_eqD [OF valid_catalog_distinct [OF assms(1)]] set_selected_rows assms(4) by blast
  then show "r \<in> set (selected_rows retain rs (version_key r))"
    using q set_selected_rows by blast
next
  assume r: "r \<in> set (selected_rows retain rs (version_key r))"
  then have "version_key r \<in> set (version_keys rs)"
    using set_selected_rows assms(4) in_version_keys by blast
  then show "build_id r \<in> set ids"
    using r assms(3) unfolding select_for_mark_eq [OF assms(1,2)] by fastforce
qed

text \<open>
  C4: on every valid catalog and for every policy the constructor accepts, the retention policy selects
  successfully - the branch that reports that the policy cannot be satisfied without pruning the current
  build is unreachable.  Per version pair it selects exactly the number of retained builds beyond the limit
  (none when there are not more), and a row is selected exactly when it is one of these; a selected row is
  a complete unpruned build that is not current, and no build of the same versions that is neither current
  nor selected is older.
\<close>

theorem retention_selects_oldest:
  assumes "valid_catalog rs" "GoldRetentionPolicy retain = Inr n"
  shows "\<exists>ids. select_for_mark n rs = Inr ids
    \<and> (\<forall>k. length (filter (\<lambda>r. build_id r \<in> set ids) (version_group rs k))
          = nat (max 0 (int (length (version_group rs k)) - retain)))
    \<and> list_all (\<lambda>r. build_id r \<in> set ids \<longrightarrow> retained r \<and> \<not> current r
        \<and> list_all (\<lambda>q. retained q \<and> version_key q = version_key r \<and> \<not> current q \<and> build_id q \<notin> set ids
            \<longrightarrow> age_key r \<le> age_key q) rs) rs"
proof -
  have n: "n = retain" "1 \<le> retain"
    using assms(2) by (auto simp: GoldRetentionPolicy_def rbind_Inr)
  let ?ids = "concat (map (\<lambda>k. map build_id (selected_rows retain rs k)) (version_keys rs))"
  have sel: "select_for_mark retain rs = Inr ?ids"
    by (rule select_for_mark_eq [OF assms(1) n(2)])
  note ids = selected_ids [OF assms(1) n(2) sel]
  have count: "length (filter (\<lambda>r. build_id r \<in> set ?ids) (version_group rs k))
      = nat (max 0 (int (length (version_group rs k)) - retain))" for k
  proof -
    let ?sel = "selected_rows retain rs k"
    have dist: "distinct (map build_id rs)"
      by (rule valid_catalog_distinct [OF assms(1)])
    then have dg: "distinct (version_group rs k)" and ds: "distinct ?sel"
      by (auto simp: version_group_def selected_rows_def distinct_map)
    have "set (filter (\<lambda>r. build_id r \<in> set ?ids) (version_group rs k)) = set ?sel"
    proof (intro set_eqI iffI)
      fix x assume "x \<in> set (filter (\<lambda>r. build_id r \<in> set ?ids) (version_group rs k))"
      then have "x \<in> set rs" "version_key x = k" "build_id x \<in> set ?ids"
        by (auto simp: version_group_def)
      then show "x \<in> set ?sel"
        using ids [of x] by metis
    next
      fix x assume x: "x \<in> set ?sel"
      then have "x \<in> set rs" "retained x" "version_key x = k"
        using set_selected_rows [of x retain rs k] by auto
      moreover from this x have "build_id x \<in> set ?ids"
        using ids [of x] by metis
      ultimately show "x \<in> set (filter (\<lambda>r. build_id r \<in> set ?ids) (version_group rs k))"
        unfolding set_filter version_group_def by blast
    qed
    then have "length (filter (\<lambda>r. build_id r \<in> set ?ids) (version_group rs k)) = length ?sel"
      using dg ds by (metis distinct_card distinct_filter)
    then show ?thesis
      using length_selected_rows [OF assms(1) n(2)] by (simp add: excess_def)
  qed
  have oldest: "retained r \<and> \<not> current r
        \<and> list_all (\<lambda>q. retained q \<and> version_key q = version_key r \<and> \<not> current q \<and> build_id q \<notin> set ?ids
            \<longrightarrow> age_key r \<le> age_key q) rs"
    if r: "r \<in> set rs" "build_id r \<in> set ?ids" for r
  proof -
    have sel_r: "r \<in> set (selected_rows retain rs (version_key r))"
      using ids [OF r(1)] r(2) by blast
    have "age_key r \<le> age_key q"
      if "q \<in> set rs" "retained q" "version_key q = version_key r" "\<not> current q" "build_id q \<notin> set ?ids" for q
    proof (rule selected_rows_oldest [OF sel_r])
      show "q \<in> set (version_group rs (version_key r))"
        using that by (simp add: version_group_def)
      show "q \<notin> set (selected_rows retain rs (version_key r))"
        using ids [OF that(1)] that(3,5) by metis
    qed (rule that(4))
    then show ?thesis
      using set_selected_rows [OF sel_r] by (simp only: list_all_iff) blast
  qed
  show ?thesis
    unfolding n(1)
    by (rule exI [of _ ?ids], intro conjI sel allI count) (simp only: list_all_iff, use oldest in \<open>simp only: list_all_iff, blast\<close>)
qed

section \<open>Tombstones come before deletions\<close>

text \<open>\<open>rows\<close> is \<open>old\<close> with some retained builds that are not current tombstoned.\<close>

definition marks :: "gold_record list \<Rightarrow> gold_record list \<Rightarrow> bool" where
  "marks old rows \<longleftrightarrow>
    (\<forall>r \<in> set rows. r \<in> set old \<or> (\<exists>q \<in> set old. \<exists>t. retained q \<and> \<not> current q \<and> r = tombstone t q))
    \<and> (\<forall>q \<in> set old. q \<in> set rows \<or> (retained q \<and> \<not> current q \<and> (\<exists>t. tombstone t q \<in> set rows)))"

definition tombstone_ids :: "gold_record list \<Rightarrow> string set" where
  "tombstone_ids rows = build_id ` {r \<in> set rows. is_tombstone r}"

lemma tombstone_simps [simp]:
  "build_id (tombstone t r) = build_id r" "\<not> current (tombstone t r)" "status (tombstone t r) = status r"
  "pruned_at_utc (tombstone t r) = Some t"
  by (simp_all add: tombstone_def)

lemma marks_refl: "marks rs rs"
  by (simp add: marks_def)

lemma marks_set: "set rs = set rs' \<Longrightarrow> marks old rs = marks old rs'"
  by (simp add: marks_def)

lemma marks_current:
  "marks old rows \<Longrightarrow> r \<in> set rows \<and> current r \<longleftrightarrow> r \<in> set old \<and> current r"
  by (auto simp: marks_def)

lemma mark_record_Inr:
  "mark_record t r = Inr r' \<longleftrightarrow> retained r \<and> \<not> current r \<and> r' = tombstone t r"
  by (auto simp: mark_record_def rbind_Inr retained_def)

lemma mark_records_rows:
  assumes "mark_records t ids rs = Inr rs'"
  shows "marks rs rs'" "rs' = map (\<lambda>r. if build_id r \<in> set ids then tombstone t r else r) rs"
proof -
  have "list_all2 (\<lambda>r r'. (if build_id r \<in> set ids then mark_record t r else Inr r) = Inr r') rs rs'"
    using assms by (simp add: mark_records_def rmap_Inr)
  then have all2: "list_all2 (\<lambda>r r'. r' = (if build_id r \<in> set ids then tombstone t r else r)
      \<and> (build_id r \<in> set ids \<longrightarrow> retained r \<and> \<not> current r)) rs rs'"
    by (rule list_all2_mono) (auto simp: mark_record_Inr split: if_splits)
  then show "rs' = map (\<lambda>r. if build_id r \<in> set ids then tombstone t r else r) rs"
    by (auto simp: list_all2_conv_all_nth intro: nth_equalityI)
  with all2 show "marks rs rs'"
    by (fastforce simp: marks_def list_all2_conv_all_nth in_set_conv_nth)
qed

lemma tombstone_utc: "is_utc_record r \<Longrightarrow> is_utc t \<Longrightarrow> is_utc_record (tombstone t r)"
  by (simp add: tombstone_def is_utc_record_iff)

lemma retention_utc_Inr: "retention_utc d = Inr t \<Longrightarrow> is_utc t"
  by (auto simp: retention_utc_def split: if_splits)

text \<open>
  The physical bundle of a build is observed through \<open>physical\<close>: only sweeping that very build changes it.
\<close>

locale gold_retention = gold_catalog_port view "ret_read R" "ret_replace R"
  for view :: "'w \<Rightarrow> gold_record list option" and R :: "'w retention" +
  fixes physical :: "string \<Rightarrow> 'w \<Rightarrow> 'v"
  assumes views_preserve: "preserves view (ret_refresh_views R rs)"
    and clock_preserves: "preserves view (ret_clock R)"
    and sweep_preserves: "preserves view (ret_sweep R b)"
    and read_bundle: "preserves (physical b) (ret_read R)"
    and replace_bundle: "preserves (physical b) (ret_replace R rs)"
    and views_bundle: "preserves (physical b) (ret_refresh_views R rs)"
    and clock_bundle: "preserves (physical b) (ret_clock R)"
    and sweep_bundle: "b \<noteq> b' \<Longrightarrow> preserves (physical b) (ret_sweep R b')"
begin

text \<open>Bundles that are not tombstoned in the catalog are as they were.\<close>

definition safe :: "gold_record list \<Rightarrow> (string \<Rightarrow> 'v) \<Rightarrow> 'w \<Rightarrow> bool" where
  "safe old phys w \<longleftrightarrow>
    (\<exists>rs. view w = Some rs \<and> marks old rs \<and> (\<forall>b. b \<notin> tombstone_ids rs \<longrightarrow> physical b w = phys b))"

definition at_rest :: "gold_record list \<Rightarrow> (string \<Rightarrow> 'v) \<Rightarrow> 'w \<Rightarrow> bool" where
  "at_rest rows phys w \<longleftrightarrow> view w = Some rows \<and> (\<forall>b. b \<notin> tombstone_ids rows \<longrightarrow> physical b w = phys b)"

lemma at_rest_safe: "at_rest rows phys w \<Longrightarrow> marks old rows \<Longrightarrow> safe old phys w"
  by (auto simp: at_rest_def safe_def)

lemma step_at_rest:
  assumes "preserves view m" "\<And>b. preserves (physical b) m"
  shows "hoare (at_rest rows phys) m (\<lambda>_. at_rest rows phys) (\<lambda>_. at_rest rows phys)"
  using preservesD [OF assms(1)] preservesD [OF assms(2)]
  by (intro hoareI) (auto simp: at_rest_def)

lemma step_safe:
  assumes "preserves view m" "\<And>b. preserves (physical b) m" "marks old rows"
  shows "hoare (at_rest rows phys) m (\<lambda>_. at_rest rows phys) (\<lambda>_. safe old phys)"
  by (rule hoare_conseq [OF step_at_rest [OF assms(1,2)]]) (use at_rest_safe assms(3) in auto)

lemma sweep_at_rest:
  assumes "r \<in> set rows" "is_tombstone r"
  shows "hoare (at_rest rows phys) (ret_sweep R (build_id r)) (\<lambda>_. at_rest rows phys) (\<lambda>_. at_rest rows phys)"
proof -
  have "build_id r \<in> tombstone_ids rows"
    using assms by (auto simp: tombstone_ids_def)
  then have "at_rest rows phys w'" if "at_rest rows phys w" "ret_sweep R (build_id r) w = (x, w')" for w x w'
    using that preservesD [OF sweep_preserves that(2)] preservesD [OF sweep_bundle that(2)]
    unfolding at_rest_def by metis
  then show ?thesis by (intro hoareI) blast+
qed

lemma mark_hoare:
  assumes "marks old old" "valid_catalog old" "list_all is_utc_record old"
  shows "hoare (at_rest old phys) (retention_mark R ids old)
    (\<lambda>rs w. \<exists>rs'. set rs' = set rs \<and> marks old rs \<and> at_rest rs' phys w) (\<lambda>_. safe old phys)"
proof (cases "ids = []")
  case True
  then show ?thesis
    using assms(1) by (auto simp: retention_mark_def intro!: hoare_ret)
next
  case False
  have replace: "hoare (at_rest old phys) (ret_replace R rs)
      (\<lambda>_. at_rest (canonical_catalog rs) phys) (\<lambda>_. safe old phys)"
    if rs: "mark_records t ids old = Inr rs" "is_utc t" for rs t
  proof -
    have utc: "list_all is_utc_record rs"
      unfolding mark_records_rows(2) [OF rs(1)] using assms(3) rs(2) by (auto simp: list_all_iff tombstone_utc)
    have tomb: "is_tombstone (utc_record r) = is_tombstone r" for r
      by (simp add: is_tombstone_def)
    have sub: "tombstone_ids old \<subseteq> tombstone_ids rs"
    proof -
      have "is_tombstone r \<Longrightarrow> is_tombstone (tombstone t r)" for r
        by (simp add: is_tombstone_def tombstone_def)
      then have "\<exists>r' \<in> set rs. is_tombstone r' \<and> build_id r' = build_id r" if "r \<in> set old" "is_tombstone r" for r
        unfolding mark_records_rows(2) [OF rs(1)] using that
        by (intro bexI [of _ "if build_id r \<in> set ids then tombstone t r else r"]) auto
      then show ?thesis
        unfolding tombstone_ids_def by (intro subsetI) (clarsimp, metis (mono_tags, lifting) imageI mem_Collect_eq)
    qed
    have can: "tombstone_ids (canonical_catalog rs) = tombstone_ids rs" "marks old (canonical_catalog rs)"
      using mark_records_rows(1) [OF rs(1)] set_canonical_utc [OF utc]
      by (simp_all add: tombstone_ids_def marks_set [of "canonical_catalog rs" rs])
    have new: "at_rest (canonical_catalog rs) phys w'"
      if "at_rest old phys w" "ret_replace R rs w = (x, w')" "view w' = Some (canonical_catalog rs)" for w x w'
      using that sub preservesD [OF replace_bundle that(2)] unfolding at_rest_def can(1) by auto
    have same: "at_rest old phys w'"
      if "at_rest old phys w" "ret_replace R rs w = (x, w')" "view w' = view w" for w x w'
      using that preservesD [OF replace_bundle that(2)] unfolding at_rest_def by auto
    show ?thesis
      using new same replace_Inr replace_Inl at_rest_safe [OF _ can(2)] at_rest_safe [OF _ assms(1)]
      by (intro hoareI) (blast, metis)
  qed
  have rows: "set (canonical_catalog rs) = set rs \<and> marks old rs"
    if rs: "mark_records t ids old = Inr rs" "is_utc t" for rs t
  proof -
    have "list_all is_utc_record rs"
      unfolding mark_records_rows(2) [OF rs(1)] using assms(3) rs(2) by (auto simp: list_all_iff tombstone_utc)
    then show ?thesis
      using mark_records_rows(1) [OF rs(1)] set_canonical_utc by blast
  qed
  show ?thesis
    unfolding retention_mark_def using False
    apply simp
    apply (rule hoare_bind [OF step_safe [OF clock_preserves clock_bundle assms(1)]])
    apply (rule hoare_bind [where R = "\<lambda>t w. at_rest old phys w \<and> is_utc t"])
     apply (rule hoare_lift; use retention_utc_Inr at_rest_safe assms(1) in blast)
    apply (rule hoare_pure)
    subgoal for now t
      apply (rule hoare_bind [where R = "\<lambda>rs w. at_rest old phys w \<and> mark_records t ids old = Inr rs"])
       apply (rule hoare_lift; use at_rest_safe assms(1) in blast)
      apply (rule hoare_pure)
      apply (rule hoare_seq [OF replace], assumption, assumption)
      subgoal for rs
        using rows [of t rs] marks_set [of "canonical_catalog rs" rs old]
        by (intro hoare_seq [OF step_safe [OF views_preserve views_bundle]] hoare_ret) auto
      done
    done
qed

lemma run_hoare:
  "hoare (\<lambda>w. view w = Some old \<and> (\<forall>b. physical b w = phys b)) (retention_run retain R)
    (\<lambda>_. safe old phys) (\<lambda>_. safe old phys)"
proof (rule hoare_at)
  fix w assume w: "view w = Some old \<and> (\<forall>b. physical b w = phys b)"
  note old = view_valid [OF conjunct1 [OF w]]
  have start: "at_rest old phys w"
    using w by (simp add: at_rest_def)
  have read: "hoare (\<lambda>w'. w' = w) (ret_read R) (\<lambda>rs w. at_rest old phys w \<and> rs = old) (\<lambda>_. safe old phys)"
  proof (rule hoare_pre [OF hoareI])
    show "at_rest old phys w1 \<and> rs = old" if "w0 = w" "ret_read R w0 = (Inr rs, w1)" for w0 rs w1
      using hoareD_Inr [OF step_at_rest [OF read_preserves read_bundle] start] read_view that w by auto
    show "safe old phys w1" if "w0 = w" "ret_read R w0 = (Inl e, w1)" for w0 e w1
      using hoareD_Inl [OF step_at_rest [OF read_preserves read_bundle] start] that at_rest_safe marks_refl by blast
  qed simp
  have sweeps: "hoare (\<lambda>w. \<exists>rs'. set rs' = set rs \<and> marks old rs \<and> at_rest rs' phys w)
      (for_each (\<lambda>r. ret_sweep R (build_id r)) queue)
      (\<lambda>_ w. \<exists>rs'. set rs' = set rs \<and> marks old rs \<and> at_rest rs' phys w) (\<lambda>_. safe old phys)"
    if "set queue \<subseteq> {r \<in> set rs. is_tombstone r}" for rs queue
  proof (rule hoare_for_each)
    fix r assume r: "r \<in> set queue"
    show "hoare (\<lambda>w. \<exists>rs'. set rs' = set rs \<and> marks old rs \<and> at_rest rs' phys w) (ret_sweep R (build_id r))
      (\<lambda>_ w. \<exists>rs'. set rs' = set rs \<and> marks old rs \<and> at_rest rs' phys w) (\<lambda>_. safe old phys)"
    proof (rule hoare_at, elim exE conjE)
      fix w0 rs' assume rs': "set rs' = set rs" "marks old rs" "at_rest rs' phys w0"
      have "r \<in> set rs'" "is_tombstone r" using that r rs'(1) by auto
      then show "hoare (\<lambda>w'. w' = w0) (ret_sweep R (build_id r))
        (\<lambda>_ w. \<exists>rs'. set rs' = set rs \<and> marks old rs \<and> at_rest rs' phys w) (\<lambda>_. safe old phys)"
        by (intro hoare_conseq [OF sweep_at_rest [of r rs' phys]])
          (use rs' marks_set [OF rs'(1), of old] at_rest_safe in \<open>auto\<close>)
    qed
  qed
  have views: "hoare (\<lambda>w. \<exists>rs'. set rs' = set rs \<and> marks old rs \<and> at_rest rs' phys w)
      (if c then ret_refresh_views R q else ret ())
      (\<lambda>_ w. \<exists>rs'. set rs' = set rs \<and> marks old rs \<and> at_rest rs' phys w) (\<lambda>_. safe old phys)" for rs q c
  proof (rule hoare_if)
    show "hoare (\<lambda>w. \<exists>rs'. set rs' = set rs \<and> marks old rs \<and> at_rest rs' phys w) (ret_refresh_views R q)
      (\<lambda>_ w. \<exists>rs'. set rs' = set rs \<and> marks old rs \<and> at_rest rs' phys w) (\<lambda>_. safe old phys)"
    proof (rule hoare_at, elim exE conjE)
      fix w0 rs' assume rs': "set rs' = set rs" "marks old rs" "at_rest rs' phys w0"
      show "hoare (\<lambda>w'. w' = w0) (ret_refresh_views R q)
        (\<lambda>_ w. \<exists>rs'. set rs' = set rs \<and> marks old rs \<and> at_rest rs' phys w) (\<lambda>_. safe old phys)"
        by (intro hoare_conseq [OF step_at_rest [OF views_preserve views_bundle, of rs' phys]])
          (use rs' marks_set [OF rs'(1), of old] at_rest_safe in \<open>auto\<close>)
    qed
  qed (rule hoare_ret)
  have safe: "safe old phys w" if "\<exists>rs'. set rs' = set rs \<and> marks old rs \<and> at_rest rs' phys w" for rs w
    using that marks_set at_rest_safe by metis
  show "hoare (\<lambda>w'. w' = w) (retention_run retain R) (\<lambda>_. safe old phys) (\<lambda>_. safe old phys)"
    unfolding retention_run_def Let_def
    apply (rule hoare_bind [OF read], rule hoare_pure, hypsubst)
    apply (rule hoare_bind [where R = "\<lambda>_. at_rest old phys"])
     apply (rule hoare_lift; use at_rest_safe marks_refl in blast)
    apply (rule hoare_bind [OF mark_hoare])
       apply (rule marks_refl, use old in blast, use old in blast)
    apply (rule hoare_seq [OF views])
    subgoal for x ids rs
      apply (rule hoare_bind [where R = "\<lambda>queue w. (\<exists>rs'. set rs' = set rs \<and> marks old rs \<and> at_rest rs' phys w)
          \<and> mset queue = mset (filter is_tombstone rs)"])
       apply (rule hoare_lift; use sort_by_perm safe in blast)
      apply (rule hoare_pure)
      apply (rule hoare_seq [OF sweeps [of _ rs]])
       apply (metis mset_eq_setD order_refl set_filter)
      apply (rule hoare_ret, erule safe)
      done
    done
qed

end

end
