(* ===== verification/Lake_Files.thy ===== *)
theory Lake_Files
  imports Frame "HOL-Library.AList"
begin

text \<open>
  The file system under the lake and the atomic Parquet write of
  \<open>src/ingestion/parquet_repository.py\<close>.  A path is the list of its components.  Files and
  directories are association lists; temporary files made by \<open>mkstemp\<close> have fresh names and are kept
  apart, under numbers.  Every system call is a fault point of the world.
\<close>

type_synonym path = "string list"

datatype content = Parquet frame | Bytes string

record lake = fault_world +
  files :: "(path \<times> content) list"
  dirs :: "path list"
  temps :: "(nat \<times> content) list"
  next_temp :: nat

definition empty_lake :: lake where
  "empty_lake = \<lparr>faults = [], files = [], dirs = [], temps = [], next_temp = 0\<rparr>"

definition file_at :: "path \<Rightarrow> 'z lake_scheme \<Rightarrow> content option" where
  "file_at p w = map_of (files w) p"

definition is_file :: "path \<Rightarrow> 'z lake_scheme \<Rightarrow> bool" where
  "is_file p w \<longleftrightarrow> file_at p w \<noteq> None"

definition parent :: "path \<Rightarrow> path" where
  "parent p = butlast p"

text \<open>\<open>path.mkdir(parents=True, exist_ok=True)\<close>\<close>

definition mkdir_parents :: "path \<Rightarrow> ('z lake_scheme, unit) io" where
  "mkdir_parents p =
    seq fault_point
      (modify (\<lambda>w. w\<lparr>dirs := dirs w @ filter (\<lambda>d. d \<notin> set (dirs w)) (map (\<lambda>n. take n p) [1..<Suc (length p)])\<rparr>))"

text \<open>\<open>tempfile.mkstemp\<close> creates an empty file and returns it.\<close>

definition mkstemp :: "('z lake_scheme, nat) io" where
  "mkstemp =
    seq fault_point
      (bind (gets next_temp) (\<lambda>t.
        seq (modify (\<lambda>w. w\<lparr>temps := AList.update t (Bytes []) (temps w), next_temp := Suc t\<rparr>)) (ret t)))"

definition write_temp :: "nat \<Rightarrow> content \<Rightarrow> ('z lake_scheme, unit) io" where
  "write_temp t c = seq fault_point (modify (\<lambda>w. w\<lparr>temps := AList.update t c (temps w)\<rparr>))"

text \<open>\<open>temp_path.unlink(missing_ok=True)\<close>\<close>

definition unlink_temp :: "nat \<Rightarrow> ('z lake_scheme, unit) io" where
  "unlink_temp t = seq fault_point (modify (\<lambda>w. w\<lparr>temps := AList.delete t (temps w)\<rparr>))"

text \<open>\<open>os.replace(temp_path, destination)\<close>: the atomic rename.\<close>

definition os_replace :: "nat \<Rightarrow> path \<Rightarrow> ('z lake_scheme, unit) io" where
  "os_replace t dest =
    seq fault_point (modify (\<lambda>w.
      case map_of (temps w) t of
        None \<Rightarrow> w
      | Some c \<Rightarrow> w\<lparr>files := AList.update dest c (files w), temps := AList.delete t (temps w)\<rparr>))"

text \<open>\<open>path.unlink(missing_ok=True)\<close>\<close>

definition unlink_file :: "path \<Rightarrow> ('z lake_scheme, unit) io" where
  "unlink_file p = seq fault_point (modify (\<lambda>w. w\<lparr>files := AList.delete p (files w)\<rparr>))"

definition read_parquet :: "path \<Rightarrow> ('z lake_scheme, frame) io" where
  "read_parquet p =
    seq fault_point (bind (gets (file_at p)) (\<lambda>c.
      case c of
        None \<Rightarrow> throw (Exn FileNotFoundError ''No such file or directory'')
      | Some (Parquet f) \<Rightarrow> ret f
      | Some (Bytes _) \<Rightarrow> throw (Exn PolarsError ''file out of specification'')))"

text \<open>
  The write itself.  A failed directory open is skipped; any other exception removes the temporary
  file and is raised again, also when it comes after the rename.
\<close>

definition sync_directory :: "('z lake_scheme, unit) io" where
  "sync_directory =
    bind (try_except (seq fault_point (ret True)) is_os_error (\<lambda>_. ret False)) (\<lambda>opened.
      if opened then try_finally fault_point fault_point else ret ())"

definition write_and_rename :: "nat \<Rightarrow> content \<Rightarrow> path \<Rightarrow> ('z lake_scheme, unit) io" where
  "write_and_rename t c dest =
    seq fault_point
      (seq (write_temp t c)
        (seq fault_point
          (seq (os_replace t dest) sync_directory)))"

definition atomic_write :: "content \<Rightarrow> path \<Rightarrow> ('z lake_scheme, unit) io" where
  "atomic_write c dest =
    seq (mkdir_parents (parent dest))
      (bind mkstemp (\<lambda>t.
        try_except (write_and_rename t c dest) (\<lambda>_. True)
          (\<lambda>e. seq (unlink_temp t) (throw e))))"

definition atomic_write_parquet :: "frame \<Rightarrow> path \<Rightarrow> ('z lake_scheme, unit) io" where
  "atomic_write_parquet f dest = atomic_write (Parquet f) dest"

section \<open>Facts\<close>

lemma fault_point_files [preserves_intros]:
  "preserves files fault_point" "preserves (file_at p) fault_point" "preserves dirs fault_point"
  by (auto intro!: preserves_fault_point simp: file_at_def)

lemma file_at_update: "file_at p (w\<lparr>files := AList.update q c (files w)\<rparr>) = (if p = q then Some c else file_at p w)"
  by (simp add: file_at_def update_conv')

lemma preserves_files_ops [preserves_intros]:
  "preserves files (mkdir_parents p)" "preserves files mkstemp" "preserves files (write_temp t c)"
  "preserves files (unlink_temp t)" "preserves files sync_directory" "preserves files (read_parquet q)"
  unfolding mkdir_parents_def mkstemp_def write_temp_def unlink_temp_def sync_directory_def read_parquet_def
  by (auto intro!: preserves_intros preserves_modify split: option.splits content.splits)

text \<open>Writing through a fresh temporary file changes the destination to the new content or not at all.\<close>

definition replaced_or_same :: "path \<Rightarrow> content \<Rightarrow> 'z lake_scheme \<Rightarrow> 'z lake_scheme \<Rightarrow> bool" where
  "replaced_or_same p c w w' \<longleftrightarrow>
    files w' = files w \<or> files w' = AList.update p c (files w)"

lemma write_temp_Inr:
  "write_temp t c w = (Inr u, w') \<Longrightarrow> map_of (temps w') t = Some c \<and> files w' = files w"
  by (auto simp: write_temp_def io_run fault_point_def update_conv' split: list.splits option.splits)

lemma write_temp_Inl: "write_temp t c w = (Inl e, w') \<Longrightarrow> files w' = files w"
  by (auto simp: write_temp_def io_run fault_point_def split: list.splits option.splits)

lemma fault_point_keeps:
  "fault_point w = (r, w') \<Longrightarrow> files w' = files w \<and> temps w' = temps w \<and> dirs w' = dirs w"
  by (auto simp: fault_point_def split: list.splits option.splits)

lemma os_replace_Inr:
  "os_replace t d w = (Inr u, w') \<Longrightarrow> map_of (temps w) t = Some c \<Longrightarrow> files w' = AList.update d c (files w)"
  by (auto simp: os_replace_def io_run fault_point_def split: list.splits option.splits)

lemma os_replace_Inl: "os_replace t d w = (Inl e, w') \<Longrightarrow> files w' = files w"
  by (auto simp: os_replace_def io_run fault_point_def split: list.splits option.splits)

lemma write_and_rename_Inr:
  assumes "write_and_rename t c d w = (Inr u, w')"
  shows "files w' = AList.update d c (files w)"
proof -
  obtain w1 w2 w3 w4 where
    "fault_point w = (Inr (), w1)" "write_temp t c w1 = (Inr (), w2)"
    "fault_point w2 = (Inr (), w3)" "os_replace t d w3 = (Inr (), w4)"
    "sync_directory w4 = (Inr u, w')"
    using assms by (auto simp: write_and_rename_def io_inv)
  then show ?thesis
    by (metis fault_point_keeps os_replace_Inr preservesD preserves_files_ops(5) write_temp_Inr)
qed

lemma write_and_rename_Inl:
  assumes "write_and_rename t c d w = (Inl e, w')"
  shows "replaced_or_same d c w w'"
proof -
  consider "fault_point w = (Inl e, w')"
    | w1 where "fault_point w = (Inr (), w1)" "write_temp t c w1 = (Inl e, w')"
    | w1 w2 where "fault_point w = (Inr (), w1)" "write_temp t c w1 = (Inr (), w2)"
        "fault_point w2 = (Inl e, w')"
    | w1 w2 w3 where "fault_point w = (Inr (), w1)" "write_temp t c w1 = (Inr (), w2)"
        "fault_point w2 = (Inr (), w3)" "os_replace t d w3 = (Inl e, w')"
    | w1 w2 w3 w4 where "fault_point w = (Inr (), w1)" "write_temp t c w1 = (Inr (), w2)"
        "fault_point w2 = (Inr (), w3)" "os_replace t d w3 = (Inr (), w4)"
        "sync_directory w4 = (Inl e, w')"
    using assms by (auto simp: write_and_rename_def io_inv)
  then show ?thesis
  proof cases
    case 5
    then show ?thesis
      by (metis fault_point_keeps os_replace_Inr preservesD preserves_files_ops(5) write_temp_Inr
          replaced_or_same_def)
  qed (unfold replaced_or_same_def, (metis fault_point_keeps os_replace_Inl write_temp_Inl write_temp_Inr)+)
qed

lemma atomic_write_Inr:
  assumes "atomic_write c d w = (Inr u, w')"
  shows "files w' = AList.update d c (files w)"
proof -
  obtain w1 t w2 where "mkdir_parents (parent d) w = (Inr (), w1)" "mkstemp w1 = (Inr t, w2)"
    "write_and_rename t c d w2 = (Inr u, w')"
    using assms
    by (auto simp: atomic_write_def io_inv throw_apply)
  then show ?thesis
    by (metis preservesD preserves_files_ops(1,2) write_and_rename_Inr)
qed

lemma atomic_write_Inl:
  assumes "atomic_write c d w = (Inl e, w')"
  shows "replaced_or_same d c w w'"
proof -
  consider "mkdir_parents (parent d) w = (Inl e, w')"
    | w1 where "mkdir_parents (parent d) w = (Inr (), w1)" "mkstemp w1 = (Inl e, w')"
    | w1 t w2 e' w3 r where "mkdir_parents (parent d) w = (Inr (), w1)" "mkstemp w1 = (Inr t, w2)"
        "write_and_rename t c d w2 = (Inl e', w3)" "unlink_temp t w3 = (r, w')"
    using assms
    by (auto simp: atomic_write_def io_inv throw_apply)
  then show ?thesis
  proof cases
    case 3
    then have "files w2 = files w" "files w' = files w3" "replaced_or_same d c w2 w3"
      by (metis preservesD preserves_files_ops(1,2,4) write_and_rename_Inl)+
    then show ?thesis by (simp add: replaced_or_same_def)
  qed (unfold replaced_or_same_def, (metis preservesD preserves_files_ops(1,2))+)
qed

lemma atomic_write_parquet_Inr:
  "atomic_write_parquet f d w = (Inr u, w') \<Longrightarrow> file_at d w' = Some (Parquet f)"
  by (simp add: atomic_write_parquet_def file_at_def update_conv' atomic_write_Inr)

lemma atomic_write_parquet_Inl:
  "atomic_write_parquet f d w = (Inl e, w') \<Longrightarrow>
    file_at d w' = file_at d w \<or> file_at d w' = Some (Parquet f)"
  unfolding atomic_write_parquet_def
  by (drule atomic_write_Inl) (auto simp: file_at_def replaced_or_same_def update_conv')

lemma atomic_write_other:
  assumes "p \<noteq> d" shows "preserves (file_at p) (atomic_write c d)"
proof (rule preservesI)
  fix w w' :: "'z lake_scheme" and r
  assume "atomic_write c d w = (r, w')"
  then have "replaced_or_same d c w w'"
    by (cases r) (auto dest: atomic_write_Inl atomic_write_Inr simp: replaced_or_same_def)
  with assms show "file_at p w' = file_at p w"
    by (auto simp: replaced_or_same_def file_at_def update_conv')
qed

lemma read_parquet_Inr: "read_parquet p w = (Inr f, w') \<Longrightarrow> file_at p w = Some (Parquet f)"
  by (auto simp: read_parquet_def io_run fault_point_def file_at_def
      split: list.splits option.splits content.splits)

end
