(* ===== verification/Lake_Paths.thy ===== *)
theory Lake_Paths
  imports Contracts Lake_Files
begin

text \<open>\<open>src/application/paths.py\<close>: the layout of the lake under its root.\<close>

definition GOLD_DATASET :: string where
  "GOLD_DATASET = ''macro_features_daily''"

text \<open>\<open>re.compile(r"^\d{8}T\d{6}Z$").fullmatch\<close>\<close>

definition is_build_id :: "string \<Rightarrow> bool" where
  "is_build_id s \<longleftrightarrow>
    length s = 16 \<and> list_all is_digit (take 8 s) \<and> s ! 8 = CHR ''T''
    \<and> list_all is_digit (take 6 (drop 9 s)) \<and> s ! 15 = CHR ''Z''"

definition bronze_month :: "path \<Rightarrow> provider \<Rightarrow> string \<Rightarrow> int \<Rightarrow> path" where
  "bronze_month lake_root p sid d =
    lake_root @ [''bronze'', ''provider='' @ provider_value p, ''series='' @ sid,
      ''year='' @ pad_int 4 (date_year d), ''month='' @ pad_int 2 (date_month d), ''data.parquet'']"

definition silver_month :: "path \<Rightarrow> string \<Rightarrow> int \<Rightarrow> path" where
  "silver_month lake_root sid d =
    lake_root @ [''silver'', ''series='' @ sid,
      ''year='' @ pad_int 4 (date_year d), ''month='' @ pad_int 2 (date_month d), ''data.parquet'']"

definition gold_dataset_root :: "path \<Rightarrow> path" where
  "gold_dataset_root lake_root = lake_root @ [''gold'', ''dataset='' @ GOLD_DATASET]"

definition gold_build_root :: "path \<Rightarrow> string \<Rightarrow> path result" where
  "gold_build_root lake_root bid =
    (if \<not> is_build_id bid then raise ValueError (''invalid Gold build_id: '' @ bid)
     else Inr (gold_dataset_root lake_root @ [''versions'', ''build_id='' @ bid]))"

definition gold_data :: "path \<Rightarrow> string \<Rightarrow> path result" where
  "gold_data lake_root bid = rbind (gold_build_root lake_root bid) (\<lambda>p. Inr (p @ [''data.parquet'']))"

definition gold_build_manifest :: "path \<Rightarrow> string \<Rightarrow> path result" where
  "gold_build_manifest lake_root bid = rbind (gold_build_root lake_root bid) (\<lambda>p. Inr (p @ [''manifest.json'']))"

definition gold_build_profile :: "path \<Rightarrow> string \<Rightarrow> path result" where
  "gold_build_profile lake_root bid = rbind (gold_build_root lake_root bid) (\<lambda>p. Inr (p @ [''feature_profile.png'']))"

definition gold_manifest_parquet :: "path \<Rightarrow> path" where
  "gold_manifest_parquet lake_root = gold_dataset_root lake_root @ [''manifest.parquet'']"

definition gold_manifest_json :: "path \<Rightarrow> path" where
  "gold_manifest_json lake_root = gold_dataset_root lake_root @ [''manifest.json'']"

definition gold_profile :: "path \<Rightarrow> path" where
  "gold_profile lake_root = gold_dataset_root lake_root @ [''feature_profile.png'']"

definition ingestion_state_path :: "path \<Rightarrow> path" where
  "ingestion_state_path lake_root = lake_root @ [''state'', ''ingestion_state.parquet'']"

definition ingestion_runs_path :: "path \<Rightarrow> path" where
  "ingestion_runs_path lake_root = lake_root @ [''manifests'', ''ingestion_runs.parquet'']"

definition inventory_path :: "path \<Rightarrow> path" where
  "inventory_path lake_root = lake_root @ [''manifests'', ''dataset_inventory.parquet'']"

lemma gold_root_paths_distinct [simp]:
  "gold_manifest_parquet lake_root \<noteq> gold_manifest_json lake_root" "gold_manifest_parquet lake_root \<noteq> gold_profile lake_root"
  "gold_manifest_json lake_root \<noteq> gold_profile lake_root"
  by (simp_all add: gold_manifest_parquet_def gold_manifest_json_def gold_profile_def)

lemma gold_build_root_Inr:
  "gold_build_root lake_root bid = Inr p \<longleftrightarrow>
    is_build_id bid \<and> p = gold_dataset_root lake_root @ [''versions'', ''build_id='' @ bid]"
  by (auto simp: gold_build_root_def)

end
