(* ===== verification/Gold_Catalog_Repository.thy ===== *)
theory Gold_Catalog_Repository
  imports Gold_Catalog_Port Lake_Files
begin

text \<open>
  \<open>src/ingestion/gold_catalog_repository.py\<close>: the Parquet file that is the sole publication
  authority.  The repository validates every row before it writes and after it reads; the file is
  replaced atomically.  The package polars is the parameter \<open>pl\<close>.
\<close>

definition GOLD_CATALOG_SCHEMA :: schema where
  "GOLD_CATALOG_SCHEMA =
    [(''dataset_id'', DString), (''build_id'', DString), (''status'', DString),
     (''current'', DBoolean), (''started_at_utc'', DDatetimeUtc),
     (''completed_at_utc'', DDatetimeUtc), (''schema_version'', DInt64),
     (''feature_version'', DInt64), (''min_timestamp'', DDatetimeUtc),
     (''max_timestamp'', DDatetimeUtc), (''row_count'', DInt64), (''data_path'', DString),
     (''build_manifest_path'', DString), (''plot_path'', DString), (''pruned_at_utc'', DDatetimeUtc)]"

definition py_opt :: "('a \<Rightarrow> pyval) \<Rightarrow> 'a option \<Rightarrow> pyval" where
  "py_opt f v = (case v of None \<Rightarrow> PNone | Some x \<Rightarrow> f x)"

text \<open>The dictionary \<open>_frame\<close> makes of a row.\<close>

definition record_dict :: "gold_record \<Rightarrow> (string \<times> pyval) list" where
  "record_dict r =
    [(''dataset_id'', PStr (dataset_id r)),
     (''build_id'', PStr (build_id r)),
     (''status'', PStr (status_value (status r))),
     (''current'', PBool (current r)),
     (''started_at_utc'', PDatetime (started_at_utc r)),
     (''completed_at_utc'', py_opt PDatetime (completed_at_utc r)),
     (''schema_version'', PInt (schema_version r)),
     (''feature_version'', PInt (feature_version r)),
     (''min_timestamp'', py_opt PDatetime (min_timestamp r)),
     (''max_timestamp'', py_opt PDatetime (max_timestamp r)),
     (''row_count'', py_opt PInt (row_count r)),
     (''data_path'', py_opt PStr (data_path r)),
     (''build_manifest_path'', py_opt PStr (build_manifest_path r)),
     (''plot_path'', py_opt PStr (plot_path r)),
     (''pruned_at_utc'', py_opt PDatetime (pruned_at_utc r))]"

definition catalog_frame :: "polars \<Rightarrow> gold_record list \<Rightarrow> frame result" where
  "catalog_frame pl rs =
    rbind (check_catalog rs) (\<lambda>_.
    rbind (pl_dataframe pl (map record_dict rs) GOLD_CATALOG_SCHEMA) (\<lambda>f.
    pl_sort pl [''started_at_utc'', ''build_id''] f))"

section \<open>Reading a row back\<close>

definition dt_of :: "string \<Rightarrow> pyval \<Rightarrow> datetime option result" where
  "dt_of name v =
    (case v of PNone \<Rightarrow> Inr None | PDatetime d \<Rightarrow> Inr (Some d)
     | _ \<Rightarrow> raise TypeError (''catalog '' @ name @ '' must be datetime''))"

definition int_of :: "string \<Rightarrow> pyval \<Rightarrow> int result" where
  "int_of name v =
    (case v of PInt i \<Rightarrow> Inr i | _ \<Rightarrow> raise TypeError (''catalog '' @ name @ '' must be int''))"

text \<open>
  \<open>str(value)\<close> of a value of a string column, which is a string or null (the schema has been
  compared before).
\<close>

definition str_of :: "pyval \<Rightarrow> string result" where
  "str_of v =
    (case v of PStr s \<Rightarrow> Inr s | PNone \<Rightarrow> Inr ''None'' | _ \<Rightarrow> raise TypeError ''not a string column'')"

definition str_opt_of :: "pyval \<Rightarrow> string option result" where
  "str_opt_of v = (if v = PNone then Inr None else rbind (str_of v) (\<lambda>s. Inr (Some s)))"

definition bool_of :: "pyval \<Rightarrow> bool result" where
  "bool_of v =
    (case v of PBool b \<Rightarrow> Inr b | PNone \<Rightarrow> Inr False | _ \<Rightarrow> raise TypeError ''not a boolean column'')"

fun parse_status :: "string \<Rightarrow> gold_build_status result" where
  "parse_status s =
    (if s = ''building'' then Inr BUILDING
     else if s = ''complete'' then Inr COMPLETE
     else if s = ''failed'' then Inr FAILED
     else raise ValueError (s @ '' is not a valid GoldBuildStatus''))"

definition record_of_row :: "(string \<Rightarrow> pyval) \<Rightarrow> gold_record result" where
  "record_of_row row =
    rbind (if row ''row_count'' = PNone then Inr None
           else rbind (int_of ''row_count'' (row ''row_count'')) (\<lambda>n. Inr (Some n))) (\<lambda>row_count'.
    rbind (str_of (row ''dataset_id'')) (\<lambda>dataset'.
    rbind (str_of (row ''build_id'')) (\<lambda>build'.
    rbind (rbind (str_of (row ''status'')) parse_status) (\<lambda>status'.
    rbind (bool_of (row ''current'')) (\<lambda>current'.
    rbind (rbind (dt_of ''started_at_utc'' (row ''started_at_utc'')) (\<lambda>s.
             case s of None \<Rightarrow> raise ValueError ''catalog started_at_utc cannot be null''
             | Some d \<Rightarrow> Inr d)) (\<lambda>started'.
    rbind (dt_of ''completed_at_utc'' (row ''completed_at_utc'')) (\<lambda>completed'.
    rbind (int_of ''schema_version'' (row ''schema_version'')) (\<lambda>schema'.
    rbind (int_of ''feature_version'' (row ''feature_version'')) (\<lambda>feature'.
    rbind (dt_of ''min_timestamp'' (row ''min_timestamp'')) (\<lambda>min'.
    rbind (dt_of ''max_timestamp'' (row ''max_timestamp'')) (\<lambda>max'.
    rbind (str_opt_of (row ''data_path'')) (\<lambda>data'.
    rbind (str_opt_of (row ''build_manifest_path'')) (\<lambda>manifest'.
    rbind (str_opt_of (row ''plot_path'')) (\<lambda>plot'.
    rbind (dt_of ''pruned_at_utc'' (row ''pruned_at_utc'')) (\<lambda>pruned'.
    Inr \<lparr>dataset_id = dataset', build_id = build', status = status', current = current',
      started_at_utc = started', completed_at_utc = completed', schema_version = schema',
      feature_version = feature', min_timestamp = min', max_timestamp = max',
      row_count = row_count', data_path = data', build_manifest_path = manifest',
      plot_path = plot', pruned_at_utc = pruned'\<rparr>)))))))))))))))"

text \<open>The named values of a row of the catalog table.\<close>

definition named_row :: "schema \<Rightarrow> cell list \<Rightarrow> string \<Rightarrow> pyval" where
  "named_row s row name =
    (case map_of (zip (map fst s) row) name of None \<Rightarrow> PNone | Some c \<Rightarrow> decode_cell c)"

definition parse_catalog :: "polars \<Rightarrow> frame \<Rightarrow> gold_record list result" where
  "parse_catalog pl f =
    (if f_schema f \<noteq> GOLD_CATALOG_SCHEMA then raise ValueError ''invalid Gold catalog schema''
     else rbind (rmap (\<lambda>row. record_of_row (named_row (f_schema f) row)) (f_rows f)) (\<lambda>records.
          rbind (catalog_frame pl records) (\<lambda>_. Inr records)))"

section \<open>The repository\<close>

definition catalog_repo_read :: "polars \<Rightarrow> path \<Rightarrow> ('z lake_scheme, gold_record list) io" where
  "catalog_repo_read pl p =
    bind (gets (is_file p)) (\<lambda>present.
      if \<not> present then ret []
      else bind (read_parquet p) (\<lambda>f. lift (parse_catalog pl f)))"

definition catalog_repo_replace :: "polars \<Rightarrow> path \<Rightarrow> gold_record list \<Rightarrow> ('z lake_scheme, unit) io" where
  "catalog_repo_replace pl p rs =
    bind (lift (catalog_frame pl rs)) (\<lambda>f. atomic_write_parquet f p)"

definition catalog_repo_append :: "polars \<Rightarrow> path \<Rightarrow> gold_record \<Rightarrow> ('z lake_scheme, unit) io" where
  "catalog_repo_append pl p r =
    bind (catalog_repo_read pl p) (\<lambda>rs. catalog_repo_replace pl p (rs @ [r]))"

text \<open>The catalog a world holds at a path.\<close>

definition catalog_view :: "polars \<Rightarrow> path \<Rightarrow> 'z lake_scheme \<Rightarrow> gold_record list option" where
  "catalog_view pl p w =
    (case file_at p w of
      None \<Rightarrow> Some []
    | Some (Parquet f) \<Rightarrow> (case parse_catalog pl f of Inl _ \<Rightarrow> None | Inr rs \<Rightarrow> Some rs)
    | Some (Bytes _) \<Rightarrow> None)"

definition storable_record :: "gold_record \<Rightarrow> bool" where
  "storable_record r \<longleftrightarrow>
    fits_int64 (schema_version r) \<and> fits_int64 (feature_version r) \<and> opt_all fits_int64 (row_count r)
    \<and> list_all (\<lambda>(_, v). opt_all (\<lambda>d. fits_int64 (dt_num d)) v) (catalog_times r)"

section \<open>Facts\<close>

definition time_cell :: "datetime option \<Rightarrow> cell" where
  "time_cell v = (case v of None \<Rightarrow> CNull | Some d \<Rightarrow> CDatetime (dt_num d))"

definition str_cell :: "string option \<Rightarrow> cell" where
  "str_cell v = (case v of None \<Rightarrow> CNull | Some s \<Rightarrow> CStr s)"

definition int_cell :: "int option \<Rightarrow> cell" where
  "int_cell v = (case v of None \<Rightarrow> CNull | Some n \<Rightarrow> CInt n)"

definition record_cells :: "gold_record \<Rightarrow> cell list" where
  "record_cells r =
    [CStr (dataset_id r), CStr (build_id r), CStr (status_value (status r)), CBool (current r),
     time_cell (Some (started_at_utc r)), time_cell (completed_at_utc r),
     CInt (schema_version r), CInt (feature_version r),
     time_cell (min_timestamp r), time_cell (max_timestamp r), int_cell (row_count r),
     str_cell (data_path r), str_cell (build_manifest_path r), str_cell (plot_path r),
     time_cell (pruned_at_utc r)]"

text \<open>The encoding of each kind of column, with the condition under which the value fits.\<close>

lemma encode_time:
  "opt_all is_aware v \<Longrightarrow> encode_cell DDatetimeUtc (py_opt PDatetime v) =
    (if opt_all (\<lambda>d. fits_int64 (dt_num d)) v then Some (time_cell v) else None)"
  by (cases v; (cases "the v")?) (auto simp: py_opt_def time_cell_def)

lemma encode_start:
  "is_aware d \<Longrightarrow> encode_cell DDatetimeUtc (PDatetime d) =
    (if fits_int64 (dt_num d) then Some (time_cell (Some d)) else None)"
  by (cases d) (auto simp: time_cell_def)

lemma encode_opt_int:
  "encode_cell DInt64 (py_opt PInt v) = (if opt_all fits_int64 v then Some (int_cell v) else None)"
  by (cases v) (auto simp: py_opt_def int_cell_def)

lemma encode_opt_str: "encode_cell DString (py_opt PStr v) = Some (str_cell v)"
  by (cases v) (auto simp: py_opt_def str_cell_def)

lemma case_if_Some:
  "(case (if b then Some x else None) of None \<Rightarrow> None | Some y \<Rightarrow> f y) = (if b then f x else None)"
  by simp

lemma if_if_None: "(if a then if b then x else None else None) = (if a \<and> b then x else None)"
  by simp

lemma encode_record:
  assumes "valid_record r"
  shows "encode_row GOLD_CATALOG_SCHEMA (record_dict r) =
    (if storable_record r then Some (record_cells r) else None)"
proof -
  have aware: "is_aware (started_at_utc r)" "opt_all is_aware (completed_at_utc r)"
    "opt_all is_aware (min_timestamp r)" "opt_all is_aware (max_timestamp r)"
    "opt_all is_aware (pruned_at_utc r)"
    using assms by (auto simp: valid_record_def)
  have "storable_record r \<longleftrightarrow>
      fits_int64 (dt_num (started_at_utc r))
      \<and> opt_all (\<lambda>d. fits_int64 (dt_num d)) (completed_at_utc r)
      \<and> fits_int64 (schema_version r) \<and> fits_int64 (feature_version r)
      \<and> opt_all (\<lambda>d. fits_int64 (dt_num d)) (min_timestamp r)
      \<and> opt_all (\<lambda>d. fits_int64 (dt_num d)) (max_timestamp r)
      \<and> opt_all fits_int64 (row_count r)
      \<and> opt_all (\<lambda>d. fits_int64 (dt_num d)) (pruned_at_utc r)"
    by (auto simp: storable_record_def catalog_times_def)
  then show ?thesis
    unfolding GOLD_CATALOG_SCHEMA_def record_dict_def record_cells_def
    by (simp add: encode_time encode_start encode_opt_int encode_opt_str aware case_if_Some
        if_if_None conj_assoc del: if_weak_cong cong: if_cong)
qed

text \<open>Reading back what was written gives the row with its times in UTC.\<close>

lemma dt_of_time_cell: "dt_of n (decode_cell (time_cell v)) = Inr (map_option (\<lambda>d. Aware (dt_num d) 0) v)"
  by (cases v) (auto simp: time_cell_def dt_of_def)

lemma str_opt_of_str_cell: "str_opt_of (decode_cell (str_cell v)) = Inr v"
  by (cases v) (auto simp: str_cell_def str_opt_of_def str_of_def)

lemma int_of_int_cell:
  "(if decode_cell (int_cell v) = PNone then Inr None
    else rbind (int_of n (decode_cell (int_cell v))) (\<lambda>x. Inr (Some x))) = Inr v"
  by (cases v) (auto simp: int_cell_def int_of_def)

lemma parse_status_value: "parse_status (status_value s) = Inr s"
  by (cases s) auto

lemma aware_num_utc: "is_aware d \<Longrightarrow> Aware (dt_num d) 0 = astimezone_utc d"
  by (cases d) auto

lemma opt_aware_num_utc:
  "opt_all is_aware v \<Longrightarrow> map_option (\<lambda>d. Aware (dt_num d) 0) v = map_option astimezone_utc v"
  by (cases v) (auto simp: aware_num_utc)

lemma named_record_cells:
  "named_row GOLD_CATALOG_SCHEMA (record_cells r) ''dataset_id'' = decode_cell (CStr (dataset_id r))"
  "named_row GOLD_CATALOG_SCHEMA (record_cells r) ''build_id'' = decode_cell (CStr (build_id r))"
  "named_row GOLD_CATALOG_SCHEMA (record_cells r) ''status'' = decode_cell (CStr (status_value (status r)))"
  "named_row GOLD_CATALOG_SCHEMA (record_cells r) ''current'' = decode_cell (CBool (current r))"
  "named_row GOLD_CATALOG_SCHEMA (record_cells r) ''started_at_utc'' = decode_cell (time_cell (Some (started_at_utc r)))"
  "named_row GOLD_CATALOG_SCHEMA (record_cells r) ''completed_at_utc'' = decode_cell (time_cell (completed_at_utc r))"
  "named_row GOLD_CATALOG_SCHEMA (record_cells r) ''schema_version'' = decode_cell (CInt (schema_version r))"
  "named_row GOLD_CATALOG_SCHEMA (record_cells r) ''feature_version'' = decode_cell (CInt (feature_version r))"
  "named_row GOLD_CATALOG_SCHEMA (record_cells r) ''min_timestamp'' = decode_cell (time_cell (min_timestamp r))"
  "named_row GOLD_CATALOG_SCHEMA (record_cells r) ''max_timestamp'' = decode_cell (time_cell (max_timestamp r))"
  "named_row GOLD_CATALOG_SCHEMA (record_cells r) ''row_count'' = decode_cell (int_cell (row_count r))"
  "named_row GOLD_CATALOG_SCHEMA (record_cells r) ''data_path'' = decode_cell (str_cell (data_path r))"
  "named_row GOLD_CATALOG_SCHEMA (record_cells r) ''build_manifest_path'' = decode_cell (str_cell (build_manifest_path r))"
  "named_row GOLD_CATALOG_SCHEMA (record_cells r) ''plot_path'' = decode_cell (str_cell (plot_path r))"
  "named_row GOLD_CATALOG_SCHEMA (record_cells r) ''pruned_at_utc'' = decode_cell (time_cell (pruned_at_utc r))"
  by (simp_all add: named_row_def GOLD_CATALOG_SCHEMA_def record_cells_def)

lemma record_of_cells:
  assumes "valid_record r"
  shows "record_of_row (named_row GOLD_CATALOG_SCHEMA (record_cells r)) = Inr (utc_record r)"
proof -
  have aware: "is_aware (started_at_utc r)" "opt_all is_aware (completed_at_utc r)"
    "opt_all is_aware (min_timestamp r)" "opt_all is_aware (max_timestamp r)"
    "opt_all is_aware (pruned_at_utc r)"
    using assms by (auto simp: valid_record_def)
  show ?thesis
    unfolding record_of_row_def named_record_cells
    by (simp add: dt_of_time_cell str_opt_of_str_cell int_of_int_cell parse_status_value str_of_def
        int_of_def bool_of_def aware_num_utc opt_aware_num_utc aware del: parse_status.simps)
qed

lemma record_cells_utc [simp]: "record_cells (utc_record r) = record_cells r"
proof -
  have "time_cell (map_option astimezone_utc v) = time_cell v" for v
    by (cases v) (simp_all add: time_cell_def)
  then show ?thesis
    by (simp add: record_cells_def) (simp add: time_cell_def)
qed

lemma storable_utc [simp]: "storable_record (utc_record r) = storable_record r"
  by (simp add: storable_record_def catalog_times_def opt_all_def split: option.split)

definition catalog_order :: "string list" where
  "catalog_order = [''started_at_utc'', ''build_id'']"

lemma row_key_record:
  "row_key GOLD_CATALOG_SCHEMA catalog_order (record_cells r) =
    [(1, dt_num (started_at_utc r), []), (1, 0, build_id r)]"
  by (simp add: row_key_def GOLD_CATALOG_SCHEMA_def record_cells_def catalog_order_def time_cell_def)

lemma row_key_le:
  "row_key GOLD_CATALOG_SCHEMA catalog_order (record_cells r)
    \<le> row_key GOLD_CATALOG_SCHEMA catalog_order (record_cells q) \<longleftrightarrow> start_key r \<le> start_key q"
  by (auto simp: row_key_record start_key_def less_eq_prod_def less_le)

lemma sorted_row_keys:
  "sorted (map (row_key GOLD_CATALOG_SCHEMA catalog_order) (map record_cells rs)) \<longleftrightarrow>
    sorted (map start_key rs)"
  by (simp add: sorted_map sorted_wrt_map row_key_le)

lemma distinct_row_keys:
  assumes "distinct (map build_id rs)"
  shows "distinct (map (row_key GOLD_CATALOG_SCHEMA catalog_order) (map record_cells rs))"
proof -
  have "map build_id rs = map (\<lambda>k. snd (snd (k ! 1)))
      (map (row_key GOLD_CATALOG_SCHEMA catalog_order) (map record_cells rs))"
    by (simp add: row_key_record)
  with assms show ?thesis
    by (metis distinct_map)
qed

lemma sorted_canonical: "sorted (map start_key (canonical_catalog rs))"
  by (simp add: canonical_catalog_def)

lemma distinct_canonical: "distinct (map build_id (canonical_catalog rs)) = distinct (map build_id rs)"
  by (metis map_build_id_canonical mset_eq_imp_distinct_iff)

lemma sorted_rows_canonical:
  assumes rows: "mset rows = mset (map record_cells rs)"
    and sorted: "sorted (map (row_key GOLD_CATALOG_SCHEMA catalog_order) rows)"
    and ids: "distinct (map build_id rs)"
  shows "rows = map record_cells (canonical_catalog rs)"
proof -
  let ?key = "row_key GOLD_CATALOG_SCHEMA catalog_order"
  let ?can = "map record_cells (canonical_catalog rs)"
  have mset: "mset rows = mset ?can"
    by (simp add: rows mset_canonical) (simp add: image_mset.compositionality comp_def)
  have can: "sorted (map ?key ?can)" "distinct (map ?key ?can)"
    by (simp_all only: sorted_row_keys sorted_canonical distinct_row_keys distinct_canonical ids)
  have "mset (map ?key rows) = mset (map ?key ?can)"
    by (simp only: mset_map mset)
  then have "distinct (map ?key rows)"
    using can(2) mset_eq_imp_distinct_iff by blast
  moreover have "set rows = set ?can"
    using mset mset_eq_setD by blast
  moreover have "inj_on ?key (set rows \<union> set ?can)"
    using can(2) calculation(2) by (metis distinct_map sup.idem)
  ultimately show ?thesis
    using map_sorted_distinct_set_unique sorted can by blast
qed

lemma utc_of_row:
  assumes "record_of_row (named_row s row) = Inr r" shows "is_utc_record r"
proof -
  have time: "opt_all is_utc v" if "dt_of n (named_row s row m) = Inr v" for n m v
  proof -
    obtain c where "named_row s row m = decode_cell c"
      unfolding named_row_def by (metis decode_cell.simps(1) option.case_eq_if)
    with that show ?thesis by (cases c) (auto simp: dt_of_def)
  qed
  obtain st c mi ma pr n1 n2 n3 n4 n5 m1 m2 m3 m4 m5 where
    t: "dt_of n1 (named_row s row m1) = Inr (Some st)" "dt_of n2 (named_row s row m2) = Inr c"
      "dt_of n3 (named_row s row m3) = Inr mi" "dt_of n4 (named_row s row m4) = Inr ma"
      "dt_of n5 (named_row s row m5) = Inr pr"
    and r: "started_at_utc r = st" "completed_at_utc r = c" "min_timestamp r = mi"
      "max_timestamp r = ma" "pruned_at_utc r = pr"
    using assms unfolding record_of_row_def rbind_Inr by (elim exE conjE) (force split: option.splits)
  then show ?thesis
    using t [THEN time] by (simp add: is_utc_record_iff)
qed

section \<open>The repository implements the port\<close>

context polars_frames
begin

lemma catalog_frame_rows:
  assumes "catalog_frame pl rs = Inr f"
  shows "valid_catalog rs \<and> list_all storable_record rs \<and> f_schema f = GOLD_CATALOG_SCHEMA
    \<and> f_rows f = map record_cells (canonical_catalog rs)"
proof -
  obtain g where valid: "valid_catalog rs"
    and g: "pl_dataframe pl (map record_dict rs) GOLD_CATALOG_SCHEMA = Inr g"
    and f: "pl_sort pl catalog_order g = Inr f"
    using assms by (auto simp: catalog_frame_def catalog_order_def rbind_Inr check_catalog_Inr)
  obtain rows where enc: "encode_rows GOLD_CATALOG_SCHEMA (map record_dict rs) = Some rows"
    using g dataframe_strict by (metis not_None_eq sum.distinct(1))
  then have g': "g = \<lparr>f_schema = GOLD_CATALOG_SCHEMA, f_rows = rows\<rparr>"
    using g dataframe_fits by simp
  have "list_all2 (\<lambda>r row. storable_record r \<and> row = record_cells r) rs rows"
    using encode_rows_mapD [OF enc] valid
    by (auto simp: list_all2_conv_all_nth valid_catalog_def list_all_length encode_record split: if_splits)
  then have rows: "rows = map record_cells rs" and storable: "list_all storable_record rs"
    by (auto simp: list_all2_conv_all_nth list_all_length intro: nth_equalityI)
  have "f_rows f = map record_cells (canonical_catalog rs)"
    using sorted_rows_canonical [of "f_rows f" rs] sort_perm [OF f] sort_sorted [OF f] rows g'
      valid_catalog_distinct [OF valid] by simp
  with sort_schema [OF f] g' valid storable show ?thesis by simp
qed

lemma catalog_frame_total:
  assumes valid: "valid_catalog rs" and storable: "list_all storable_record rs"
  shows "\<exists>f. catalog_frame pl rs = Inr f"
proof -
  have "encode_rows GOLD_CATALOG_SCHEMA (map record_dict rs) = Some (map record_cells rs)"
    using valid storable by (auto intro!: encode_rows_map simp: encode_record valid_catalog_def list_all_iff)
  then have "pl_dataframe pl (map record_dict rs) GOLD_CATALOG_SCHEMA
      = Inr \<lparr>f_schema = GOLD_CATALOG_SCHEMA, f_rows = map record_cells rs\<rparr>"
    by (rule dataframe_fits)
  moreover have "\<exists>g. pl_sort pl catalog_order \<lparr>f_schema = GOLD_CATALOG_SCHEMA, f_rows = map record_cells rs\<rparr> = Inr g"
    by (rule sort_total) (simp add: catalog_order_def f_columns_def GOLD_CATALOG_SCHEMA_def)
  moreover have "check_catalog rs = Inr ()"
    by (simp add: check_catalog_Inr valid)
  ultimately show ?thesis
    by (simp add: catalog_frame_def catalog_order_def)
qed

lemma parse_written:
  assumes "catalog_frame pl rs = Inr f"
  shows "parse_catalog pl f = Inr (canonical_catalog rs)"
proof -
  let ?can = "canonical_catalog rs"
  note f = catalog_frame_rows [OF assms]
  have valid: "valid_catalog ?can" using f by simp
  have utc: "utc_record r = r" if "r \<in> set ?can" for r
    using that f by (auto simp: set_canonical valid_catalog_def list_all_iff intro!: utc_record_id valid_is_utc_record)
  have "rmap (\<lambda>row. record_of_row (named_row GOLD_CATALOG_SCHEMA row)) (map record_cells ?can)
      = Inr (map (\<lambda>r. r) ?can)"
    by (rule rmap_map_Inr) (use utc record_of_cells [OF valid_catalog_record [OF valid]] in simp)
  moreover have "list_all storable_record ?can"
    using f by (auto simp: list_all_iff set_canonical)
  then obtain g where "catalog_frame pl ?can = Inr g"
    using catalog_frame_total [OF valid] by blast
  ultimately show ?thesis
    using f by (simp add: parse_catalog_def)
qed

lemma parse_catalog_Inr:
  assumes "parse_catalog pl f = Inr rs"
  shows "valid_catalog rs \<and> list_all is_utc_record rs \<and> list_all storable_record rs"
proof -
  obtain g where rows: "rmap (\<lambda>row. record_of_row (named_row (f_schema f) row)) (f_rows f) = Inr rs"
    and g: "catalog_frame pl rs = Inr g"
    using assms by (auto simp: parse_catalog_def rbind_Inr split: if_splits)
  have "list_all is_utc_record rs"
    using rows by (auto simp: rmap_Inr list_all2_conv_all_nth list_all_length intro: utc_of_row)
  with catalog_frame_rows [OF g] show ?thesis by simp
qed

lemma repo_read_Inr:
  assumes "catalog_repo_read pl p w = (Inr rs, w')"
  shows "catalog_view pl p w = Some rs"
  using assms
  by (auto simp: catalog_repo_read_def io_inv gets_apply lift_apply ret_apply is_file_def catalog_view_def
      dest!: read_parquet_Inr split: if_splits)

lemma repo_replace_Inr:
  assumes "catalog_repo_replace pl p rs w = (Inr u, w')"
  shows "valid_catalog rs \<and> list_all storable_record rs \<and> catalog_view pl p w' = Some (canonical_catalog rs)"
proof -
  obtain f where "catalog_frame pl rs = Inr f" "atomic_write_parquet f p w = (Inr u, w')"
    using assms by (auto simp: catalog_repo_replace_def io_inv lift_apply)
  then show ?thesis
    using catalog_frame_rows parse_written by (auto simp: catalog_view_def dest!: atomic_write_parquet_Inr)
qed

lemma repo_replace_Inl:
  assumes "catalog_repo_replace pl p rs w = (Inl e, w')"
  shows "catalog_view pl p w' = catalog_view pl p w
    \<or> (valid_catalog rs \<and> catalog_view pl p w' = Some (canonical_catalog rs))"
proof (cases "catalog_frame pl rs")
  case (Inl e')
  then show ?thesis
    using assms by (auto simp: catalog_repo_replace_def io_inv lift_apply)
next
  case (Inr f)
  then have "atomic_write_parquet f p w = (Inl e, w')"
    using assms by (auto simp: catalog_repo_replace_def io_inv lift_apply)
  from atomic_write_parquet_Inl [OF this] show ?thesis
    using catalog_frame_rows [OF Inr] parse_written [OF Inr] by (auto simp: catalog_view_def)
qed

lemma catalog_view_files: "files w' = files w \<Longrightarrow> catalog_view pl p w' = catalog_view pl p w"
  by (simp add: catalog_view_def file_at_def)

lemma repo_read_preserves: "preserves (catalog_view pl p) (catalog_repo_read pl p)"
proof (rule preservesI)
  fix w w' :: "'z lake_scheme" and r
  assume "catalog_repo_read pl p w = (r, w')"
  moreover have "preserves files (catalog_repo_read pl p)"
    unfolding catalog_repo_read_def by (intro preserves_intros)
  ultimately show "catalog_view pl p w' = catalog_view pl p w"
    by (metis catalog_view_files preservesD)
qed

lemma atomic_write_quiet:
  "faults w = [] \<Longrightarrow> \<exists>w'. atomic_write c p w = (Inr (), w') \<and> faults w' = []"
  by (simp add: atomic_write_def mkdir_parents_def mkstemp_def write_and_rename_def write_temp_def
      os_replace_def sync_directory_def io_run fault_point_def split: option.split)

end

lemma repository_is_port:
  assumes "polars_frames pl"
  shows "gold_catalog_port (catalog_view pl p) (catalog_repo_read pl p) (catalog_repo_replace pl p)"
proof (unfold_locales, goal_cases)
  case (1 w rs)
  then show ?case
    using polars_frames.parse_catalog_Inr [OF assms]
    by (auto simp: catalog_view_def valid_catalog_def split: option.splits content.splits sum.splits)
next
  case 2 show ?case by (rule polars_frames.repo_read_preserves [OF assms])
next
  case (3 w rs w') then show ?case by (rule polars_frames.repo_read_Inr [OF assms])
next
  case (4 rs w u w') then show ?case using polars_frames.repo_replace_Inr [OF assms] by blast
next
  case (5 rs w e w') then show ?case by (rule polars_frames.repo_replace_Inl [OF assms])
qed

sublocale polars_frames \<subseteq> repo: gold_catalog_port "catalog_view pl p" "catalog_repo_read pl p" "catalog_repo_replace pl p"
  by (rule repository_is_port) unfold_locales

sublocale polars_frames \<subseteq> live_repo: gold_catalog_port_live "catalog_view pl p" "catalog_repo_read pl p"
    "catalog_repo_replace pl p" "\<lambda>w. faults w = []" "list_all storable_record"
proof (unfold_locales, goal_cases)
  case (1 w rs)
  then show ?case
    by (auto simp: catalog_repo_read_def catalog_view_def read_parquet_def io_run fault_point_def
        is_file_def split: option.splits content.splits sum.splits)
next
  case (2 w rs)
  then obtain f where "catalog_frame pl rs = Inr f"
    using catalog_frame_total by blast
  then show ?case
    using atomic_write_quiet [OF 2(1)]
    by (simp add: catalog_repo_replace_def bind_def lift_apply atomic_write_parquet_def)
qed

end
