(* ===== verification/Gold_Views.thy ===== *)
theory Gold_Views
  imports Lake_Paths Gold_Catalog_Repository
begin

text \<open>
  \<open>src/ingestion/gold_materialized_views.py\<close>: the root JSON and PNG, derived from the catalog and
  never an authority, and \<open>src/ingestion/gold_retention_store.py\<close>: the physical sweep of a tombstoned
  bundle.  The injected fault hooks of both are fault points.
\<close>

section \<open>The JSON of a row\<close>

datatype json = JNull | JStr string | JBool bool | JInt int

definition hex_digit :: "nat \<Rightarrow> char" where
  "hex_digit n = ''0123456789abcdef'' ! n"

definition json_char :: "char \<Rightarrow> string" where
  "json_char c =
    (let n = (of_char c :: nat) in
     if c = CHR 0x22 then [CHR 0x5C, CHR 0x22]
     else if c = CHR 0x5C then [CHR 0x5C, CHR 0x5C]
     else if n = 10 then [CHR 0x5C, CHR ''n'']
     else if n = 13 then [CHR 0x5C, CHR ''r'']
     else if n = 9 then [CHR 0x5C, CHR ''t'']
     else if n = 8 then [CHR 0x5C, CHR ''b'']
     else if n = 12 then [CHR 0x5C, CHR ''f'']
     else if 32 \<le> n \<and> n < 127 then [c]
     else [CHR 0x5C, CHR ''u'', CHR ''0'', CHR ''0'', hex_digit (n div 16), hex_digit (n mod 16)])"

definition json_string :: "string \<Rightarrow> string" where
  "json_string s = [CHR 0x22] @ concat (map json_char s) @ [CHR 0x22]"

fun json_value :: "json \<Rightarrow> string" where
  "json_value JNull = ''null''"
| "json_value (JStr s) = json_string s"
| "json_value (JBool b) = (if b then ''true'' else ''false'')"
| "json_value (JInt i) = string_of_int i"

fun json_members :: "(string \<times> json) list \<Rightarrow> string" where
  "json_members [] = []"
| "json_members [(k, v)] = json_string k @ '':'' @ json_value v"
| "json_members ((k, v) # ms) = json_string k @ '':'' @ json_value v @ '','' @ json_members ms"

text \<open>\<open>json.dumps(payload, ensure_ascii=True, separators=(",", ":"), sort_keys=True)\<close>\<close>

definition json_dumps :: "(string \<times> json) list \<Rightarrow> string" where
  "json_dumps payload = ''{'' @ json_members (sort_key fst payload) @ ''}''"

definition utc_text :: "datetime option \<Rightarrow> json result" where
  "utc_text v =
    (case v of
       None \<Rightarrow> Inr JNull
     | Some d \<Rightarrow>
         if \<not> is_aware d
         then raise ValueError ''Gold catalog materialized-view datetime must be timezone-aware''
         else Inr (JStr (iso_utc_z (dt_num d))))"

definition json_opt :: "('a \<Rightarrow> json) \<Rightarrow> 'a option \<Rightarrow> json" where
  "json_opt f v = (case v of None \<Rightarrow> JNull | Some x \<Rightarrow> f x)"

definition catalog_json :: "gold_record \<Rightarrow> string result" where
  "catalog_json r =
    rbind (utc_text (completed_at_utc r)) (\<lambda>completed.
    rbind (utc_text (max_timestamp r)) (\<lambda>max_ts.
    rbind (utc_text (min_timestamp r)) (\<lambda>min_ts.
    rbind (utc_text (pruned_at_utc r)) (\<lambda>pruned.
    rbind (utc_text (Some (started_at_utc r))) (\<lambda>started.
    Inr (json_dumps
      [(''build_id'', JStr (build_id r)),
       (''build_manifest_path'', json_opt JStr (build_manifest_path r)),
       (''completed_at_utc'', completed),
       (''current'', JBool (current r)),
       (''data_path'', json_opt JStr (data_path r)),
       (''dataset_id'', JStr (dataset_id r)),
       (''feature_version'', JInt (feature_version r)),
       (''max_timestamp'', max_ts),
       (''min_timestamp'', min_ts),
       (''plot_path'', json_opt JStr (plot_path r)),
       (''pruned_at_utc'', pruned),
       (''row_count'', json_opt JInt (row_count r)),
       (''schema_version'', JInt (schema_version r)),
       (''started_at_utc'', started),
       (''status'', JStr (status_value (status r)))] @ [CHR 0x0A]))))))"

section \<open>The writer\<close>

definition PNG_SIGNATURE :: string where
  "PNG_SIGNATURE = map char_of [137, 80, 78, 71, 13, 10, 26, 10 :: nat]"

definition atomic_replace_bytes :: "path \<Rightarrow> string \<Rightarrow> ('z lake_scheme, unit) io" where
  "atomic_replace_bytes p payload =
    seq (mkdir_parents (parent p))
      (bind mkstemp (\<lambda>t.
        try_finally
          (seq (write_temp t (Bytes payload)) (seq fault_point (os_replace t p)))
          (unlink_temp t)))"

definition physical_paths :: "path \<Rightarrow> gold_record \<Rightarrow> (path \<times> path \<times> path) result" where
  "physical_paths lake_root r =
    (let versions = ''versions/build_id='' @ build_id r;
         rel = (versions @ ''/data.parquet'', versions @ ''/manifest.json'', versions @ ''/feature_profile.png'');
         actual = (data_path r, build_manifest_path r, plot_path r)
     in if actual \<noteq> (Some (fst rel), Some (fst (snd rel)), Some (snd (snd rel)))
        then raise ValueError ''Gold current catalog artifact path shape mismatch''
        else
          let base = gold_dataset_root lake_root @ [''versions'', ''build_id='' @ build_id r];
              physical = [base @ [''data.parquet''], base @ [''manifest.json''], base @ [''feature_profile.png'']]
          in rbind (gold_build_root lake_root (build_id r)) (\<lambda>build_root.
             if list_ex (\<lambda>p. parent p \<noteq> build_root) physical
             then raise ValueError ''Gold current artifact escapes expected build directory''
             else Inr (physical ! 0, physical ! 1, physical ! 2)))"

definition read_png :: "path \<Rightarrow> ('z lake_scheme, string) io" where
  "read_png p =
    seq fault_point (bind (gets (file_at p)) (\<lambda>c.
      case c of
        None \<Rightarrow> throw (Exn FileNotFoundError ''No such file or directory'')
      | Some (Parquet _) \<Rightarrow> throw (Exn ValueError ''Gold current feature profile is not a PNG'')
      | Some (Bytes b) \<Rightarrow>
          if take (length PNG_SIGNATURE) b = PNG_SIGNATURE then ret b
          else throw (Exn ValueError ''Gold current feature profile is not a PNG'')))"

definition refresh_views :: "path \<Rightarrow> gold_record list \<Rightarrow> ('z lake_scheme, unit) io" where
  "refresh_views lake_root records =
    (case filter current records of
       [] \<Rightarrow>
         seq (unlink_file (gold_manifest_json lake_root))
           (seq (unlink_file (gold_profile lake_root)) fault_point)
     | [r] \<Rightarrow>
         if \<not> selectable_complete r
         then throw (Exn ValueError ''Gold current row is not a selectable complete build'')
         else
           bind (lift (physical_paths lake_root r)) (\<lambda>(data, manifest, plot).
           bind (gets (\<lambda>w. is_file data w \<and> is_file manifest w \<and> is_file plot w)) (\<lambda>present.
           if \<not> present
           then throw (Exn FileNotFoundError ''Gold current bundle is physically incomplete'')
           else
             bind (read_png plot) (\<lambda>plot_bytes.
             bind (lift (catalog_json r)) (\<lambda>root_json.
             seq fault_point
               (seq (atomic_replace_bytes (gold_manifest_json lake_root) root_json)
                 (seq fault_point
                   (seq (atomic_replace_bytes (gold_profile lake_root) plot_bytes) fault_point)))))))
     | _ \<Rightarrow> throw (Exn ValueError ''Gold catalog contains multiple current rows''))"

section \<open>The sweeper\<close>

definition remove_dir :: "path \<Rightarrow> ('z lake_scheme, unit) io" where
  "remove_dir d =
    bind (gets dirs) (\<lambda>ds.
      if d \<notin> set ds then ret ()
      else
        seq fault_point
          (bind (gets files) (\<lambda>fs.
            if list_ex (\<lambda>f. parent (fst f) = d) fs \<or> list_ex (\<lambda>e. e \<noteq> [] \<and> parent e = d) ds
            then throw (Exn OSError ''Directory not empty'')
            else modify (\<lambda>w. w\<lparr>dirs := filter (\<lambda>e. e \<noteq> d) (dirs w)\<rparr>))))"

definition sweep_artifact :: "path \<Rightarrow> path \<Rightarrow> ('z lake_scheme, unit) io" where
  "sweep_artifact build_root p =
    (if parent p \<noteq> build_root
     then throw (Exn ValueError ''Gold retention artifact escapes expected build directory'')
     else seq fault_point (seq (unlink_file p) fault_point))"

definition sweep_bundle :: "path \<Rightarrow> string \<Rightarrow> ('z lake_scheme, unit) io" where
  "sweep_bundle lake_root bid =
    bind (lift (gold_build_root lake_root bid)) (\<lambda>build_root.
    bind (lift (gold_data lake_root bid)) (\<lambda>data.
    bind (lift (gold_build_manifest lake_root bid)) (\<lambda>manifest.
    bind (lift (gold_build_profile lake_root bid)) (\<lambda>plot.
      seq (for_each (sweep_artifact build_root) [data, manifest, plot])
        (seq fault_point (seq (remove_dir build_root) fault_point))))))"

section \<open>Facts\<close>

lemma preserves_file_at_modify:
  "(\<And>w. files (f w) = files w \<or> (\<exists>c. files (f w) = AList.update q c (files w)) \<or> files (f w) = AList.delete q (files w))
    \<Longrightarrow> p \<noteq> q \<Longrightarrow> preserves (file_at p) (modify f)"
  by (rule preserves_modify) (metis file_at_def delete_conv' fun_upd_other update_conv')

lemma preserves_files_file_at: "preserves files m \<Longrightarrow> preserves (file_at p) m"
  by (simp add: preserves_def file_at_def)

lemma os_replace_other [preserves_intros]: "p \<noteq> q \<Longrightarrow> preserves (file_at p) (os_replace t q)"
  unfolding os_replace_def
  by (intro preserves_intros preserves_file_at_modify [where q = q]) (auto split: option.split)

lemma unlink_file_other [preserves_intros]: "p \<noteq> q \<Longrightarrow> preserves (file_at p) (unlink_file q)"
  unfolding unlink_file_def
  by (intro preserves_intros preserves_file_at_modify [where q = q]) auto

lemmas file_at_preserved [preserves_intros] =
  preserves_files_ops [THEN preserves_files_file_at]

lemma atomic_replace_bytes_other [preserves_intros]:
  "p \<noteq> q \<Longrightarrow> preserves (file_at p) (atomic_replace_bytes q b)"
  unfolding atomic_replace_bytes_def by (intro preserves_intros)

lemma read_png_preserves [preserves_intros]: "preserves (file_at p) (read_png q)"
  unfolding read_png_def by (auto intro!: preserves_intros split: option.split content.split)

lemma refresh_views_other:
  assumes "p \<noteq> gold_manifest_json lake_root" "p \<noteq> gold_profile lake_root"
  shows "preserves (file_at p) (refresh_views lake_root rs)"
proof -
  consider "filter current rs = []" | r where "filter current rs = [r]"
    | q r qs where "filter current rs = q # r # qs"
    by (metis list.exhaust)
  then show ?thesis
    unfolding refresh_views_def using assms
    by cases (auto intro!: preserves_intros split: prod.split)
qed

lemma catalog_view_preserves: "preserves (file_at p) m \<Longrightarrow> preserves (catalog_view pl p) m"
  by (simp add: preserves_def catalog_view_def)

end
