(* ===== verification/Gold_Lake.thy ===== *)
theory Gold_Lake
  imports Gold_Publication Gold_Retention Gold_Views
begin

text \<open>
  Publication and retention on the lake itself: the catalog is the Parquet repository, the views are
  the materialized root files, the sweeper deletes bundle files.  The bundle builder, the mirror, the
  clock and the event sink remain parameters that do not write the catalog file.  Every theorem here
  quantifies over the fault plan of the world, so it covers an exception at any system call.
\<close>

definition lake_publisher ::
  "polars \<Rightarrow> path \<Rightarrow> ('z lake_scheme, string) io \<Rightarrow>
    ('f \<Rightarrow> string \<Rightarrow> datetime \<Rightarrow> 'i \<Rightarrow> ('z lake_scheme, gold_bundle) io) \<Rightarrow>
    ('z lake_scheme, unit) io option \<Rightarrow> ('z lake_scheme, datetime) io \<Rightarrow>
    (string \<Rightarrow> ('z lake_scheme, unit) io) \<Rightarrow> ('z lake_scheme, 'f, 'i) publisher" where
  "lake_publisher pl lake_root next_id create mirror clock event =
    \<lparr>pub_read = catalog_repo_read pl (gold_manifest_parquet lake_root),
     pub_replace = catalog_repo_replace pl (gold_manifest_parquet lake_root),
     pub_next_build_id = next_id,
     pub_create_and_validate = create,
     pub_refresh_views = refresh_views lake_root,
     pub_mirror_sync = mirror,
     pub_clock = clock,
     pub_event = event\<rparr>"

definition lake_retention :: "polars \<Rightarrow> path \<Rightarrow> ('z lake_scheme, datetime) io \<Rightarrow> 'z lake_scheme retention" where
  "lake_retention pl lake_root clock =
    \<lparr>ret_read = catalog_repo_read pl (gold_manifest_parquet lake_root),
     ret_replace = catalog_repo_replace pl (gold_manifest_parquet lake_root),
     ret_sweep = sweep_bundle lake_root,
     ret_refresh_views = refresh_views lake_root,
     ret_clock = clock\<rparr>"

text \<open>The three files of a build.\<close>

definition bundle_path :: "path \<Rightarrow> string \<Rightarrow> string \<Rightarrow> path" where
  "bundle_path lake_root bid name = gold_dataset_root lake_root @ [''versions'', ''build_id='' @ bid, name]"

definition bundle_files :: "path \<Rightarrow> string \<Rightarrow> 'z lake_scheme \<Rightarrow> content option list" where
  "bundle_files lake_root bid w =
    map (\<lambda>n. file_at (bundle_path lake_root bid n) w) [''data.parquet'', ''manifest.json'', ''feature_profile.png'']"

section \<open>Collaborators that stay away from the catalog file\<close>

definition leaves_file ::
  "path \<Rightarrow> ('z lake_scheme, 'a) io \<Rightarrow> bool" where
  "leaves_file p m \<longleftrightarrow> preserves (file_at p) m"

lemma lake_publisher_simps [simp]:
  "pub_read (lake_publisher pl r n c m k e) = catalog_repo_read pl (gold_manifest_parquet r)"
  "pub_replace (lake_publisher pl r n c m k e) = catalog_repo_replace pl (gold_manifest_parquet r)"
  "pub_next_build_id (lake_publisher pl r n c m k e) = n"
  "pub_create_and_validate (lake_publisher pl r n c m k e) = c"
  "pub_refresh_views (lake_publisher pl r n c m k e) = refresh_views r"
  "pub_mirror_sync (lake_publisher pl r n c m k e) = m"
  "pub_clock (lake_publisher pl r n c m k e) = k"
  "pub_event (lake_publisher pl r n c m k e) = e"
  by (simp_all add: lake_publisher_def)

lemma lake_retention_simps [simp]:
  "ret_read (lake_retention pl r k) = catalog_repo_read pl (gold_manifest_parquet r)"
  "ret_replace (lake_retention pl r k) = catalog_repo_replace pl (gold_manifest_parquet r)"
  "ret_sweep (lake_retention pl r k) = sweep_bundle r"
  "ret_refresh_views (lake_retention pl r k) = refresh_views r"
  "ret_clock (lake_retention pl r k) = k"
  by (simp_all add: lake_retention_def)

lemma bundle_path_facts [simp]:
  "bundle_path r b n \<noteq> gold_manifest_parquet r" "bundle_path r b n \<noteq> gold_manifest_json r"
  "bundle_path r b n \<noteq> gold_profile r"
  by (simp_all add: bundle_path_def gold_manifest_parquet_def gold_manifest_json_def gold_profile_def)

lemma bundle_path_inject [simp]: "bundle_path r b n = bundle_path r c m \<longleftrightarrow> b = c \<and> n = m"
  by (simp add: bundle_path_def)

lemma preserves_bundle_files:
  "(\<And>n. preserves (file_at (bundle_path r b n)) m) \<Longrightarrow> preserves (bundle_files r b) m"
  by (simp add: preserves_def bundle_files_def)

lemma repo_replace_other:
  assumes "q \<noteq> p" shows "preserves (file_at q) (catalog_repo_replace pl p rs)"
  unfolding catalog_repo_replace_def atomic_write_parquet_def
  by (intro preserves_intros atomic_write_other assms)

lemma repo_read_files: "preserves (file_at q) (catalog_repo_read pl p)"
  unfolding catalog_repo_read_def by (intro preserves_intros)

lemma refresh_views_catalog: "preserves (catalog_view pl (gold_manifest_parquet r)) (refresh_views r rs)"
  by (intro catalog_view_preserves refresh_views_other) simp_all

lemma remove_dir_files: "preserves files (remove_dir d)"
  unfolding remove_dir_def
  by (intro preserves_intros preserves_if) (auto intro!: preserves_intros preserves_modify)

lemma sweep_artifact_other: "q \<noteq> p \<Longrightarrow> preserves (file_at q) (sweep_artifact d p)"
  unfolding sweep_artifact_def by (intro preserves_intros)

lemma sweep_bundle_eq:
  "is_build_id b \<Longrightarrow> sweep_bundle r b =
    seq (for_each (sweep_artifact (gold_dataset_root r @ [''versions'', ''build_id='' @ b]))
          [bundle_path r b ''data.parquet'', bundle_path r b ''manifest.json'', bundle_path r b ''feature_profile.png''])
      (seq fault_point (seq (remove_dir (gold_dataset_root r @ [''versions'', ''build_id='' @ b])) fault_point))"
  by (simp add: sweep_bundle_def gold_data_def gold_build_manifest_def gold_build_profile_def
      gold_build_root_def bundle_path_def)

lemma sweep_bundle_other:
  assumes "\<And>n. q \<noteq> bundle_path r b n"
  shows "preserves (file_at q) (sweep_bundle r b)"
proof (cases "is_build_id b")
  case True
  show ?thesis
    unfolding sweep_bundle_eq [OF True] for_each.simps
    by (intro preserves_intros preserves_files_file_at sweep_artifact_other assms remove_dir_files)
next
  case False
  then show ?thesis
    by (simp add: sweep_bundle_def gold_build_root_def preserves_def bind_def lift_def raise_def)
qed

section \<open>Publication on the lake\<close>

lemma lake_publisher_is_publisher:
  assumes "polars_frames pl"
    and "leaves_file (gold_manifest_parquet r) n" "\<And>f b t i. leaves_file (gold_manifest_parquet r) (c f b t i)"
      "opt_all (leaves_file (gold_manifest_parquet r)) m" "leaves_file (gold_manifest_parquet r) k"
      "\<And>e. leaves_file (gold_manifest_parquet r) (ev e)"
  shows "gold_publisher (catalog_view pl (gold_manifest_parquet r)) (lake_publisher pl r n c m k ev)"
proof (rule gold_publisher.intro)
  show "gold_catalog_port (catalog_view pl (gold_manifest_parquet r)) (pub_read (lake_publisher pl r n c m k ev))
      (pub_replace (lake_publisher pl r n c m k ev))"
    using repository_is_port [OF assms(1)] by simp
  show "gold_publisher_axioms (catalog_view pl (gold_manifest_parquet r)) (lake_publisher pl r n c m k ev)"
    using assms(2-) refresh_views_catalog
    by unfold_locales (auto simp: leaves_file_def intro: catalog_view_preserves)
qed

text \<open>
  C1: replacing the catalog is the only commit point of a publication, whatever fails.  The publisher works on
  the Parquet catalog of the lake and the materialized root views; the other collaborators may do and
  raise anything as long as they leave the catalog file alone, and any system call may raise any
  exception, also one that \<open>except Exception\<close> does not catch.  Starting from a readable catalog, the
  catalog is readable and valid afterwards.  If the publication returns a row, exactly that row (with its
  times in UTC) is current, it is a new complete build of the program's versions, and every finished
  earlier row is kept, no longer current.  If it raises, either nothing was published - the current row
  and all finished rows are unchanged - or the new build was published completely: a failure never leaves
  the catalog without its current build or with a half-published one.
\<close>

theorem publish_atomic:
  assumes "polars_frames pl"
    and "leaves_file (gold_manifest_parquet r) n" "\<And>f b t i. leaves_file (gold_manifest_parquet r) (c f b t i)"
      "opt_all (leaves_file (gold_manifest_parquet r)) m" "leaves_file (gold_manifest_parquet r) k"
      "\<And>e. leaves_file (gold_manifest_parquet r) (ev e)"
    and "catalog_view pl (gold_manifest_parquet r) w = Some old"
    and "publish (lake_publisher pl r n c m k ev) frame inputs w = (res, w')"
  shows "\<exists>rs. catalog_view pl (gold_manifest_parquet r) w' = Some rs \<and> valid_catalog rs
    \<and> (case res of
         Inr cur \<Rightarrow> published old (utc_record cur) rs \<and> filter current rs = [utc_record cur]
       | Inl e \<Rightarrow> (settled old rs \<and> filter current rs = filter current old)
                \<or> (\<exists>new. published old new rs \<and> filter current rs = [new]))"
proof -
  let ?view = "catalog_view pl (gold_manifest_parquet r)"
  note port = repository_is_port [OF assms(1), of "gold_manifest_parquet r"]
  have "gold_publisher ?view (lake_publisher pl r n c m k ev)"
    by (rule lake_publisher_is_publisher) (fact assms)+
  note hoare = gold_publisher.publish_hoare [OF this, where old = old and frame = frame and inputs = inputs]
  note valid = gold_catalog_port.view_valid [OF port]
  have old: "valid_catalog old" using valid [OF assms(7)] by blast
  show ?thesis
  proof (cases res)
    case (Inr cur)
    then obtain rs where rs: "?view w' = Some rs" "published old (utc_record cur) rs"
      using hoareD_Inr [OF hoare assms(7)] assms(8) by blast
    then show ?thesis
      using Inr valid [OF rs(1)] published_current [OF rs(2)] by simp
  next
    case (Inl e)
    then obtain rs where rs: "?view w' = Some rs" "settled old rs \<or> (\<exists>new. published old new rs)"
      using hoareD_Inl [OF hoare assms(7)] assms(8) by blast
    then have "valid_catalog rs" using valid by blast
    with rs show ?thesis
      unfolding Inl sum.case using published_current settled_current old by blast
  qed
qed

text \<open>
  C3: reconciling finishes stale attempts and nothing else.  When \<open>reconcile\<close> returns rows, the catalog
  holds exactly these rows; none of them is still building, the set of build ids and the current row are
  unchanged, every finished row is kept and any other row is a failed attempt that is not current.
\<close>

theorem reconcile_finishes_stale:
  assumes "polars_frames pl"
    and "leaves_file (gold_manifest_parquet r) n" "\<And>f b t i. leaves_file (gold_manifest_parquet r) (c f b t i)"
      "opt_all (leaves_file (gold_manifest_parquet r)) m" "leaves_file (gold_manifest_parquet r) k"
      "\<And>e. leaves_file (gold_manifest_parquet r) (ev e)"
    and "catalog_view pl (gold_manifest_parquet r) w = Some old"
    and "reconcile (lake_publisher pl r n c m k ev) w = (Inr rows, w')"
  shows "\<exists>rs. catalog_view pl (gold_manifest_parquet r) w' = Some rs \<and> set rs = set rows
    \<and> list_all (\<lambda>q. status q \<noteq> BUILDING) rs \<and> settled old rs
    \<and> build_id ` set rs = build_id ` set old \<and> filter current rs = filter current old"
proof -
  let ?view = "catalog_view pl (gold_manifest_parquet r)"
  let ?P = "lake_publisher pl r n c m k ev"
  have P: "gold_publisher ?view ?P"
    by (rule lake_publisher_is_publisher) (fact assms)+
  note valid = gold_catalog_port.view_valid [OF repository_is_port [OF assms(1), of "gold_manifest_parquet r"]]
  obtain rs where rs: "?view w' = Some rs" "set rs = set rows"
    and rec: "gold_publisher.reconciled old rows"
    using hoareD_Inr [OF gold_publisher.reconcile_catalog [OF P] assms(7,8)]
    unfolding gold_publisher.holds_def [OF P] by blast
  note facts = rec [unfolded gold_publisher.reconciled_def [OF P]]
  have "settled old rs"
    using facts rs(2) by (simp add: settled_def)
  moreover from this have "filter current rs = filter current old"
    using settled_current valid [OF rs(1)] valid [OF assms(7)] by blast
  ultimately show ?thesis
    using facts rs by (auto simp: list_all_iff)
qed

section \<open>Retention on the lake\<close>

lemma lake_retention_is_retention:
  assumes "polars_frames pl" "preserves files k"
  shows "gold_retention (catalog_view pl (gold_manifest_parquet r)) (lake_retention pl r k) (bundle_files r)"
proof (rule gold_retention.intro)
  show "gold_catalog_port (catalog_view pl (gold_manifest_parquet r)) (ret_read (lake_retention pl r k))
      (ret_replace (lake_retention pl r k))"
    using repository_is_port [OF assms(1)] by simp
  have clock: "preserves (file_at p) k" for p
    using assms(2) by (rule preserves_files_file_at)
  show "gold_retention_axioms (catalog_view pl (gold_manifest_parquet r)) (lake_retention pl r k) (bundle_files r)"
  proof (unfold_locales, goal_cases)
    case 3 show ?case
      by (simp, intro catalog_view_preserves sweep_bundle_other) (metis bundle_path_facts(1))
  qed (auto intro!: refresh_views_catalog catalog_view_preserves clock preserves_bundle_files repo_read_files
      repo_replace_other refresh_views_other sweep_bundle_other)
qed

text \<open>
  C2: retention never touches a build that is still in use, whatever fails.  For every policy, starting from a
  readable catalog, after a retention run that returns or raises at any point the catalog is readable and
  valid, its current row is unchanged, every row is an old row or the tombstone of a retained build that
  was not current, no row is lost, and the files of every build that is not tombstoned in the catalog are
  exactly as before: rows are tombstoned before any file of their build is deleted.
\<close>

theorem retention_safe:
  assumes "polars_frames pl" "preserves files k"
    and "catalog_view pl (gold_manifest_parquet r) w = Some old"
    and "retention_run retain (lake_retention pl r k) w = (res, w')"
  shows "\<exists>rs. catalog_view pl (gold_manifest_parquet r) w' = Some rs \<and> valid_catalog rs
    \<and> filter current rs = filter current old \<and> marks old rs
    \<and> (\<forall>b. bundle_files r b w' = bundle_files r b w \<or> b \<in> tombstone_ids rs)"
proof -
  let ?view = "catalog_view pl (gold_manifest_parquet r)"
  note retention = lake_retention_is_retention [OF assms(1,2), of r]
  note valid = gold_catalog_port.view_valid [OF repository_is_port [OF assms(1), of "gold_manifest_parquet r"]]
  note hoare = gold_retention.run_hoare [OF retention, where old = old and phys = "\<lambda>b. bundle_files r b w"
      and retain = retain]
  have "gold_retention.safe ?view (bundle_files r) old (\<lambda>b. bundle_files r b w) w'"
    using hoareD_Inr [OF hoare, of w _ w'] hoareD_Inl [OF hoare, of w _ w'] assms(3,4) by (cases res) auto
  then obtain rs where rs: "?view w' = Some rs" "marks old rs"
    "\<forall>b. b \<notin> tombstone_ids rs \<longrightarrow> bundle_files r b w' = bundle_files r b w"
    unfolding gold_retention.safe_def [OF retention] by blast
  have "set (filter current rs) = set (filter current old)"
    using marks_current [OF rs(2)] by auto
  then have "filter current rs = filter current old"
    using same_current valid [OF rs(1)] valid [OF assms(3)] by blast
  with rs valid [OF rs(1)] show ?thesis by blast
qed

section \<open>The interfaces on the lake\<close>

text \<open>A collaborator that acts only on the rest of the world, outside the lake.\<close>

definition on_rest :: "('z, 'a) io \<Rightarrow> ('z lake_scheme, 'a) io" where
  "on_rest m w = (case m (lake.more w) of (r, z) \<Rightarrow> (r, lake.more_update (\<lambda>_. z) w))"

lemma on_rest_files: "preserves files (on_rest m)"
  by (rule preservesI) (auto simp: on_rest_def split: prod.splits)

lemma on_rest_leaves: "leaves_file p (on_rest m)"
  unfolding leaves_file_def by (rule preserves_files_file_at [OF on_rest_files])

interpretation lake_pub: gold_publisher "catalog_view reference_polars (gold_manifest_parquet r)"
  "lake_publisher reference_polars r (on_rest n) (\<lambda>f b t i. on_rest (c f b t i)) None (on_rest k) (\<lambda>e. on_rest (ev e))"
  for r n c k ev
  by (rule lake_publisher_is_publisher [OF ref_polars.polars_frames_axioms])
    (simp_all add: on_rest_leaves)

interpretation lake_ret: gold_retention "catalog_view reference_polars (gold_manifest_parquet r)"
  "lake_retention reference_polars r (on_rest k)" "bundle_files r" for r k
  by (rule lake_retention_is_retention [OF ref_polars.polars_frames_axioms on_rest_files])

section \<open>A concrete lake\<close>

text \<open>
  A bundle builder that writes the three files of a build and reports them, on a clock that stands still:
  the instances at which the theorems are applied.
\<close>

definition demo_bundle :: "string \<Rightarrow> gold_bundle" where
  "demo_bundle b =
    \<lparr>cand_build_id = b, cand_completed_at_utc = Aware 7200000000 3600000000, cand_schema_version = 11,
     cand_feature_version = 6, cand_row_count = 1, cand_min_timestamp = Some (Aware 0 0),
     cand_max_timestamp = Some (Aware 0 0), cand_data_path = ''versions/build_id='' @ b @ ''/data.parquet'',
     cand_build_manifest_path = ''versions/build_id='' @ b @ ''/manifest.json'',
     cand_plot_path = ''versions/build_id='' @ b @ ''/feature_profile.png''\<rparr>"

definition demo_create ::
  "path \<Rightarrow> unit \<Rightarrow> string \<Rightarrow> datetime \<Rightarrow> unit \<Rightarrow> ('z lake_scheme, gold_bundle) io" where
  "demo_create lake_root f b t i =
    seq fault_point
      (seq (modify (\<lambda>w. w\<lparr>files := AList.update (bundle_path lake_root b ''data.parquet'') (Bytes [])
              (AList.update (bundle_path lake_root b ''manifest.json'') (Bytes [])
                (AList.update (bundle_path lake_root b ''feature_profile.png'') (Bytes PNG_SIGNATURE) (files w)))\<rparr>))
        (ret (demo_bundle b)))"

definition demo_publisher :: "string \<Rightarrow> (lake, unit, unit) publisher" where
  "demo_publisher b =
    lake_publisher reference_polars [''lake''] (ret b) (demo_create [''lake'']) None
      (ret (Aware 3600000000 0)) (\<lambda>_. fault_point)"

lemma preserves_append_files:
  "p \<noteq> q1 \<Longrightarrow> p \<noteq> q2 \<Longrightarrow> p \<noteq> q3 \<Longrightarrow>
    preserves (file_at p) (modify (\<lambda>w. w\<lparr>files := AList.update q1 c1 (AList.update q2 c2 (AList.update q3 c3 (files w)))\<rparr>))"
  by (rule preserves_modify) (simp add: file_at_def update_conv')

lemma demo_create_leaves: "leaves_file (gold_manifest_parquet r) (demo_create r f b t i)"
  unfolding leaves_file_def demo_create_def
  by (intro preserves_intros preserves_append_files) (metis bundle_path_facts(1))+

lemma fault_point_leaves: "leaves_file p fault_point"
  by (simp add: leaves_file_def preserves_intros)

lemma ret_leaves: "leaves_file p (ret x)"
  by (simp add: leaves_file_def preserves_intros)

definition demo_run :: "gold_record result \<times> lake" where
  "demo_run = publish (demo_publisher ''20240102T030405Z'') () () empty_lake"

lemma demo_publish_returns: "is_ok (fst demo_run)"
  by code_simp

lemma demo_run_publish:
  "publish (lake_publisher reference_polars [''lake''] (ret ''20240102T030405Z'')
      (demo_create [''lake'']) None (ret (Aware 3600000000 0)) (\<lambda>_. fault_point)) () () empty_lake
    = (fst demo_run, snd demo_run)"
  by (simp only: demo_run_def demo_publisher_def prod.collapse)

lemma empty_lake_view: "catalog_view pl p empty_lake = Some []"
  by (simp add: catalog_view_def file_at_def empty_lake_def)

theorem publish_atomic_witness:
  "\<exists>rs cur. fst demo_run = Inr cur
    \<and> catalog_view reference_polars (gold_manifest_parquet [''lake'']) (snd demo_run) = Some rs
    \<and> valid_catalog rs \<and> published [] (utc_record cur) rs \<and> filter current rs = [utc_record cur]"
proof -
  obtain cur where cur: "fst demo_run = Inr cur"
    using demo_publish_returns unfolding is_ok_iff by (rule exE)
  note run = demo_run_publish [unfolded cur]
  have mirror: "opt_all (leaves_file (gold_manifest_parquet [''lake''])) None"
    by simp
  show ?thesis
    using publish_atomic [OF ref_polars.polars_frames_axioms ret_leaves demo_create_leaves mirror ret_leaves
        fault_point_leaves empty_lake_view run]
    unfolding sum.case using cur by blast
qed

text \<open>A lake that holds a given catalog and nothing else.\<close>

definition catalog_lake :: "path \<Rightarrow> gold_record list \<Rightarrow> lake" where
  "catalog_lake lake_root rs = empty_lake\<lparr>files :=
    (case catalog_frame reference_polars rs of
       Inl _ \<Rightarrow> []
     | Inr f \<Rightarrow> [(gold_manifest_parquet lake_root, Parquet f)])\<rparr>"

lemma catalog_lake_view:
  assumes "valid_catalog rs" "list_all storable_record rs"
  shows "catalog_view reference_polars (gold_manifest_parquet r) (catalog_lake r rs) = Some (canonical_catalog rs)"
proof -
  obtain f where "catalog_frame reference_polars rs = Inr f"
    using ref_polars.catalog_frame_total [OF assms] by blast
  then show ?thesis
    by (simp add: catalog_view_def catalog_lake_def file_at_def ref_polars.parse_written)
qed

definition demo_record :: "string \<Rightarrow> int \<Rightarrow> bool \<Rightarrow> gold_record" where
  "demo_record b t cur = complete_row (building_row b (Aware t 0)) (demo_bundle b) (Aware (t + 1) 0)
    \<lparr>current := cur\<rparr>"

definition demo_catalog :: "gold_record list" where
  "demo_catalog =
    [demo_record ''20240101T000000Z'' 10 False, demo_record ''20240102T000000Z'' 20 False,
     demo_record ''20240103T000000Z'' 30 True]"

lemma demo_catalog_valid: "valid_catalog demo_catalog" "list_all storable_record demo_catalog"
  by (simp_all add: demo_catalog_def demo_record_def valid_catalog_def valid_record_def complete_row_def
      building_row_def demo_bundle_def artifact_paths_complete_iff storable_record_def catalog_times_def
      fits_int64_def GOLD_SCHEMA_VERSION_def GOLD_FEATURE_VERSION_def)

theorem retention_safe_witness:
  "\<exists>rs. catalog_view reference_polars (gold_manifest_parquet [''lake''])
        (snd (retention_run 2 (lake_retention reference_polars [''lake''] (ret (Aware 99 0)))
          (catalog_lake [''lake''] demo_catalog))) = Some rs
    \<and> valid_catalog rs \<and> filter current rs = filter current (canonical_catalog demo_catalog)
    \<and> marks (canonical_catalog demo_catalog) rs"
  using retention_safe [OF ref_polars.polars_frames_axioms preserves_basic(1)
      catalog_lake_view [OF demo_catalog_valid] surjective_pairing] by blast

theorem retention_selects_oldest_witness:
  "\<exists>ids. select_for_mark 2 demo_catalog = Inr ids
    \<and> length (filter (\<lambda>r. build_id r \<in> set ids) (version_group demo_catalog (11, 6))) = 1"
proof -
  have "GoldRetentionPolicy 2 = Inr 2"
    by (simp add: GoldRetentionPolicy_def)
  moreover have "length (version_group demo_catalog (11, 6)) = 3"
    by (simp add: version_group_def demo_catalog_def demo_record_def retained_def version_key_def
        complete_row_def building_row_def demo_bundle_def artifact_paths_complete_iff)
  ultimately show ?thesis
    using retention_selects_oldest [OF demo_catalog_valid(1)] by fastforce
qed

theorem latest_compatible_resolution_witness:
  "\<exists>r. latest_compatible_resolve demo_catalog \<lparr>wanted_schema_version = 11, wanted_feature_version = 6\<rparr> = Inr r
    \<and> current r \<and> build_id r = ''20240103T000000Z''"
proof -
  let ?c = "\<lparr>wanted_schema_version = 11, wanted_feature_version = 6\<rparr>"
  have usable: "list_all (usable ?c) demo_catalog"
    by (simp add: usable_def demo_catalog_def demo_record_def selectable_complete_def matches_def
        complete_row_def building_row_def demo_bundle_def artifact_paths_complete_iff)
  have current: "filter current demo_catalog = [demo_record ''20240103T000000Z'' 30 True]"
    by (simp add: demo_catalog_def demo_record_def)
  then have "list_ex (\<lambda>q. current q \<and> usable ?c q) demo_catalog"
    using usable by (simp add: demo_catalog_def demo_record_def)
  moreover have "filter (usable ?c) demo_catalog = demo_catalog"
    using usable by (simp add: list_all_iff)
  moreover have "demo_catalog \<noteq> []"
    by (simp add: demo_catalog_def)
  ultimately obtain r where "latest_compatible_resolve demo_catalog ?c = Inr r" "r \<in> set demo_catalog" "current r"
    using latest_compatible_resolution [OF demo_catalog_valid(1), of ?c] by (auto split: sum.splits)
  moreover from this have "r = demo_record ''20240103T000000Z'' 30 True"
    using filter_single_mem [OF current] by blast
  moreover have "build_id (demo_record ''20240103T000000Z'' 30 True) = ''20240103T000000Z''"
    by (simp add: demo_record_def)
  ultimately show ?thesis by blast
qed

definition stale_catalog :: "gold_record list" where
  "stale_catalog = [failed_row (Aware 35 0) (building_row ''20240103T000000Z'' (Aware 30 0)),
     building_row ''20240104T000000Z'' (Aware 40 0)]"

lemma stale_catalog_valid: "valid_catalog stale_catalog" "list_all storable_record stale_catalog"
  by (simp_all add: stale_catalog_def failed_row_def valid_catalog_def valid_record_def complete_row_def
      building_row_def demo_bundle_def artifact_paths_complete_iff storable_record_def catalog_times_def
      fits_int64_def GOLD_SCHEMA_VERSION_def GOLD_FEATURE_VERSION_def)

definition stale_run :: "gold_record list result \<times> lake" where
  "stale_run = reconcile (demo_publisher ''20240105T000000Z'') (catalog_lake [''lake''] stale_catalog)"

lemma stale_run_returns: "is_ok (fst stale_run)"
  by code_simp

theorem reconcile_finishes_stale_witness:
  "\<exists>rows rs. fst stale_run = Inr rows
    \<and> catalog_view reference_polars (gold_manifest_parquet [''lake'']) (snd stale_run) = Some rs
    \<and> set rs = set rows \<and> list_all (\<lambda>q. status q \<noteq> BUILDING) rs
    \<and> build_id ` set rs = {''20240103T000000Z'', ''20240104T000000Z''}"
proof -
  obtain rows where rows: "fst stale_run = Inr rows"
    using stale_run_returns unfolding is_ok_iff by (rule exE)
  have run: "reconcile (lake_publisher reference_polars [''lake''] (ret ''20240105T000000Z'')
      (demo_create [''lake'']) None (ret (Aware 3600000000 0)) (\<lambda>_. fault_point))
      (catalog_lake [''lake''] stale_catalog) = (Inr rows, snd stale_run)"
    using rows by (metis stale_run_def demo_publisher_def prod.collapse)
  have mirror: "opt_all (leaves_file (gold_manifest_parquet [''lake''])) None"
    by simp
  have ids: "build_id ` set (canonical_catalog stale_catalog) = {''20240103T000000Z'', ''20240104T000000Z''}"
    by (simp add: set_canonical stale_catalog_def)
  obtain rs where "catalog_view reference_polars (gold_manifest_parquet [''lake'']) (snd stale_run) = Some rs"
    "set rs = set rows" "list_all (\<lambda>q. status q \<noteq> BUILDING) rs"
    "build_id ` set rs = build_id ` set (canonical_catalog stale_catalog)"
    using reconcile_finishes_stale [OF ref_polars.polars_frames_axioms ret_leaves demo_create_leaves mirror
        ret_leaves fault_point_leaves catalog_lake_view [OF stale_catalog_valid] run] by (elim exE conjE)
  with rows ids show ?thesis by (intro exI [of _ rows] exI [of _ rs]) (simp only: simp_thms)
qed

end
