(* ===== verification/Planner.thy ===== *)
theory Planner
  imports Contracts
begin

text \<open>
  \<open>src/application/planner.py\<close> and \<open>src/application/state.py\<close>: which operation a series needs, the fetch
  instruction for it, and the durable ingestion state that may advance only behind the durability
  barrier.  \<open>ObservationBounds\<close> is from \<open>src/application/ports/lake.py\<close>.  Dates are ordinals;
  subtracting days below ordinal 1 raises \<open>OverflowError\<close>.
\<close>

record observation_bounds =
  bounds_minimum :: "int option"
  bounds_maximum :: "int option"

datatype operation_mode = BOOTSTRAP | UPDATE | RECONCILE

record fetch_instruction =
  fi_mode :: operation_mode
  request_start :: "int option"
  request_end :: int
  maximum_history :: bool
  filter_start :: "int option"
  filter_end :: "int option"

text \<open>\<open>PlannerConfig(overlap_days)\<close>; the default is 7 days.\<close>

definition planner_config :: "int \<Rightarrow> int result" where
  "planner_config overlap_days =
    rbind (raise_if (overlap_days < 0) ValueError ''overlap_days must be >= 0'') (\<lambda>_. Inr overlap_days)"

definition default_overlap_days :: int where
  "default_overlap_days = 7"

definition choose_mode :: "observation_bounds \<Rightarrow> bool \<Rightarrow> operation_mode result" where
  "choose_mode bounds explicit_reconcile =
    (case bounds_maximum bounds of
       None \<Rightarrow>
         if explicit_reconcile then raise ValueError ''cannot reconcile a series with no Bronze history''
         else Inr BOOTSTRAP
     | Some _ \<Rightarrow> if explicit_reconcile then Inr RECONCILE else Inr UPDATE)"

definition date_minus_days :: "int \<Rightarrow> int \<Rightarrow> int result" where
  "date_minus_days d n =
    (if d - n < 1 \<or> n > 999999999 then raise OverflowError ''date value out of range'' else Inr (d - n))"

definition full_history :: "operation_mode \<Rightarrow> int \<Rightarrow> fetch_instruction" where
  "full_history m today =
    \<lparr>fi_mode = m, request_start = None, request_end = today, maximum_history = True,
     filter_start = None, filter_end = None\<rparr>"

definition build_plan ::
  "series_contract \<Rightarrow> observation_bounds \<Rightarrow> int \<Rightarrow> bool \<Rightarrow> int option \<Rightarrow> fetch_instruction result" where
  "build_plan contract bounds today explicit_reconcile config =
    (let overlap = (case config of None \<Rightarrow> default_overlap_days | Some n \<Rightarrow> n) in
     rbind (choose_mode bounds explicit_reconcile) (\<lambda>mode.
       if mode = BOOTSTRAP then Inr (full_history mode today)
       else
         case bounds_maximum bounds of
           None \<Rightarrow> raise AssertionError ''existing-history mode requires authoritative Bronze maximum''
         | Some latest \<Rightarrow>
             if today < latest then raise ValueError ''today cannot be earlier than latest stored observation''
             else if mode = RECONCILE then Inr (full_history mode today)
             else
               rbind (date_minus_days latest overlap) (\<lambda>start.
                 case fetch_capability contract of
                   DATE_RANGE \<Rightarrow>
                     Inr \<lparr>fi_mode = mode, request_start = Some start, request_end = today,
                       maximum_history = False, filter_start = Some start, filter_end = Some today\<rparr>
                 | FULL_FILE \<Rightarrow>
                     Inr \<lparr>fi_mode = mode, request_start = None, request_end = today,
                       maximum_history = False, filter_start = Some start, filter_end = Some today\<rparr>)))"

section \<open>Ingestion state\<close>

record ingestion_state =
  st_provider :: provider
  st_series_id :: string
  last_success_utc :: "datetime option"
  last_observed_date :: "int option"
  last_requested_start :: "int option"
  last_requested_end :: "int option"
  st_mode :: "operation_mode option"
  fetched_row_count :: int
  accepted_row_count :: int
  changed_row_count :: int
  last_reconcile_utc :: "datetime option"

definition authoritative_latest :: "ingestion_state \<Rightarrow> observation_bounds \<Rightarrow> int option result" where
  "authoritative_latest st bounds =
    (case last_observed_date st of
       None \<Rightarrow> Inr (bounds_maximum bounds)
     | Some d \<Rightarrow>
         (case bounds_maximum bounds of
            None \<Rightarrow> raise ValueError ''state claims observations but authoritative Bronze is empty''
          | Some m \<Rightarrow> if d \<noteq> m then Inr (Some m) else Inr (Some d)))"

text \<open>\<open>plan.filter_start or plan.request_start\<close>: a date is always true.\<close>

definition opt_or :: "'a option \<Rightarrow> 'a option \<Rightarrow> 'a option" where
  "opt_or a b = (case a of None \<Rightarrow> b | Some x \<Rightarrow> Some x)"

definition advance_state ::
  "ingestion_state \<Rightarrow> fetch_instruction \<Rightarrow> datetime \<Rightarrow> observation_bounds \<Rightarrow> int \<Rightarrow> int \<Rightarrow> int \<Rightarrow>
    bool \<Rightarrow> bool \<Rightarrow> ingestion_state result" where
  "advance_state prior plan committed_at bounds fetched accepted changed durable_bronze durable_manifest =
    (if \<not> durable_bronze \<or> \<not> durable_manifest then Inr prior
     else
       rbind (rfor (\<lambda>(name, v). raise_if (v < 0) ValueError (name @ '' must be >= 0''))
                [(''fetched_rows'', fetched), (''accepted_rows'', accepted), (''changed_rows'', changed)]) (\<lambda>_.
       Inr (prior\<lparr>last_success_utc := Some committed_at,
         last_observed_date := bounds_maximum bounds,
         last_requested_start := opt_or (filter_start plan) (request_start plan),
         last_requested_end := Some (request_end plan),
         st_mode := Some (fi_mode plan),
         fetched_row_count := fetched,
         accepted_row_count := accepted,
         changed_row_count := changed,
         last_reconcile_utc :=
           (if fi_mode plan = RECONCILE then Some committed_at else last_reconcile_utc prior)\<rparr>)))"

section \<open>Properties\<close>

lemma choose_mode_Inr:
  "choose_mode b r = Inr m \<longleftrightarrow>
    (bounds_maximum b = None \<and> \<not> r \<and> m = BOOTSTRAP)
    \<or> (bounds_maximum b \<noteq> None \<and> m = (if r then RECONCILE else UPDATE))"
  by (auto simp: choose_mode_def split: option.splits)

text \<open>
  C7: planning an update never broadens the scope of a series.  For a series with stored history whose
  latest observation is not after today, and without an explicit reconcile, the plan is an update whose
  acceptance window starts exactly the configured overlap (7 days by default) before the latest stored
  observation and ends today; it never asks for the maximum history, and only a provider that takes date
  ranges is asked for that range.  The window contains the latest stored observation when the overlap is
  not negative.
\<close>

theorem update_plan_window:
  assumes "bounds_maximum b = Some latest" "latest \<le> today"
    and "overlap = (case config of None \<Rightarrow> 7 | Some n \<Rightarrow> n)" "0 \<le> overlap" "overlap < latest"
      "overlap \<le> 999999999"
  shows "build_plan c b today False config =
    Inr \<lparr>fi_mode = UPDATE,
      request_start = (if fetch_capability c = DATE_RANGE then Some (latest - overlap) else None),
      request_end = today, maximum_history = False,
      filter_start = Some (latest - overlap), filter_end = Some today\<rparr>
    \<and> latest - overlap \<le> latest \<and> latest \<le> today"
  using assms
  by (cases "fetch_capability c")
    (auto simp: build_plan_def choose_mode_def date_minus_days_def default_overlap_days_def split: option.splits)

theorem update_plan_window_witness:
  "build_plan \<lparr>series_id = ''vix'', series_provider = CBOE, source_id = ''VIX_History.csv'',
       unit_name = ''index_points'', native_shape = OHLC, frequency = DAILY,
       bootstrap_policy = MAXIMUM_EXPOSED_HISTORY, fetch_capability = FULL_FILE\<rparr>
     \<lparr>bounds_minimum = Some 700000, bounds_maximum = Some 739000\<rparr> 739010 False None
   = Inr \<lparr>fi_mode = UPDATE, request_start = None, request_end = 739010, maximum_history = False,
       filter_start = Some 738993, filter_end = Some 739010\<rparr>"
  using update_plan_window [of "\<lparr>bounds_minimum = Some 700000, bounds_maximum = Some 739000\<rparr>" 739000 739010 7 None
    "\<lparr>series_id = ''vix'', series_provider = CBOE, source_id = ''VIX_History.csv'',
       unit_name = ''index_points'', native_shape = OHLC, frequency = DAILY,
       bootstrap_policy = MAXIMUM_EXPOSED_HISTORY, fetch_capability = FULL_FILE\<rparr>"]
  by simp



text \<open>
  After an advance behind the barrier the cached date agrees with Bronze, so the authoritative
  latest observation is the Bronze maximum; in general the cache never overrides Bronze: whenever the
  lookup succeeds it returns the Bronze maximum, and it fails exactly when the cache claims observations
  that Bronze does not have.
\<close>

theorem authoritative_latest_is_bronze:
  "authoritative_latest st b =
    (if last_observed_date st \<noteq> None \<and> bounds_maximum b = None
     then raise ValueError ''state claims observations but authoritative Bronze is empty''
     else Inr (bounds_maximum b))"
  by (auto simp: authoritative_latest_def split: option.splits)

end
