(* ===== verification/Frame_Merge.thy ===== *)
theory Frame_Merge
  imports Silver Planner
begin

text \<open>
  The pure part of \<open>src/ingestion/parquet_repository.py\<close> and \<open>FrameDiff\<close> of
  \<open>src/application/ports/lake.py\<close>: classifying incoming rows against retained ones by a natural key and
  merging them.  Concatenation and joins of polars are the parameter \<open>polars_tables\<close>; the locale
  \<open>polars_joins\<close> states what the program relies on.  The joined frame of \<open>diff_frames\<close> is the list of
  its rows: the value of the column \<open>__order\<close> (the position of the incoming row) and the matching
  retained row, none where the columns \<open>__exists\<close> and \<open>__old_*\<close> are null.
\<close>

section \<open>Joins\<close>

record polars_tables =
  pl_concat :: "frame list \<Rightarrow> frame result"
  pl_left_join :: "string list \<Rightarrow> frame \<Rightarrow> frame \<Rightarrow> (nat \<times> cell list option) list result"
  pl_anti_join :: "string list \<Rightarrow> frame \<Rightarrow> frame \<Rightarrow> frame result"

definition key_of :: "frame \<Rightarrow> string list \<Rightarrow> cell list \<Rightarrow> cell list" where
  "key_of f key row = map (row_cell (f_schema f) row) key"

text \<open>The rows of a frame a join matches with a key: null matches nothing.\<close>

definition join_matches :: "string list \<Rightarrow> frame \<Rightarrow> cell list \<Rightarrow> cell list list" where
  "join_matches key g k = (if CNull \<in> set k then [] else filter (\<lambda>row. key_of g key row = k) (f_rows g))"

definition left_join_rows :: "string list \<Rightarrow> frame \<Rightarrow> frame \<Rightarrow> (nat \<times> cell list option) list" where
  "left_join_rows key f g = concat (map (\<lambda>(i, row).
     case join_matches key g (key_of f key row) of [] \<Rightarrow> [(i, None)] | ms \<Rightarrow> map (\<lambda>m. (i, Some m)) ms)
     (enumerate 0 (f_rows f)))"

definition joinable :: "string list \<Rightarrow> frame \<Rightarrow> frame \<Rightarrow> bool" where
  "joinable key f g \<longleftrightarrow> key \<noteq> [] \<and>
    (\<forall>c \<in> set key. map_of (f_schema f) c \<noteq> None \<and> map_of (f_schema f) c = map_of (f_schema g) c)"

locale polars_joins =
  fixes T :: polars_tables
  assumes concat_ok: "fs \<noteq> [] \<Longrightarrow> \<forall>f \<in> set fs. f_schema f = s \<Longrightarrow>
      pl_concat T fs = Inr \<lparr>f_schema = s, f_rows = concat (map f_rows fs)\<rparr>"
    and left_join_ok: "joinable key f g \<Longrightarrow>
      \<exists>js. pl_left_join T key f g = Inr js \<and> mset js = mset (left_join_rows key f g)"
    and anti_join_ok: "joinable key f g \<Longrightarrow>
      \<exists>h. pl_anti_join T key f g = Inr h \<and> f_schema h = f_schema f
        \<and> mset (f_rows h) = mset (filter (\<lambda>row. join_matches key g (key_of f key row) = []) (f_rows f))"

definition reference_tables :: polars_tables where
  "reference_tables = \<lparr>
     pl_concat = (\<lambda>fs. case fs of [] \<Rightarrow> raise PolarsError ''cannot concat empty list''
       | f # _ \<Rightarrow> if list_all (\<lambda>g. f_schema g = f_schema f) fs
                 then Inr \<lparr>f_schema = f_schema f, f_rows = concat (map f_rows fs)\<rparr>
                 else raise PolarsError ''schemas differ''),
     pl_left_join = (\<lambda>key f g. Inr (left_join_rows key f g)),
     pl_anti_join = (\<lambda>key f g. Inr (f\<lparr>f_rows :=
       filter (\<lambda>row. join_matches key g (key_of f key row) = []) (f_rows f)\<rparr>))\<rparr>"

interpretation ref_joins: polars_joins reference_tables
  by unfold_locales (auto simp: reference_tables_def list_all_iff split: list.split)

section \<open>Classifying and merging\<close>

text \<open>\<open>left.eq_missing(right)\<close>: nulls are equal, and so are two NaN.\<close>

definition eq_missing :: "cell \<Rightarrow> cell \<Rightarrow> bool" where
  "eq_missing a b =
    (case (a, b) of
       (CFloat x, CFloat y) \<Rightarrow> x = y \<or> f64_zero x \<and> f64_zero y \<or> f64_nan x \<and> f64_nan y
     | _ \<Rightarrow> a = b)"

record frame_diff =
  inserts :: frame
  unchanged :: frame
  revisions :: frame

definition has_changes :: "frame_diff \<Rightarrow> bool" where
  "has_changes d \<longleftrightarrow> \<not> is_empty_frame (inserts d) \<or> \<not> is_empty_frame (revisions d)"

definition changed :: "polars_tables \<Rightarrow> frame_diff \<Rightarrow> frame result" where
  "changed T d =
    (if is_empty_frame (inserts d) then Inr (revisions d)
     else if is_empty_frame (revisions d) then Inr (inserts d)
     else pl_concat T [inserts d, revisions d])"

definition ensure_compatible :: "frame \<Rightarrow> frame \<Rightarrow> unit result" where
  "ensure_compatible existing incoming =
    (if is_empty_frame existing then Inr ()
     else
       rbind (raise_if (f_columns existing \<noteq> f_columns incoming) ValueError
         ''existing and incoming columns must match exactly'') (\<lambda>_.
       raise_if (f_schema existing \<noteq> f_schema incoming) ValueError
         ''existing and incoming dtypes must match exactly''))"

definition ensure_unique :: "frame \<Rightarrow> string list \<Rightarrow> string \<Rightarrow> unit result" where
  "ensure_unique f key label =
    rbind (raise_if (key = []) ValueError ''natural key must not be empty'') (\<lambda>_.
    let missing = filter (\<lambda>c. c \<notin> set (f_columns f)) key in
    rbind (raise_if (missing \<noteq> []) ValueError
      (''natural key columns missing from '' @ label @ '': '' @ names_repr missing)) (\<lambda>_.
    if is_empty_frame f then Inr ()
    else raise_if (\<not> distinct (map (key_of f key) (f_rows f))) ValueError
      (''duplicate natural keys in '' @ label)))"

definition no_rows :: "frame \<Rightarrow> frame" where
  "no_rows f = f\<lparr>f_rows := []\<rparr>"

definition equal_payload :: "frame \<Rightarrow> frame \<Rightarrow> string list \<Rightarrow> cell list \<Rightarrow> cell list \<Rightarrow> bool" where
  "equal_payload incoming existing payload row old =
    list_all (\<lambda>c. eq_missing (row_cell (f_schema incoming) row c) (row_cell (f_schema existing) old c)) payload"

text \<open>\<open>joined.filter(p).sort("__order").select(original_columns)\<close>\<close>

definition select_joined ::
  "frame \<Rightarrow> (nat \<times> cell list option) list \<Rightarrow> (nat \<times> cell list option \<Rightarrow> bool) \<Rightarrow> frame" where
  "select_joined incoming joined p =
    incoming\<lparr>f_rows := map (\<lambda>j. f_rows incoming ! fst j) (sort_key fst (filter p joined))\<rparr>"

definition diff_frames :: "polars_tables \<Rightarrow> frame \<Rightarrow> frame \<Rightarrow> string list \<Rightarrow> frame_diff result" where
  "diff_frames T existing incoming key =
    rbind (ensure_unique incoming key ''incoming'') (\<lambda>_.
    rbind (ensure_unique existing key ''existing'') (\<lambda>_.
    if is_empty_frame incoming
    then Inr \<lparr>inserts = incoming, unchanged = incoming, revisions = incoming\<rparr>
    else
      rbind (ensure_compatible existing incoming) (\<lambda>_.
      if is_empty_frame existing
      then Inr \<lparr>inserts = incoming, unchanged = no_rows incoming, revisions = no_rows incoming\<rparr>
      else
        let payload = filter (\<lambda>c. c \<notin> set key) (f_columns incoming);
            same = (\<lambda>j. case snd j of None \<Rightarrow> False
              | Some old \<Rightarrow> equal_payload incoming existing payload (f_rows incoming ! fst j) old)
        in rbind (pl_left_join T key incoming existing) (\<lambda>joined.
           Inr \<lparr>inserts = select_joined incoming joined (\<lambda>j. snd j = None),
                unchanged = select_joined incoming joined (\<lambda>j. snd j \<noteq> None \<and> same j),
                revisions = select_joined incoming joined (\<lambda>j. snd j \<noteq> None \<and> \<not> same j)\<rparr>))))"

definition merge_frames ::
  "polars \<Rightarrow> polars_tables \<Rightarrow> frame \<Rightarrow> frame \<Rightarrow> string list \<Rightarrow> (frame \<times> frame_diff) result" where
  "merge_frames pl T existing incoming key =
    rbind (diff_frames T existing incoming key) (\<lambda>diff.
    if \<not> has_changes diff then Inr (existing, diff)
    else if is_empty_frame existing then rbind (pl_sort pl key incoming) (\<lambda>merged. Inr (merged, diff))
    else
      rbind (changed T diff) (\<lambda>rows.
      rbind (pl_anti_join T key existing rows) (\<lambda>retained.
      rbind (pl_concat T [retained, rows]) (\<lambda>both.
      rbind (pl_sort pl key both) (\<lambda>merged. Inr (merged, diff))))))"

section \<open>The table a frame stands for\<close>

text \<open>The row of a key; for frames of one schema.\<close>

definition row_at :: "frame \<Rightarrow> string list \<Rightarrow> cell list \<Rightarrow> cell list option" where
  "row_at f key k = find (\<lambda>row. key_of f key row = k) (f_rows f)"

text \<open>A frame whose rows have distinct keys without nulls.\<close>

definition key_table :: "string list \<Rightarrow> frame \<Rightarrow> bool" where
  "key_table key f \<longleftrightarrow> key \<noteq> [] \<and> set key \<subseteq> set (f_columns f) \<and> distinct (map (key_of f key) (f_rows f))
    \<and> (\<forall>row \<in> set (f_rows f). CNull \<notin> set (key_of f key row))"

text \<open>The merged row of a key: an equal payload keeps the retained row.\<close>

definition payload_of :: "frame \<Rightarrow> string list \<Rightarrow> string list" where
  "payload_of f key = filter (\<lambda>c. c \<notin> set key) (f_columns f)"

definition merged_row :: "frame \<Rightarrow> frame \<Rightarrow> string list \<Rightarrow> cell list \<Rightarrow> cell list option" where
  "merged_row existing incoming key k =
    (case row_at incoming key k of
       None \<Rightarrow> row_at existing key k
     | Some row \<Rightarrow>
         (case row_at existing key k of
            None \<Rightarrow> Some row
          | Some old \<Rightarrow> if equal_payload incoming existing (payload_of incoming key) row old then Some old else Some row))"

section \<open>Facts on equality and keys\<close>

lemma eq_missing_refl [simp]: "eq_missing a a"
  by (cases a) (simp_all add: eq_missing_def)

lemma eq_missing_sym: "eq_missing a b \<Longrightarrow> eq_missing b a"
  by (cases a; cases b) (auto simp: eq_missing_def)

lemma eq_missing_trans: "eq_missing a b \<Longrightarrow> eq_missing b c \<Longrightarrow> eq_missing a c"
  by (cases a; cases b; cases c)
    (auto simp: eq_missing_def dest: f64_zero_finite f64_finite_not_nan)

lemma key_of_schema: "f_schema f = f_schema g \<Longrightarrow> key_of f = key_of g"
  by (rule ext)+ (simp add: key_of_def)

lemma row_at_Some:
  assumes "distinct (map (key_of f key) (f_rows f))"
  shows "row_at f key k = Some row \<longleftrightarrow> row \<in> set (f_rows f) \<and> key_of f key row = k"
  using assms find_Some_unique [OF assms] by (auto simp: row_at_def find_Some_iff)

lemma row_at_None: "row_at f key k = None \<longleftrightarrow> (\<forall>row \<in> set (f_rows f). key_of f key row \<noteq> k)"
  by (auto simp: row_at_def find_None_iff)

lemma join_matches_table:
  assumes "key_table key g"
  shows "join_matches key g k = (case row_at g key k of None \<Rightarrow> [] | Some row \<Rightarrow> [row])"
proof (cases "row_at g key k")
  case None
  then show ?thesis
    using row_at_None [of g key k] by (auto simp: join_matches_def filter_empty_conv)
next
  case (Some row)
  have d: "distinct (map (key_of g key) (f_rows g))"
    using assms by (simp add: key_table_def)
  then have row: "row \<in> set (f_rows g)" "key_of g key row = k"
    using Some row_at_Some by auto
  have "filter (\<lambda>r. key_of g key r = k) (f_rows g) = [row]"
    using distinct_filter_single [OF d row(1)] row(2) by simp
  then show ?thesis
    using Some row assms by (auto simp: join_matches_def key_table_def)
qed

lemma sort_key_unique:
  assumes "mset ys = mset xs" "distinct (map f xs)" "sorted (map f xs)"
  shows "sort_key f ys = xs"
proof (rule properties_for_sort_key)
  show "mset xs = mset ys" using assms(1) by simp
  fix k assume "k \<in> set xs"
  moreover have "distinct (map f ys)"
    using assms by (metis mset_eq_imp_distinct_iff mset_map)
  moreover have "set ys = set xs"
    using assms(1) by (rule mset_eq_setD)
  ultimately show "filter (\<lambda>x. f k = f x) xs = filter (\<lambda>x. f k = f x) ys"
    using distinct_filter_single [OF assms(2), of k] distinct_filter_single [of f ys k] by (simp add: eq_commute)
qed (rule assms(3))

section \<open>Facts on the classification\<close>

lemma map_enumerate: "map (\<lambda>(i, x). g i x) (enumerate 0 xs) = map (\<lambda>i. g i (xs ! i)) [0..<length xs]"
  by (rule nth_equalityI) (auto simp: nth_enumerate_eq)

lemma left_join_table:
  assumes "key_table key g"
  shows "left_join_rows key f g =
    map (\<lambda>i. (i, row_at g key (key_of f key (f_rows f ! i)))) [0..<length (f_rows f)]"
proof -
  have "(case join_matches key g k of [] \<Rightarrow> [(i, None)] | ms \<Rightarrow> map (\<lambda>m. (i, Some m)) ms) = [(i, row_at g key k)]"
    for i :: nat and k
    by (simp add: join_matches_table [OF assms] split: option.split)
  then show ?thesis
    by (simp add: left_join_rows_def map_enumerate)
qed

lemma select_joined_rows:
  assumes "mset js = mset (map (\<lambda>i. (i, old (f_rows f ! i))) [0..<length (f_rows f)])"
    and "\<And>i. i < length (f_rows f) \<Longrightarrow> p (i, old (f_rows f ! i)) = q (f_rows f ! i)"
  shows "select_joined f js p = f\<lparr>f_rows := filter q (f_rows f)\<rparr>"
proof -
  let ?L = "map (\<lambda>i. (i, old (f_rows f ! i))) [0..<length (f_rows f)]"
  have fst: "map fst (filter p ?L) = filter (\<lambda>i. p (i, old (f_rows f ! i))) [0..<length (f_rows f)]"
    by (simp add: filter_map comp_def)
  have "sort_key fst (filter p js) = filter p ?L"
  proof (rule sort_key_unique)
    show "mset (filter p js) = mset (filter p ?L)"
      using assms(1) by (simp only: mset_filter)
    show "distinct (map fst (filter p ?L))" "sorted (map fst (filter p ?L))"
      unfolding fst by (simp_all add: sorted_filter [where f = "\<lambda>x. x", simplified])
  qed
  then have "map (\<lambda>j. f_rows f ! fst j) (sort_key fst (filter p js)) = map ((!) (f_rows f)) (map fst (filter p ?L))"
    by simp
  also have "\<dots> = map ((!) (f_rows f)) (filter (\<lambda>i. q (f_rows f ! i)) [0..<length (f_rows f)])"
    unfolding fst using assms(2) by (intro arg_cong [where f = "map ((!) (f_rows f))"] filter_cong) auto
  also have "\<dots> = filter q (map ((!) (f_rows f)) [0..<length (f_rows f)])"
    by (simp add: filter_map comp_def)
  finally show ?thesis
    by (simp add: select_joined_def map_nth)
qed

text \<open>What the classification of two tables of one schema is.\<close>

definition is_diff :: "frame \<Rightarrow> frame \<Rightarrow> string list \<Rightarrow> frame_diff \<Rightarrow> bool" where
  "is_diff existing incoming key d \<longleftrightarrow>
    (let old = (\<lambda>row. row_at existing key (key_of incoming key row));
         same = (\<lambda>row. \<exists>o'. old row = Some o' \<and> equal_payload incoming existing (payload_of incoming key) row o')
     in inserts d = incoming\<lparr>f_rows := filter (\<lambda>row. old row = None) (f_rows incoming)\<rparr>
      \<and> unchanged d = incoming\<lparr>f_rows := filter same (f_rows incoming)\<rparr>
      \<and> revisions d = incoming\<lparr>f_rows := filter (\<lambda>row. old row \<noteq> None \<and> \<not> same row) (f_rows incoming)\<rparr>)"

lemma ensure_unique_table: "key_table key f \<Longrightarrow> ensure_unique f key label = Inr ()"
  using raise_if_simps(1) by (simp add: ensure_unique_def key_table_def filter_empty_conv Let_def subset_iff Bex_def)

lemma key_table_joinable:
  "key_table key f \<Longrightarrow> f_schema g = f_schema f \<Longrightarrow> joinable key f g"
  by (auto simp: key_table_def joinable_def map_of_columns)

context polars_joins
begin

lemma diff_frames_table:
  assumes e: "key_table key existing" and i: "key_table key incoming" and s: "f_schema existing = f_schema incoming"
  shows "\<exists>d. diff_frames T existing incoming key = Inr d \<and> is_diff existing incoming key d"
proof (cases "is_empty_frame incoming \<or> is_empty_frame existing")
  case True
  then consider "f_rows incoming = []" | "f_rows incoming \<noteq> []" "f_rows existing = []"
    by (auto simp: is_empty_frame_def f_height_def)
  then show ?thesis
  proof cases
    case 1
    then show ?thesis
      using ensure_unique_table [OF i] ensure_unique_table [OF e]
      by (simp add: diff_frames_def is_diff_def is_empty_frame_def f_height_def Let_def)
  next
    case 2
    then show ?thesis
      using ensure_unique_table [OF i] ensure_unique_table [OF e]
      by (simp add: diff_frames_def is_diff_def is_empty_frame_def f_height_def Let_def row_at_def
          ensure_compatible_def no_rows_def)
  qed
next
  case False
  have "ensure_compatible existing incoming = Inr ()"
    using s by (simp add: ensure_compatible_def f_columns_def)
  moreover obtain js where js: "pl_left_join T key incoming existing = Inr js"
      "mset js = mset (left_join_rows key incoming existing)"
    using left_join_ok [OF key_table_joinable [OF i s]] by blast
  note sel = select_joined_rows [OF js(2) [unfolded left_join_table [OF e]]]
  ultimately show ?thesis
    using False ensure_unique_table [OF i] ensure_unique_table [OF e] js(1)
    by (auto simp: diff_frames_def is_diff_def Let_def payload_of_def intro!: sel split: option.splits)
qed

end

section \<open>Facts on merging\<close>

lemma key_tableD:
  assumes "key_table key f"
  shows "distinct (map (key_of f key) (f_rows f))" "set key \<subseteq> set (f_columns f)" "key \<noteq> []"
    "row \<in> set (f_rows f) \<Longrightarrow> CNull \<notin> set (key_of f key row)"
  using assms by (auto simp: key_table_def)

lemma key_table_perm:
  assumes "key_table key f" "f_schema g = f_schema f" "mset (f_rows g) = mset (f_rows f)"
  shows "key_table key g" "row_at g key k = row_at f key k"
proof -
  have k: "key_of g key = key_of f key"
    using key_of_schema [OF assms(2)] by simp
  have set: "set (f_rows g) = set (f_rows f)"
    using assms(3) by (rule mset_eq_setD)
  have d: "distinct (map (key_of g key) (f_rows g))"
    using assms(3) key_tableD(1) [OF assms(1)] unfolding k by (metis mset_eq_imp_distinct_iff mset_map)
  show "key_table key g"
    using assms(1) d set unfolding key_table_def f_columns_def k assms(2) by simp
  have "row_at g key k = Some row \<longleftrightarrow> row_at f key k = Some row" for row
    using row_at_Some [OF d] row_at_Some [OF key_tableD(1) [OF assms(1)]] set by (simp add: k)
  then show "row_at g key k = row_at f key k"
    by (metis not_None_eq)
qed

lemma key_table_sub:
  assumes "key_table key f" "f_schema g = f_schema f" "distinct (map (key_of f key) (f_rows g))"
    "set (f_rows g) \<subseteq> set (f_rows f)"
  shows "key_table key g"
  using assms key_of_schema [OF assms(2)] by (auto simp: key_table_def f_columns_def)

text \<open>The rows that change.\<close>

definition changed_rows :: "frame \<Rightarrow> frame \<Rightarrow> string list \<Rightarrow> cell list set" where
  "changed_rows existing incoming key =
    {row \<in> set (f_rows incoming). case row_at existing key (key_of incoming key row) of
       None \<Rightarrow> True | Some old \<Rightarrow> \<not> equal_payload incoming existing (payload_of incoming key) row old}"

lemma merged_row_changed:
  assumes "key_table key incoming" "f_schema existing = f_schema incoming"
  shows "merged_row existing incoming key k =
    (case find (\<lambda>row. key_of incoming key row = k) (filter (\<lambda>r. r \<in> changed_rows existing incoming key) (f_rows incoming)) of
       Some row \<Rightarrow> Some row | None \<Rightarrow> row_at existing key k)"
proof (cases "row_at incoming key k")
  case None
  then have "\<forall>row \<in> set (f_rows incoming). key_of incoming key row \<noteq> k"
    by (simp add: row_at_None)
  then have "find (\<lambda>row. key_of incoming key row = k) (filter (\<lambda>r. r \<in> changed_rows existing incoming key) (f_rows incoming)) = None"
    by (simp add: find_None_iff)
  then show ?thesis
    using None by (simp add: merged_row_def)
next
  case (Some row)
  note d = key_tableD(1) [OF assms(1)]
  have row: "row \<in> set (f_rows incoming)" "key_of incoming key row = k"
    using Some row_at_Some [OF d] by auto
  let ?C = "filter (\<lambda>r. r \<in> changed_rows existing incoming key) (f_rows incoming)"
  have dC: "distinct (map (key_of incoming key) ?C)"
    using d by (rule distinct_map_filter)
  have "find (\<lambda>r. key_of incoming key r = k) ?C = (if row \<in> changed_rows existing incoming key then Some row else None)"
  proof (cases "row \<in> changed_rows existing incoming key")
    case True
    then show ?thesis
      using find_Some_unique [OF dC, of row] row by simp
  next
    case False
    have "key_of incoming key r \<noteq> k" if "r \<in> set ?C" for r
      using distinct_map_eqD [OF d _ row(1), of r] row(2) that False by fastforce
    then have "find (\<lambda>r. key_of incoming key r = k) ?C = None"
      unfolding find_None_iff by blast
    then show ?thesis
      using False by simp
  qed
  then show ?thesis
    using Some row by (auto simp: merged_row_def changed_rows_def split: option.split)
qed

lemma is_diff_rows:
  assumes "is_diff existing incoming key d"
  shows "set (f_rows (inserts d) @ f_rows (revisions d)) = changed_rows existing incoming key"
    "f_schema (inserts d) = f_schema incoming" "f_schema (revisions d) = f_schema incoming"
    "has_changes d \<longleftrightarrow> changed_rows existing incoming key \<noteq> {}"
proof -
  show eq: "set (f_rows (inserts d) @ f_rows (revisions d)) = changed_rows existing incoming key"
    using assms by (auto simp: is_diff_def changed_rows_def Let_def split: option.splits)
  show "f_schema (inserts d) = f_schema incoming" "f_schema (revisions d) = f_schema incoming"
    using assms by (simp_all add: is_diff_def Let_def)
  show "has_changes d \<longleftrightarrow> changed_rows existing incoming key \<noteq> {}"
    unfolding eq [symmetric] by (auto simp: has_changes_def is_empty_frame_def f_height_def)
qed

lemma is_diff_distinct:
  assumes "is_diff existing incoming key d" "key_table key incoming"
  shows "distinct (map (key_of incoming key) (f_rows (inserts d) @ f_rows (revisions d)))"
proof -
  note D = key_tableD(1) [OF assms(2)]
  have "distinct (map (key_of incoming key) (f_rows (inserts d)))"
    "distinct (map (key_of incoming key) (f_rows (revisions d)))"
    using assms(1) distinct_map_filter [OF D] by (simp_all add: is_diff_def Let_def)
  moreover have "key_of incoming key ` set (f_rows (inserts d)) \<inter> key_of incoming key ` set (f_rows (revisions d)) = {}"
    using assms(1) by (auto simp: is_diff_def Let_def)
  ultimately show ?thesis
    by simp
qed

lemma find_changed:
  assumes "key_table key incoming"
  shows "find (\<lambda>row. key_of incoming key row = k) (filter (\<lambda>r. r \<in> changed_rows existing incoming key) (f_rows incoming))
      = Some row \<longleftrightarrow> row \<in> changed_rows existing incoming key \<and> key_of incoming key row = k"
proof -
  let ?C = "incoming\<lparr>f_rows := filter (\<lambda>r. r \<in> changed_rows existing incoming key) (f_rows incoming)\<rparr>"
  have K: "key_of ?C = key_of incoming" by (rule key_of_schema) simp
  have d: "distinct (map (key_of ?C key) (f_rows ?C))"
    using distinct_map_filter [OF key_tableD(1) [OF assms]] by (simp add: K)
  have "set (f_rows ?C) = changed_rows existing incoming key"
    by (auto simp: changed_rows_def)
  moreover have "find (\<lambda>row. key_of incoming key row = k)
      (filter (\<lambda>r. r \<in> changed_rows existing incoming key) (f_rows incoming)) = row_at ?C key k"
    by (simp add: row_at_def K)
  ultimately show ?thesis
    using row_at_Some [OF d, of k row] unfolding K by simp
qed

text \<open>The retained rows without those replaced, followed by the changed ones, are the merged table.\<close>

lemma retained_and_changed:
  assumes e: "key_table key existing" and i: "key_table key incoming" and s: "f_schema existing = f_schema incoming"
    and C: "key_table key C" "f_schema C = f_schema incoming" "set (f_rows C) = changed_rows existing incoming key"
    and h: "set hs = {row \<in> set (f_rows existing). row_at C key (key_of incoming key row) = None}"
      "distinct (map (key_of incoming key) hs)"
    and both: "both = \<lparr>f_schema = f_schema incoming, f_rows = hs @ f_rows C\<rparr>"
  shows "key_table key both" "row_at both key k = merged_row existing incoming key k"
proof -
  have K: "key_of existing = key_of incoming" "key_of C = key_of incoming" "key_of both = key_of incoming"
    using s C(2) both by (auto intro: key_of_schema)
  have rows: "f_rows both = hs @ f_rows C"
    by (simp add: both)
  have disj: "key_of incoming key ` set hs \<inter> key_of incoming key ` set (f_rows C) = {}"
    using h(1) row_at_None [of C key] by (auto simp: K)
  show bt: "key_table key both"
    using h disj key_tableD(1,4) [OF C(1)] key_tableD(2,3) [OF i] key_tableD(4) [OF e]
    unfolding key_table_def K by (auto simp: both f_columns_def K)
  have "row_at both key k = Some row \<longleftrightarrow> merged_row existing incoming key k = Some row" for row
  proof -
    have at_both: "row_at both key k = Some row \<longleftrightarrow> row \<in> set hs \<union> set (f_rows C) \<and> key_of incoming key row = k"
      using row_at_Some [OF key_tableD(1) [OF bt], of k row] rows unfolding K by auto
    show ?thesis
    proof (cases "row_at C key k")
      case None
      then have "find (\<lambda>row. key_of incoming key row = k)
          (filter (\<lambda>r. r \<in> changed_rows existing incoming key) (f_rows incoming)) = None"
        using row_at_None [of C key k] C(3) find_changed [OF i] by (metis K(2) not_None_eq)
      then have "merged_row existing incoming key k = row_at existing key k"
        using merged_row_changed [OF i s, of k] by simp
      then show ?thesis
        using None row_at_None [of C key k] row_at_Some [OF key_tableD(1) [OF e], of k row] h(1) at_both
        by (auto simp: K)
    next
      case (Some r)
      then have r: "r \<in> set (f_rows C)" "key_of incoming key r = k"
        using row_at_Some [OF key_tableD(1) [OF C(1)]] by (auto simp: K)
      then have "find (\<lambda>row. key_of incoming key row = k)
          (filter (\<lambda>r. r \<in> changed_rows existing incoming key) (f_rows incoming)) = Some r"
        using C(3) find_changed [OF i] by blast
      then have "merged_row existing incoming key k = Some r"
        using merged_row_changed [OF i s, of k] by simp
      moreover have "row \<in> set hs \<union> set (f_rows C) \<and> key_of incoming key row = k \<longleftrightarrow> row = r"
        using r disj distinct_map_eqD [OF key_tableD(1) [OF C(1)], of row r] by (auto simp: K)
      ultimately show ?thesis
        using at_both by auto
    qed
  qed
  then show "row_at both key k = merged_row existing incoming key k"
    by (metis not_None_eq)
qed

text \<open>What a merge gives.\<close>

definition is_merge :: "frame \<Rightarrow> frame \<Rightarrow> string list \<Rightarrow> frame \<Rightarrow> bool" where
  "is_merge existing incoming key merged \<longleftrightarrow>
    f_schema merged = f_schema incoming \<and> key_table key merged
    \<and> (\<forall>k. row_at merged key k = merged_row existing incoming key k)"

lemma is_merge_perm:
  assumes "is_merge existing incoming key f" "f_schema g = f_schema f" "mset (f_rows g) = mset (f_rows f)"
  shows "is_merge existing incoming key g"
  using assms key_table_perm [of key f g] by (simp add: is_merge_def)

context polars_joins
begin

lemma changed_frame:
  assumes "is_diff existing incoming key d"
  shows "changed T d = Inr (incoming\<lparr>f_rows := f_rows (inserts d) @ f_rows (revisions d)\<rparr>)"
proof -
  obtain ins rev where f: "inserts d = incoming\<lparr>f_rows := ins\<rparr>" "revisions d = incoming\<lparr>f_rows := rev\<rparr>"
    using assms by (auto simp: is_diff_def Let_def)
  have "pl_concat T [inserts d, revisions d] = Inr \<lparr>f_schema = f_schema incoming, f_rows = ins @ rev\<rparr>"
    using concat_ok [of "[inserts d, revisions d]" "f_schema incoming"] f by simp
  then show ?thesis
    using f by (cases incoming) (auto simp: changed_def is_empty_frame_def f_height_def)
qed

lemma changed_of_table:
  assumes e: "key_table key existing" and i: "key_table key incoming" and s: "f_schema existing = f_schema incoming"
    and d: "is_diff existing incoming key d"
  shows "\<exists>C h. changed T d = Inr C \<and> pl_anti_join T key existing C = Inr h
    \<and> (\<exists>both. pl_concat T [h, C] = Inr both \<and> is_merge existing incoming key both)"
proof -
  let ?C = "incoming\<lparr>f_rows := f_rows (inserts d) @ f_rows (revisions d)\<rparr>"
  note D = is_diff_rows [OF d]
  note K = key_of_schema [OF s]
  have Ct: "key_table key ?C"
  proof (rule key_table_sub [OF i])
    show "distinct (map (key_of incoming key) (f_rows ?C))"
      using is_diff_distinct [OF d i] by simp
    show "set (f_rows ?C) \<subseteq> set (f_rows incoming)"
      using D(1) by (auto simp: changed_rows_def)
  qed simp
  have "joinable key existing ?C"
    using key_table_joinable [OF e, of ?C] s by (simp add: joinable_def)
  from anti_join_ok [OF this] obtain h where h: "pl_anti_join T key existing ?C = Inr h" "f_schema h = f_schema existing"
      "mset (f_rows h) = mset (filter (\<lambda>row. join_matches key ?C (key_of existing key row) = []) (f_rows existing))"
    by blast
  have "join_matches key ?C k = [] \<longleftrightarrow> row_at ?C key k = None" for k
    by (simp add: join_matches_table [OF Ct] split: option.split)
  then have hset: "set (f_rows h) = {row \<in> set (f_rows existing). row_at ?C key (key_of incoming key row) = None}"
    using mset_eq_setD [OF h(3)] K by auto
  have "distinct (map (key_of existing key) (filter (\<lambda>row. join_matches key ?C (key_of existing key row) = []) (f_rows existing)))"
    using key_tableD(1) [OF e] by (rule distinct_map_filter)
  then have hdist: "distinct (map (key_of incoming key) (f_rows h))"
    using h(3) K by (metis mset_eq_imp_distinct_iff mset_map)
  let ?both = "\<lparr>f_schema = f_schema incoming, f_rows = f_rows h @ f_rows ?C\<rparr>"
  have "pl_concat T [h, ?C] = Inr ?both"
    using concat_ok [of "[h, ?C]" "f_schema incoming"] h(2) s by simp
  moreover have "is_merge existing incoming key ?both"
    unfolding is_merge_def using retained_and_changed [OF e i s Ct _ _ hset hdist refl] D(1) by simp
  ultimately show ?thesis
    using changed_frame [OF d] h(1) by blast
qed

lemma merge_frames_table:
  assumes pl: "polars_frames pl" and e: "key_table key existing" and i: "key_table key incoming"
    and s: "f_schema existing = f_schema incoming"
  shows "\<exists>merged d. merge_frames pl T existing incoming key = Inr (merged, d) \<and> is_diff existing incoming key d
    \<and> is_merge existing incoming key merged
    \<and> (if has_changes d then sorted (map (row_key (f_schema incoming) key) (f_rows merged)) else merged = existing)"
proof -
  obtain d where d: "diff_frames T existing incoming key = Inr d" "is_diff existing incoming key d"
    using diff_frames_table [OF e i s] by blast
  have sorted: "\<exists>g. pl_sort pl key f = Inr g \<and> is_merge existing incoming key g
      \<and> sorted (map (row_key (f_schema incoming) key) (f_rows g))" if f: "is_merge existing incoming key f" for f
  proof -
    have "set key \<subseteq> set (f_columns f)"
      using f key_tableD(2) by (simp add: is_merge_def)
    then obtain g where g: "pl_sort pl key f = Inr g"
      using polars_frames.sort_total [OF pl] by blast
    then show ?thesis
      using is_merge_perm [OF f polars_frames.sort_schema [OF pl g] polars_frames.sort_perm [OF pl g]]
        polars_frames.sort_sorted [OF pl g] f by (simp add: is_merge_def)
  qed
  consider "\<not> has_changes d" | "has_changes d" "is_empty_frame existing" | "has_changes d" "\<not> is_empty_frame existing"
    by blast
  then show ?thesis
  proof cases
    case 1
    then have "changed_rows existing incoming key = {}"
      using is_diff_rows(4) [OF d(2)] by simp
    then have "is_merge existing incoming key existing"
      using merged_row_changed [OF i s] e s by (simp add: is_merge_def)
    then show ?thesis
      using 1 d by (simp add: merge_frames_def)
  next
    case 2
    then have "is_merge existing incoming key incoming"
      using i by (simp add: is_merge_def merged_row_def row_at_def is_empty_frame_def f_height_def split: option.split)
    from sorted [OF this] obtain g where g: "pl_sort pl key incoming = Inr g" "is_merge existing incoming key g"
        "sorted (map (row_key (f_schema incoming) key) (f_rows g))" by blast
    then have "merge_frames pl T existing incoming key = Inr (g, d)"
      using 2 d by (simp add: merge_frames_def)
    then show ?thesis
      using g(2,3) d(2) 2(1) by auto
  next
    case 3
    from changed_of_table [OF e i s d(2)] obtain C h both where C: "changed T d = Inr C"
        "pl_anti_join T key existing C = Inr h" "pl_concat T [h, C] = Inr both" "is_merge existing incoming key both"
      by blast
    from sorted [OF C(4)] obtain g where g: "pl_sort pl key both = Inr g" "is_merge existing incoming key g"
        "sorted (map (row_key (f_schema incoming) key) (f_rows g))" by blast
    then have "merge_frames pl T existing incoming key = Inr (g, d)"
      using 3 d(1) C by (simp add: merge_frames_def)
    then show ?thesis
      using g(2,3) d(2) 3(1) by auto
  qed
qed

end

text \<open>
  C27: merging fetched rows into retained ones is an upsert by the natural key.  For two tables of one
  schema whose keys are unique and without nulls the merge succeeds, its result has unique keys again,
  and the row of every key is the retained row when no row was fetched for it or the fetched row has an
  equal payload, and the fetched row otherwise.  The classification lists the fetched rows in their
  order: those with a new key, those with an equal payload, those with another payload.  A merge without
  changes returns the retained frame itself, any other one is sorted by the key.
\<close>

theorem merge_is_upsert:
  assumes "polars_frames pl" "polars_joins T"
    and "key_table key existing" "key_table key incoming" "f_schema existing = f_schema incoming"
  shows "\<exists>merged d. merge_frames pl T existing incoming key = Inr (merged, d)
    \<and> key_table key merged \<and> (\<forall>k. row_at merged key k = merged_row existing incoming key k)
    \<and> is_diff existing incoming key d
    \<and> (if has_changes d then sorted (map (row_key (f_schema incoming) key) (f_rows merged)) else merged = existing)"
  using polars_joins.merge_frames_table [OF assms(2,1,3-5)] unfolding is_merge_def
  by blast

definition demo_table :: "(string \<times> int) list \<Rightarrow> frame" where
  "demo_table rows = \<lparr>f_schema = [(''k'', DString), (''v'', DInt64)],
    f_rows = map (\<lambda>(k, v). [CStr k, CInt v]) rows\<rparr>"

lemma demo_table_keys:
  "distinct (map fst rows) \<Longrightarrow> key_table [''k''] (demo_table rows)"
  by (auto simp: key_table_def demo_table_def f_columns_def key_of_def comp_def split_def distinct_map inj_on_def)

theorem merge_is_upsert_witness:
  "\<exists>merged d. merge_frames reference_polars reference_tables (demo_table [(''a'', 1), (''b'', 2)])
      (demo_table [(''c'', 5), (''b'', 3), (''a'', 1)]) [''k''] = Inr (merged, d)
    \<and> map (row_at merged [''k'']) [[CStr ''a''], [CStr ''b''], [CStr ''c''], [CStr ''d'']]
      = [Some [CStr ''a'', CInt 1], Some [CStr ''b'', CInt 3], Some [CStr ''c'', CInt 5], None]
    \<and> f_rows (inserts d) = [[CStr ''c'', CInt 5]] \<and> f_rows (revisions d) = [[CStr ''b'', CInt 3]]"
proof -
  let ?e = "demo_table [(''a'', 1), (''b'', 2)]" and ?i = "demo_table [(''c'', 5), (''b'', 3), (''a'', 1)]"
  have keys: "key_table [''k''] ?e" "key_table [''k''] ?i"
    by (rule demo_table_keys; simp)+
  have s: "f_schema ?e = f_schema ?i" by (simp add: demo_table_def)
  from merge_is_upsert [OF ref_polars.polars_frames_axioms ref_joins.polars_joins_axioms keys s]
  obtain merged d where m: "merge_frames reference_polars reference_tables ?e ?i [''k''] = Inr (merged, d)"
      "\<forall>k. row_at merged [''k''] k = merged_row ?e ?i [''k''] k" "is_diff ?e ?i [''k''] d"
    by blast
  have "f_rows (inserts d) = [[CStr ''c'', CInt 5]] \<and> f_rows (revisions d) = [[CStr ''b'', CInt 3]]"
    using m(3) by (simp add: is_diff_def Let_def row_at_def key_of_def demo_table_def equal_payload_def
        payload_of_def f_columns_def eq_missing_def)
  moreover have "map (merged_row ?e ?i [''k'']) [[CStr ''a''], [CStr ''b''], [CStr ''c''], [CStr ''d'']]
      = [Some [CStr ''a'', CInt 1], Some [CStr ''b'', CInt 3], Some [CStr ''c'', CInt 5], None]"
    by (simp add: merged_row_def row_at_def key_of_def demo_table_def equal_payload_def payload_of_def
        f_columns_def eq_missing_def)
  ultimately show ?thesis
    using m(1,2) by simp
qed

text \<open>
  C28: an upsert is idempotent: merging the same fetched rows into the result of the merge finds every
  row unchanged and returns that result itself, so nothing is rewritten.
\<close>

theorem merge_idempotent:
  assumes "polars_frames pl" "polars_joins T"
    and "key_table key existing" "key_table key incoming" "f_schema existing = f_schema incoming"
    and "merge_frames pl T existing incoming key = Inr (merged, d)"
  shows "\<exists>d'. merge_frames pl T merged incoming key = Inr (merged, d') \<and> \<not> has_changes d'
    \<and> f_rows (unchanged d') = f_rows incoming"
proof -
  note merge = polars_joins.merge_frames_table [OF assms(2,1)]
  have m: "f_schema merged = f_schema incoming" "key_table key merged"
      "row_at merged key k = merged_row existing incoming key k" for k
    using merge [OF assms(3-5)] assms(6) unfolding is_merge_def by auto
  from merge [OF m(2) assms(4) m(1)] obtain merged' d' where
      d': "merge_frames pl T merged incoming key = Inr (merged', d')" "is_diff merged incoming key d'"
      "\<not> has_changes d' \<Longrightarrow> merged' = merged"
    by auto
  have same: "\<exists>old. row_at merged key (key_of incoming key row) = Some old
      \<and> equal_payload incoming merged (payload_of incoming key) row old" if row: "row \<in> set (f_rows incoming)" for row
  proof -
    have "row_at incoming key (key_of incoming key row) = Some row"
      using row row_at_Some [OF key_tableD(1) [OF assms(4)]] by blast
    then show ?thesis
      unfolding m(3) using m(1) assms(5)
      by (auto simp: merged_row_def equal_payload_def list_all_iff split: option.split)
  qed
  then have "changed_rows merged incoming key = {}"
    by (fastforce simp: changed_rows_def)
  then have "\<not> has_changes d'"
    using is_diff_rows(4) [OF d'(2)] by simp
  moreover have "f_rows (unchanged d') = f_rows incoming"
    using d'(2) same by (simp add: is_diff_def Let_def filter_id_conv)
  ultimately show ?thesis
    using d' by blast
qed

theorem merge_idempotent_witness:
  "\<exists>merged d d'. merge_frames reference_polars reference_tables (demo_table [(''a'', 1)])
      (demo_table [(''b'', 3)]) [''k''] = Inr (merged, d) \<and> has_changes d
    \<and> merge_frames reference_polars reference_tables merged (demo_table [(''b'', 3)]) [''k''] = Inr (merged, d')
    \<and> \<not> has_changes d'"
proof -
  let ?e = "demo_table [(''a'', 1)]" and ?i = "demo_table [(''b'', 3)]"
  have keys: "key_table [''k''] ?e" "key_table [''k''] ?i"
    by (rule demo_table_keys; simp)+
  have s: "f_schema ?e = f_schema ?i" by (simp add: demo_table_def)
  note axs = ref_polars.polars_frames_axioms ref_joins.polars_joins_axioms
  obtain merged d where m: "merge_frames reference_polars reference_tables ?e ?i [''k''] = Inr (merged, d)" "is_diff ?e ?i [''k''] d"
    using polars_joins.merge_frames_table [OF axs(2,1) keys s] by blast
  have "has_changes d"
    using m(2) by (simp add: is_diff_def Let_def has_changes_def is_empty_frame_def f_height_def row_at_def
        demo_table_def key_of_def)
  then show ?thesis
    using merge_idempotent [OF axs keys s m(1)] m(1) by blast
qed

end
