(* ===== verification/Monthly_Files.thy ===== *)
theory Monthly_Files
  imports Frame_Merge Lake_Paths "HOL-Library.Sublist"
begin

text \<open>
  The monthly Parquet files of \<open>src/ingestion/parquet_repository.py\<close>: reading all months of a series,
  their observation bounds, and the upsert that rewrites only the months with changed rows.  A Date
  column holds \<open>CDate\<close> cells; a \<open>Datetime\<close> value in its place, which Python's \<open>isinstance\<close> would accept
  as a date, raises here.
\<close>

section \<open>Finding and reading months\<close>

text \<open>\<open>root.glob("year=*/month=*/data.parquet")\<close>\<close>

definition is_month_path :: "path \<Rightarrow> path \<Rightarrow> bool" where
  "is_month_path series_root p \<longleftrightarrow> take (length series_root) p = series_root
    \<and> (case drop (length series_root) p of
         [y, m, f] \<Rightarrow> prefix ''year='' y \<and> prefix ''month='' m \<and> f = ''data.parquet''
       | _ \<Rightarrow> False)"

text \<open>\<open>tuple(sorted(root.glob(...))) if root.exists() else ()\<close>\<close>

definition month_paths :: "path \<Rightarrow> ('z lake_scheme, path list) io" where
  "month_paths series_root =
    seq fault_point (gets (\<lambda>w. sort (remdups (filter (is_month_path series_root) (map fst (files w))))))"

definition existing_paths :: "path list \<Rightarrow> ('z lake_scheme, path list) io" where
  "existing_paths ps = gets (\<lambda>w. filter (\<lambda>p. is_file p w) ps)"

definition empty_frame :: frame where
  "empty_frame = \<lparr>f_schema = [], f_rows = []\<rparr>"

definition monthly_frame :: "polars \<Rightarrow> polars_tables \<Rightarrow> string list \<Rightarrow> frame list \<Rightarrow> frame result" where
  "monthly_frame pl T sort_columns frames =
    rbind (case frames of [f] \<Rightarrow> Inr f | _ \<Rightarrow> pl_concat T frames) (\<lambda>frame.
    if sort_columns = [] then Inr frame
    else
      let missing = filter (\<lambda>c. c \<notin> set (f_columns frame)) sort_columns in
      rbind (raise_if (missing \<noteq> []) ValueError (''sort key columns missing: '' @ names_repr missing)) (\<lambda>_.
      pl_sort pl sort_columns frame))"

definition read_monthly ::
  "polars \<Rightarrow> polars_tables \<Rightarrow> string list \<Rightarrow> path list \<Rightarrow> ('z lake_scheme, frame) io" where
  "read_monthly pl T sort_columns paths =
    bind (existing_paths paths) (\<lambda>existing.
      if existing = [] then ret empty_frame
      else bind (collect read_parquet existing) (\<lambda>frames. lift (monthly_frame pl T sort_columns frames)))"

section \<open>Observation bounds\<close>

text \<open>The dates of a column: its nulls are ignored by \<open>min\<close> and \<open>max\<close>.\<close>

definition column_dates :: "frame \<Rightarrow> string \<Rightarrow> int list result" where
  "column_dates f c =
    rmap (\<lambda>x. case x of CDate d \<Rightarrow> Inr d | _ \<Rightarrow> raise TypeError (c @ '' is not Date''))
      (filter (\<lambda>x. x \<noteq> CNull) (column_cells f c))"

definition file_bounds :: "string \<Rightarrow> path \<Rightarrow> ('z lake_scheme, (int \<times> int) option) io" where
  "file_bounds c p =
    bind (read_parquet p) (\<lambda>f.
    seq (lift (raise_if (c \<notin> set (f_columns f)) ValueError (''date column missing: '' @ c)))
      (bind (read_parquet p) (\<lambda>g.
       bind (lift (column_dates g c)) (\<lambda>ds.
       ret (if ds = [] then None else Some (Min (set ds), Max (set ds)))))))"

definition bounds_of :: "(int \<times> int) option list \<Rightarrow> observation_bounds" where
  "bounds_of bs =
    (case List.map_filter (\<lambda>b. b) bs of
       [] \<Rightarrow> \<lparr>bounds_minimum = None, bounds_maximum = None\<rparr>
     | known \<Rightarrow> \<lparr>bounds_minimum = Some (Min (fst ` set known)), bounds_maximum = Some (Max (snd ` set known))\<rparr>)"

definition read_observation_bounds :: "string \<Rightarrow> path list \<Rightarrow> ('z lake_scheme, observation_bounds) io" where
  "read_observation_bounds c paths =
    bind (existing_paths paths) (\<lambda>existing.
      if existing = [] then ret \<lparr>bounds_minimum = None, bounds_maximum = None\<rparr>
      else bind (collect (file_bounds c) existing) (\<lambda>bs. ret (bounds_of bs)))"

section \<open>Rewriting the changed months\<close>

text \<open>\<open>sorted({(d.year, d.month) for d in dates})\<close>\<close>

definition months_of :: "int list \<Rightarrow> (int \<times> int) list" where
  "months_of ds = sort (remdups (map (\<lambda>d. (date_year d, date_month d)) ds))"

text \<open>\<open>merged.filter((date.dt.year() == y) & (date.dt.month() == m))\<close>\<close>

definition in_month :: "string \<Rightarrow> schema \<Rightarrow> int \<times> int \<Rightarrow> cell list \<Rightarrow> bool" where
  "in_month c s ym row =
    (case row_cell s row c of CDate d \<Rightarrow> (date_year d, date_month d) = ym | _ \<Rightarrow> False)"

definition month_frame :: "string \<Rightarrow> frame \<Rightarrow> int \<times> int \<Rightarrow> frame" where
  "month_frame c merged ym = merged\<lparr>f_rows := filter (in_month c (f_schema merged) ym) (f_rows merged)\<rparr>"

text \<open>
  The sample date \<open>date(y, m, 1)\<close> of a month has year \<open>y\<close> and month \<open>m\<close>; the paths of \<open>LakePaths\<close> use
  nothing else of it, so a month stands for its sample date.
\<close>

definition bronze_partition :: "path \<Rightarrow> provider \<Rightarrow> string \<Rightarrow> int \<times> int \<Rightarrow> path" where
  "bronze_partition lake_root p sid ym =
    lake_root @ [''bronze'', ''provider='' @ provider_value p, ''series='' @ sid,
      ''year='' @ pad_int 4 (fst ym), ''month='' @ pad_int 2 (snd ym), ''data.parquet'']"

definition silver_partition :: "path \<Rightarrow> string \<Rightarrow> int \<times> int \<Rightarrow> path" where
  "silver_partition lake_root sid ym =
    lake_root @ [''silver'', ''series='' @ sid,
      ''year='' @ pad_int 4 (fst ym), ''month='' @ pad_int 2 (snd ym), ''data.parquet'']"

lemma partition_of_date:
  "bronze_month lake_root p sid d = bronze_partition lake_root p sid (date_year d, date_month d)"
  "silver_month lake_root sid d = silver_partition lake_root sid (date_year d, date_month d)"
  by (simp_all add: bronze_month_def bronze_partition_def silver_month_def silver_partition_def)

definition write_month ::
  "string \<Rightarrow> (int \<times> int \<Rightarrow> path) \<Rightarrow> frame \<Rightarrow> int \<times> int \<Rightarrow> ('z lake_scheme, unit) io" where
  "write_month c path_for_month merged ym = atomic_write_parquet (month_frame c merged ym) (path_for_month ym)"

definition upsert_monthly ::
  "polars \<Rightarrow> polars_tables \<Rightarrow> frame \<Rightarrow> frame \<Rightarrow> string list \<Rightarrow> string \<Rightarrow> (int \<times> int \<Rightarrow> path) \<Rightarrow>
    ('z lake_scheme, frame_diff \<times> path list) io" where
  "upsert_monthly pl T existing incoming key c path_for_month =
    seq (lift (raise_if (c \<notin> set (f_columns incoming)) ValueError (''date column missing from incoming: '' @ c)))
    (bind (lift (merge_frames pl T existing incoming key)) (\<lambda>(merged, diff).
      if \<not> has_changes diff then ret (diff, [])
      else
        bind (lift (rbind (changed T diff) (\<lambda>rows. column_dates rows c))) (\<lambda>dates.
        let months = months_of dates in
        seq (for_each (write_month c path_for_month merged) months)
          (ret (diff, map path_for_month months)))))"

section \<open>Facts\<close>

lemma find_append: "find P (xs @ ys) = (case find P xs of None \<Rightarrow> find P ys | Some x \<Rightarrow> Some x)"
  by (induction xs) auto

text \<open>Writing some months: each file is the new month, or (when the loop stopped) what it was.\<close>

lemma write_months_Inr:
  assumes "for_each (write_month c path merged) months w = (Inr u, w')"
  shows "file_at p w' = (case find (\<lambda>ym. path ym = p) (rev months) of
    None \<Rightarrow> file_at p w | Some ym \<Rightarrow> Some (Parquet (month_frame c merged ym)))"
  using assms
proof (induction months arbitrary: w)
  case (Cons ym months)
  then obtain w1 where w1: "write_month c path merged ym w = (Inr (), w1)"
      "for_each (write_month c path merged) months w1 = (Inr u, w')"
    by (auto simp: seq_eq_Inr)
  have "files w1 = AList.update (path ym) (Parquet (month_frame c merged ym)) (files w)"
    using w1(1) unfolding write_month_def atomic_write_parquet_def by (rule atomic_write_Inr)
  then have "file_at p w1 = (if p = path ym then Some (Parquet (month_frame c merged ym)) else file_at p w)"
    by (simp add: file_at_def update_conv')
  then show ?case
    using Cons.IH [OF w1(2)] by (auto simp: find_append split: option.split)
qed (simp add: ret_def)

lemma write_month_other:
  assumes "p \<notin> path ` set months"
  shows "preserves (file_at p) (for_each (write_month c path merged) months)"
  using assms
proof (induction months)
  case (Cons ym months)
  then have "preserves (file_at p) (write_month c path merged ym)"
    unfolding write_month_def atomic_write_parquet_def by (intro atomic_write_other) auto
  then show ?case
    using Cons by (auto intro: preserves_intros)
qed (auto intro: preserves_intros)

section \<open>Paths of different months differ\<close>

lemma digit_char_inj: "m < 10 \<Longrightarrow> n < 10 \<Longrightarrow> digit_char m = digit_char n \<Longrightarrow> m = n"
proof -
  assume "m < 10" "n < 10" and eq: "digit_char m = digit_char n"
  then have "m \<in> {0, 1, 2, 3, 4, 5, 6, 7, 8, 9}" "n \<in> {0, 1, 2, 3, 4, 5, 6, 7, 8, 9}"
    by auto
  then show ?thesis
    using eq by (elim insertE emptyE) (simp_all add: digit_char_def)
qed

lemma string_of_nat_nonempty [simp]: "string_of_nat n \<noteq> []" "[] \<noteq> string_of_nat n"
  by (simp_all add: string_of_nat.simps [of n])

lemma string_of_nat_inj: "string_of_nat m = string_of_nat n \<Longrightarrow> m = n"
proof (induction m arbitrary: n rule: string_of_nat.induct)
  case (1 m)
  consider "m < 10" "n < 10" | "m < 10" "10 \<le> n" | "10 \<le> m" "n < 10" | "10 \<le> m" "10 \<le> n"
    by linarith
  then show ?case
  proof cases
    case 1
    then show ?thesis
      using "1.prems" by (simp add: string_of_nat.simps [of m] string_of_nat.simps [of n] digit_char_inj)
  next
    case 4
    then have eq: "string_of_nat (m div 10) @ [digit_char (m mod 10)] = string_of_nat (n div 10) @ [digit_char (n mod 10)]"
      using "1.prems" by (simp add: string_of_nat.simps [of m] string_of_nat.simps [of n])
    then have "m div 10 = n div 10" "m mod 10 = n mod 10"
      using "1.IH" [of "n div 10"] 4 digit_char_inj [of "m mod 10" "n mod 10"] by simp_all
    then show ?thesis
      by (metis div_mult_mod_eq)
  qed (use "1.prems" in \<open>simp_all add: string_of_nat.simps [of m] string_of_nat.simps [of n]\<close>)
qed

lemma digit_char_zero: "n < 10 \<Longrightarrow> digit_char n = CHR ''0'' \<longleftrightarrow> n = 0"
  using digit_char_inj [of n 0] by (auto simp: digit_char_def)

lemma string_of_nat_head: "0 < n \<Longrightarrow> hd (string_of_nat n) \<noteq> CHR ''0''"
proof (induction n rule: string_of_nat.induct)
  case (1 n)
  show ?case
  proof (cases "n < 10")
    case True
    then show ?thesis
      using "1.prems" digit_char_zero by (simp add: string_of_nat.simps)
  next
    case False
    then show ?thesis
      using "1.IH" by (simp add: string_of_nat.simps [of n])
  qed
qed

lemma digit_char_dash: "n < 10 \<Longrightarrow> digit_char n \<noteq> CHR ''-''"
proof -
  assume "n < 10"
  then have "n \<in> {0, 1, 2, 3, 4, 5, 6, 7, 8, 9}"
    by auto
  then show ?thesis
    by (elim insertE emptyE) (simp_all add: digit_char_def)
qed

lemma string_of_nat_no_dash: "CHR ''-'' \<notin> set (string_of_nat n)"
proof (induction n rule: string_of_nat.induct)
  case (1 n)
  then show ?case
    using digit_char_dash [of "n mod 10"] digit_char_dash [of n]
    by (cases "n < 10") (auto simp: string_of_nat.simps [of n])
qed

lemma string_of_int_inj: "string_of_int i = string_of_int j \<Longrightarrow> i = j"
proof -
  have dash: "CHR ''-'' # s \<noteq> string_of_nat n" "string_of_nat n \<noteq> CHR ''-'' # s" for s n
    using string_of_nat_no_dash [of n] by (metis list.set_intros(1))+
  assume "string_of_int i = string_of_int j"
  then consider "0 \<le> i" "0 \<le> j" "nat i = nat j" | "i < 0" "j < 0" "nat (- i) = nat (- j)"
    using string_of_nat_inj dash by (auto simp: string_of_int_def split: if_splits)
  then show ?thesis
    by cases simp_all
qed

lemma pad_int_inj: "pad_int w i = pad_int w j \<longleftrightarrow> i = j"
proof -
  have strip: "dropWhile (\<lambda>c. c = CHR ''0'') (pad_int w i) = (if i = 0 then [] else string_of_int i)" for i
  proof -
    have "dropWhile (\<lambda>c. c = CHR ''0'') (string_of_int i) = (if i = 0 then [] else string_of_int i)"
    proof (cases "0 < i")
      case True
      then show ?thesis
        using string_of_nat_head [of "nat i"] by (cases "string_of_nat (nat i)") (auto simp: string_of_int_def)
    next
      case False
      then show ?thesis
        by (auto simp: string_of_int_def string_of_nat.simps [of 0] digit_char_def)
    qed
    then show ?thesis
      by (simp add: pad_int_def zero_pad_def dropWhile_append)
  qed
  have "string_of_int k \<noteq> []" for k
    by (simp add: string_of_int_def)
  then have "i = j" if "pad_int w i = pad_int w j"
    using that strip [of i] strip [of j] string_of_int_inj [of i j] by (metis (full_types))
  then show ?thesis
    by blast
qed

lemma partitions_distinct [simp]:
  "bronze_partition lake_root p sid a = bronze_partition lake_root p sid b \<longleftrightarrow> a = b"
  "silver_partition lake_root sid a = silver_partition lake_root sid b \<longleftrightarrow> a = b"
  by (auto simp: bronze_partition_def silver_partition_def pad_int_inj prod_eq_iff)

lemma partition_is_month_path:
  "is_month_path (lake_root @ [''bronze'', ''provider='' @ provider_value p, ''series='' @ sid])
    (bronze_partition lake_root p sid ym)"
  "is_month_path (lake_root @ [''silver'', ''series='' @ sid]) (silver_partition lake_root sid ym)"
  by (simp_all add: is_month_path_def bronze_partition_def silver_partition_def)

end
