(* ===== verification/Snapshots.thy ===== *)
theory Snapshots
  imports Gold_Catalog_Repository Polars_Ops "HOL-Library.Sublist"
begin

text \<open>
  The pattern shared by \<open>src/ingestion/operational_repository.py\<close> and
  \<open>src/ingestion/state_repository.py\<close>: one Parquet file holds a snapshot of typed records with unique
  keys, a read parses it strictly, and an upsert reads it, replaces the record of one key and rewrites
  the file.  The locale \<open>snapshot_codec\<close> is the contract between a record type and its table; the
  facts on reading, writing and upserting are proved once inside it.
\<close>

section \<open>Tables of records\<close>

lemma distinct_map_cong:
  "(\<And>x y. x \<in> set xs \<Longrightarrow> y \<in> set xs \<Longrightarrow> f x = f y \<longleftrightarrow> g x = g y) \<Longrightarrow> distinct (map f xs) = distinct (map g xs)"
  by (auto simp: distinct_map inj_on_def)

text \<open>A permutation of the image of a list is the image of a permutation.\<close>

lemma mset_map_perm: "mset zs = mset (map g xs) \<Longrightarrow> \<exists>ys. mset ys = mset xs \<and> map g ys = zs"
proof (induction zs arbitrary: xs)
  case (Cons z zs)
  then obtain x where "x \<in> set xs" "z = g x"
    by (metis (no_types, lifting) image_iff list.set_intros(1) list.set_map mset_eq_setD)
  then obtain as bs where xs: "xs = as @ x # bs"
    by (meson split_list)
  then have "mset zs = mset (map g (as @ bs))"
    using Cons.prems \<open>z = g x\<close> by simp
  from Cons.IH [OF this] obtain ys where "mset ys = mset (as @ bs)" "map g ys = zs"
    by blast
  then show ?case
    using xs \<open>z = g x\<close> by (intro exI [of _ "x # ys"]) simp
qed simp

text \<open>\<open>frame.group_by(cols).len().filter(pl.col("len") > 1)\<close> has rows.\<close>

definition duplicate_keys :: "string list \<Rightarrow> frame \<Rightarrow> bool" where
  "duplicate_keys cols f \<longleftrightarrow> \<not> distinct (map (\<lambda>row. map (row_cell (f_schema f) row) cols) (f_rows f))"

definition snapshot_frame ::
  "polars \<Rightarrow> schema \<Rightarrow> ('a \<Rightarrow> (string \<times> pyval) list) \<Rightarrow> string list \<Rightarrow> string list \<Rightarrow> string \<Rightarrow> 'a list \<Rightarrow>
    frame result" where
  "snapshot_frame pl schema dict keys order duplicate_message records =
    (if records = [] then Inr \<lparr>f_schema = schema, f_rows = []\<rparr>
     else
       rbind (pl_dataframe pl (map dict records) schema) (\<lambda>f.
       rbind (raise_if (duplicate_keys keys f) ValueError duplicate_message) (\<lambda>_.
       pl_sort pl order f)))"

definition snapshot_parse ::
  "schema \<Rightarrow> ((string \<Rightarrow> pyval) \<Rightarrow> 'a result) \<Rightarrow> string \<Rightarrow> frame \<Rightarrow> 'a list result" where
  "snapshot_parse schema of_row schema_message f =
    (if f_schema f \<noteq> schema then raise ValueError schema_message
     else rmap (\<lambda>row. of_row (named_row (f_schema f) row)) (f_rows f))"

definition snapshot_read ::
  "schema \<Rightarrow> ((string \<Rightarrow> pyval) \<Rightarrow> 'a result) \<Rightarrow> string \<Rightarrow> path \<Rightarrow> ('z lake_scheme, 'a list) io" where
  "snapshot_read schema of_row schema_message p =
    bind (gets (is_file p)) (\<lambda>present.
      if \<not> present then ret []
      else bind (read_parquet p) (\<lambda>f. lift (snapshot_parse schema of_row schema_message f)))"

text \<open>What the file holds for a reader; nothing when it cannot be read.\<close>

definition snapshot_view ::
  "schema \<Rightarrow> ((string \<Rightarrow> pyval) \<Rightarrow> 'a result) \<Rightarrow> path \<Rightarrow> 'z lake_scheme \<Rightarrow> 'a list option" where
  "snapshot_view schema of_row p w =
    (case file_at p w of
       None \<Rightarrow> Some []
     | Some (Parquet f) \<Rightarrow> (case snapshot_parse schema of_row [] f of Inl _ \<Rightarrow> None | Inr rs \<Rightarrow> Some rs)
     | Some (Bytes _) \<Rightarrow> None)"

definition snapshot_write ::
  "polars \<Rightarrow> schema \<Rightarrow> ('a \<Rightarrow> (string \<times> pyval) list) \<Rightarrow> string list \<Rightarrow> string list \<Rightarrow> string \<Rightarrow> path \<Rightarrow> 'a list \<Rightarrow>
    ('z lake_scheme, unit) io" where
  "snapshot_write pl schema dict keys order duplicate_message p records =
    bind (lift (snapshot_frame pl schema dict keys order duplicate_message records)) (\<lambda>f. atomic_write_parquet f p)"

text \<open>The snapshot after the record of one key is replaced.\<close>

definition upserted :: "('a \<Rightarrow> 'k) \<Rightarrow> 'a \<Rightarrow> 'a list \<Rightarrow> 'a list" where
  "upserted key x xs = filter (\<lambda>y. key y \<noteq> key x) xs @ [x]"

definition snapshot_upsert ::
  "polars \<Rightarrow> schema \<Rightarrow> ('a \<Rightarrow> (string \<times> pyval) list) \<Rightarrow> ((string \<Rightarrow> pyval) \<Rightarrow> 'a result) \<Rightarrow> ('a \<Rightarrow> 'k) \<Rightarrow>
    string list \<Rightarrow> string list \<Rightarrow> string \<Rightarrow> string \<Rightarrow> path \<Rightarrow> 'a \<Rightarrow> ('z lake_scheme, unit) io" where
  "snapshot_upsert pl schema dict of_row key keys order schema_message duplicate_message p x =
    bind (snapshot_read schema of_row schema_message p) (\<lambda>rs.
      snapshot_write pl schema dict keys order duplicate_message p (upserted key x rs))"

section \<open>The contract of a record type and its table\<close>

text \<open>
  A valid record is one its class can construct; a storable one fits the columns of the table.  A stored
  record is read back as its canonical form: instants in UTC, and what the writer redacts.
\<close>

locale snapshot_codec =
  fixes schema :: schema
    and dict :: "'a \<Rightarrow> (string \<times> pyval) list"
    and of_row :: "(string \<Rightarrow> pyval) \<Rightarrow> 'a result"
    and cells :: "'a \<Rightarrow> cell list"
    and valid :: "'a \<Rightarrow> bool"
    and storable :: "'a \<Rightarrow> bool"
    and canon :: "'a \<Rightarrow> 'a"
    and key :: "'a \<Rightarrow> 'k"
    and keys :: "string list"
    and order :: "string list"
  assumes encode: "valid x \<Longrightarrow> encode_row schema (dict x) = (if storable x then Some (cells x) else None)"
    and decode: "valid x \<Longrightarrow> storable x \<Longrightarrow> of_row (named_row schema (cells x)) = Inr (canon x)"
    and row_valid: "of_row row = Inr x \<Longrightarrow> valid x"
    and key_cells: "map (row_cell schema (cells x)) keys = map (row_cell schema (cells y)) keys \<longleftrightarrow> key x = key y"
    and key_canon: "key (canon x) = key x"
    and order_columns: "set order \<subseteq> set (map fst schema)"
begin

lemma rows_of_records:
  "list_all valid xs \<Longrightarrow> encode_rows schema (map dict xs) = (if list_all storable xs then Some (map cells xs) else None)"
  by (induction xs) (auto simp: encode)

lemma duplicate_keys_cells:
  "duplicate_keys keys \<lparr>f_schema = schema, f_rows = map cells xs\<rparr> \<longleftrightarrow> \<not> distinct (map key xs)"
proof -
  have "distinct (map (\<lambda>x. map (row_cell schema (cells x)) keys) xs) = distinct (map key xs)"
    by (rule distinct_map_cong) (rule key_cells)
  then show ?thesis
    by (simp add: duplicate_keys_def comp_def)
qed

lemma parse_cells:
  assumes "list_all valid xs" "list_all storable xs"
  shows "snapshot_parse schema of_row m \<lparr>f_schema = schema, f_rows = map cells xs\<rparr> = Inr (map canon xs)"
  using assms unfolding snapshot_parse_def
  by simp (rule rmap_map_Inr, auto simp: list_all_iff decode)

text \<open>The table of a list of records, and what a reader gets from it.\<close>

lemma frame_reads_back:
  assumes "polars_frames pl" "snapshot_frame pl schema dict keys order dm xs = Inr f" "list_all valid xs"
  shows "list_all storable xs" "distinct (map key xs)"
    "\<exists>ys. mset ys = mset xs \<and> snapshot_parse schema of_row m f = Inr (map canon ys)"
proof -
  have "list_all storable xs \<and> distinct (map key xs)
    \<and> (\<exists>ys. mset ys = mset xs \<and> snapshot_parse schema of_row m f = Inr (map canon ys))"
  proof (cases "xs = []")
    case True
    then show ?thesis
      using assms(2) by (auto simp: snapshot_frame_def snapshot_parse_def)
  next
    case False
    obtain g where g: "pl_dataframe pl (map dict xs) schema = Inr g" "\<not> duplicate_keys keys g"
        "pl_sort pl order g = Inr f"
      using assms(2) False by (auto simp: snapshot_frame_def rbind_Inr)
    have "encode_rows schema (map dict xs) \<noteq> None"
      using g(1) polars_frames.dataframe_strict [OF assms(1), of schema "map dict xs"] by auto
    then have stored: "list_all storable xs" and rows: "encode_rows schema (map dict xs) = Some (map cells xs)"
      by (auto simp: rows_of_records [OF assms(3)] split: if_splits)
    have g': "g = \<lparr>f_schema = schema, f_rows = map cells xs\<rparr>"
      using g(1) polars_frames.dataframe_fits [OF assms(1) rows] by simp
    have "f_schema f = schema" "mset (f_rows f) = mset (map cells xs)"
      using polars_frames.sort_schema [OF assms(1) g(3)] polars_frames.sort_perm [OF assms(1) g(3)] g' by simp_all
    moreover from this obtain ys where ys: "mset ys = mset xs" "map cells ys = f_rows f"
      using mset_map_perm by metis
    ultimately have f: "f = \<lparr>f_schema = schema, f_rows = map cells ys\<rparr>"
      by simp
    have "list_all valid ys" "list_all storable ys"
      using stored assms(3) mset_eq_setD [OF ys(1)] by (simp_all add: list_all_iff)
    then show ?thesis
      using stored g(2) g' duplicate_keys_cells parse_cells f ys(1) by blast
  qed
  then show "list_all storable xs" "distinct (map key xs)"
    "\<exists>ys. mset ys = mset xs \<and> snapshot_parse schema of_row m f = Inr (map canon ys)"
    by blast+
qed

lemma frame_exists:
  assumes "polars_frames pl" "list_all valid xs" "list_all storable xs" "distinct (map key xs)"
  shows "\<exists>f. snapshot_frame pl schema dict keys order dm xs = Inr f"
proof -
  let ?g = "\<lparr>f_schema = schema, f_rows = map cells xs\<rparr>"
  have "pl_dataframe pl (map dict xs) schema = Inr ?g"
    by (rule polars_frames.dataframe_fits [OF assms(1)]) (simp add: rows_of_records assms(2,3))
  moreover have "\<exists>f. pl_sort pl order ?g = Inr f"
    using polars_frames.sort_total [OF assms(1), of order ?g] order_columns by (simp add: f_columns_def)
  ultimately show ?thesis
    using duplicate_keys_cells [of xs] assms(4) by (auto simp: snapshot_frame_def)
qed

section \<open>Reading, writing and upserting\<close>

abbreviation view :: "path \<Rightarrow> 'z lake_scheme \<Rightarrow> 'a list option" where
  "view p w \<equiv> snapshot_view schema of_row p w"

lemma parse_message:
  "snapshot_parse schema of_row m f = Inr rs \<longleftrightarrow> snapshot_parse schema of_row m' f = Inr rs"
  by (simp add: snapshot_parse_def)

lemma read_view:
  assumes "snapshot_read schema of_row m p w = (Inr rs, w')"
  shows "view p w = Some rs"
proof (cases "file_at p w")
  case None
  then show ?thesis
    using assms by (simp add: snapshot_read_def io_run is_file_def snapshot_view_def)
next
  case (Some c)
  then obtain f where "c = Parquet f" "snapshot_parse schema of_row m f = Inr rs"
    using assms
    by (auto simp: snapshot_read_def io_inv gets_apply lift_apply is_file_def dest!: read_parquet_Inr)
  then show ?thesis
    using Some parse_message by (auto simp: snapshot_view_def split: sum.splits) (metis Inl_Inr_False parse_message, metis parse_message sum.inject(2))
qed

lemma view_valid: "view p w = Some rs \<Longrightarrow> list_all valid rs"
  by (auto simp: snapshot_view_def snapshot_parse_def rmap_Inr list_all2_conv_all_nth list_all_length row_valid
      split: option.splits content.splits sum.splits if_splits)

lemma read_keeps_files: "preserves files (snapshot_read schema of_row m p)"
  unfolding snapshot_read_def by (intro preserves_intros)

lemma view_files: "files w' = files w \<Longrightarrow> view p w' = view p w"
  by (simp add: snapshot_view_def file_at_def)

lemma view_at: "file_at p w' = file_at p w \<Longrightarrow> view p w' = view p w"
  by (simp add: snapshot_view_def)

text \<open>A write that returns leaves exactly the written records; one that raises leaves the old or the new ones.\<close>

definition written :: "'a list \<Rightarrow> 'a list \<Rightarrow> bool" where
  "written xs rs \<longleftrightarrow> list_all storable xs \<and> distinct (map key xs) \<and> mset rs = mset (map canon xs)"

lemma write_Inr:
  assumes "polars_frames pl" "snapshot_write pl schema dict keys order dm p xs w = (Inr u, w')" "list_all valid xs"
  shows "\<exists>rs. view p w' = Some rs \<and> written xs rs"
proof -
  obtain f where f: "snapshot_frame pl schema dict keys order dm xs = Inr f" "atomic_write_parquet f p w = (Inr u, w')"
    using assms(2) by (auto simp: snapshot_write_def io_inv lift_apply)
  from frame_reads_back(1,2) [OF assms(1) f(1) assms(3)] frame_reads_back(3) [OF assms(1) f(1) assms(3), of "[]"] atomic_write_parquet_Inr [OF f(2)] show ?thesis
    by (auto simp: snapshot_view_def written_def)
qed

lemma write_Inl:
  assumes "polars_frames pl" "snapshot_write pl schema dict keys order dm p xs w = (Inl e, w')" "list_all valid xs"
  shows "view p w' = view p w \<or> (\<exists>rs. view p w' = Some rs \<and> written xs rs)"
proof (cases "snapshot_frame pl schema dict keys order dm xs")
  case (Inl e')
  then show ?thesis
    using assms(2) by (simp add: snapshot_write_def io_run)
next
  case (Inr f)
  then have "atomic_write_parquet f p w = (Inl e, w')"
    using assms(2) by (simp add: snapshot_write_def io_run)
  from atomic_write_parquet_Inl [OF this] frame_reads_back(1,2) [OF assms(1) Inr assms(3)] frame_reads_back(3) [OF assms(1) Inr assms(3), of "[]"] show ?thesis
    by (auto simp: snapshot_view_def written_def)
qed

lemma write_quiet:
  assumes "polars_frames pl" "faults w = []" "list_all valid xs" "list_all storable xs" "distinct (map key xs)"
  shows "\<exists>w'. snapshot_write pl schema dict keys order dm p xs w = (Inr (), w') \<and> faults w' = []"
proof -
  obtain f where "snapshot_frame pl schema dict keys order dm xs = Inr f"
    using frame_exists [OF assms(1,3-5)] by blast
  then show ?thesis
    using polars_frames.atomic_write_quiet [OF assms(1,2), of "Parquet f" p]
    by (simp add: snapshot_write_def bind_def lift_apply atomic_write_parquet_def)
qed

lemma read_quiet:
  assumes "faults w = []" "view p w = Some rs"
  shows "snapshot_read schema of_row m p w = (Inr rs, w)"
proof -
  have "snapshot_parse schema of_row m f = Inr rs" if "snapshot_parse schema of_row [] f = Inr rs" for f
    using that parse_message by blast
  then show ?thesis
    using assms
    by (auto simp: snapshot_read_def io_run is_file_def snapshot_view_def read_parquet_def fault_point_def
        split: option.splits content.splits sum.splits)
qed

text \<open>Upserting one record.\<close>

abbreviation upsert :: "polars \<Rightarrow> string \<Rightarrow> string \<Rightarrow> path \<Rightarrow> 'a \<Rightarrow> ('z lake_scheme, unit) io" where
  "upsert pl m dm p x \<equiv> snapshot_upsert pl schema dict of_row key keys order m dm p x"

lemma upserted_valid: "list_all valid rs \<Longrightarrow> valid x \<Longrightarrow> list_all valid (upserted key x rs)"
  by (auto simp: upserted_def list_all_iff)

lemma upsert_Inr:
  assumes "polars_frames pl" "valid x" "upsert pl m dm p x w = (Inr u, w')"
  shows "\<exists>old new. view p w = Some old \<and> view p w' = Some new \<and> written (upserted key x old) new"
proof -
  obtain old w1 where old: "snapshot_read schema of_row m p w = (Inr old, w1)"
      "snapshot_write pl schema dict keys order dm p (upserted key x old) w1 = (Inr u, w')"
    using assms(3) by (auto simp: snapshot_upsert_def io_inv)
  have "list_all valid (upserted key x old)"
    using upserted_valid [OF view_valid [OF read_view [OF old(1)]] assms(2)] .
  from write_Inr [OF assms(1) old(2) this] read_view [OF old(1)] show ?thesis
    by blast
qed

lemma upsert_Inl:
  assumes "polars_frames pl" "valid x" "upsert pl m dm p x w = (Inl e, w')"
  shows "view p w' = view p w
    \<or> (\<exists>old new. view p w = Some old \<and> view p w' = Some new \<and> written (upserted key x old) new)"
proof -
  consider "snapshot_read schema of_row m p w = (Inl e, w')"
    | old w1 where "snapshot_read schema of_row m p w = (Inr old, w1)"
      "snapshot_write pl schema dict keys order dm p (upserted key x old) w1 = (Inl e, w')"
    using assms(3) by (auto simp: snapshot_upsert_def io_inv)
  then show ?thesis
  proof cases
    case 1
    then show ?thesis
      using view_files preservesD [OF read_keeps_files] by blast
  next
    case (2 old w1)
    have "list_all valid (upserted key x old)"
      using upserted_valid [OF view_valid [OF read_view [OF 2(1)]] assms(2)] .
    from write_Inl [OF assms(1) 2(2) this] read_view [OF 2(1)] view_files preservesD [OF read_keeps_files 2(1)]
    show ?thesis by metis
  qed
qed

lemma upsert_other:
  assumes "q \<noteq> p"
  shows "preserves (file_at q) (upsert pl m dm p x)"
proof -
  have "preserves (file_at q) (snapshot_read schema of_row m p)"
    by (rule preservesI) (drule preservesD [OF read_keeps_files], simp add: file_at_def)
  then show ?thesis
    using atomic_write_other [OF assms]
    by (auto simp: snapshot_upsert_def snapshot_write_def atomic_write_parquet_def intro!: preserves_intros)
qed

lemma upsert_quiet:
  assumes "polars_frames pl" "faults w = []" "view p w = Some old" "valid x" "list_all storable (upserted key x old)"
    "distinct (map key old)"
  shows "\<exists>w'. upsert pl m dm p x w = (Inr (), w') \<and> faults w' = []"
proof -
  have "distinct (map key (upserted key x old))"
    using assms(6) by (auto simp: upserted_def distinct_map_filter)
  from write_quiet [OF assms(1,2) upserted_valid [OF view_valid [OF assms(3)] assms(4)] assms(5) this] show ?thesis
    by (simp add: snapshot_upsert_def bind_def read_quiet [OF assms(2,3)])
qed

lemma written_distinct: "written xs new \<Longrightarrow> distinct (map key new)"
proof -
  assume w: "written xs new"
  then have "mset (map key new) = mset (map key (map canon xs))"
    by (metis mset_map written_def)
  moreover have "map key (map canon xs) = map key xs"
    by (simp add: key_canon)
  ultimately show ?thesis
    using w mset_eq_imp_distinct_iff by (metis written_def)
qed

text \<open>The lookup by key after an upsert.\<close>

lemma written_lookup:
  assumes "written (upserted key x old) new"
  shows "find (\<lambda>y. key y = k) new = (if k = key x then Some (canon x) else map_option canon (find (\<lambda>y. key y = k) old))"
proof -
  let ?xs = "map canon (upserted key x old)"
  have m: "mset new = mset ?xs" and d: "distinct (map key ?xs)"
    using assms by (simp_all add: written_def comp_def key_canon)
  have set: "set new = set ?xs" by (rule mset_eq_setD [OF m])
  have dn: "distinct (map key new)"
    using m d by (metis mset_eq_imp_distinct_iff mset_map)
  have hit: "find (\<lambda>y. key y = key z) new = Some z" if "z \<in> set ?xs" for z
    using find_Some_unique [OF dn, of z] that set by simp
  show ?thesis
  proof (cases "k = key x")
    case True
    then show ?thesis
      using hit [of "canon x"] by (simp add: upserted_def key_canon)
  next
    case False
    show ?thesis
    proof (cases "find (\<lambda>y. key y = k) old")
      case None
      then have "find (\<lambda>y. key y = k) new = None"
        using False set by (auto simp: find_None_iff upserted_def key_canon)
      then show ?thesis
        using False None by simp
    next
      case (Some z)
      then have "z \<in> set old" "key z = k"
        by (auto simp: find_Some_iff)
      then show ?thesis
        using hit [of "canon z"] False Some by (simp add: upserted_def key_canon)
    qed
  qed
qed

end

end
