(* ===== verification/Ingestion_Records.thy ===== *)
theory Ingestion_Records
  imports Snapshots Planner Lake_Paths
begin

text \<open>
  \<open>src/application/operational_records.py\<close> with its Parquet repository
  (\<open>src/ingestion/operational_repository.py\<close>), and the repository of the ingestion state
  (\<open>src/ingestion/state_repository.py\<close>).  A null in a column the writer never leaves null is rejected
  with a \<open>TypeError\<close> here; the program would carry the null on.
\<close>

section \<open>Records\<close>

datatype run_mode = RUN_BOOTSTRAP | RUN_UPDATE | RUN_RECONCILE

datatype run_status = RUN_SUCCESS | RUN_FAILED

record inventory_record =
  inv_series_id :: string
  inv_provider :: provider
  inv_min_date :: "int option"
  inv_max_date :: "int option"
  inv_row_count :: int
  inv_duplicate_key_count :: int
  inv_file_count :: int

definition planning_latest :: "inventory_record \<Rightarrow> int option" where
  "planning_latest r = inv_max_date r"

record ingestion_run =
  run_id :: string
  run_provider :: provider
  run_series_id :: string
  run_mode_of :: run_mode
  run_requested_start :: "int option"
  run_requested_end :: "int option"
  run_fetched_rows :: int
  run_accepted_rows :: int
  run_inserted_rows :: int
  run_revised_rows :: int
  run_written_partitions :: int
  run_status_of :: run_status
  run_started_at :: datetime
  run_completed_at :: datetime
  run_error_category :: "string option"
  run_error_message :: "string option"

text \<open>The constructor: the checks of \<open>__post_init__\<close>.\<close>

definition IngestionRunRecord :: "ingestion_run \<Rightarrow> ingestion_run result" where
  "IngestionRunRecord r =
    rbind (raise_if (is_blank (run_id r)) ValueError ''run_id must be non-empty'') (\<lambda>_.
    rbind (raise_if (list_ex (\<lambda>n. n < 0)
        [run_fetched_rows r, run_accepted_rows r, run_inserted_rows r, run_revised_rows r, run_written_partitions r])
      ValueError ''run counts must be >= 0'') (\<lambda>_.
    rbind (dt_less (run_completed_at r) (run_started_at r)) (\<lambda>early.
    rbind (raise_if early ValueError ''completed_at_utc cannot precede started_at_utc'') (\<lambda>_.
    rbind (raise_if (run_status_of r = RUN_FAILED
        \<and> (run_inserted_rows r \<noteq> 0 \<or> run_revised_rows r \<noteq> 0 \<or> run_written_partitions r \<noteq> 0))
      ValueError ''failed run cannot claim non-durable writes'') (\<lambda>_.
    Inr r)))))"

definition valid_run :: "ingestion_run \<Rightarrow> bool" where
  "valid_run r \<longleftrightarrow> \<not> is_blank (run_id r)
    \<and> 0 \<le> run_fetched_rows r \<and> 0 \<le> run_accepted_rows r \<and> 0 \<le> run_inserted_rows r
    \<and> 0 \<le> run_revised_rows r \<and> 0 \<le> run_written_partitions r
    \<and> is_aware (run_completed_at r) = is_aware (run_started_at r)
    \<and> dt_num (run_started_at r) \<le> dt_num (run_completed_at r)
    \<and> (run_status_of r = RUN_FAILED \<longrightarrow>
        run_inserted_rows r = 0 \<and> run_revised_rows r = 0 \<and> run_written_partitions r = 0)"

lemma IngestionRunRecord_Inr: "IngestionRunRecord r = Inr q \<longleftrightarrow> q = r \<and> valid_run r"
  by (auto simp: IngestionRunRecord_def valid_run_def guard_Inr rbind_Inr dt_less_Inr)

section \<open>Texts of the enumerations\<close>

fun run_mode_value :: "run_mode \<Rightarrow> string" where
  "run_mode_value RUN_BOOTSTRAP = ''bootstrap''"
| "run_mode_value RUN_UPDATE = ''update''"
| "run_mode_value RUN_RECONCILE = ''reconcile''"

fun run_status_value :: "run_status \<Rightarrow> string" where
  "run_status_value RUN_SUCCESS = ''success''"
| "run_status_value RUN_FAILED = ''failed''"

fun operation_value :: "operation_mode \<Rightarrow> string" where
  "operation_value BOOTSTRAP = ''bootstrap''"
| "operation_value UPDATE = ''update''"
| "operation_value RECONCILE = ''reconcile''"

text \<open>\<open>Enum(text)\<close>: the member with that value.\<close>

definition enum_of :: "('e \<Rightarrow> string) \<Rightarrow> 'e list \<Rightarrow> string \<Rightarrow> 'e result" where
  "enum_of value_of members s =
    (case find (\<lambda>m. value_of m = s) members of
       None \<Rightarrow> raise ValueError (s @ '' is not a valid member'')
     | Some m \<Rightarrow> Inr m)"

definition parse_provider :: "string \<Rightarrow> provider result" where
  "parse_provider = enum_of provider_value [CBOE, STOXX, YAHOO, ECB, FRED]"

definition RunMode :: "string \<Rightarrow> run_mode result" where
  "RunMode = enum_of run_mode_value [RUN_BOOTSTRAP, RUN_UPDATE, RUN_RECONCILE]"

definition RunStatus :: "string \<Rightarrow> run_status result" where
  "RunStatus = enum_of run_status_value [RUN_SUCCESS, RUN_FAILED]"

definition OperationMode :: "string \<Rightarrow> operation_mode result" where
  "OperationMode = enum_of operation_value [BOOTSTRAP, UPDATE, RECONCILE]"

lemma enum_values [simp]:
  "parse_provider (provider_value p) = Inr p" "RunMode (run_mode_value m) = Inr m"
  "RunStatus (run_status_value s) = Inr s" "OperationMode (operation_value o') = Inr o'"
proof -
  show "parse_provider (provider_value p) = Inr p" by (cases p) (simp_all add: parse_provider_def enum_of_def)
  show "RunMode (run_mode_value m) = Inr m" by (cases m) (simp_all add: RunMode_def enum_of_def)
  show "RunStatus (run_status_value s) = Inr s" by (cases s) (simp_all add: RunStatus_def enum_of_def)
  show "OperationMode (operation_value o') = Inr o'" by (cases o') (simp_all add: OperationMode_def enum_of_def)
qed

lemma provider_value_inj [simp]: "provider_value p = provider_value q \<longleftrightarrow> p = q"
  by (cases p; cases q) auto

section \<open>Cells of the columns\<close>

definition text_of :: "pyval \<Rightarrow> string result" where
  "text_of v = (case v of PStr s \<Rightarrow> Inr s | _ \<Rightarrow> raise TypeError ''not a text'')"

definition number_of :: "pyval \<Rightarrow> int result" where
  "number_of v = (case v of PInt i \<Rightarrow> Inr i | _ \<Rightarrow> raise TypeError ''not an integer'')"

definition time_of :: "pyval \<Rightarrow> datetime result" where
  "time_of v = (case v of PDatetime d \<Rightarrow> Inr d | _ \<Rightarrow> raise TypeError ''not a datetime'')"

definition date_of :: "pyval \<Rightarrow> int result" where
  "date_of v = (case v of PDate d \<Rightarrow> Inr d | _ \<Rightarrow> raise TypeError ''not a date'')"

definition nullable :: "(pyval \<Rightarrow> 'a result) \<Rightarrow> pyval \<Rightarrow> 'a option result" where
  "nullable f v = (if v = PNone then Inr None else rbind (f v) (\<lambda>x. Inr (Some x)))"

definition date_cell :: "int option \<Rightarrow> cell" where
  "date_cell v = (case v of None \<Rightarrow> CNull | Some d \<Rightarrow> CDate d)"

definition storable_time :: "datetime \<Rightarrow> bool" where
  "storable_time d \<longleftrightarrow> is_aware d \<and> fits_int64 (dt_num d)"

named_theorems column_simps

lemma encode_columns [column_simps]:
  "encode_cell DString (PStr s) = Some (CStr s)"
  "encode_cell DString (py_opt PStr v) = Some (str_cell v)"
  "encode_cell DInt64 (PInt i) = (if fits_int64 i then Some (CInt i) else None)"
  "encode_cell DDate (py_opt PDate d) = Some (date_cell d)"
  "encode_cell DDatetimeUtc (PDatetime t) = (if storable_time t then Some (CDatetime (dt_num t)) else None)"
  "encode_cell DDatetimeUtc (py_opt PDatetime w) = (if opt_all storable_time w then Some (time_cell w) else None)"
proof -
  have t: "encode_cell DDatetimeUtc (PDatetime t) = (if storable_time t then Some (CDatetime (dt_num t)) else None)" for t
    by (cases t) (simp_all add: storable_time_def)
  then show "encode_cell DDatetimeUtc (PDatetime t) = (if storable_time t then Some (CDatetime (dt_num t)) else None)" .
  show "encode_cell DDatetimeUtc (py_opt PDatetime w) = (if opt_all storable_time w then Some (time_cell w) else None)"
    by (cases w) (simp_all add: py_opt_def time_cell_def t)
qed (simp_all add: py_opt_def date_cell_def str_cell_def split: option.split)

lemma typed_values [simp]:
  "text_of (PStr s) = Inr s" "number_of (PInt i) = Inr i" "time_of (PDatetime t) = Inr t" "date_of (PDate d) = Inr d"
  by (simp_all add: text_of_def number_of_def time_of_def date_of_def)

lemma decode_columns [column_simps]:
  "nullable text_of (decode_cell (str_cell v)) = Inr v"
  "nullable date_of (decode_cell (date_cell d)) = Inr d"
  "nullable time_of (decode_cell (time_cell w)) = Inr (map_option (\<lambda>d. Aware (dt_num d) 0) w)"
  by (auto simp: nullable_def str_cell_def date_cell_def time_cell_def split: option.split)

end
