(* ===== verification/Ingestion_Repositories.thy ===== *)
theory Ingestion_Repositories
  imports Ingestion_Records
begin

text \<open>
  The three snapshot tables of the ingestion: \<open>src/ingestion/operational_repository.py\<close> (inventory and
  audit of runs, with the redaction of secrets) and \<open>src/ingestion/state_repository.py\<close> (ingestion
  state).  Each interprets the locale \<open>snapshot_codec\<close> on its own row functions.
\<close>

section \<open>Redaction\<close>

text \<open>\<open>text.replace(old, new)\<close> for a text \<open>old\<close> that is not empty: occurrences from the left.\<close>

function str_replace :: "string \<Rightarrow> string \<Rightarrow> string \<Rightarrow> string" where
  "str_replace old new s =
    (if s = [] then []
     else if old \<noteq> [] \<and> prefix old s then new @ str_replace old new (drop (length old) s)
     else hd s # str_replace old new (tl s))"
  by pat_completeness auto

termination
  by (relation "measure (\<lambda>(old, new, s). length s)") auto

declare str_replace.simps [simp del]

definition sanitize :: "string list \<Rightarrow> string option \<Rightarrow> string option" where
  "sanitize secrets text' =
    (case text' of
       None \<Rightarrow> None
     | Some t \<Rightarrow> Some (fold (\<lambda>secret s. if secret \<noteq> [] then str_replace secret ''***'' s else s) secrets t))"

section \<open>The inventory\<close>

definition INVENTORY_SCHEMA :: schema where
  "INVENTORY_SCHEMA =
    [(''series_id'', DString), (''provider'', DString), (''min_observation_date'', DDate),
     (''max_observation_date'', DDate), (''row_count'', DInt64), (''duplicate_key_count'', DInt64),
     (''file_count'', DInt64)]"

definition inventory_dict :: "inventory_record \<Rightarrow> (string \<times> pyval) list" where
  "inventory_dict r =
    [(''series_id'', PStr (inv_series_id r)), (''provider'', PStr (provider_value (inv_provider r))),
     (''min_observation_date'', py_opt PDate (inv_min_date r)),
     (''max_observation_date'', py_opt PDate (inv_max_date r)),
     (''row_count'', PInt (inv_row_count r)), (''duplicate_key_count'', PInt (inv_duplicate_key_count r)),
     (''file_count'', PInt (inv_file_count r))]"

definition inventory_of_row :: "(string \<Rightarrow> pyval) \<Rightarrow> inventory_record result" where
  "inventory_of_row row =
    rbind (text_of (row ''series_id'')) (\<lambda>sid.
    rbind (rbind (text_of (row ''provider'')) parse_provider) (\<lambda>p.
    rbind (nullable date_of (row ''min_observation_date'')) (\<lambda>lo.
    rbind (nullable date_of (row ''max_observation_date'')) (\<lambda>hi.
    rbind (number_of (row ''row_count'')) (\<lambda>rows.
    rbind (number_of (row ''duplicate_key_count'')) (\<lambda>dups.
    rbind (number_of (row ''file_count'')) (\<lambda>fs.
    Inr \<lparr>inv_series_id = sid, inv_provider = p, inv_min_date = lo, inv_max_date = hi,
      inv_row_count = rows, inv_duplicate_key_count = dups, inv_file_count = fs\<rparr>)))))))"

definition inventory_frame :: "polars \<Rightarrow> inventory_record list \<Rightarrow> frame result" where
  "inventory_frame pl = snapshot_frame pl INVENTORY_SCHEMA inventory_dict [''series_id''] [''series_id'']
    ''duplicate inventory series_id''"

definition write_inventory :: "polars \<Rightarrow> path \<Rightarrow> inventory_record list \<Rightarrow> ('z lake_scheme, unit) io" where
  "write_inventory pl p records = bind (lift (inventory_frame pl records)) (\<lambda>f. atomic_write_parquet f p)"

definition read_inventory :: "path \<Rightarrow> ('z lake_scheme, inventory_record list) io" where
  "read_inventory p = snapshot_read INVENTORY_SCHEMA inventory_of_row ''invalid inventory schema'' p"

definition inventory_cells :: "inventory_record \<Rightarrow> cell list" where
  "inventory_cells r =
    [CStr (inv_series_id r), CStr (provider_value (inv_provider r)), date_cell (inv_min_date r),
     date_cell (inv_max_date r), CInt (inv_row_count r), CInt (inv_duplicate_key_count r), CInt (inv_file_count r)]"

definition storable_inventory :: "inventory_record \<Rightarrow> bool" where
  "storable_inventory r \<longleftrightarrow>
    fits_int64 (inv_row_count r) \<and> fits_int64 (inv_duplicate_key_count r) \<and> fits_int64 (inv_file_count r)"

interpretation inventory: snapshot_codec INVENTORY_SCHEMA inventory_dict inventory_of_row inventory_cells
  "\<lambda>_. True" storable_inventory "\<lambda>r. r" inv_series_id "[''series_id'']" "[''series_id'']"
  by unfold_locales
    (auto simp: INVENTORY_SCHEMA_def inventory_dict_def inventory_cells_def storable_inventory_def
      inventory_of_row_def named_row_def column_simps)

section \<open>The audit of runs\<close>

definition RUN_SCHEMA :: schema where
  "RUN_SCHEMA =
    [(''run_id'', DString), (''provider'', DString), (''series_id'', DString), (''mode'', DString),
     (''requested_start'', DDate), (''requested_end'', DDate), (''fetched_rows'', DInt64),
     (''accepted_rows'', DInt64), (''inserted_rows'', DInt64), (''revised_rows'', DInt64),
     (''written_partitions'', DInt64), (''status'', DString), (''started_at_utc'', DDatetimeUtc),
     (''completed_at_utc'', DDatetimeUtc), (''error_category'', DString), (''error_message'', DString)]"

definition run_dict :: "string list \<Rightarrow> ingestion_run \<Rightarrow> (string \<times> pyval) list" where
  "run_dict secrets r =
    [(''run_id'', PStr (run_id r)), (''provider'', PStr (provider_value (run_provider r))),
     (''series_id'', PStr (run_series_id r)), (''mode'', PStr (run_mode_value (run_mode_of r))),
     (''requested_start'', py_opt PDate (run_requested_start r)),
     (''requested_end'', py_opt PDate (run_requested_end r)),
     (''fetched_rows'', PInt (run_fetched_rows r)), (''accepted_rows'', PInt (run_accepted_rows r)),
     (''inserted_rows'', PInt (run_inserted_rows r)), (''revised_rows'', PInt (run_revised_rows r)),
     (''written_partitions'', PInt (run_written_partitions r)),
     (''status'', PStr (run_status_value (run_status_of r))),
     (''started_at_utc'', PDatetime (run_started_at r)), (''completed_at_utc'', PDatetime (run_completed_at r)),
     (''error_category'', py_opt PStr (sanitize secrets (run_error_category r))),
     (''error_message'', py_opt PStr (sanitize secrets (run_error_message r)))]"

definition run_of_row :: "(string \<Rightarrow> pyval) \<Rightarrow> ingestion_run result" where
  "run_of_row row =
    rbind (text_of (row ''run_id'')) (\<lambda>rid.
    rbind (rbind (text_of (row ''provider'')) parse_provider) (\<lambda>p.
    rbind (text_of (row ''series_id'')) (\<lambda>sid.
    rbind (rbind (text_of (row ''mode'')) RunMode) (\<lambda>mode.
    rbind (nullable date_of (row ''requested_start'')) (\<lambda>start.
    rbind (nullable date_of (row ''requested_end'')) (\<lambda>stop.
    rbind (number_of (row ''fetched_rows'')) (\<lambda>fetched.
    rbind (number_of (row ''accepted_rows'')) (\<lambda>accepted.
    rbind (number_of (row ''inserted_rows'')) (\<lambda>inserted.
    rbind (number_of (row ''revised_rows'')) (\<lambda>revised.
    rbind (number_of (row ''written_partitions'')) (\<lambda>partitions.
    rbind (rbind (text_of (row ''status'')) RunStatus) (\<lambda>status.
    rbind (time_of (row ''started_at_utc'')) (\<lambda>started.
    rbind (time_of (row ''completed_at_utc'')) (\<lambda>completed.
    rbind (nullable text_of (row ''error_category'')) (\<lambda>category.
    rbind (nullable text_of (row ''error_message'')) (\<lambda>message.
    IngestionRunRecord \<lparr>run_id = rid, run_provider = p, run_series_id = sid, run_mode_of = mode,
      run_requested_start = start, run_requested_end = stop, run_fetched_rows = fetched,
      run_accepted_rows = accepted, run_inserted_rows = inserted, run_revised_rows = revised,
      run_written_partitions = partitions, run_status_of = status, run_started_at = started,
      run_completed_at = completed, run_error_category = category, run_error_message = message\<rparr>))))))))))))))))"

definition run_frame :: "polars \<Rightarrow> string list \<Rightarrow> ingestion_run list \<Rightarrow> frame result" where
  "run_frame pl secrets = snapshot_frame pl RUN_SCHEMA (run_dict secrets) [''run_id''] [''started_at_utc'', ''run_id'']
    ''duplicate ingestion run_id''"

definition write_runs :: "polars \<Rightarrow> string list \<Rightarrow> path \<Rightarrow> ingestion_run list \<Rightarrow> ('z lake_scheme, unit) io" where
  "write_runs pl secrets p records = bind (lift (run_frame pl secrets records)) (\<lambda>f. atomic_write_parquet f p)"

definition read_runs :: "path \<Rightarrow> ('z lake_scheme, ingestion_run list) io" where
  "read_runs p = snapshot_read RUN_SCHEMA run_of_row ''invalid ingestion-run schema'' p"

definition upsert_run :: "polars \<Rightarrow> string list \<Rightarrow> path \<Rightarrow> ingestion_run \<Rightarrow> ('z lake_scheme, unit) io" where
  "upsert_run pl secrets p r =
    bind (read_runs p) (\<lambda>existing. write_runs pl secrets p (upserted run_id r existing))"

definition run_cells :: "string list \<Rightarrow> ingestion_run \<Rightarrow> cell list" where
  "run_cells secrets r =
    [CStr (run_id r), CStr (provider_value (run_provider r)), CStr (run_series_id r),
     CStr (run_mode_value (run_mode_of r)), date_cell (run_requested_start r), date_cell (run_requested_end r),
     CInt (run_fetched_rows r), CInt (run_accepted_rows r), CInt (run_inserted_rows r), CInt (run_revised_rows r),
     CInt (run_written_partitions r), CStr (run_status_value (run_status_of r)),
     CDatetime (dt_num (run_started_at r)), CDatetime (dt_num (run_completed_at r)),
     str_cell (sanitize secrets (run_error_category r)), str_cell (sanitize secrets (run_error_message r))]"

definition storable_run :: "ingestion_run \<Rightarrow> bool" where
  "storable_run r \<longleftrightarrow>
    fits_int64 (run_fetched_rows r) \<and> fits_int64 (run_accepted_rows r) \<and> fits_int64 (run_inserted_rows r)
    \<and> fits_int64 (run_revised_rows r) \<and> fits_int64 (run_written_partitions r)
    \<and> storable_time (run_started_at r) \<and> storable_time (run_completed_at r)"

definition stored_run :: "string list \<Rightarrow> ingestion_run \<Rightarrow> ingestion_run" where
  "stored_run secrets r = r\<lparr>run_started_at := Aware (dt_num (run_started_at r)) 0,
     run_completed_at := Aware (dt_num (run_completed_at r)) 0,
     run_error_category := sanitize secrets (run_error_category r),
     run_error_message := sanitize secrets (run_error_message r)\<rparr>"

lemma run_encode:
  "encode_row RUN_SCHEMA (run_dict secrets r) = (if storable_run r then Some (run_cells secrets r) else None)"
  unfolding RUN_SCHEMA_def run_dict_def run_cells_def storable_run_def
  by (simp add: column_simps case_if_Some if_if_None conj_assoc del: if_weak_cong cong: if_cong)

lemma named_run_cells:
  "named_row RUN_SCHEMA (run_cells secrets r) ''run_id'' = decode_cell (CStr (run_id r))"
  "named_row RUN_SCHEMA (run_cells secrets r) ''provider'' = decode_cell (CStr (provider_value (run_provider r)))"
  "named_row RUN_SCHEMA (run_cells secrets r) ''series_id'' = decode_cell (CStr (run_series_id r))"
  "named_row RUN_SCHEMA (run_cells secrets r) ''mode'' = decode_cell (CStr (run_mode_value (run_mode_of r)))"
  "named_row RUN_SCHEMA (run_cells secrets r) ''requested_start'' = decode_cell (date_cell (run_requested_start r))"
  "named_row RUN_SCHEMA (run_cells secrets r) ''requested_end'' = decode_cell (date_cell (run_requested_end r))"
  "named_row RUN_SCHEMA (run_cells secrets r) ''fetched_rows'' = decode_cell (CInt (run_fetched_rows r))"
  "named_row RUN_SCHEMA (run_cells secrets r) ''accepted_rows'' = decode_cell (CInt (run_accepted_rows r))"
  "named_row RUN_SCHEMA (run_cells secrets r) ''inserted_rows'' = decode_cell (CInt (run_inserted_rows r))"
  "named_row RUN_SCHEMA (run_cells secrets r) ''revised_rows'' = decode_cell (CInt (run_revised_rows r))"
  "named_row RUN_SCHEMA (run_cells secrets r) ''written_partitions'' = decode_cell (CInt (run_written_partitions r))"
  "named_row RUN_SCHEMA (run_cells secrets r) ''status'' = decode_cell (CStr (run_status_value (run_status_of r)))"
  "named_row RUN_SCHEMA (run_cells secrets r) ''started_at_utc'' = decode_cell (CDatetime (dt_num (run_started_at r)))"
  "named_row RUN_SCHEMA (run_cells secrets r) ''completed_at_utc'' = decode_cell (CDatetime (dt_num (run_completed_at r)))"
  "named_row RUN_SCHEMA (run_cells secrets r) ''error_category'' = decode_cell (str_cell (sanitize secrets (run_error_category r)))"
  "named_row RUN_SCHEMA (run_cells secrets r) ''error_message'' = decode_cell (str_cell (sanitize secrets (run_error_message r)))"
  by (simp_all add: named_row_def RUN_SCHEMA_def run_cells_def)

lemma run_decode:
  "valid_run r \<Longrightarrow> run_of_row (named_row RUN_SCHEMA (run_cells secrets r)) = Inr (stored_run secrets r)"
  unfolding run_of_row_def named_run_cells
  by (simp add: column_simps IngestionRunRecord_Inr stored_run_def valid_run_def)

lemma run_of_row_valid: "run_of_row row = Inr r \<Longrightarrow> valid_run r"
  by (auto simp: run_of_row_def rbind_Inr IngestionRunRecord_Inr)

interpretation runs: snapshot_codec RUN_SCHEMA "run_dict secrets" run_of_row "run_cells secrets"
  valid_run storable_run "stored_run secrets" run_id "[''run_id'']" "[''started_at_utc'', ''run_id'']"
  for secrets
  by unfold_locales
    (auto simp: run_encode run_decode run_of_row_valid stored_run_def,
      auto simp: RUN_SCHEMA_def run_cells_def)

section \<open>The ingestion state\<close>

definition STATE_SCHEMA :: schema where
  "STATE_SCHEMA =
    [(''provider'', DString), (''series_id'', DString), (''last_success_utc'', DDatetimeUtc),
     (''last_observed_date'', DDate), (''last_requested_start'', DDate), (''last_requested_end'', DDate),
     (''mode'', DString), (''fetched_row_count'', DInt64), (''accepted_row_count'', DInt64),
     (''changed_row_count'', DInt64), (''last_reconcile_utc'', DDatetimeUtc)]"

definition state_dict :: "ingestion_state \<Rightarrow> (string \<times> pyval) list" where
  "state_dict s =
    [(''provider'', PStr (provider_value (st_provider s))), (''series_id'', PStr (st_series_id s)),
     (''last_success_utc'', py_opt PDatetime (last_success_utc s)),
     (''last_observed_date'', py_opt PDate (last_observed_date s)),
     (''last_requested_start'', py_opt PDate (last_requested_start s)),
     (''last_requested_end'', py_opt PDate (last_requested_end s)),
     (''mode'', py_opt PStr (map_option operation_value (st_mode s))),
     (''fetched_row_count'', PInt (fetched_row_count s)), (''accepted_row_count'', PInt (accepted_row_count s)),
     (''changed_row_count'', PInt (changed_row_count s)),
     (''last_reconcile_utc'', py_opt PDatetime (last_reconcile_utc s))]"

definition state_of_row :: "(string \<Rightarrow> pyval) \<Rightarrow> ingestion_state result" where
  "state_of_row row =
    rbind (rbind (text_of (row ''provider'')) parse_provider) (\<lambda>p.
    rbind (text_of (row ''series_id'')) (\<lambda>sid.
    rbind (nullable time_of (row ''last_success_utc'')) (\<lambda>success.
    rbind (nullable date_of (row ''last_observed_date'')) (\<lambda>observed.
    rbind (nullable date_of (row ''last_requested_start'')) (\<lambda>start.
    rbind (nullable date_of (row ''last_requested_end'')) (\<lambda>stop.
    rbind (rbind (nullable text_of (row ''mode'')) (\<lambda>m. case m of None \<Rightarrow> Inr None
             | Some t \<Rightarrow> rbind (OperationMode t) (\<lambda>mode. Inr (Some mode)))) (\<lambda>mode.
    rbind (number_of (row ''fetched_row_count'')) (\<lambda>fetched.
    rbind (number_of (row ''accepted_row_count'')) (\<lambda>accepted.
    rbind (number_of (row ''changed_row_count'')) (\<lambda>changed.
    rbind (nullable time_of (row ''last_reconcile_utc'')) (\<lambda>reconciled.
    Inr \<lparr>st_provider = p, st_series_id = sid, last_success_utc = success, last_observed_date = observed,
      last_requested_start = start, last_requested_end = stop, st_mode = mode, fetched_row_count = fetched,
      accepted_row_count = accepted, changed_row_count = changed, last_reconcile_utc = reconciled\<rparr>)))))))))))"

definition state_key :: "ingestion_state \<Rightarrow> provider \<times> string" where
  "state_key s = (st_provider s, st_series_id s)"

definition state_frame :: "polars \<Rightarrow> ingestion_state list \<Rightarrow> frame result" where
  "state_frame pl = snapshot_frame pl STATE_SCHEMA state_dict [''provider'', ''series_id''] [''provider'', ''series_id'']
    ''duplicate ingestion-state key''"

definition write_states :: "polars \<Rightarrow> path \<Rightarrow> ingestion_state list \<Rightarrow> ('z lake_scheme, unit) io" where
  "write_states pl p states = bind (lift (state_frame pl states)) (\<lambda>f. atomic_write_parquet f p)"

definition read_states :: "path \<Rightarrow> ('z lake_scheme, ingestion_state list) io" where
  "read_states p = snapshot_read STATE_SCHEMA state_of_row ''invalid ingestion-state schema'' p"

definition upsert_state_row :: "polars \<Rightarrow> path \<Rightarrow> ingestion_state \<Rightarrow> ('z lake_scheme, unit) io" where
  "upsert_state_row pl p s =
    bind (read_states p) (\<lambda>existing. write_states pl p (upserted state_key s existing))"

definition state_cells :: "ingestion_state \<Rightarrow> cell list" where
  "state_cells s =
    [CStr (provider_value (st_provider s)), CStr (st_series_id s), time_cell (last_success_utc s),
     date_cell (last_observed_date s), date_cell (last_requested_start s), date_cell (last_requested_end s),
     str_cell (map_option operation_value (st_mode s)), CInt (fetched_row_count s), CInt (accepted_row_count s),
     CInt (changed_row_count s), time_cell (last_reconcile_utc s)]"

definition storable_state :: "ingestion_state \<Rightarrow> bool" where
  "storable_state s \<longleftrightarrow>
    fits_int64 (fetched_row_count s) \<and> fits_int64 (accepted_row_count s) \<and> fits_int64 (changed_row_count s)
    \<and> opt_all storable_time (last_success_utc s) \<and> opt_all storable_time (last_reconcile_utc s)"

definition stored_state :: "ingestion_state \<Rightarrow> ingestion_state" where
  "stored_state s = s\<lparr>last_success_utc := map_option (\<lambda>d. Aware (dt_num d) 0) (last_success_utc s),
     last_reconcile_utc := map_option (\<lambda>d. Aware (dt_num d) 0) (last_reconcile_utc s)\<rparr>"

lemma state_encode:
  "encode_row STATE_SCHEMA (state_dict s) = (if storable_state s then Some (state_cells s) else None)"
  unfolding STATE_SCHEMA_def state_dict_def state_cells_def storable_state_def
  by (auto simp add: column_simps case_if_Some if_if_None conj_assoc del: if_weak_cong cong: if_cong)

lemma named_state_cells:
  "named_row STATE_SCHEMA (state_cells s) ''provider'' = decode_cell (CStr (provider_value (st_provider s)))"
  "named_row STATE_SCHEMA (state_cells s) ''series_id'' = decode_cell (CStr (st_series_id s))"
  "named_row STATE_SCHEMA (state_cells s) ''last_success_utc'' = decode_cell (time_cell (last_success_utc s))"
  "named_row STATE_SCHEMA (state_cells s) ''last_observed_date'' = decode_cell (date_cell (last_observed_date s))"
  "named_row STATE_SCHEMA (state_cells s) ''last_requested_start'' = decode_cell (date_cell (last_requested_start s))"
  "named_row STATE_SCHEMA (state_cells s) ''last_requested_end'' = decode_cell (date_cell (last_requested_end s))"
  "named_row STATE_SCHEMA (state_cells s) ''mode'' = decode_cell (str_cell (map_option operation_value (st_mode s)))"
  "named_row STATE_SCHEMA (state_cells s) ''fetched_row_count'' = decode_cell (CInt (fetched_row_count s))"
  "named_row STATE_SCHEMA (state_cells s) ''accepted_row_count'' = decode_cell (CInt (accepted_row_count s))"
  "named_row STATE_SCHEMA (state_cells s) ''changed_row_count'' = decode_cell (CInt (changed_row_count s))"
  "named_row STATE_SCHEMA (state_cells s) ''last_reconcile_utc'' = decode_cell (time_cell (last_reconcile_utc s))"
  by (simp_all add: named_row_def STATE_SCHEMA_def state_cells_def)

lemma state_decode: "state_of_row (named_row STATE_SCHEMA (state_cells s)) = Inr (stored_state s)"
  unfolding state_of_row_def named_state_cells
  by (cases "st_mode s") (simp_all add: column_simps stored_state_def)

interpretation states: snapshot_codec STATE_SCHEMA state_dict state_of_row state_cells
  "\<lambda>_. True" storable_state stored_state state_key "[''provider'', ''series_id'']" "[''provider'', ''series_id'']"
  by unfold_locales
    (auto simp: state_encode state_decode stored_state_def state_key_def,
      auto simp: STATE_SCHEMA_def state_cells_def)

text \<open>The operations as instances of the shared ones.\<close>

lemma upsert_run_snapshot:
  "upsert_run pl secrets p r = snapshot_upsert pl RUN_SCHEMA (run_dict secrets) run_of_row run_id [''run_id'']
    [''started_at_utc'', ''run_id''] ''invalid ingestion-run schema'' ''duplicate ingestion run_id'' p r"
  by (simp add: upsert_run_def snapshot_upsert_def read_runs_def write_runs_def run_frame_def snapshot_write_def)

lemma upsert_state_snapshot:
  "upsert_state_row pl p s = snapshot_upsert pl STATE_SCHEMA state_dict state_of_row state_key
    [''provider'', ''series_id''] [''provider'', ''series_id''] ''invalid ingestion-state schema''
    ''duplicate ingestion-state key'' p s"
  by (simp add: upsert_state_row_def snapshot_upsert_def read_states_def write_states_def state_frame_def snapshot_write_def)

abbreviation runs_at :: "path \<Rightarrow> 'z lake_scheme \<Rightarrow> ingestion_run list option" where
  "runs_at \<equiv> snapshot_view RUN_SCHEMA run_of_row"

abbreviation states_at :: "path \<Rightarrow> 'z lake_scheme \<Rightarrow> ingestion_state list option" where
  "states_at \<equiv> snapshot_view STATE_SCHEMA state_of_row"

section \<open>Facts on redaction\<close>

lemma str_replace_Nil [simp]: "str_replace old new [] = []"
  by (simp add: str_replace.simps)

lemma str_replace_Cons:
  "str_replace old new (c # cs) =
    (if old \<noteq> [] \<and> prefix old (c # cs) then new @ str_replace old new (drop (length old) (c # cs))
     else c # str_replace old new cs)"
  by (simp add: str_replace.simps [of old new "c # cs"])

lemma str_replace_cases:
  obtains "s = []" "str_replace old new s = []"
  | "s \<noteq> []" "old \<noteq> []" "prefix old s" "str_replace old new s = new @ str_replace old new (drop (length old) s)"
  | c cs where "s = c # cs" "\<not> (old \<noteq> [] \<and> prefix old s)" "str_replace old new s = c # str_replace old new cs"
proof (cases s)
  case (Cons c cs)
  show ?thesis
  proof (cases "old \<noteq> [] \<and> prefix old s")
    case True
    then show ?thesis
      using that(2) Cons by (simp add: str_replace_Cons)
  next
    case False
    then have "str_replace old new s = c # str_replace old new cs"
      unfolding Cons str_replace_Cons by (rule if_not_P)
    then show ?thesis
      by (rule that(3) [OF Cons False])
  qed
qed (use that(1) in simp)

text \<open>A text without asterisks that starts the output starts the input.\<close>

lemma prefix_str_replace:
  "prefix t (str_replace old ''***'' s) \<Longrightarrow> CHR ''*'' \<notin> set t \<Longrightarrow> prefix t s"
proof (induction old "''***''" s arbitrary: t rule: str_replace.induct)
  case (1 old s)
  show ?case
  proof (cases rule: str_replace_cases [of s old "''***''"])
    case 2
    then show ?thesis
      using 1(3,4) by (cases t) auto
  next
    case (3 c cs)
    then show ?thesis
      using 1(2) [of "tl t"] 1(3,4) by (cases t) auto
  qed (use 1(3) in simp)
qed

lemma sublist_stars:
  assumes "sublist t (''***'' @ u)" "CHR ''*'' \<notin> set t" "t \<noteq> []"
  shows "sublist t u"
  using assms by (auto simp: sublist_Cons_right prefix_Cons)

lemma sublist_str_replace:
  "sublist t (str_replace old ''***'' s) \<Longrightarrow> CHR ''*'' \<notin> set t \<Longrightarrow> sublist t s"
proof (induction old "''***''" s rule: str_replace.induct)
  case (1 old s)
  show ?case
  proof (cases rule: str_replace_cases [of s old "''***''"])
    case 2
    have "sublist t (drop (length old) s)"
    proof (cases "t = []")
      case False
      then show ?thesis
        using 1(1) 2 sublist_stars [of t "str_replace old ''***'' (drop (length old) s)"] 1(3,4) by simp
    qed simp
    then show ?thesis
      by (metis append_take_drop_id sublist_appendI sublist_order.order_trans append_Nil2)
  next
    case (3 c cs)
    show ?thesis
    proof (cases "prefix t (c # str_replace old ''***'' cs)")
      case True
      then have "prefix t s"
        using prefix_str_replace [of t old s] 3 1(4) by simp
      then show ?thesis by (rule prefix_imp_sublist)
    next
      case False
      then have "sublist t (str_replace old ''***'' cs)"
        using 1(3) 3 by (simp add: sublist_Cons_right)
      then show ?thesis
        using 1(2) 1(4) 3 by (auto simp: sublist_Cons_right)
    qed
  qed (use 1(3) in simp)
qed

lemma str_replace_removes:
  "old \<noteq> [] \<Longrightarrow> CHR ''*'' \<notin> set old \<Longrightarrow> \<not> sublist old (str_replace old ''***'' s)"
proof (induction old "''***''" s rule: str_replace.induct)
  case (1 old s)
  show ?case
  proof (cases rule: str_replace_cases [of s old "''***''"])
    case 2
    then show ?thesis
      using 1(1,3,4) sublist_stars by fastforce
  next
    case (3 c cs)
    then have "\<not> prefix old (c # str_replace old ''***'' cs)"
      using prefix_str_replace [of old old s] 1(3,4) by auto
    then show ?thesis
      using 1(2,3,4) 3 by (auto simp: sublist_Cons_right)
  qed (use 1(3) in simp)
qed

definition redact :: "string list \<Rightarrow> string \<Rightarrow> string" where
  "redact secrets t = fold (\<lambda>secret s. if secret \<noteq> [] then str_replace secret ''***'' s else s) secrets t"

lemma sublist_redact:
  "sublist t (redact secrets s) \<Longrightarrow> CHR ''*'' \<notin> set t \<Longrightarrow> sublist t s"
proof (induction secrets arbitrary: s)
  case (Cons x xs)
  let ?s = "if x \<noteq> [] then str_replace x ''***'' s else s"
  have "redact (x # xs) s = redact xs ?s"
    by (simp add: redact_def)
  then have "sublist t ?s"
    using Cons.IH [of ?s] Cons.prems by simp
  then show ?case
    using sublist_str_replace [OF _ Cons.prems(2), of x s] by (cases "x = []") simp_all
qed (simp add: redact_def)



text \<open>
  C26: an upsert of the ingestion state replaces the state of one provider and series and keeps every
  other one.  When it returns, looking up any key in the stored table gives the new state (its instants
  in UTC) for its own key and what the table held before for any other; when it raises, the table is as
  it was or already the new one.  No other file of the lake changes.
\<close>

theorem state_upsert_correct:
  assumes "polars_frames pl" "upsert_state_row pl p s w = (res, w')"
  shows "((\<exists>e. res = Inl e) \<and> states_at p w' = states_at p w
      \<or> (\<exists>old new. states_at p w = Some old \<and> states_at p w' = Some new \<and> distinct (map state_key new)
          \<and> (\<forall>k. find (\<lambda>y. state_key y = k) new =
               (if k = state_key s then Some (stored_state s)
                else map_option stored_state (find (\<lambda>y. state_key y = k) old)))))
    \<and> (\<forall>q. q \<noteq> p \<longrightarrow> file_at q w' = file_at q w)"
proof -
  have upserted: "distinct (map state_key new) \<and> (\<forall>k. find (\<lambda>y. state_key y = k) new =
               (if k = state_key s then Some (stored_state s)
                else map_option stored_state (find (\<lambda>y. state_key y = k) old)))"
    if "states.written (upserted state_key s old) new" for old new
    using states.written_lookup [OF that] states.written_distinct [OF that] by blast
  note run = assms(2) [unfolded upsert_state_snapshot]
  have "\<forall>q. q \<noteq> p \<longrightarrow> file_at q w' = file_at q w"
    using preservesD [OF states.upsert_other run] by blast
  moreover have "(\<exists>e. res = Inl e) \<and> states_at p w' = states_at p w
    \<or> (\<exists>old new. states_at p w = Some old \<and> states_at p w' = Some new \<and> states.written (upserted state_key s old) new)"
  proof (cases res)
    case (Inl e)
    then show ?thesis
      using states.upsert_Inl [OF assms(1) TrueI run [unfolded Inl]] by blast
  next
    case (Inr u)
    then show ?thesis
      using states.upsert_Inr [OF assms(1) TrueI run [unfolded Inr]] by blast
  qed
  ultimately show ?thesis
    using upserted by blast
qed

definition demo_state :: ingestion_state where
  "demo_state = \<lparr>st_provider = FRED, st_series_id = ''dgs10'', last_success_utc = Some (Aware 3600000000 3600000000),
     last_observed_date = Some 739000, last_requested_start = None, last_requested_end = Some 739001,
     st_mode = Some UPDATE, fetched_row_count = 5, accepted_row_count = 5, changed_row_count = 1,
     last_reconcile_utc = None\<rparr>"

theorem state_upsert_correct_witness:
  "\<exists>w'. upsert_state_row reference_polars [''s''] demo_state empty_lake = (Inr (), w')
    \<and> (\<exists>new. states_at [''s''] w' = Some new
        \<and> find (\<lambda>y. state_key y = (FRED, ''dgs10'')) new =
            Some (demo_state\<lparr>last_success_utc := Some (Aware 3600000000 0)\<rparr>))"
proof -
  have view: "states_at [''s''] empty_lake = Some []"
    by (simp add: snapshot_view_def file_at_def empty_lake_def)
  have "list_all storable_state (upserted state_key demo_state [])"
    by (simp add: upserted_def storable_state_def demo_state_def storable_time_def fits_int64_def)
  then obtain w' where run: "upsert_state_row reference_polars [''s''] demo_state empty_lake = (Inr (), w')"
    using states.upsert_quiet [OF ref_polars.polars_frames_axioms _ view TrueI] unfolding upsert_state_snapshot
    by (fastforce simp: empty_lake_def)
  have "stored_state demo_state = demo_state\<lparr>last_success_utc := Some (Aware 3600000000 0)\<rparr>"
    "state_key demo_state = (FRED, ''dgs10'')"
    by (simp_all add: stored_state_def demo_state_def state_key_def)
  then show ?thesis
    using state_upsert_correct [OF ref_polars.polars_frames_axioms run] run by auto
qed

end
