(* ===== verification/Bronze_Uow.thy ===== *)
theory Bronze_Uow
  imports Monthly_Files Ingestion_Repositories
begin

text \<open>
  \<open>src/ingestion/bronze_uow.py\<close> with its port \<open>src/application/ports/bronze.py\<close>: staging the rows of one
  series, and the commit of Bronze months, success audit and ingestion state as one compensated
  transaction.  The fault injector of the class is a fault point; every file operation is one too.
\<close>

section \<open>Preparing\<close>

definition BRONZE_KEY :: "string list" where
  "BRONZE_KEY = [''provider'', ''series_id'', ''observation_date'']"

record prepared_bronze =
  pb_contract :: series_contract
  pb_merged :: frame
  pb_diff :: frame_diff
  pb_post_bounds :: observation_bounds
  pb_written_partitions :: nat

definition series_root :: "path \<Rightarrow> series_contract \<Rightarrow> path" where
  "series_root lake_root c =
    lake_root @ [''bronze'', ''provider='' @ provider_value (series_provider c), ''series='' @ series_id c]"

definition post_bounds :: "frame \<Rightarrow> observation_bounds result" where
  "post_bounds f =
    (if is_empty_frame f then Inr \<lparr>bounds_minimum = None, bounds_maximum = None\<rparr>
     else
       rbind (get_column f ''observation_date'') (\<lambda>_.
       rbind (column_dates f ''observation_date'') (\<lambda>ds.
       if ds = [] then raise TypeError ''Bronze observation_date must contain Date values''
       else Inr \<lparr>bounds_minimum = Some (Min (set ds)), bounds_maximum = Some (Max (set ds))\<rparr>)))"

text \<open>\<open>_changed_months\<close>: a null date is an error here.\<close>

definition changed_months :: "frame \<Rightarrow> (int \<times> int) list result" where
  "changed_months f =
    (if is_empty_frame f then Inr []
     else
       rbind (get_column f ''observation_date'') (\<lambda>xs.
       rbind (rmap (\<lambda>x. case x of CDate d \<Rightarrow> Inr d
                | _ \<Rightarrow> raise TypeError ''Bronze observation_date must contain Date values'') xs) (\<lambda>ds.
       Inr (months_of ds))))"

text \<open>The row with one cell replaced.\<close>

definition with_cell :: "schema \<Rightarrow> cell list \<Rightarrow> string \<Rightarrow> cell \<Rightarrow> cell list" where
  "with_cell s row c x = map (\<lambda>p. if fst p = c then x else snd p) (zip (map fst s) row)"

text \<open>
  \<open>_stable_incoming\<close>: an incoming row whose values equal the retained ones keeps the retained fetch time.
  The joined frame is the list of its rows, as in \<open>diff_frames\<close>.
\<close>

definition stable_incoming :: "polars_tables \<Rightarrow> frame \<Rightarrow> frame \<Rightarrow> frame result" where
  "stable_incoming T existing incoming =
    (if is_empty_frame existing \<or> is_empty_frame incoming \<or> ''fetched_at_utc'' \<notin> set (f_columns incoming)
     then Inr incoming
     else
       let meaningful = filter (\<lambda>c. c \<notin> set BRONZE_KEY \<union> {''fetched_at_utc''}) (f_columns incoming);
           missing = filter (\<lambda>c. c \<notin> set (f_columns existing)) (BRONZE_KEY @ meaningful @ [''fetched_at_utc'']);
           stable = (\<lambda>(i, old). let row = f_rows incoming ! i in
             case old of
               None \<Rightarrow> row
             | Some o' \<Rightarrow>
                 let fetched = row_cell (f_schema existing) o' ''fetched_at_utc'' in
                 if fetched \<noteq> CNull \<and> equal_payload incoming existing meaningful row o'
                 then with_cell (f_schema incoming) row ''fetched_at_utc'' fetched else row)
       in rbind (raise_if (missing \<noteq> []) PolarsError ''column not found'') (\<lambda>_.
          rbind (pl_left_join T BRONZE_KEY incoming existing) (\<lambda>joined.
          Inr (incoming\<lparr>f_rows := map stable joined\<rparr>))))"

definition stage :: "polars \<Rightarrow> polars_tables \<Rightarrow> series_contract \<Rightarrow> frame \<Rightarrow> frame \<Rightarrow> prepared_bronze result" where
  "stage pl T c stored incoming =
    (let existing = (if f_columns stored = [] then no_rows incoming else stored) in
     rbind (stable_incoming T existing incoming) (\<lambda>normalized.
     rbind (merge_frames pl T existing normalized BRONZE_KEY) (\<lambda>(merged, diff).
     rbind (rbind (changed T diff) changed_months) (\<lambda>months.
     rbind (post_bounds merged) (\<lambda>bounds.
     Inr \<lparr>pb_contract = c, pb_merged = merged, pb_diff = diff, pb_post_bounds = bounds,
       pb_written_partitions = length months\<rparr>)))))"

definition prepare ::
  "polars \<Rightarrow> polars_tables \<Rightarrow> path \<Rightarrow> series_contract \<Rightarrow> frame \<Rightarrow> ('z lake_scheme, prepared_bronze) io" where
  "prepare pl T lake_root c incoming =
    bind (month_paths (series_root lake_root c)) (\<lambda>ps.
    bind (read_monthly pl T BRONZE_KEY ps) (\<lambda>stored. lift (stage pl T c stored incoming)))"

definition uow_bounds :: "path \<Rightarrow> series_contract \<Rightarrow> ('z lake_scheme, observation_bounds) io" where
  "uow_bounds lake_root c =
    bind (month_paths (series_root lake_root c)) (read_observation_bounds ''observation_date'')"

text \<open>\<open>IngestionState(provider, series_id)\<close>: the defaults of the class.\<close>

definition initial_state :: "provider \<Rightarrow> string \<Rightarrow> ingestion_state" where
  "initial_state p sid = \<lparr>st_provider = p, st_series_id = sid, last_success_utc = None, last_observed_date = None,
     last_requested_start = None, last_requested_end = None, st_mode = None, fetched_row_count = 0,
     accepted_row_count = 0, changed_row_count = 0, last_reconcile_utc = None\<rparr>"

definition uow_state :: "path \<Rightarrow> series_contract \<Rightarrow> ('z lake_scheme, ingestion_state) io" where
  "uow_state lake_root c =
    bind (read_states (ingestion_state_path lake_root)) (\<lambda>states.
      ret (case find (\<lambda>s. state_key s = (series_provider c, series_id c)) states of
             Some s \<Rightarrow> s | None \<Rightarrow> initial_state (series_provider c) (series_id c)))"

section \<open>Committing\<close>

text \<open>\<open>_Backup\<close>: the path and what its file held.\<close>

type_synonym backup = "path \<times> content option"

definition backup_file :: "path \<Rightarrow> ('z lake_scheme, backup) io" where
  "backup_file p = seq fault_point (gets (\<lambda>w. (p, file_at p w)))"

definition restore_file :: "backup \<Rightarrow> ('z lake_scheme, unit) io" where
  "restore_file b =
    (case snd b of
       None \<Rightarrow> unlink_file (fst b)
     | Some c \<Rightarrow>
         seq (mkdir_parents (parent (fst b)))
           (bind mkstemp (\<lambda>t.
             try_except (seq (write_temp t c) (seq fault_point (os_replace t (fst b)))) (\<lambda>_. True)
               (\<lambda>e. seq (unlink_temp t) (throw e)))))"

definition rollback :: "backup list \<Rightarrow> ('z lake_scheme, unit) io" where
  "rollback backups = for_each restore_file (rev backups)"

definition commit_writes ::
  "polars \<Rightarrow> string list \<Rightarrow> path \<Rightarrow> (int \<times> int) list \<Rightarrow> prepared_bronze \<Rightarrow> ingestion_run \<Rightarrow> ingestion_state \<Rightarrow>
    ('z lake_scheme, unit) io" where
  "commit_writes pl secrets lake_root months prepared r st =
    seq (for_each (write_month ''observation_date''
          (bronze_partition lake_root (series_provider (pb_contract prepared)) (series_id (pb_contract prepared)))
          (pb_merged prepared)) months)
    (seq fault_point
    (seq (upsert_run pl secrets (ingestion_runs_path lake_root) r)
    (seq fault_point
    (seq (upsert_state_row pl (ingestion_state_path lake_root) st)
    fault_point))))"

definition tracked_files :: "path \<Rightarrow> series_contract \<Rightarrow> (int \<times> int) list \<Rightarrow> path list" where
  "tracked_files lake_root c months =
    map (bronze_partition lake_root (series_provider c) (series_id c)) months
      @ [ingestion_runs_path lake_root, ingestion_state_path lake_root]"

definition commit_success ::
  "polars \<Rightarrow> polars_tables \<Rightarrow> string list \<Rightarrow> path \<Rightarrow> prepared_bronze \<Rightarrow> ingestion_run \<Rightarrow> ingestion_state \<Rightarrow>
    ('z lake_scheme, unit) io" where
  "commit_success pl T secrets lake_root prepared r st =
    bind (lift (rbind (changed T (pb_diff prepared)) changed_months)) (\<lambda>months.
    bind (collect backup_file (tracked_files lake_root (pb_contract prepared) months)) (\<lambda>backups.
    try_except (commit_writes pl secrets lake_root months prepared r st) (\<lambda>_. True)
      (\<lambda>e. seq (rollback backups) (throw e))))"

definition record_failure :: "polars \<Rightarrow> string list \<Rightarrow> path \<Rightarrow> ingestion_run \<Rightarrow> ('z lake_scheme, unit) io" where
  "record_failure pl secrets lake_root r = upsert_run pl secrets (ingestion_runs_path lake_root) r"

section \<open>Facts on the rollback\<close>

lemma collect_backups:
  assumes "collect backup_file ps w = (r, w')"
  shows "files w' = files w" "r = Inr bs \<Longrightarrow> bs = map (\<lambda>p. (p, file_at p w)) ps"
proof -
  have "preserves files (backup_file p)" for p :: path
    unfolding backup_file_def by (intro preserves_intros)
  then have pres: "preserves files (collect backup_file qs)" for qs :: "path list"
    by (rule preserves_collect)
  show "files w' = files w"
    using preservesD [OF pres assms] .
  show "bs = map (\<lambda>p. (p, file_at p w)) ps" if "r = Inr bs"
    using assms that
  proof (induction ps arbitrary: w bs r)
    case (Cons p ps)
    then obtain w1 rest where w1: "backup_file p w = (Inr (hd bs), w1)" "collect backup_file ps w1 = (Inr rest, w')"
        "bs = hd bs # rest"
      by (auto simp: bind_eq_Inr ret_def)
    have "hd bs = (p, file_at p w)" "files w1 = files w"
      using w1(1) by (auto simp: backup_file_def io_inv gets_apply file_at_def dest: fault_point_keeps)
    then show ?case
      using Cons.IH [OF w1(2) refl] w1(3) by (metis (no_types, lifting) file_at_def list.simps(9) map_eq_conv)
  qed (simp add: ret_def)
qed

lemma restore_file_Inr:
  assumes "restore_file b w = (Inr u, w')"
  shows "file_at p w' = (if p = fst b then snd b else file_at p w)"
proof (cases "snd b")
  case None
  then show ?thesis
    using assms by (auto simp: restore_file_def unlink_file_def io_inv modify_apply file_at_def delete_conv'
        dest!: fault_point_keeps)
next
  case (Some c)
  then obtain w1 t w2 w3 w4 where "mkdir_parents (parent (fst b)) w = (Inr (), w1)" "mkstemp w1 = (Inr t, w2)"
      "write_temp t c w2 = (Inr (), w3)" "fault_point w3 = (Inr (), w4)" "os_replace t (fst b) w4 = (Inr u, w')"
    using assms by (auto simp: restore_file_def io_inv throw_apply)
  then have "files w' = AList.update (fst b) c (files w)"
    by (metis fault_point_keeps os_replace_Inr preservesD preserves_files_ops(1,2) write_temp_Inr)
  then show ?thesis
    using Some by (simp add: file_at_def update_conv')
qed

lemma restore_all_Inr:
  assumes "for_each restore_file (map (\<lambda>p. (p, g p)) ps) w = (Inr u, w')"
  shows "file_at p w' = (if p \<in> set ps then g p else file_at p w)"
  using assms
proof (induction ps arbitrary: w)
  case (Cons q ps)
  then obtain w1 where w1: "restore_file (q, g q) w = (Inr (), w1)"
      "for_each restore_file (map (\<lambda>p. (p, g p)) ps) w1 = (Inr u, w')"
    by (auto simp: seq_eq_Inr)
  show ?case
    using Cons.IH [OF w1(2)] restore_file_Inr [OF w1(1), of p] by auto
qed (simp add: ret_def)

text \<open>The writes of a commit touch the tracked files only.\<close>

lemma commit_writes_other:
  assumes "p \<notin> set (tracked_files lake_root (pb_contract prepared) months)"
  shows "preserves (file_at p) (commit_writes pl secrets lake_root months prepared r st)"
proof -
  have p: "p \<notin> bronze_partition lake_root (series_provider (pb_contract prepared)) (series_id (pb_contract prepared)) ` set months"
      "p \<noteq> ingestion_runs_path lake_root" "p \<noteq> ingestion_state_path lake_root"
    using assms by (auto simp: tracked_files_def)
  then show ?thesis
    unfolding commit_writes_def upsert_run_snapshot upsert_state_snapshot
    by (intro preserves_seq write_month_other runs.upsert_other states.upsert_other fault_point_files(2)) auto
qed

end
