(* ===== verification/Bronze_Commit.thy ===== *)
theory Bronze_Commit
  imports Bronze_Uow
begin

text \<open>
  What the commit of the Bronze unit of work guarantees: all of its files are written, or all are as
  before; and the monthly files keep holding the table of the series, partitioned by month.
\<close>

section \<open>Atomicity\<close>

lemma tracked_distinct:
  "bronze_partition lake_root p sid ym \<noteq> ingestion_runs_path lake_root"
  "bronze_partition lake_root p sid ym \<noteq> ingestion_state_path lake_root"
  "ingestion_runs_path lake_root \<noteq> ingestion_state_path lake_root"
  by (simp_all add: bronze_partition_def ingestion_runs_path_def ingestion_state_path_def)

lemma find_rev_distinct:
  assumes "inj f" "ym \<in> set yms"
  shows "find (\<lambda>x. f x = f ym) (rev yms) = Some ym"
proof -
  have "\<exists>x. find (\<lambda>x. f x = f ym) (rev yms) = Some x"
    using assms(2) by (metis (mono_tags, lifting) find_None_iff not_None_eq set_rev)
  then show ?thesis
    using assms(1) by (auto simp: find_Some_iff inj_def)
qed

lemma commit_writes_Inr:
  assumes pl: "polars_frames pl" and r: "valid_run r"
    and run: "commit_writes pl secrets lake_root months prepared r st w = (Inr u, w')"
  defines "part \<equiv> bronze_partition lake_root (series_provider (pb_contract prepared)) (series_id (pb_contract prepared))"
  shows "\<forall>ym \<in> set months. file_at (part ym) w' = Some (Parquet (month_frame ''observation_date'' (pb_merged prepared) ym))"
    "\<exists>old new. runs_at (ingestion_runs_path lake_root) w = Some old \<and> runs_at (ingestion_runs_path lake_root) w' = Some new
      \<and> runs.written secrets (upserted run_id r old) new"
    "\<exists>old new. states_at (ingestion_state_path lake_root) w = Some old \<and> states_at (ingestion_state_path lake_root) w' = Some new
      \<and> states.written (upserted state_key st old) new"
proof -
  let ?R = "ingestion_runs_path lake_root" and ?S = "ingestion_state_path lake_root"
  obtain w1 w2 w3 w4 w5 where
    1: "for_each (write_month ''observation_date'' part (pb_merged prepared)) months w = (Inr (), w1)" and
    2: "fault_point w1 = (Inr (), w2)" and 3: "upsert_run pl secrets ?R r w2 = (Inr (), w3)" and
    4: "fault_point w3 = (Inr (), w4)" and 5: "upsert_state_row pl ?S st w4 = (Inr (), w5)" and
    6: "fault_point w5 = (Inr (), w')"
    using run by (auto simp: commit_writes_def part_def seq_eq_Inr)
  have quiet: "file_at p w2 = file_at p w1" "file_at p w4 = file_at p w3" "file_at p w' = file_at p w5" for p
    using fault_point_keeps [OF 2] fault_point_keeps [OF 4] fault_point_keeps [OF 6] by (simp_all add: file_at_def)
  have runs_other: "p \<noteq> ?R \<Longrightarrow> file_at p w3 = file_at p w2" for p
    using preservesD [OF runs.upsert_other 3 [unfolded upsert_run_snapshot]] by blast
  have states_other: "p \<noteq> ?S \<Longrightarrow> file_at p w5 = file_at p w4" for p
    using preservesD [OF states.upsert_other 5 [unfolded upsert_state_snapshot]] by blast
  have months_other: "p \<notin> part ` set months \<Longrightarrow> file_at p w1 = file_at p w" for p
    using preservesD [OF write_month_other 1] by blast
  have off: "part ym \<noteq> ?R" "part ym \<noteq> ?S" "?R \<noteq> ?S" "?R \<notin> part ` set months" "?S \<notin> part ` set months" for ym
    using tracked_distinct unfolding part_def by (auto, metis+)
  have "inj part"
    by (auto simp: inj_def part_def)
  then show "\<forall>ym \<in> set months. file_at (part ym) w' = Some (Parquet (month_frame ''observation_date'' (pb_merged prepared) ym))"
    using write_months_Inr [OF 1] find_rev_distinct [of part] off quiet runs_other states_other by simp
  have "runs_at ?R w2 = runs_at ?R w" "runs_at ?R w' = runs_at ?R w3"
    using quiet months_other [OF off(4)] states_other off(3) by (simp_all add: snapshot_view_def)
  then show "\<exists>old new. runs_at ?R w = Some old \<and> runs_at ?R w' = Some new \<and> runs.written secrets (upserted run_id r old) new"
    using runs.upsert_Inr [OF pl r 3 [unfolded upsert_run_snapshot]] by simp
  have "states_at ?S w4 = states_at ?S w" "states_at ?S w' = states_at ?S w5"
    using quiet months_other [OF off(5)] runs_other off(3) by (simp_all add: snapshot_view_def)
  then show "\<exists>old new. states_at ?S w = Some old \<and> states_at ?S w' = Some new \<and> states.written (upserted state_key st old) new"
    using states.upsert_Inr [OF pl TrueI 5 [unfolded upsert_state_snapshot]] by simp
qed

text \<open>
  The rollback of this commit is itself interrupted: the backups were taken, a write raised, and so did
  the restoration of some backup.
\<close>

definition rollback_fails ::
  "polars \<Rightarrow> polars_tables \<Rightarrow> string list \<Rightarrow> path \<Rightarrow> prepared_bronze \<Rightarrow> ingestion_run \<Rightarrow> ingestion_state \<Rightarrow>
    'z lake_scheme \<Rightarrow> bool" where
  "rollback_fails pl T secrets lake_root prepared r st w \<longleftrightarrow>
    (\<exists>months bs w1 e w2 e' w3. rbind (changed T (pb_diff prepared)) changed_months = Inr months
      \<and> collect backup_file (tracked_files lake_root (pb_contract prepared) months) w = (Inr bs, w1)
      \<and> commit_writes pl secrets lake_root months prepared r st w1 = (Inl e, w2)
      \<and> rollback bs w2 = (Inl e', w3))"

text \<open>Otherwise a raising commit has undone its writes, or made none.\<close>

lemma commit_Inl:
  assumes "commit_success pl T secrets lake_root prepared r st w = (Inl e, w')"
    and "\<not> rollback_fails pl T secrets lake_root prepared r st w"
  shows "file_at p w' = file_at p w"
proof -
  consider (early) e' where "rbind (changed T (pb_diff prepared)) changed_months = Inl e'" "w' = w"
    | (backup) months e' where "collect backup_file (tracked_files lake_root (pb_contract prepared) months) w = (Inl e', w')"
    | (undone) months bs w1 e' w2 where "collect backup_file (tracked_files lake_root (pb_contract prepared) months) w = (Inr bs, w1)"
        "commit_writes pl secrets lake_root months prepared r st w1 = (Inl e', w2)" "rollback bs w2 = (Inr (), w')"
    | (stuck) "rollback_fails pl T secrets lake_root prepared r st w"
    using assms(1) by (auto simp: commit_success_def rollback_fails_def io_inv lift_apply throw_apply)
  then show ?thesis
  proof cases
    case backup
    then show ?thesis
      using collect_backups(1) [OF backup] by (simp add: file_at_def)
  next
    case undone
    let ?ps = "tracked_files lake_root (pb_contract prepared) months"
    have bs: "bs = map (\<lambda>p. (p, file_at p w)) ?ps" and w1: "files w1 = files w"
      using collect_backups [OF undone(1)] by simp_all
    have "for_each restore_file (map (\<lambda>p. (p, file_at p w)) (rev ?ps)) w2 = (Inr (), w')"
      using undone(3) by (simp add: rollback_def bs rev_map)
    note restored = restore_all_Inr [OF this]
    show ?thesis
    proof (cases "p \<in> set ?ps")
      case False
      then show ?thesis
        using restored [of p] preservesD [OF commit_writes_other [OF False] undone(2)] w1 by (simp add: file_at_def)
    qed (use restored in simp)
  qed (use assms(2) in auto)
qed

text \<open>What a returning commit leaves in the files.\<close>

lemma bronze_commit_atomic_facts:
  assumes "polars_frames pl" "valid_run r" "commit_success pl T secrets lake_root prepared r st w = (Inr u, w')"
    and "rbind (changed T (pb_diff prepared)) changed_months = Inr months"
  shows "\<forall>ym \<in> set months. file_at (bronze_partition lake_root (series_provider (pb_contract prepared))
              (series_id (pb_contract prepared)) ym) w'
            = Some (Parquet (month_frame ''observation_date'' (pb_merged prepared) ym))"
    "p \<notin> set (tracked_files lake_root (pb_contract prepared) months) \<Longrightarrow> file_at p w' = file_at p w"
    "\<exists>rs. runs_at (ingestion_runs_path lake_root) w' = Some rs
      \<and> find (\<lambda>q. run_id q = run_id r) rs = Some (stored_run secrets r)"
    "\<exists>ss. states_at (ingestion_state_path lake_root) w' = Some ss
      \<and> find (\<lambda>q. state_key q = state_key st) ss = Some (stored_state st)"
proof -
  obtain bs w1 where m: "collect backup_file (tracked_files lake_root (pb_contract prepared) months) w = (Inr bs, w1)"
      "commit_writes pl secrets lake_root months prepared r st w1 = (Inr (), w')"
    using assms(3,4) by (auto simp: commit_success_def io_inv lift_apply throw_apply)
  note C = commit_writes_Inr [OF assms(1,2) m(2)]
  show "\<forall>ym \<in> set months. file_at (bronze_partition lake_root (series_provider (pb_contract prepared))
              (series_id (pb_contract prepared)) ym) w'
            = Some (Parquet (month_frame ''observation_date'' (pb_merged prepared) ym))"
    using C(1) .
  show "\<exists>rs. runs_at (ingestion_runs_path lake_root) w' = Some rs
      \<and> find (\<lambda>q. run_id q = run_id r) rs = Some (stored_run secrets r)"
    using C(2) runs.written_lookup [where k = "run_id r"] by fastforce
  show "\<exists>ss. states_at (ingestion_state_path lake_root) w' = Some ss
      \<and> find (\<lambda>q. state_key q = state_key st) ss = Some (stored_state st)"
    using C(3) states.written_lookup [where k = "state_key st"] by fastforce
  show "file_at p w' = file_at p w" if "p \<notin> set (tracked_files lake_root (pb_contract prepared) months)"
    using preservesD [OF commit_writes_other [OF that] m(2)] collect_backups(1) [OF m(1)] by (simp add: file_at_def)
qed

text \<open>
  C29: a Bronze commit is atomic.  When it returns, every month with changed rows holds exactly its rows of
  the merged table, the audit holds the (redacted) run, the ingestion state of the series is the new
  one and no other file of the lake changed.  When it raises, every file of the lake holds what it held
  before, unless the restoration of a backup raised as well.
\<close>

theorem bronze_commit_atomic:
  assumes "polars_frames pl" "valid_run r"
    and "commit_success pl T secrets lake_root prepared r st w = (res, w')"
  shows "case res of
      Inr _ \<Rightarrow> (\<exists>months. rbind (changed T (pb_diff prepared)) changed_months = Inr months
        \<and> (\<forall>ym \<in> set months. file_at (bronze_partition lake_root (series_provider (pb_contract prepared))
              (series_id (pb_contract prepared)) ym) w'
            = Some (Parquet (month_frame ''observation_date'' (pb_merged prepared) ym)))
        \<and> (\<exists>rs. runs_at (ingestion_runs_path lake_root) w' = Some rs
            \<and> find (\<lambda>q. run_id q = run_id r) rs = Some (stored_run secrets r))
        \<and> (\<exists>ss. states_at (ingestion_state_path lake_root) w' = Some ss
            \<and> find (\<lambda>q. state_key q = state_key st) ss = Some (stored_state st))
        \<and> (\<forall>p. p \<notin> set (tracked_files lake_root (pb_contract prepared) months) \<longrightarrow> file_at p w' = file_at p w))
    | Inl e \<Rightarrow> \<not> rollback_fails pl T secrets lake_root prepared r st w \<longrightarrow> (\<forall>p. file_at p w' = file_at p w)"
proof (cases res)
  case (Inl e)
  then show ?thesis
    using commit_Inl [OF assms(3) [unfolded Inl]] by simp
next
  case (Inr u)
  then obtain months where m: "rbind (changed T (pb_diff prepared)) changed_months = Inr months"
    using assms(3) by (auto simp: commit_success_def io_inv lift_apply throw_apply)
  note F = bronze_commit_atomic_facts [OF assms(1,2) assms(3) [unfolded Inr] m]
  show ?thesis
    using Inr m F by simp
qed

section \<open>A commit that no call interrupts\<close>

lemma collect_backups_quiet:
  "faults w = [] \<Longrightarrow> collect backup_file ps w = (Inr (map (\<lambda>p. (p, file_at p w)) ps), w)"
  by (induction ps) (simp_all add: ret_def bind_def backup_file_def seq_def fault_point_quiet gets_def)

lemma write_months_quiet:
  assumes "polars_frames pl" "faults w = []"
  shows "\<exists>w'. for_each (write_month c path merged) months w = (Inr (), w') \<and> faults w' = []"
  using assms(2)
proof (induction months arbitrary: w)
  case (Cons ym months)
  obtain w1 where "write_month c path merged ym w = (Inr (), w1)" "faults w1 = []"
    using polars_frames.atomic_write_quiet [OF assms(1) Cons.prems] unfolding write_month_def atomic_write_parquet_def
    by blast
  with Cons.IH [of w1] show ?case
    by (simp add: seq_def bind_def)
qed (simp add: ret_def)

lemma commit_quiet:
  assumes pl: "polars_frames pl" and q: "faults w = []"
    and months: "rbind (changed T (pb_diff prepared)) changed_months = Inr months"
    and runs: "runs_at (ingestion_runs_path lake_root) w = Some rs" "valid_run r"
      "list_all storable_run (upserted run_id r rs)" "distinct (map run_id rs)"
    and states: "states_at (ingestion_state_path lake_root) w = Some ss"
      "list_all storable_state (upserted state_key st ss)" "distinct (map state_key ss)"
  shows "\<exists>w'. commit_success pl T secrets lake_root prepared r st w = (Inr (), w') \<and> faults w' = []"
proof -
  let ?R = "ingestion_runs_path lake_root" and ?S = "ingestion_state_path lake_root"
  let ?part = "bronze_partition lake_root (series_provider (pb_contract prepared)) (series_id (pb_contract prepared))"
  obtain w1 where w1: "for_each (write_month ''observation_date'' ?part (pb_merged prepared)) months w = (Inr (), w1)"
      "faults w1 = []"
    using write_months_quiet [OF pl q] by blast
  have "?R \<notin> ?part ` set months" "?S \<notin> ?part ` set months"
    using tracked_distinct by (auto, metis+)
  then have "file_at ?R w1 = file_at ?R w" "file_at ?S w1 = file_at ?S w"
    using preservesD [OF write_month_other w1(1)] by blast+
  then have R1: "runs_at ?R w1 = Some rs" and S1: "states_at ?S w1 = Some ss"
    using runs(1) states(1) by (simp_all add: snapshot_view_def)
  obtain w2 where w2: "upsert_run pl secrets ?R r w1 = (Inr (), w2)" "faults w2 = []"
    using runs.upsert_quiet [OF pl w1(2) R1 runs(2-4)] unfolding upsert_run_snapshot by blast
  have "file_at ?S w2 = file_at ?S w1"
    using preservesD [OF runs.upsert_other w2(1) [unfolded upsert_run_snapshot]] tracked_distinct(3) by metis
  then have S2: "states_at ?S w2 = Some ss"
    using S1 by (simp add: snapshot_view_def)
  obtain w3 where "upsert_state_row pl ?S st w2 = (Inr (), w3)" "faults w3 = []"
    using states.upsert_quiet [OF pl w2(2) S2 TrueI states(2,3)] unfolding upsert_state_snapshot by blast
  then show ?thesis
    using w1 w2 q months
    by (simp add: commit_success_def commit_writes_def bind_def lift_def collect_backups_quiet try_except_def
        seq_def fault_point_quiet)
qed

definition demo_contract :: series_contract where
  "demo_contract = \<lparr>series_id = ''dgs10'', series_provider = FRED, source_id = ''DGS10'', unit_name = ''percent'',
     native_shape = SCALAR, frequency = DAILY, bootstrap_policy = MAXIMUM_EXPOSED_HISTORY,
     fetch_capability = DATE_RANGE\<rparr>"

definition demo_bronze_schema :: schema where
  "demo_bronze_schema = [(''provider'', DString), (''series_id'', DString), (''observation_date'', DDate),
     (''value'', DFloat64), (''fetched_at_utc'', DDatetimeUtc)]"

definition demo_bronze :: "(int \<times> f64 \<times> int) list \<Rightarrow> frame" where
  "demo_bronze rows = \<lparr>f_schema = demo_bronze_schema,
     f_rows = map (\<lambda>(d, v, t). [CStr ''fred'', CStr ''dgs10'', CDate d, CFloat v, CDatetime t]) rows\<rparr>"

definition demo_prepared :: prepared_bronze where
  "demo_prepared = \<lparr>pb_contract = demo_contract, pb_merged = demo_bronze [(739000, 1, 5)],
     pb_diff = \<lparr>inserts = demo_bronze [(739000, 1, 5)], unchanged = demo_bronze [], revisions = demo_bronze []\<rparr>,
     pb_post_bounds = \<lparr>bounds_minimum = Some 739000, bounds_maximum = Some 739000\<rparr>, pb_written_partitions = 1\<rparr>"

definition demo_run :: ingestion_run where
  "demo_run = \<lparr>run_id = ''r1'', run_provider = FRED, run_series_id = ''dgs10'', run_mode_of = RUN_BOOTSTRAP,
     run_requested_start = None, run_requested_end = Some 739001, run_fetched_rows = 1, run_accepted_rows = 1,
     run_inserted_rows = 1, run_revised_rows = 0, run_written_partitions = 1, run_status_of = RUN_SUCCESS,
     run_started_at = Aware 5 0, run_completed_at = Aware 6 0, run_error_category = None, run_error_message = None\<rparr>"

lemma demo_date: "(date_year 739000, date_month 739000) = (2024, 4)"
  by code_simp

lemma demo_months:
  "rbind (changed T (pb_diff demo_prepared)) changed_months = Inr [(2024, 4)]"
proof -
  have "changed T (pb_diff demo_prepared) = Inr (demo_bronze [(739000, 1, 5)])"
    by (simp add: demo_prepared_def changed_def is_empty_frame_def f_height_def demo_bronze_def)
  moreover have "column_cells (demo_bronze [(739000, 1, 5)]) ''observation_date'' = [CDate 739000]"
    by (simp add: column_cells_def demo_bronze_def demo_bronze_schema_def)
  moreover have "''observation_date'' \<in> set (f_columns (demo_bronze [(739000, 1, 5)]))"
    by (simp add: f_columns_def demo_bronze_def demo_bronze_schema_def)
  moreover have "months_of [739000] = [(2024, 4)]"
    using demo_date by (simp add: months_of_def)
  moreover have "\<not> is_empty_frame (demo_bronze [(739000, 1, 5)])"
    by (simp add: is_empty_frame_def f_height_def demo_bronze_def)
  ultimately show ?thesis
    by (simp add: changed_months_def get_column_def)
qed

theorem bronze_commit_atomic_witness:
  "\<exists>w'. commit_success reference_polars reference_tables [] [''lake''] demo_prepared demo_run demo_state empty_lake
      = (Inr (), w')
    \<and> file_at (bronze_partition [''lake''] FRED ''dgs10'' (2024, 4)) w'
      = Some (Parquet (month_frame ''observation_date'' (demo_bronze [(739000, 1, 5)]) (2024, 4)))
    \<and> (\<exists>rs. runs_at (ingestion_runs_path [''lake'']) w' = Some rs \<and> find (\<lambda>q. run_id q = ''r1'') rs = Some demo_run)"
proof -
  have none: "runs_at p empty_lake = Some []" "states_at p empty_lake = Some []" for p
    by (simp_all add: snapshot_view_def file_at_def empty_lake_def)
  have valid: "valid_run demo_run"
    by (simp add: valid_run_def demo_run_def is_blank_def is_space_def)
  have store: "list_all storable_run (upserted run_id demo_run [])" "list_all storable_state (upserted state_key demo_state [])"
    by (simp_all add: upserted_def storable_run_def demo_run_def storable_time_def fits_int64_def
        storable_state_def demo_state_def)
  have q: "faults empty_lake = []" by (simp add: empty_lake_def)
  obtain w' where run: "commit_success reference_polars reference_tables [] [''lake''] demo_prepared demo_run demo_state empty_lake
      = (Inr (), w')"
    using commit_quiet [OF ref_polars.polars_frames_axioms q demo_months none(1) valid store(1) _ none(2) store(2),
        where T = reference_tables and lake_root = "[''lake'']" and secrets = "[]"] by force
  have stored: "stored_run [] demo_run = demo_run"
    by (simp add: stored_run_def demo_run_def sanitize_def)
  then show ?thesis
    using bronze_commit_atomic [OF ref_polars.polars_frames_axioms valid run] run
    unfolding demo_months stored by (simp add: demo_prepared_def demo_contract_def) (simp add: demo_run_def)
qed

section \<open>Stable fetch times\<close>

text \<open>
  The retained row of a key after fetching: it is kept when the fetched observation agrees in everything but
  the fetch time (and a fetch time is retained, or none was fetched).
\<close>

definition meaningful_columns :: "frame \<Rightarrow> string list" where
  "meaningful_columns f = filter (\<lambda>c. c \<notin> set BRONZE_KEY \<union> {''fetched_at_utc''}) (f_columns f)"

definition same_observation :: "frame \<Rightarrow> cell list \<Rightarrow> cell list \<Rightarrow> bool" where
  "same_observation f row old \<longleftrightarrow>
    equal_payload f f (meaningful_columns f) row old
    \<and> (row_cell (f_schema f) old ''fetched_at_utc'' \<noteq> CNull \<or> row_cell (f_schema f) row ''fetched_at_utc'' = CNull)"

definition bronze_row :: "frame \<Rightarrow> frame \<Rightarrow> cell list \<Rightarrow> cell list option" where
  "bronze_row existing incoming k =
    (case row_at incoming BRONZE_KEY k of
       None \<Rightarrow> row_at existing BRONZE_KEY k
     | Some row \<Rightarrow>
         (case row_at existing BRONZE_KEY k of
            None \<Rightarrow> Some row
          | Some old \<Rightarrow> if same_observation incoming row old then Some old else Some row))"

lemma with_cell_row_cell:
  assumes "length row = length s"
  shows "row_cell s (with_cell s row c x) n =
    (if n \<in> set (map fst s) then (if n = c then x else row_cell s row n) else CNull)"
  using assms
proof (induction s arbitrary: row)
  case (Cons p s)
  then obtain y ys where row: "row = y # ys" "length ys = length s"
    by (cases row) auto
  have "with_cell (p # s) row c x = (if fst p = c then x else y) # with_cell s ys c x"
    by (simp add: with_cell_def row)
  then show ?case
    using Cons.IH [OF row(2)] by (cases p; cases "n \<in> set (map fst s)") (auto simp: row)
qed (simp add: with_cell_def)

text \<open>The fetched rows with the fetch times that are kept.\<close>

definition stable_row :: "frame \<Rightarrow> frame \<Rightarrow> cell list \<Rightarrow> cell list" where
  "stable_row existing incoming row =
    (case row_at existing BRONZE_KEY (key_of incoming BRONZE_KEY row) of
       None \<Rightarrow> row
     | Some old \<Rightarrow>
         let fetched = row_cell (f_schema existing) old ''fetched_at_utc'' in
         if fetched \<noteq> CNull \<and> equal_payload incoming existing (meaningful_columns incoming) row old
         then with_cell (f_schema incoming) row ''fetched_at_utc'' fetched else row)"

context polars_joins
begin

lemma stable_incoming_table:
  assumes e: "key_table BRONZE_KEY existing" and i: "key_table BRONZE_KEY incoming"
    and s: "f_schema existing = f_schema incoming" and f: "''fetched_at_utc'' \<in> set (f_columns incoming)"
  shows "\<exists>rows. stable_incoming T existing incoming = Inr (incoming\<lparr>f_rows := rows\<rparr>)
    \<and> mset rows = mset (map (stable_row existing incoming) (f_rows incoming))"
proof (cases "is_empty_frame existing \<or> is_empty_frame incoming")
  case True
  then have "map (stable_row existing incoming) (f_rows incoming) = f_rows incoming"
    by (auto simp: is_empty_frame_def f_height_def stable_row_def row_at_def intro: map_idI)
  then show ?thesis
    using True by (auto simp: stable_incoming_def intro!: exI [of _ "f_rows incoming"])
next
  case False
  obtain js where js: "pl_left_join T BRONZE_KEY incoming existing = Inr js"
      "mset js = mset (left_join_rows BRONZE_KEY incoming existing)"
    using left_join_ok [OF key_table_joinable [OF i s]] by blast
  define stable where "stable = (\<lambda>(j, old). let row = f_rows incoming ! j in
             case old of
               None \<Rightarrow> row
             | Some o' \<Rightarrow>
                 let fetched = row_cell (f_schema existing) o' ''fetched_at_utc'' in
                 if fetched \<noteq> CNull \<and> equal_payload incoming existing (meaningful_columns incoming) row o'
                 then with_cell (f_schema incoming) row ''fetched_at_utc'' fetched else row)"
  have "mset (map stable js) = image_mset stable (mset (left_join_rows BRONZE_KEY incoming existing))"
    by (simp add: js(2))
  also have "\<dots> = mset (map stable (left_join_rows BRONZE_KEY incoming existing))"
    by simp
  also have "map stable (left_join_rows BRONZE_KEY incoming existing)
      = map (\<lambda>j. stable_row existing incoming (f_rows incoming ! j)) [0..<length (f_rows incoming)]"
    by (auto simp add: left_join_table [OF e] stable_def stable_row_def Let_def split: option.split)
  also have "\<dots> = map (stable_row existing incoming) (map ((!) (f_rows incoming)) [0..<length (f_rows incoming)])"
    by simp
  finally have perm: "mset (map stable js) = mset (map (stable_row existing incoming) (f_rows incoming))"
    by (simp only: map_nth)
  have cols: "f_columns existing = f_columns incoming"
    by (simp add: f_columns_def s)
  have "filter (\<lambda>c. c \<notin> set (f_columns existing)) (BRONZE_KEY @ meaningful_columns incoming @ [''fetched_at_utc'']) = []"
    using f key_tableD(2) [OF i] by (auto simp: cols filter_empty_conv meaningful_columns_def)
  then have "stable_incoming T existing incoming = Inr (incoming\<lparr>f_rows := map stable js\<rparr>)"
    using False f js(1) by (simp add: stable_incoming_def Let_def stable_def meaningful_columns_def)
  with perm show ?thesis
    by blast
qed

end

section \<open>What is staged\<close>

text \<open>A Bronze table: keyed rows of full length with a date each.\<close>

definition bronze_table :: "frame \<Rightarrow> bool" where
  "bronze_table f \<longleftrightarrow> key_table BRONZE_KEY f \<and> ''fetched_at_utc'' \<in> set (f_columns f)
    \<and> (\<forall>row \<in> set (f_rows f). length row = length (f_schema f)
        \<and> (\<exists>d. row_cell (f_schema f) row ''observation_date'' = CDate d))"

lemma stable_row_key:
  assumes "bronze_table incoming" "row \<in> set (f_rows incoming)"
  shows "key_of incoming BRONZE_KEY (stable_row existing incoming row) = key_of incoming BRONZE_KEY row"
    "length (stable_row existing incoming row) = length row"
proof -
  have cols: "set BRONZE_KEY \<subseteq> set (map fst (f_schema incoming))" "length row = length (f_schema incoming)"
    using assms by (auto simp: bronze_table_def key_table_def f_columns_def)
  then show "key_of incoming BRONZE_KEY (stable_row existing incoming row) = key_of incoming BRONZE_KEY row"
    by (auto simp: key_of_def stable_row_def Let_def with_cell_row_cell BRONZE_KEY_def split: option.split)
  show "length (stable_row existing incoming row) = length row"
    using cols(2) by (simp add: stable_row_def Let_def with_cell_def split: option.split)
qed

lemma payload_columns:
  assumes "bronze_table f"
  shows "set (payload_of f BRONZE_KEY) = insert ''fetched_at_utc'' (set (meaningful_columns f))"
  using assms by (auto simp: payload_of_def meaningful_columns_def bronze_table_def BRONZE_KEY_def)

lemma eq_missing_null [simp]: "eq_missing x CNull \<longleftrightarrow> x = CNull"
  by (cases x) (simp_all add: eq_missing_def)

text \<open>The merge compares the fetched row with its stable fetch time.\<close>

lemma stable_row_payload:
  assumes i: "bronze_table incoming" and row: "row \<in> set (f_rows incoming)" and s: "f_schema existing = f_schema incoming"
    and old: "row_at existing BRONZE_KEY (key_of incoming BRONZE_KEY row) = Some old"
  shows "equal_payload incoming existing (payload_of incoming BRONZE_KEY) (stable_row existing incoming row) old
      \<longleftrightarrow> same_observation incoming row old"
    "\<not> same_observation incoming row old \<Longrightarrow> stable_row existing incoming row = row"
proof -
  let ?s = "f_schema incoming" and ?m = "meaningful_columns incoming"
  let ?same = "equal_payload incoming existing ?m row old"
  have len: "length row = length ?s" and f: "''fetched_at_utc'' \<in> set (map fst ?s)"
    using i row by (auto simp: bronze_table_def f_columns_def)
  have same: "?same \<longleftrightarrow> equal_payload incoming incoming ?m row old"
    by (simp add: equal_payload_def s)
  have cell: "row_cell ?s (stable_row existing incoming row) n =
      (if n = ''fetched_at_utc'' \<and> ?same \<and> row_cell ?s old ''fetched_at_utc'' \<noteq> CNull
       then row_cell ?s old ''fetched_at_utc'' else row_cell ?s row n)" for n
    using old f s len by (auto simp: stable_row_def Let_def with_cell_row_cell row_cell_missing)
  have m: "''fetched_at_utc'' \<notin> set ?m"
    by (simp add: meaningful_columns_def)
  have eq: "equal_payload incoming existing (payload_of incoming BRONZE_KEY) (stable_row existing incoming row) old
      \<longleftrightarrow> ?same \<and> eq_missing (row_cell ?s (stable_row existing incoming row) ''fetched_at_utc'') (row_cell ?s old ''fetched_at_utc'')"
    using m unfolding equal_payload_def list_all_iff payload_columns [OF i] cell s by auto
  show "equal_payload incoming existing (payload_of incoming BRONZE_KEY) (stable_row existing incoming row) old
      \<longleftrightarrow> same_observation incoming row old"
    unfolding eq same_observation_def same [symmetric] cell
    by (cases "row_cell ?s old ''fetched_at_utc'' = CNull") auto
  show "stable_row existing incoming row = row" if "\<not> same_observation incoming row old"
    using that old s by (auto simp: stable_row_def Let_def same_observation_def equal_payload_def)
qed

lemma row_at_image:
  assumes f: "distinct (map (key_of f key) (f_rows f))" and s: "f_schema g = f_schema f"
    and rows: "mset (f_rows g) = mset (map h (f_rows f))"
    and h: "\<And>row. row \<in> set (f_rows f) \<Longrightarrow> key_of f key (h row) = key_of f key row"
  shows "distinct (map (key_of g key) (f_rows g))" "row_at g key k = map_option h (row_at f key k)"
proof -
  have K: "key_of g = key_of f" using s by (rule key_of_schema)
  have "mset (map (key_of f key) (f_rows g)) = mset (map (key_of f key) (map h (f_rows f)))"
    using rows by (metis mset_map)
  also have "map (key_of f key) (map h (f_rows f)) = map (key_of f key) (f_rows f)"
    using h by simp
  finally show d: "distinct (map (key_of g key) (f_rows g))"
    using f mset_eq_imp_distinct_iff unfolding K by blast
  have set: "set (f_rows g) = h ` set (f_rows f)"
    using mset_eq_setD [OF rows] by simp
  show "row_at g key k = map_option h (row_at f key k)"
  proof (cases "row_at f key k")
    case None
    then have "row_at g key k = None"
      unfolding row_at_None K set using h by auto
    with None show ?thesis by simp
  next
    case (Some row)
    then have "row \<in> set (f_rows f)" "key_of f key row = k"
      using row_at_Some [OF f] by auto
    then have "row_at g key k = Some (h row)"
      unfolding row_at_Some [OF d] K set using h by auto
    with Some show ?thesis by simp
  qed
qed

definition is_staged :: "frame \<Rightarrow> frame \<Rightarrow> prepared_bronze \<Rightarrow> bool" where
  "is_staged existing incoming p \<longleftrightarrow>
    bronze_table (pb_merged p) \<and> f_schema (pb_merged p) = f_schema incoming
    \<and> (\<forall>k. row_at (pb_merged p) BRONZE_KEY k = bronze_row existing incoming k)
    \<and> (\<exists>normalized. mset (f_rows normalized) = mset (map (stable_row existing incoming) (f_rows incoming))
        \<and> f_schema normalized = f_schema incoming \<and> is_diff existing normalized BRONZE_KEY (pb_diff p))"

end
