(* ===== verification/Bronze_Table.thy ===== *)
theory Bronze_Table
  imports Bronze_Commit
begin

text \<open>
  The monthly Bronze files of a series as one keyed table: preparing reads it and stages its upsert, and a
  commit leaves the files holding the staged table, although it rewrites only the months with changed rows.
\<close>

section \<open>Staging\<close>

lemma bronze_tableD:
  assumes "bronze_table f"
  shows "key_table BRONZE_KEY f" "''fetched_at_utc'' \<in> set (f_columns f)"
    "row \<in> set (f_rows f) \<Longrightarrow> length row = length (f_schema f)"
    "row \<in> set (f_rows f) \<Longrightarrow> \<exists>d. row_cell (f_schema f) row ''observation_date'' = CDate d"
    "distinct (map (key_of f BRONZE_KEY) (f_rows f))" "set BRONZE_KEY \<subseteq> set (f_columns f)"
  using assms key_tableD(1,2) by (auto simp: bronze_table_def)

lemma key_date:
  assumes "key_of f BRONZE_KEY row = key_of f BRONZE_KEY row'"
  shows "row_cell (f_schema f) row ''observation_date'' = row_cell (f_schema f) row' ''observation_date''"
  using assms by (simp add: key_of_def BRONZE_KEY_def)

text \<open>The fetched rows with stable times, as a table.\<close>

definition is_normalized :: "frame \<Rightarrow> frame \<Rightarrow> frame \<Rightarrow> bool" where
  "is_normalized existing incoming n \<longleftrightarrow> f_schema n = f_schema incoming
    \<and> mset (f_rows n) = mset (map (stable_row existing incoming) (f_rows incoming))"

lemma normalized_table:
  assumes i: "bronze_table incoming" and n: "is_normalized existing incoming n"
  shows "key_table BRONZE_KEY n"
    "row_at n BRONZE_KEY k = map_option (stable_row existing incoming) (row_at incoming BRONZE_KEY k)"
    "set (f_rows n) = stable_row existing incoming ` set (f_rows incoming)"
proof -
  have n': "f_schema n = f_schema incoming"
    "mset (f_rows n) = mset (map (stable_row existing incoming) (f_rows incoming))"
    using n by (simp_all add: is_normalized_def)
  note image = row_at_image [OF bronze_tableD(5) [OF i] n' stable_row_key(1) [OF i]]
  show set: "set (f_rows n) = stable_row existing incoming ` set (f_rows incoming)"
    using mset_eq_setD [OF n'(2)] by simp
  show "row_at n BRONZE_KEY k = map_option (stable_row existing incoming) (row_at incoming BRONZE_KEY k)"
    by (rule image(2))
  have K: "key_of n = key_of incoming" using n'(1) by (rule key_of_schema)
  show "key_table BRONZE_KEY n"
    using image(1) key_tableD(2-4) [OF bronze_tableD(1) [OF i]] stable_row_key(1) [OF i]
    unfolding key_table_def K f_columns_def n'(1) set by auto
qed

text \<open>A fetched row that is not kept in favour of a retained one changes the table.\<close>

lemma merged_row_bronze:
  assumes i: "bronze_table incoming" and n: "is_normalized existing incoming n" and s: "f_schema existing = f_schema incoming"
  shows "merged_row existing n BRONZE_KEY k = bronze_row existing incoming k"
proof (cases "row_at incoming BRONZE_KEY k")
  case None
  then show ?thesis
    using normalized_table(2) [OF i n, of k] by (simp add: merged_row_def bronze_row_def)
next
  case (Some row)
  then have row: "row \<in> set (f_rows incoming)" "key_of incoming BRONZE_KEY row = k"
    using row_at_Some [OF bronze_tableD(5) [OF i]] by auto
  have ns: "f_schema n = f_schema incoming" using n by (simp add: is_normalized_def)
  have nrow: "row_at n BRONZE_KEY k = Some (stable_row existing incoming row)"
    using normalized_table(2) [OF i n, of k] Some by simp
  show ?thesis
  proof (cases "row_at existing BRONZE_KEY k")
    case None
    then have "stable_row existing incoming row = row"
      using row by (simp add: stable_row_def)
    then show ?thesis
      using None Some nrow by (simp add: merged_row_def bronze_row_def)
  next
    case old: (Some old)
    have "equal_payload n existing (payload_of n BRONZE_KEY) (stable_row existing incoming row) old
        \<longleftrightarrow> same_observation incoming row old"
      using stable_row_payload(1) [OF i row(1) s] old row(2)
      by (simp add: equal_payload_def payload_of_def f_columns_def ns)
    then show ?thesis
      using Some old nrow stable_row_payload(2) [OF i row(1) s] row(2)
      by (auto simp: merged_row_def bronze_row_def)
  qed
qed

lemma changed_row_of:
  assumes i: "bronze_table incoming" and n: "is_normalized existing incoming n" and s: "f_schema existing = f_schema incoming"
    and row: "row \<in> set (f_rows incoming)"
    and new: "\<And>old. row_at existing BRONZE_KEY (key_of incoming BRONZE_KEY row) = Some old \<Longrightarrow> \<not> same_observation incoming row old"
  shows "row \<in> changed_rows existing n BRONZE_KEY"
proof -
  let ?k = "key_of incoming BRONZE_KEY row"
  have ns: "f_schema n = f_schema incoming" using n by (simp add: is_normalized_def)
  have same: "stable_row existing incoming row = row"
    using stable_row_payload(2) [OF i row s] new by (cases "row_at existing BRONZE_KEY ?k") (auto simp: stable_row_def)
  then have "row \<in> set (f_rows n)"
    using normalized_table(3) [OF i n] row by force
  moreover have "\<not> equal_payload n existing (payload_of n BRONZE_KEY) row old" if "row_at existing BRONZE_KEY ?k = Some old" for old
    using stable_row_payload(1) [OF i row s that] new [OF that] same
    by (simp add: equal_payload_def payload_of_def f_columns_def ns)
  ultimately show ?thesis
    using key_of_schema [OF ns] by (auto simp: changed_rows_def split: option.split)
qed

text \<open>The months a commit rewrites.\<close>

definition row_month :: "frame \<Rightarrow> cell list \<Rightarrow> int \<times> int" where
  "row_month f row =
    (case row_cell (f_schema f) row ''observation_date'' of CDate d \<Rightarrow> (date_year d, date_month d) | _ \<Rightarrow> (0, 0))"

lemma dates_of_rows:
  assumes "\<forall>row \<in> set rows. \<exists>d. row_cell s row c = CDate d"
  shows "\<exists>ds. map (\<lambda>row. row_cell s row c) rows = map CDate ds"
  using assms
proof (induction rows)
  case (Cons row rows)
  then obtain d ds where "row_cell s row c = CDate d" "map (\<lambda>row. row_cell s row c) rows = map CDate ds"
    by auto
  then show ?case by (intro exI [of _ "d # ds"]) simp
qed simp

lemma months_of_rows:
  assumes "\<forall>row \<in> set (f_rows f). \<exists>d. row_cell (f_schema f) row ''observation_date'' = CDate d"
    and "''observation_date'' \<in> set (f_columns f)"
  shows "\<exists>months. changed_months f = Inr months \<and> set months = row_month f ` set (f_rows f)"
proof -
  obtain ds where ds: "column_cells f ''observation_date'' = map CDate ds"
    using dates_of_rows [OF assms(1)] by (auto simp: column_cells_def)
  have parse: "rmap (\<lambda>x. case x of CDate d \<Rightarrow> Inr d
      | _ \<Rightarrow> raise TypeError ''Bronze observation_date must contain Date values'') (map CDate ds) = Inr ds"
    by (induction ds) auto
  have "set (months_of ds) = (\<lambda>d. (date_year d, date_month d)) ` set ds"
    by (simp add: months_of_def)
  also have "\<dots> = row_month f ` set (f_rows f)"
  proof -
    have "(\<lambda>x. case x of CDate d \<Rightarrow> (date_year d, date_month d) | _ \<Rightarrow> (0, 0)) ` set (column_cells f ''observation_date'')
        = (\<lambda>d. (date_year d, date_month d)) ` set ds"
      unfolding ds by (simp add: image_image)
    then show ?thesis
      by (simp add: column_cells_def image_image row_month_def)
  qed
  finally have "set (months_of ds) = row_month f ` set (f_rows f)" .
  then show ?thesis
    using parse ds assms(2) by (auto simp: changed_months_def get_column_def is_empty_frame_def f_height_def)
qed

lemma bronze_row_cases:
  assumes "bronze_row existing incoming k = Some row"
  shows "row_at existing BRONZE_KEY k = Some row
    \<or> (row_at incoming BRONZE_KEY k = Some row
      \<and> (\<forall>old. row_at existing BRONZE_KEY k = Some old \<longrightarrow> \<not> same_observation incoming row old))"
  using assms by (auto simp: bronze_row_def split: option.splits if_splits)

lemma merged_bronze_table:
  assumes e: "bronze_table existing" and i: "bronze_table incoming" and s: "f_schema existing = f_schema incoming"
    and m: "key_table BRONZE_KEY merged" "f_schema merged = f_schema incoming"
      "\<And>k. row_at merged BRONZE_KEY k = bronze_row existing incoming k"
  shows "bronze_table merged"
proof -
  have "length row = length (f_schema incoming) \<and> (\<exists>d. row_cell (f_schema incoming) row ''observation_date'' = CDate d)"
    if "row \<in> set (f_rows merged)" for row
  proof -
    have "bronze_row existing incoming (key_of merged BRONZE_KEY row) = Some row"
      using that m(3) row_at_Some [OF key_tableD(1) [OF m(1)]] by metis
    from bronze_row_cases [OF this] have "row \<in> set (f_rows existing) \<or> row \<in> set (f_rows incoming)"
      using row_at_Some [OF bronze_tableD(5) [OF e]] row_at_Some [OF bronze_tableD(5) [OF i]] by blast
    then show ?thesis
      using bronze_tableD(3,4) [OF i] bronze_tableD(3,4) [OF e] unfolding s by blast
  qed
  then show ?thesis
    using m(1,2) bronze_tableD(2) [OF i] unfolding bronze_table_def f_columns_def m(2) by blast
qed

lemma post_bounds_total:
  assumes "bronze_table f"
  shows "\<exists>b. post_bounds f = Inr b"
proof -
  have "\<forall>row \<in> set (f_rows f). \<exists>d. row_cell (f_schema f) row ''observation_date'' = CDate d"
    using bronze_tableD(4) [OF assms] by blast
  from dates_of_rows [OF this] obtain ds where ds: "column_cells f ''observation_date'' = map CDate ds"
    by (auto simp: column_cells_def)
  have "column_dates f ''observation_date'' = Inr ds"
    unfolding column_dates_def ds by (induction ds) auto
  moreover have "ds \<noteq> [] \<longleftrightarrow> f_rows f \<noteq> []"
    using ds by (auto simp: column_cells_def)
  moreover have "''observation_date'' \<in> set (f_columns f)"
    using bronze_tableD(6) [OF assms] by (simp add: BRONZE_KEY_def)
  ultimately show ?thesis
    by (simp add: post_bounds_def get_column_def is_empty_frame_def f_height_def)
qed

context polars_joins
begin

lemma stage_table:
  assumes pl: "polars_frames pl" and e: "bronze_table existing" and i: "bronze_table incoming"
    and s: "f_schema existing = f_schema incoming"
  shows "\<exists>p months. stage pl T c existing incoming = Inr p \<and> pb_contract p = c \<and> is_staged existing incoming p
    \<and> rbind (changed T (pb_diff p)) changed_months = Inr months \<and> pb_written_partitions p = length months
    \<and> (\<forall>row \<in> set (f_rows incoming).
          (\<forall>old. row_at existing BRONZE_KEY (key_of incoming BRONZE_KEY row) = Some old \<longrightarrow> \<not> same_observation incoming row old)
          \<longrightarrow> row_month incoming row \<in> set months)"
proof -
  obtain rows where "stable_incoming T existing incoming = Inr (incoming\<lparr>f_rows := rows\<rparr>)"
      "mset rows = mset (map (stable_row existing incoming) (f_rows incoming))"
    using stable_incoming_table [OF bronze_tableD(1) [OF e] bronze_tableD(1) [OF i] s bronze_tableD(2) [OF i]] by blast
  then obtain n where n: "stable_incoming T existing incoming = Inr n" "is_normalized existing incoming n"
    by (auto simp: is_normalized_def)
  have ns: "f_schema n = f_schema incoming" using n(2) by (simp add: is_normalized_def)
  have es: "f_schema existing = f_schema n" using s ns by simp
  from merge_frames_table [OF pl bronze_tableD(1) [OF e] normalized_table(1) [OF i n(2)] es]
  obtain merged d where m: "merge_frames pl T existing n BRONZE_KEY = Inr (merged, d)" "is_diff existing n BRONZE_KEY d"
      "is_merge existing n BRONZE_KEY merged"
    by blast
  have mt: "key_table BRONZE_KEY merged" "f_schema merged = f_schema incoming"
      "row_at merged BRONZE_KEY k = bronze_row existing incoming k" for k
    using m(3) merged_row_bronze [OF i n(2) s] ns by (simp_all add: is_merge_def)
  have bt: "bronze_table merged"
    by (rule merged_bronze_table [OF e i s mt])
  obtain b where b: "post_bounds merged = Inr b"
    using post_bounds_total [OF bt] by blast
  let ?C = "n\<lparr>f_rows := f_rows (inserts d) @ f_rows (revisions d)\<rparr>"
  have C: "changed T d = Inr ?C" "set (f_rows ?C) = changed_rows existing n BRONZE_KEY"
    using changed_frame [OF m(2)] is_diff_rows(1) [OF m(2)] by simp_all
  have "\<forall>row \<in> set (f_rows ?C). \<exists>d. row_cell (f_schema ?C) row ''observation_date'' = CDate d"
  proof
    fix row assume "row \<in> set (f_rows ?C)"
    then have "row \<in> set (f_rows n)" using C(2) by (auto simp: changed_rows_def)
    then obtain r where "r \<in> set (f_rows incoming)" "row = stable_row existing incoming r"
      using normalized_table(3) [OF i n(2)] by auto
    then show "\<exists>d. row_cell (f_schema ?C) row ''observation_date'' = CDate d"
      using bronze_tableD(4) [OF i] key_date [OF stable_row_key(1) [OF i]] ns by simp
  qed
  moreover have "''observation_date'' \<in> set (f_columns ?C)"
    using bronze_tableD(6) [OF i] ns by (simp add: BRONZE_KEY_def f_columns_def)
  ultimately obtain months where months: "changed_months ?C = Inr months" "set months = row_month ?C ` set (f_rows ?C)"
    using months_of_rows by blast
  define p where "p = \<lparr>pb_contract = c, pb_merged = merged, pb_diff = d, pb_post_bounds = b, pb_written_partitions = length months\<rparr>"
  have "f_columns existing \<noteq> []"
    using bronze_tableD(2) [OF e] by auto
  then have "stage pl T c existing incoming = Inr p"
    using n(1) m(1) C(1) months(1) b by (simp add: stage_def p_def)
  moreover have "is_staged existing incoming p"
    using bt mt n(2) m(2) by (auto simp: is_staged_def p_def is_normalized_def)
  moreover have "row_month incoming row \<in> set months" if "row \<in> set (f_rows incoming)"
      "\<forall>old. row_at existing BRONZE_KEY (key_of incoming BRONZE_KEY row) = Some old \<longrightarrow> \<not> same_observation incoming row old" for row
  proof -
    have "row \<in> set (f_rows ?C)"
      using changed_row_of [OF i n(2) s that(1)] that(2) C(2) by simp
    moreover have "row_month ?C row = row_month incoming row"
      using ns by (simp add: row_month_def)
    ultimately show ?thesis
      unfolding months(2) by (metis imageI)
  qed
  ultimately show ?thesis
    using C(1) months(1) by (intro exI [of _ p] exI [of _ months]) (auto simp: p_def)
qed

end

section \<open>The files of a series\<close>

definition series_partition :: "path \<Rightarrow> series_contract \<Rightarrow> int \<times> int \<Rightarrow> path" where
  "series_partition lake_root c = bronze_partition lake_root (series_provider c) (series_id c)"

definition month_rows :: "path \<Rightarrow> series_contract \<Rightarrow> int \<times> int \<Rightarrow> 'z lake_scheme \<Rightarrow> cell list list" where
  "month_rows lake_root c ym w =
    (case file_at (series_partition lake_root c ym) w of Some (Parquet f) \<Rightarrow> f_rows f | _ \<Rightarrow> [])"

text \<open>
  The files of a series hold a table: each of its month files is a Parquet file of the table's schema, and
  the rows of each month are those of the table that are dated in it.
\<close>

definition lake_holds :: "path \<Rightarrow> series_contract \<Rightarrow> frame \<Rightarrow> 'z lake_scheme \<Rightarrow> bool" where
  "lake_holds lake_root c f w \<longleftrightarrow>
    (\<forall>p x. file_at p w = Some x \<and> is_month_path (series_root lake_root c) p \<longrightarrow>
      (\<exists>ym g. p = series_partition lake_root c ym \<and> x = Parquet g \<and> f_schema g = f_schema f))
    \<and> (\<forall>ym. mset (month_rows lake_root c ym w) =
        mset (filter (in_month ''observation_date'' (f_schema f) ym) (f_rows f)))"

lemma in_month_row: 
  "\<exists>d. row_cell (f_schema f) row ''observation_date'' = CDate d \<Longrightarrow>
    in_month ''observation_date'' (f_schema f) ym row \<longleftrightarrow> row_month f row = ym"
  by (auto simp: in_month_def row_month_def)

lemma row_month_key:
  assumes "key_of f BRONZE_KEY row = key_of f BRONZE_KEY row'"
  shows "row_month f row = row_month f row'"
  using key_date [OF assms] by (simp add: row_month_def)

lemma row_month_schema: "f_schema f = f_schema g \<Longrightarrow> row_month f row = row_month g row"
  by (simp add: row_month_def)

text \<open>Outside the rewritten months the staged table has the rows of the retained one.\<close>

lemma untouched_month:
  assumes e: "bronze_table existing" and i: "bronze_table incoming" and s: "f_schema existing = f_schema incoming"
    and st: "is_staged existing incoming p"
    and months: "\<forall>row \<in> set (f_rows incoming).
      (\<forall>old. row_at existing BRONZE_KEY (key_of incoming BRONZE_KEY row) = Some old \<longrightarrow> \<not> same_observation incoming row old)
        \<longrightarrow> row_month incoming row \<in> set months"
    and ym: "ym \<notin> set months"
  shows "mset (filter (in_month ''observation_date'' (f_schema (pb_merged p)) ym) (f_rows (pb_merged p)))
    = mset (filter (in_month ''observation_date'' (f_schema existing) ym) (f_rows existing))"
proof -
  let ?m = "pb_merged p"
  have mt: "bronze_table ?m" "f_schema ?m = f_schema incoming" "row_at ?m BRONZE_KEY k = bronze_row existing incoming k" for k
    using st by (simp_all add: is_staged_def)
  have K: "key_of existing = key_of incoming" "key_of ?m = key_of incoming"
    using s mt(2) by (auto intro: key_of_schema)
  note at_m = row_at_Some [OF bronze_tableD(5) [OF mt(1)]] and at_e = row_at_Some [OF bronze_tableD(5) [OF e]]
    and at_i = row_at_Some [OF bronze_tableD(5) [OF i]]
  have fresh: "row_month incoming row \<noteq> ym" if "row_at incoming BRONZE_KEY (key_of incoming BRONZE_KEY row) = Some row"
      "\<forall>old. row_at existing BRONZE_KEY (key_of incoming BRONZE_KEY row) = Some old \<longrightarrow> \<not> same_observation incoming row old" for row
    using that months ym at_i by blast
  have iff: "row \<in> set (f_rows ?m) \<longleftrightarrow> row \<in> set (f_rows existing)" if ymrow: "row_month incoming row = ym" for row
  proof -
    let ?k = "key_of incoming BRONZE_KEY row"
    have "row \<in> set (f_rows ?m) \<longleftrightarrow> bronze_row existing incoming ?k = Some row"
      using at_m [of ?k row] mt(3) K by simp
    also have "\<dots> \<longleftrightarrow> row_at existing BRONZE_KEY ?k = Some row"
    proof
      assume "bronze_row existing incoming ?k = Some row"
      from bronze_row_cases [OF this] show "row_at existing BRONZE_KEY ?k = Some row"
        using fresh ymrow by blast
    next
      assume old: "row_at existing BRONZE_KEY ?k = Some row"
      show "bronze_row existing incoming ?k = Some row"
      proof (cases "row_at incoming BRONZE_KEY ?k")
        case (Some r)
        then have r: "key_of incoming BRONZE_KEY r = ?k"
          using at_i by blast
        have "same_observation incoming r row"
        proof (rule ccontr)
          assume "\<not> same_observation incoming r row"
          then have "row_month incoming r \<noteq> ym"
            using fresh [of r] Some old r by simp
          then show False
            using row_month_key [OF r] ymrow by simp
        qed
        then show ?thesis
          using Some old by (simp add: bronze_row_def)
      qed (simp add: bronze_row_def old)
    qed
    also have "\<dots> \<longleftrightarrow> row \<in> set (f_rows existing)"
      using at_e [of ?k row] K by simp
    finally show ?thesis .
  qed
  have in_m: "in_month ''observation_date'' (f_schema incoming) ym row \<longleftrightarrow> row_month incoming row = ym"
    if "row \<in> set (f_rows ?m) \<union> set (f_rows existing)" for row
    using that in_month_row [of incoming row ym] bronze_tableD(4) [OF mt(1)] bronze_tableD(4) [OF e] mt(2) s by auto
  have "set (filter (in_month ''observation_date'' (f_schema incoming) ym) (f_rows ?m))
      = set (filter (in_month ''observation_date'' (f_schema incoming) ym) (f_rows existing))"
    using iff in_m by auto
  moreover have "distinct (filter P (f_rows ?m))" "distinct (filter P (f_rows existing))" for P
    using bronze_tableD(5) [OF mt(1)] bronze_tableD(5) [OF e] by (simp_all add: distinct_map)
  ultimately show ?thesis
    unfolding mt(2) s by (rule iffD1 [OF set_eq_iff_mset_eq_distinct, rotated 2])
qed

section \<open>Committing keeps the files and the table together\<close>

lemma in_month_schema: "f_schema f = f_schema g \<Longrightarrow> in_month c (f_schema f) = in_month c (f_schema g)"
  by simp

lemma tracked_month_path:
  assumes "is_month_path (series_root lake_root c) p" "p \<in> set (tracked_files lake_root c months)"
  shows "p \<in> series_partition lake_root c ` set months"
proof -
  have "\<not> is_month_path (series_root lake_root c) (ingestion_runs_path lake_root)"
    "\<not> is_month_path (series_root lake_root c) (ingestion_state_path lake_root)"
    by (auto simp: is_month_path_def series_root_def ingestion_runs_path_def ingestion_state_path_def)
  then show ?thesis
    using assms by (auto simp: tracked_files_def series_partition_def)
qed

lemma partition_tracked_iff:
  "series_partition lake_root c ym \<in> set (tracked_files lake_root c months) \<longleftrightarrow> ym \<in> set months"
  using tracked_distinct by (auto simp: tracked_files_def series_partition_def)

lemma commit_holds:
  assumes pl: "polars_frames pl" and r: "valid_run r"
    and e: "bronze_table existing" and i: "bronze_table incoming" and s: "f_schema existing = f_schema incoming"
    and st: "is_staged existing incoming p" "pb_contract p = c"
    and months: "rbind (changed T (pb_diff p)) changed_months = Inr months"
      "\<forall>row \<in> set (f_rows incoming).
        (\<forall>old. row_at existing BRONZE_KEY (key_of incoming BRONZE_KEY row) = Some old \<longrightarrow> \<not> same_observation incoming row old)
          \<longrightarrow> row_month incoming row \<in> set months"
    and holds: "lake_holds lake_root c existing w"
    and run: "commit_success pl T secrets lake_root p r state w = (Inr u, w')"
  shows "lake_holds lake_root c (pb_merged p) w'"
proof -
  let ?m = "pb_merged p" and ?part = "series_partition lake_root c"
  have ms: "f_schema ?m = f_schema existing"
    using st(1) s by (simp add: is_staged_def)
  have written: "file_at (?part ym) w' = Some (Parquet (month_frame ''observation_date'' ?m ym))" if "ym \<in> set months" for ym
    using bronze_commit_atomic_facts(1) [OF pl r run months(1)] that st(2) by (simp add: series_partition_def)
  have other: "file_at q w' = file_at q w" if "q \<notin> set (tracked_files lake_root c months)" for q
    using bronze_commit_atomic_facts(2) [OF pl r run months(1)] that st(2) by simp
  have files: "\<exists>ym g. q = ?part ym \<and> x = Parquet g \<and> f_schema g = f_schema ?m"
    if q: "file_at q w' = Some x" "is_month_path (series_root lake_root c) q" for q x
  proof (cases "q \<in> set (tracked_files lake_root c months)")
    case True
    then obtain ym where "ym \<in> set months" "q = ?part ym"
      using tracked_month_path [OF q(2)] by blast
    then have "q = ?part ym" "x = Parquet (month_frame ''observation_date'' ?m ym)"
      using written q(1) by simp_all
    moreover have "f_schema (month_frame ''observation_date'' ?m ym) = f_schema ?m"
      by (simp add: month_frame_def)
    ultimately show ?thesis by blast
  next
    case False
    then have "file_at q w = Some x"
      using other q(1) by simp
    then show ?thesis
      using holds q(2) ms unfolding lake_holds_def by metis
  qed
  moreover have "mset (month_rows lake_root c ym w') = mset (filter (in_month ''observation_date'' (f_schema ?m) ym) (f_rows ?m))" for ym
  proof (cases "ym \<in> set months")
    case True
    then show ?thesis
      using written by (simp add: month_rows_def month_frame_def)
  next
    case False
    then have "month_rows lake_root c ym w' = month_rows lake_root c ym w"
      using other partition_tracked_iff [of lake_root c ym months] by (simp add: month_rows_def)
    moreover have "mset (month_rows lake_root c ym w) = mset (filter (in_month ''observation_date'' (f_schema existing) ym) (f_rows existing))"
      using holds unfolding lake_holds_def by blast
    ultimately show ?thesis
      using untouched_month [OF e i s st(1) months(2) False] by (metis (no_types, lifting))
  qed
  ultimately show ?thesis
    unfolding lake_holds_def by blast
qed

section \<open>Reading the table back\<close>

lemma concat_classes:
  assumes "distinct ms" "\<And>x. x \<in> set xs \<Longrightarrow> g x \<in> set ms"
  shows "mset (concat (map (\<lambda>m. filter (\<lambda>x. g x = m) xs) ms)) = mset xs"
  using assms(2)
proof (induction xs)
  case (Cons x xs)
  obtain as bs where ms: "ms = as @ g x # bs" "g x \<notin> set as" "g x \<notin> set bs"
    using assms(1) Cons.prems [of x] by (metis distinct.simps(2) distinct_append list.set_intros(1) not_distinct_conv_prefix split_list)
  let ?F = "\<lambda>ys m. filter (\<lambda>y. g y = m) ys"
  have "map (?F (x # xs)) as = map (?F xs) as" "map (?F (x # xs)) bs = map (?F xs) bs"
    using ms by auto
  then have "concat (map (?F (x # xs)) ms) = concat (map (?F xs) as) @ (x # ?F xs (g x)) @ concat (map (?F xs) bs)"
    by (simp only: ms(1) map_append list.map concat_append concat.simps filter.simps if_True refl append_assoc)
  moreover have "mset (concat (map (?F xs) ms)) = mset xs"
    using Cons.IH Cons.prems by simp
  then have "mset (concat (map (?F xs) as)) + (mset (?F xs (g x)) + mset (concat (map (?F xs) bs))) = mset xs"
    by (simp only: ms(1) map_append list.map concat_append concat.simps mset_append)
  ultimately show ?case
    by (simp only: mset_append mset.simps) simp
qed (induction ms; simp)

text \<open>The distinct existing month files of a series are those of a set of months.\<close>

lemma month_paths_Inr:
  assumes "month_paths root' w = (Inr ps, w')"
  shows "set ps = {p. is_month_path root' p \<and> is_file p w}" "distinct ps" "files w' = files w"
proof -
  obtain w1 where w1: "fault_point w = (Inr (), w1)"
      "ps = sort (remdups (filter (is_month_path root') (map fst (files w1))))" "w' = w1"
    using assms by (auto simp: month_paths_def seq_eq_Inr gets_apply)
  have f: "files w1 = files w" using fault_point_keeps [OF w1(1)] by simp
  then show "files w' = files w" using w1(3) by simp
  show "distinct ps" using w1(2) by simp
  show "set ps = {p. is_month_path root' p \<and> is_file p w}"
    using w1(2) f by (auto simp: is_file_def file_at_def map_of_eq_None_iff)
qed

lemma collect_parquet:
  assumes "collect read_parquet ps w = (Inr fs, w')"
  shows "list_all2 (\<lambda>p f. file_at p w = Some (Parquet f)) ps fs" "files w' = files w"
proof -
  show "files w' = files w"
    using preservesD [OF preserves_collect assms] preserves_files_ops(6) by blast
  show "list_all2 (\<lambda>p f. file_at p w = Some (Parquet f)) ps fs"
    using assms
  proof (induction ps arbitrary: w fs)
    case (Cons p ps)
    then obtain f w1 rest where 1: "read_parquet p w = (Inr f, w1)" "collect read_parquet ps w1 = (Inr rest, w')" "fs = f # rest"
      by (auto simp: bind_eq_Inr ret_def)
    have "files w1 = files w"
      using preservesD [OF preserves_files_ops(6) 1(1)] .
    then have "list_all2 (\<lambda>p f. file_at p w = Some (Parquet f)) ps rest"
      using Cons.IH [OF 1(2)] by (simp add: file_at_def)
    then show ?case
      using 1(3) read_parquet_Inr [OF 1(1)] by simp
  qed (simp add: ret_def)
qed

lemma all_rows_of_months:
  assumes b: "bronze_table f" and holds: "lake_holds lake_root c f w"
    and yms: "distinct yms" "\<And>ym. file_at (series_partition lake_root c ym) w \<noteq> None \<longleftrightarrow> ym \<in> set yms"
  shows "mset (concat (map (\<lambda>ym. month_rows lake_root c ym w) yms)) = mset (f_rows f)"
proof -
  have cls: "filter (in_month ''observation_date'' (f_schema f) ym) (f_rows f) = filter (\<lambda>row. row_month f row = ym) (f_rows f)" for ym
    using in_month_row bronze_tableD(4) [OF b] by (intro filter_cong) auto
  have month: "mset (month_rows lake_root c ym w) = mset (filter (\<lambda>row. row_month f row = ym) (f_rows f))" for ym
    using holds unfolding lake_holds_def cls by blast
  have "row_month f row \<in> set yms" if "row \<in> set (f_rows f)" for row
  proof -
    have "row \<in> set (month_rows lake_root c (row_month f row) w)"
      using that mset_eq_setD [OF month] by simp
    then have "file_at (series_partition lake_root c (row_month f row)) w \<noteq> None"
      unfolding month_rows_def by (cases "file_at (series_partition lake_root c (row_month f row)) w") simp_all
    then show ?thesis
      using yms(2) by blast
  qed
  from concat_classes [OF yms(1), of "f_rows f" "row_month f", OF this]
  have "mset (concat (map (\<lambda>ym. filter (\<lambda>row. row_month f row = ym) (f_rows f)) yms)) = mset (f_rows f)" .
  moreover have "mset (concat (map (\<lambda>ym. month_rows lake_root c ym w) yms))
      = mset (concat (map (\<lambda>ym. filter (\<lambda>row. row_month f row = ym) (f_rows f)) yms))"
    using month by (induction yms) simp_all
  ultimately show ?thesis by simp
qed

text \<open>Reading all months gives the table of the files, in some order of its rows.\<close>

definition same_table :: "frame \<Rightarrow> frame \<Rightarrow> bool" where
  "same_table f g \<longleftrightarrow> f_schema g = f_schema f \<and> mset (f_rows g) = mset (f_rows f)"

lemma same_table_rows: "same_table f g \<Longrightarrow> set (f_rows g) = set (f_rows f)"
  by (auto simp: same_table_def dest: mset_eq_setD)

lemma same_table_bronze:
  assumes "bronze_table f" "same_table f g"
  shows "bronze_table g" "row_at g BRONZE_KEY = row_at f BRONZE_KEY"
  using assms key_table_perm [of BRONZE_KEY f g] same_table_rows [OF assms(2)]
  by (auto simp: bronze_table_def same_table_def f_columns_def)

lemma same_table_holds:
  assumes "same_table f g" "lake_holds lake_root c f w"
  shows "lake_holds lake_root c g w"
proof -
  have s: "f_schema g = f_schema f" "mset (f_rows g) = mset (f_rows f)"
    using assms(1) by (simp_all add: same_table_def)
  have "mset (filter P (f_rows g)) = mset (filter P (f_rows f))" for P
    using s(2) by simp
  then show ?thesis
    using assms(2) unfolding lake_holds_def s(1) by simp
qed

context polars_joins
begin

lemma read_table:
  assumes pl: "polars_frames pl" and b: "bronze_table f" and holds: "lake_holds lake_root c f w"
    and paths: "set ps = {p. is_month_path (series_root lake_root c) p \<and> is_file p w}" "distinct ps"
    and run: "read_monthly pl T BRONZE_KEY ps w = (Inr g, w')"
  shows "if ps = [] then g = empty_frame \<and> f_rows f = [] else same_table f g" "files w' = files w"
proof -
  let ?part = "series_partition lake_root c"
  have exist: "filter (\<lambda>p. is_file p w) ps = ps"
    using paths(1) by (simp add: filter_id_conv)
  have month: "\<exists>ym g. p = ?part ym \<and> file_at p w = Some (Parquet g) \<and> f_schema g = f_schema f" if member: "p \<in> set ps" for p
  proof -
    obtain x where "file_at p w = Some x" "is_month_path (series_root lake_root c) p"
      using member paths(1) by (auto simp: is_file_def)
    then show ?thesis
      using holds unfolding lake_holds_def by metis
  qed
  then obtain yms where yms: "ps = map ?part yms"
    by (metis ex_map_conv)
  have dist: "distinct yms"
    using paths(2) by (simp add: yms distinct_map)
  have mem: "file_at (?part ym) w \<noteq> None \<longleftrightarrow> ym \<in> set yms" for ym
  proof -
    have "is_month_path (series_root lake_root c) (?part ym)"
      unfolding series_root_def series_partition_def by (rule partition_is_month_path)
    then have "file_at (?part ym) w \<noteq> None \<longleftrightarrow> ?part ym \<in> set ps"
      using paths(1) by (auto simp: is_file_def)
    also have "\<dots> \<longleftrightarrow> ym \<in> set yms"
      by (auto simp: yms series_partition_def)
    finally show ?thesis .
  qed
  note all = all_rows_of_months [OF b holds dist mem]
  have "(if ps = [] then g = empty_frame \<and> f_rows f = [] else same_table f g) \<and> files w' = files w"
  proof (cases "ps = []")
    case True
    then show ?thesis
      using run all yms by (simp add: read_monthly_def existing_paths_def bind_def gets_def ret_def)
  next
    case False
    obtain fs where fs: "collect read_parquet ps w = (Inr fs, w')" "monthly_frame pl T BRONZE_KEY fs = Inr g"
      using run False exist by (auto simp: read_monthly_def existing_paths_def io_inv gets_apply lift_apply)
    note C = collect_parquet [OF fs(1)]
    have rows: "map f_rows fs = map (\<lambda>ym. month_rows lake_root c ym w) yms"
      using C(1) unfolding yms list_all2_map1
      by (induction rule: list_all2_induct) (simp_all add: month_rows_def)
    have schemas: "\<forall>h \<in> set fs. f_schema h = f_schema f"
    proof
      fix h assume "h \<in> set fs"
      then obtain j where j: "j < length fs" "h = fs ! j"
        by (auto simp: in_set_conv_nth)
      obtain p where "p \<in> set ps" "file_at p w = Some (Parquet h)"
        using list_all2_nthD2 [OF C(1) j(1)] list_all2_lengthD [OF C(1)] j nth_mem [of j ps] by metis
      then show "f_schema h = f_schema f"
        using month [of p] by auto
    qed
    have "fs \<noteq> []"
      using C(1) False by auto
    let ?all = "\<lparr>f_schema = f_schema f, f_rows = concat (map f_rows fs)\<rparr>"
    have "(case fs of [h] \<Rightarrow> Inr h | _ \<Rightarrow> pl_concat T fs) = Inr ?all"
    proof (cases "\<exists>h. fs = [h]")
      case True
      then obtain h where h: "fs = [h]" by blast
      moreover have "h = \<lparr>f_schema = f_schema f, f_rows = f_rows h\<rparr>"
        using schemas h by (cases h) simp
      ultimately show ?thesis by simp
    next
      case False
      then have "(case fs of [h] \<Rightarrow> Inr h | _ \<Rightarrow> pl_concat T fs) = pl_concat T fs"
        using \<open>fs \<noteq> []\<close> by (cases fs rule: remdups_adj.cases) simp_all
      then show ?thesis
        using concat_ok [OF \<open>fs \<noteq> []\<close> schemas] by simp
    qed
    moreover have "set BRONZE_KEY \<subseteq> set (f_columns ?all)"
      using bronze_tableD(6) [OF b] by (simp add: f_columns_def)
    then have "filter (\<lambda>c. c \<notin> set (f_columns ?all)) BRONZE_KEY = []"
      by (auto simp: filter_empty_conv)
    ultimately have sorted: "pl_sort pl BRONZE_KEY ?all = Inr g"
      using fs(2) by (simp add: monthly_frame_def BRONZE_KEY_def)
    then have "same_table ?all g"
      using polars_frames.sort_schema [OF pl sorted] polars_frames.sort_perm [OF pl sorted] by (simp add: same_table_def)
    then have "same_table f g"
      using all unfolding same_table_def rows by simp
    then show ?thesis
      using False C(2) by simp
  qed
  then show "if ps = [] then g = empty_frame \<and> f_rows f = [] else same_table f g" "files w' = files w"
    by simp_all
qed

text \<open>What preparing returns is the stage of the files' table.\<close>

lemma prepare_table:
  assumes pl: "polars_frames pl" and e: "bronze_table existing" and i: "bronze_table incoming"
    and s: "f_schema existing = f_schema incoming" and holds: "lake_holds lake_root c existing w"
    and run: "prepare pl T lake_root c incoming w = (Inr p, w')"
  shows "files w' = files w" "\<exists>stored. same_table existing stored \<and> stage pl T c stored incoming = Inr p"
proof -
  obtain ps w1 g where r: "month_paths (series_root lake_root c) w = (Inr ps, w1)"
      "read_monthly pl T BRONZE_KEY ps w1 = (Inr g, w')" "stage pl T c g incoming = Inr p"
    using run by (auto simp: prepare_def io_inv lift_apply)
  note P = month_paths_Inr [OF r(1)]
  have w1: "lake_holds lake_root c existing w1" "is_file q w1 = is_file q w" for q
    using holds P(3) by (simp_all add: lake_holds_def month_rows_def file_at_def is_file_def)
  note R = read_table [OF pl e w1(1) _ P(2) r(2)]
  have R: "if ps = [] then g = empty_frame \<and> f_rows existing = [] else same_table existing g" "files w' = files w"
    using R P(1,3) w1(2) by simp_all
  show "files w' = files w" by (rule R(2))
  show "\<exists>stored. same_table existing stored \<and> stage pl T c stored incoming = Inr p"
  proof (cases "ps = []")
    case True
    then have "stage pl T c (no_rows incoming) incoming = Inr p" "same_table existing (no_rows incoming)"
      using R(1) r(3) s by (simp_all add: stage_def empty_frame_def same_table_def no_rows_def f_columns_def Let_def split: if_splits)
    then show ?thesis by blast
  qed (use R(1) r(3) in auto)
qed

end

section \<open>The property\<close>

text \<open>
  C30: when the month files of a series hold a Bronze table, preparing fetched rows and committing them
  leaves the month files holding the upserted table: under each key the fetched row, unless the fetched
  observation repeats the retained one, whose row (with its first fetch time) stays.  Only months with
  changed rows are rewritten, and this loses no row of the others.
\<close>

theorem bronze_table_upserted:
  assumes "polars_frames pl" "polars_joins T" "valid_run r"
    and "bronze_table existing" "bronze_table incoming" "f_schema existing = f_schema incoming"
    and "lake_holds lake_root c existing w"
    and "prepare pl T lake_root c incoming w = (Inr p, w1)"
    and "commit_success pl T secrets lake_root p r st w1 = (Inr u, w2)"
  shows "lake_holds lake_root c (pb_merged p) w2 \<and> bronze_table (pb_merged p)
    \<and> (\<forall>k. row_at (pb_merged p) BRONZE_KEY k = bronze_row existing incoming k)"
proof -
  obtain stored where st: "same_table existing stored" "stage pl T c stored incoming = Inr p"
    using polars_joins.prepare_table(2) [OF assms(2,1,4-8)] by blast
  note S = same_table_bronze [OF assms(4) st(1)]
  have s: "f_schema stored = f_schema incoming"
    using st(1) assms(6) by (simp add: same_table_def)
  obtain months where m: "pb_contract p = c" "is_staged stored incoming p"
      "rbind (changed T (pb_diff p)) changed_months = Inr months"
      "\<forall>row \<in> set (f_rows incoming).
          (\<forall>old. row_at stored BRONZE_KEY (key_of incoming BRONZE_KEY row) = Some old \<longrightarrow> \<not> same_observation incoming row old)
          \<longrightarrow> row_month incoming row \<in> set months"
    using polars_joins.stage_table [OF assms(2,1) S(1) assms(5) s, of c] st(2) by auto
  have "lake_holds lake_root c existing w1"
    using assms(7) polars_joins.prepare_table(1) [OF assms(2,1,4-8)]
    by (simp add: lake_holds_def month_rows_def file_at_def)
  from same_table_holds [OF st(1) this] have "lake_holds lake_root c stored w1" .
  from commit_holds [OF assms(1,3) S(1) assms(5) s m(2,1,3,4) this assms(9)]
  have "lake_holds lake_root c (pb_merged p) w2" .
  moreover have "bronze_row stored incoming = bronze_row existing incoming"
    unfolding bronze_row_def [abs_def] S(2) ..
  ultimately show ?thesis
    using m(2) by (simp add: is_staged_def)
qed

text \<open>A fetch into an empty lake: its rows are the table.\<close>

definition demo_fetch :: frame where
  "demo_fetch = demo_bronze [(739000, 1, 5)]"

lemma demo_bronze_table:
  "distinct (map fst rows) \<Longrightarrow> bronze_table (demo_bronze rows)"
  by (auto simp: bronze_table_def key_table_def BRONZE_KEY_def demo_bronze_def demo_bronze_schema_def f_columns_def
      key_of_def distinct_map inj_on_def split_def)

lemma demo_empty_holds: "lake_holds lake_root c (demo_bronze []) empty_lake"
  by (simp add: lake_holds_def month_rows_def demo_bronze_def empty_lake_def file_at_def)

theorem bronze_table_upserted_witness:
  "\<exists>p w1 w2. prepare reference_polars reference_tables [''lake''] demo_contract demo_fetch empty_lake = (Inr p, w1)
    \<and> commit_success reference_polars reference_tables [] [''lake''] p demo_run demo_state w1 = (Inr (), w2)
    \<and> lake_holds [''lake''] demo_contract (pb_merged p) w2
    \<and> row_at (pb_merged p) BRONZE_KEY [CStr ''fred'', CStr ''dgs10'', CDate 739000]
      = Some [CStr ''fred'', CStr ''dgs10'', CDate 739000, CFloat 1, CDatetime 5]"
proof -
  have b: "bronze_table demo_fetch" "bronze_table (demo_bronze [])"
    unfolding demo_fetch_def by (rule demo_bronze_table; simp)+
  have s: "f_schema (demo_bronze []) = f_schema demo_fetch"
    by (simp add: demo_fetch_def demo_bronze_def)
  obtain p months where p: "stage reference_polars reference_tables demo_contract (demo_bronze []) demo_fetch = Inr p"
      "rbind (changed reference_tables (pb_diff p)) changed_months = Inr months"
    using ref_joins.stage_table [OF ref_polars.polars_frames_axioms b(2,1) s, of demo_contract] by blast
  have no: "no_rows demo_fetch = demo_bronze []"
    by (simp add: no_rows_def demo_fetch_def demo_bronze_def)
  have prep: "prepare reference_polars reference_tables [''lake''] demo_contract demo_fetch empty_lake = (Inr p, empty_lake)"
    using p(1) by (simp add: prepare_def month_paths_def read_monthly_def existing_paths_def seq_def bind_def ret_def
        gets_def lift_def fault_point_def empty_lake_def stage_def empty_frame_def f_columns_def no demo_bronze_def demo_bronze_schema_def)
  have none: "runs_at q empty_lake = Some []" "states_at q empty_lake = Some []" for q
    by (simp_all add: snapshot_view_def file_at_def empty_lake_def)
  have valid: "valid_run demo_run"
    by (simp add: valid_run_def demo_run_def is_blank_def is_space_def)
  have store: "list_all storable_run (upserted run_id demo_run [])" "list_all storable_state (upserted state_key demo_state [])"
    by (simp_all add: upserted_def storable_run_def demo_run_def storable_time_def fits_int64_def
        storable_state_def demo_state_def)
  have q: "faults empty_lake = []" by (simp add: empty_lake_def)
  obtain w2 where run: "commit_success reference_polars reference_tables [] [''lake''] p demo_run demo_state empty_lake
      = (Inr (), w2)"
    using commit_quiet [OF ref_polars.polars_frames_axioms q p(2) none(1) valid store(1) _ none(2) store(2),
        where lake_root = "[''lake'']" and secrets = "[]"] by force
  have "row_at (pb_merged p) BRONZE_KEY [CStr ''fred'', CStr ''dgs10'', CDate 739000]
      = bronze_row (demo_bronze []) demo_fetch [CStr ''fred'', CStr ''dgs10'', CDate 739000]"
    and "lake_holds [''lake''] demo_contract (pb_merged p) w2"
    using bronze_table_upserted [OF ref_polars.polars_frames_axioms ref_joins.polars_joins_axioms valid b(2,1) s
        demo_empty_holds prep run] by simp_all
  moreover have "bronze_row (demo_bronze []) demo_fetch [CStr ''fred'', CStr ''dgs10'', CDate 739000]
      = Some [CStr ''fred'', CStr ''dgs10'', CDate 739000, CFloat 1, CDatetime 5]"
    by (simp add: bronze_row_def row_at_def demo_fetch_def demo_bronze_def demo_bronze_schema_def key_of_def BRONZE_KEY_def)
  ultimately show ?thesis
    using prep run by (intro exI [of _ p] exI [of _ empty_lake] exI [of _ w2]) simp
qed

end
