(* ===== verification/Retry_Policy.thy ===== *)
theory Retry_Policy
  imports Base
begin

text \<open>
  \<open>src/application/retry.py\<close>: the bounded exponential retry policy.  Seconds are exact rationals where
  the program has floats (its defaults and powers of two are exact).
\<close>

record retry_policy =
  max_attempts :: int
  initial_delay_seconds :: rat
  multiplier :: rat
  max_delay_seconds :: rat

definition RetryPolicy :: "int \<Rightarrow> rat \<Rightarrow> rat \<Rightarrow> rat \<Rightarrow> retry_policy result" where
  "RetryPolicy attempts initial factor max_delay =
    rbind (raise_if (attempts < 1) ValueError ''max_attempts must be >= 1'') (\<lambda>_.
    rbind (raise_if (initial < 0) ValueError ''initial_delay_seconds must be >= 0'') (\<lambda>_.
    rbind (raise_if (factor < 1) ValueError ''multiplier must be >= 1'') (\<lambda>_.
    rbind (raise_if (max_delay < 0) ValueError ''max_delay_seconds must be >= 0'') (\<lambda>_.
    Inr \<lparr>max_attempts = attempts, initial_delay_seconds = initial, multiplier = factor,
      max_delay_seconds = max_delay\<rparr>))))"

definition default_retry_policy :: retry_policy where
  "default_retry_policy =
    \<lparr>max_attempts = 3, initial_delay_seconds = 1 / 2, multiplier = 2, max_delay_seconds = 8\<rparr>"

definition retryable_status :: "int \<Rightarrow> bool" where
  "retryable_status code \<longleftrightarrow> code = 429 \<or> (500 \<le> code \<and> code \<le> 599)"

definition delay_after :: "retry_policy \<Rightarrow> int \<Rightarrow> rat option \<Rightarrow> rat result" where
  "delay_after p failed_attempt retry_after =
    (if failed_attempt < 1 then raise ValueError ''failed_attempt must be >= 1''
     else
       case (case retry_after of None \<Rightarrow> None | Some s \<Rightarrow> if 0 \<le> s then Some s else None) of
         Some s \<Rightarrow> Inr (min s (max_delay_seconds p))
       | None \<Rightarrow>
           Inr (min (initial_delay_seconds p * multiplier p ^ nat (failed_attempt - 1)) (max_delay_seconds p)))"

definition valid_policy :: "retry_policy \<Rightarrow> bool" where
  "valid_policy p \<longleftrightarrow>
    1 \<le> max_attempts p \<and> 0 \<le> initial_delay_seconds p \<and> 1 \<le> multiplier p \<and> 0 \<le> max_delay_seconds p"

lemma RetryPolicy_Inr:
  "RetryPolicy a i m d = Inr p \<longleftrightarrow>
    p = \<lparr>max_attempts = a, initial_delay_seconds = i, multiplier = m, max_delay_seconds = d\<rparr> \<and> valid_policy p"
  by (auto simp: RetryPolicy_def valid_policy_def rbind_Inr)

lemma delay_after_bounds:
  assumes "valid_policy p" "delay_after p n r = Inr d"
  shows "0 \<le> d \<and> d \<le> max_delay_seconds p"
  using assms by (auto simp: delay_after_def valid_policy_def split: if_splits option.splits)

lemma delay_monotone:
  assumes p: "valid_policy p" and d: "delay_after p n None = Inr d" and d': "delay_after p (n + 1) None = Inr d'"
  shows "d \<le> d'"
proof -
  have n: "1 \<le> n" using d by (auto simp: delay_after_def split: if_splits)
  then have "nat (n + 1 - 1) = Suc (nat (n - 1))" by linarith
  then have "multiplier p ^ nat (n - 1) \<le> multiplier p ^ nat (n + 1 - 1)"
    using p by (simp add: valid_policy_def mult_le_cancel_right1 zero_le_power)
  then have "initial_delay_seconds p * multiplier p ^ nat (n - 1)
      \<le> initial_delay_seconds p * multiplier p ^ nat (n + 1 - 1)"
    using p by (intro mult_left_mono) (auto simp: valid_policy_def)
  then show ?thesis
    using d d' n by (auto simp: delay_after_def min_def)
qed

lemma delay_after_total: "(\<exists>d. delay_after p n r = Inr d) \<longleftrightarrow> 1 \<le> n"
  by (auto simp: delay_after_def split: option.split)



end
