(* ===== verification/Http_Transport.thy ===== *)
theory Http_Transport
  imports Contracts Retry_Policy
begin

text \<open>
  \<open>src/ingestion/httpx_adapter.py\<close> with its ports (\<open>src/application/ports/http.py\<close>) and its error
  (\<open>src/application/errors.py\<close>): one provider request with bounded retries.  The httpx client and the
  sleeper are fields of the parameter \<open>http_client\<close>; \<open>HttpxError\<close> is \<open>httpx.TransportError\<close>.  The
  parameter \<open>float_of\<close> is Python's \<open>float\<close> on header texts, \<open>None\<close> where it raises; an infinite
  hint is not represented.  Debug logging is left out.
\<close>

section \<open>Requests, responses and errors\<close>

record request_context =
  ctx_provider :: provider
  ctx_series_id :: string
  ctx_source_id :: string

record http_request =
  req_method :: string
  req_url :: string
  req_params :: "(string \<times> string) list"
  req_headers :: "(string \<times> string) list"

record http_response =
  status_code :: int
  content_bytes :: string
  headers :: "(string \<times> string) list"

text \<open>\<open>str\<close> of a \<open>ProviderHttpError\<close>\<close>

definition provider_http_message :: "request_context \<Rightarrow> string \<Rightarrow> string \<Rightarrow> int option \<Rightarrow> string" where
  "provider_http_message ctx category request_path code =
    ''provider='' @ provider_value (ctx_provider ctx) @ '' series='' @ ctx_series_id ctx
      @ '' source='' @ ctx_source_id ctx @ '' category='' @ category
      @ (case code of None \<Rightarrow> [] | Some s \<Rightarrow> '' status='' @ string_of_int s)
      @ '' request='' @ request_path"

definition provider_http_error :: "request_context \<Rightarrow> string \<Rightarrow> string \<Rightarrow> int option \<Rightarrow> exn" where
  "provider_http_error ctx category request_path code =
    Exn ProviderHttpError (provider_http_message ctx category request_path code)"

section \<open>The request path shown in errors\<close>

text \<open>
  \<open>urllib.parse.urlsplit\<close> on a URL without control characters and brackets: the scheme before the
  first colon, the network location after two slashes up to the next slash, question mark or hash,
  then the path up to a question mark or hash.  \<open>hostname\<close> drops the user information before the last
  at sign and the port after the first colon, and is in lower case.
\<close>

definition ascii_lower :: "char \<Rightarrow> char" where
  "ascii_lower c =
    (case map_of (zip ''ABCDEFGHIJKLMNOPQRSTUVWXYZ'' ''abcdefghijklmnopqrstuvwxyz'') c of
       None \<Rightarrow> c | Some d \<Rightarrow> d)"

definition is_scheme_char :: "char \<Rightarrow> bool" where
  "is_scheme_char c \<longleftrightarrow>
    c \<in> set ''abcdefghijklmnopqrstuvwxyzABCDEFGHIJKLMNOPQRSTUVWXYZ0123456789+-.''"

definition is_letter :: "char \<Rightarrow> bool" where
  "is_letter c \<longleftrightarrow> c \<in> set ''abcdefghijklmnopqrstuvwxyzABCDEFGHIJKLMNOPQRSTUVWXYZ''"

definition before :: "char list \<Rightarrow> string \<Rightarrow> string" where
  "before stops s = takeWhile (\<lambda>c. c \<notin> set stops) s"

definition url_scheme :: "string \<Rightarrow> string \<times> string" where
  "url_scheme url =
    (let s = before '':'' url in
     if length s < length url \<and> s \<noteq> [] \<and> is_letter (hd s) \<and> list_all is_scheme_char s
     then (map ascii_lower s, drop (Suc (length s)) url) else ([], url))"

definition url_netloc :: "string \<Rightarrow> string \<times> string" where
  "url_netloc rest =
    (if take 2 rest = ''//'' then (let n = before ''/?#'' (drop 2 rest) in (n, drop (2 + length n) rest))
     else ([], rest))"

definition url_hostname :: "string \<Rightarrow> string" where
  "url_hostname netloc =
    map ascii_lower (before '':'' (rev (before ''@'' (rev netloc))))"

definition safe_request_path :: "string \<Rightarrow> string" where
  "safe_request_path url =
    (case url_scheme url of (scheme, rest) \<Rightarrow>
     case url_netloc rest of (netloc, rest') \<Rightarrow>
       scheme @ ''://'' @ url_hostname netloc @ before ''?'' (before ''#'' rest'))"

section \<open>The transport\<close>

text \<open>What the client returns: the status, the body and the headers with lower-case names.\<close>

record 'w http_client =
  hc_request :: "http_request \<Rightarrow> ('w, http_response) io"
  hc_sleep :: "rat \<Rightarrow> ('w, unit) io"

definition is_transport_error :: "exn \<Rightarrow> bool" where
  "is_transport_error e \<longleftrightarrow> exc_class e = HttpxError"

definition retry_after_seconds :: "(string \<Rightarrow> rat option) \<Rightarrow> http_response \<Rightarrow> rat option" where
  "retry_after_seconds float_of response =
    (case map_of (headers response) ''retry-after'' of
       None \<Rightarrow> None
     | Some raw \<Rightarrow>
         (case float_of raw of None \<Rightarrow> None | Some v \<Rightarrow> if v \<ge> 0 then Some v else None))"

text \<open>\<open>for attempt in range(1, max_attempts + 1)\<close>: the attempts that are left.\<close>

fun send_attempts ::
  "(string \<Rightarrow> rat option) \<Rightarrow> retry_policy \<Rightarrow> 'w http_client \<Rightarrow> http_request \<Rightarrow> request_context \<Rightarrow> int list \<Rightarrow>
    ('w, http_response) io" where
  "send_attempts float_of p client request ctx [] =
    throw (Exn AssertionError ''retry loop exhausted without terminal result'')"
| "send_attempts float_of p client request ctx (attempt # rest) =
    bind (try_except (bind (hc_request client request) (\<lambda>r. ret (Some r))) is_transport_error (\<lambda>_. ret None))
      (\<lambda>reply. case reply of
         None \<Rightarrow>
           if attempt \<ge> max_attempts p
           then throw (provider_http_error ctx ''transport_exhausted'' (safe_request_path (req_url request)) None)
           else seq (bind (lift (delay_after p attempt None)) (hc_sleep client))
                  (send_attempts float_of p client request ctx rest)
       | Some response \<Rightarrow>
           if retryable_status (status_code response)
           then if attempt \<ge> max_attempts p
                then throw (provider_http_error ctx ''http_retry_exhausted''
                       (safe_request_path (req_url request)) (Some (status_code response)))
                else seq (bind (lift (delay_after p attempt (retry_after_seconds float_of response))) (hc_sleep client))
                       (send_attempts float_of p client request ctx rest)
           else ret response)"

definition send ::
  "(string \<Rightarrow> rat option) \<Rightarrow> retry_policy \<Rightarrow> 'w http_client \<Rightarrow> http_request \<Rightarrow> request_context \<Rightarrow>
    ('w, http_response) io" where
  "send float_of p client request ctx = send_attempts float_of p client request ctx [1..max_attempts p]"

section \<open>A scripted network\<close>

text \<open>
  The network answers each request with the next outcome of a script and refuses the connection when
  the script is exhausted; requests and pauses are counted.  A statement about all scripts covers every
  behaviour of the network.
\<close>

type_synonym outcome = "exn + http_response"

record network =
  script :: "outcome list"
  requests :: nat
  pauses :: "rat list"

definition refused :: outcome where
  "refused = Inl (Exn HttpxError ''connection refused'')"

definition next_outcome :: "outcome list \<Rightarrow> outcome" where
  "next_outcome xs = (case xs of [] \<Rightarrow> refused | x # _ \<Rightarrow> x)"

definition answered :: "network \<Rightarrow> network" where
  "answered n = n\<lparr>script := tl (script n), requests := Suc (requests n)\<rparr>"

definition scripted_client :: "network http_client" where
  "scripted_client = \<lparr>
     hc_request = (\<lambda>_ n. (next_outcome (script n), answered n)),
     hc_sleep = (\<lambda>s n. (Inr (), n\<lparr>pauses := pauses n @ [s]\<rparr>))\<rparr>"

text \<open>An outcome after which no further attempt is made.\<close>

definition final_outcome :: "outcome \<Rightarrow> bool" where
  "final_outcome x =
    (case x of Inl e \<Rightarrow> \<not> is_transport_error e | Inr r \<Rightarrow> \<not> retryable_status (status_code r))"

text \<open>The error after the last attempt.\<close>

definition exhausted :: "request_context \<Rightarrow> string \<Rightarrow> outcome \<Rightarrow> exn" where
  "exhausted ctx request_path x =
    (case x of
       Inl _ \<Rightarrow> provider_http_error ctx ''transport_exhausted'' request_path None
     | Inr r \<Rightarrow> provider_http_error ctx ''http_retry_exhausted'' request_path (Some (status_code r)))"

text \<open>The outcomes the attempts would see, one for each attempt.\<close>

definition outcomes :: "nat \<Rightarrow> outcome list \<Rightarrow> outcome list" where
  "outcomes n xs = take n (xs @ replicate n refused)"

lemma take_replicate_Suc: "take n (xs @ replicate (Suc n) r) = take n (xs @ replicate n r)"
  by (simp add: min_def del: replicate.simps)

lemma outcomes_simps:
  "outcomes 0 xs = []" "outcomes (Suc n) xs = next_outcome xs # outcomes n (tl xs)"
proof -
  show "outcomes (Suc n) xs = next_outcome xs # outcomes n (tl xs)"
  proof (cases xs)
    case (Cons y ys)
    then show ?thesis
      using take_replicate_Suc [of n ys refused] by (simp add: outcomes_def next_outcome_def)
  qed (simp add: outcomes_def next_outcome_def)
qed (simp add: outcomes_def)

lemma outcomes_length [simp]: "length (outcomes n xs) = n"
  by (simp add: outcomes_def)

lemma last_outcomes_Cons: "0 < n \<Longrightarrow> last (x # outcomes n xs) = last (outcomes n xs)"
  by (cases n) (auto simp: outcomes_simps)

lemma upto_step: "a \<le> m \<Longrightarrow> [a..m] = a # [a + 1..m]"
  by (simp add: upto.simps)

definition hint_of :: "(string \<Rightarrow> rat option) \<Rightarrow> outcome \<Rightarrow> rat option" where
  "hint_of float_of x = (case x of Inl _ \<Rightarrow> None | Inr r \<Rightarrow> retry_after_seconds float_of r)"

lemma send_step:
  "send_attempts float_of p scripted_client request ctx (a # rest) w =
    (let x = next_outcome (script w) in
     if final_outcome x then (x, answered w)
     else if max_attempts p \<le> a then (Inl (exhausted ctx (safe_request_path (req_url request)) x), answered w)
     else case delay_after p a (hint_of float_of x) of
            Inl e \<Rightarrow> (Inl e, answered w)
          | Inr d \<Rightarrow> send_attempts float_of p scripted_client request ctx rest
                       ((answered w)\<lparr>pauses := pauses w @ [d]\<rparr>))"
  by (cases "next_outcome (script w)")
    (auto simp: Let_def io_run scripted_client_def final_outcome_def exhausted_def hint_of_def answered_def
      split: sum.splits)

definition attempts_made :: "nat \<Rightarrow> outcome list \<Rightarrow> nat" where
  "attempts_made n xs = min n (Suc (length (takeWhile (\<lambda>x. \<not> final_outcome x) (outcomes n xs))))"

lemma send_attempts_scripted:
  assumes "valid_policy p" "1 \<le> a" "a \<le> max_attempts p" "n = nat (max_attempts p - a)"
    and "send_attempts float_of p scripted_client request ctx [a..max_attempts p] w = (res, w')"
  shows "res = (case find final_outcome (outcomes (Suc n) (script w)) of
                  Some x \<Rightarrow> x
                | None \<Rightarrow> Inl (exhausted ctx (safe_request_path (req_url request)) (last (outcomes (Suc n) (script w)))))
    \<and> requests w' = requests w + attempts_made (Suc n) (script w)
    \<and> (\<exists>ds. pauses w' = pauses w @ ds \<and> list_all (\<lambda>d. 0 \<le> d \<and> d \<le> max_delay_seconds p) ds
        \<and> length ds = attempts_made (Suc n) (script w) - 1)"
  using assms(2-5)
proof (induction n arbitrary: a w)
  case 0
  then have "a = max_attempts p" by simp
  with 0 show ?case
    by (auto simp: upto_step outcomes_simps send_step attempts_made_def answered_def Let_def
        simp del: send_attempts.simps split: if_splits)
next
  case (Suc n)
  let ?x = "next_outcome (script w)"
  have a: "1 \<le> a + 1" "a + 1 \<le> max_attempts p" "n = nat (max_attempts p - (a + 1))"
    using Suc.prems by simp_all
  note out = outcomes_simps(2) [of "Suc n" "script w"]
  show ?case
  proof (cases "final_outcome ?x")
    case True
    then have "res = ?x" "w' = answered w"
      using Suc.prems(4) a(2) by (simp_all add: upto_step send_step Let_def del: send_attempts.simps)
    then show ?thesis
      using True by (simp add: out attempts_made_def answered_def)
  next
    case False
    obtain d where d: "delay_after p a (hint_of float_of ?x) = Inr d"
      using delay_after_total Suc.prems(1) by blast
    have "send_attempts float_of p scripted_client request ctx [a + 1..max_attempts p]
        ((answered w)\<lparr>pauses := pauses w @ [d]\<rparr>) = (res, w')"
      using Suc.prems(4) False a(2) d by (simp add: upto_step send_step Let_def del: send_attempts.simps)
    note IH = Suc.IH [OF a this]
    have w1: "script ((answered w)\<lparr>pauses := pauses w @ [d]\<rparr>) = tl (script w)"
      "requests ((answered w)\<lparr>pauses := pauses w @ [d]\<rparr>) = Suc (requests w)"
      "pauses ((answered w)\<lparr>pauses := pauses w @ [d]\<rparr>) = pauses w @ [d]"
      by (simp_all add: answered_def)
    have last: "last (outcomes (Suc (Suc n)) (script w)) = last (outcomes (Suc n) (tl (script w)))"
      unfolding out by (rule last_outcomes_Cons) simp
    have made: "attempts_made (Suc (Suc n)) (script w) = Suc (attempts_made (Suc n) (tl (script w)))"
      using False by (simp add: attempts_made_def out)
    have found: "find final_outcome (outcomes (Suc (Suc n)) (script w)) =
        find final_outcome (outcomes (Suc n) (tl (script w)))"
      using False unfolding out by simp
    obtain ds where ds: "pauses w' = pauses w @ [d] @ ds" "list_all (\<lambda>d. 0 \<le> d \<and> d \<le> max_delay_seconds p) ds"
        "length ds = attempts_made (Suc n) (tl (script w)) - 1"
      using IH unfolding w1 by auto
    have "0 < attempts_made (Suc n) (tl (script w))"
      by (simp add: attempts_made_def)
    with ds made have "length ([d] @ ds) = attempts_made (Suc (Suc n)) (script w) - 1"
      by simp
    moreover have "list_all (\<lambda>d. 0 \<le> d \<and> d \<le> max_delay_seconds p) ([d] @ ds)"
      using ds(2) delay_after_bounds [OF assms(1) d] by simp
    moreover have "requests w' = requests w + attempts_made (Suc (Suc n)) (script w)"
      using IH made unfolding w1 by simp
    ultimately show ?thesis
      using IH ds(1) unfolding w1 found last by blast
  qed
qed


definition demo_network :: network where
  "demo_network = \<lparr>script = [Inr \<lparr>status_code = 503, content_bytes = [], headers = [(''retry-after'', ''2'')]\<rparr>,
     Inl (Exn HttpxError ''reset''), Inr \<lparr>status_code = 200, content_bytes = ''ok'', headers = []\<rparr>],
     requests = 0, pauses = []\<rparr>"

definition demo_request :: http_request where
  "demo_request = \<lparr>req_method = ''GET'', req_url = ''https://user:pw@Fred.example:443/series?api_key=x'',
     req_params = [], req_headers = []\<rparr>"

definition demo_context :: request_context where
  "demo_context = \<lparr>ctx_provider = FRED, ctx_series_id = ''dgs10'', ctx_source_id = ''DGS10''\<rparr>"


lemma before_append:
  "set xs \<inter> set stops = {} \<Longrightarrow> ys = [] \<or> hd ys \<in> set stops \<Longrightarrow> before stops (xs @ ys) = xs"
  by (induction xs) (cases ys; auto simp: before_def)+

lemma before_all: "set xs \<inter> set stops = {} \<Longrightarrow> before stops xs = xs"
  using before_append [of xs stops "[]"] by simp

lemma letter_scheme: "is_letter c \<Longrightarrow> is_scheme_char c \<and> c \<notin> set '':''"
  by (auto simp: is_letter_def is_scheme_char_def)

lemma url_scheme_of:
  assumes "list_all is_letter scheme" "scheme \<noteq> []"
  shows "url_scheme (scheme @ '':'' @ rest) = (map ascii_lower scheme, rest)"
proof -
  have "before '':'' (scheme @ '':'' @ rest) = scheme"
    using assms letter_scheme by (intro before_append) (auto simp: list_all_iff)
  then show ?thesis
    using assms letter_scheme by (simp add: url_scheme_def Let_def) (metis list_all_iff hd_in_set list.pred_mono_strong)
qed

lemma url_hostname_of:
  assumes "set host \<inter> set ''@:'' = {}" "set port \<inter> set ''@:'' = {}"
  shows "url_hostname (user @ ''@'' @ host @ '':'' @ port) = map ascii_lower host"
proof -
  have "before ''@'' (rev (host @ '':'' @ port) @ rev (user @ ''@'')) = rev (host @ '':'' @ port)"
    using assms by (intro before_append) auto
  moreover have "before '':'' (host @ '':'' @ port) = host"
    using assms by (intro before_append) auto
  ultimately show ?thesis
    by (simp add: url_hostname_def)
qed



end
