(* ===== verification/Lake_Faults.thy ===== *)
theory Lake_Faults
  imports Bronze_Commit
begin

text \<open>
  Every operation on the lake consumes a part of the fault plan, so after an operation the plan is a
  suffix of the plan before.  With no faults left, a rollback succeeds.
\<close>

definition shrinks :: "('z fault_world_scheme, 'a) io \<Rightarrow> bool" where
  "shrinks m \<longleftrightarrow> (\<forall>w. suffix (faults (snd (m w))) (faults w))"

named_theorems shrinks_intros

lemma shrinksI: "(\<And>w r w'. m w = (r, w') \<Longrightarrow> suffix (faults w') (faults w)) \<Longrightarrow> shrinks m"
  unfolding shrinks_def by (metis prod.collapse)

lemma shrinksD: "shrinks m \<Longrightarrow> m w = (r, w') \<Longrightarrow> suffix (faults w') (faults w)"
  by (metis shrinks_def snd_conv)

lemma shrinks_basic [shrinks_intros]:
  "shrinks (ret x)" "shrinks (throw e)" "shrinks (lift r)" "shrinks (gets f)"
  by (auto simp: shrinks_def io_simps)

lemma shrinks_modify: "(\<And>w. faults (f w) = faults w) \<Longrightarrow> shrinks (modify f)"
  by (simp add: shrinks_def modify_def)

lemma shrinks_fault_point [shrinks_intros]: "shrinks fault_point"
  by (rule shrinksI) (auto simp: fault_point_def suffix_Cons split: list.splits option.splits)

lemma shrinks_bind [shrinks_intros]: "shrinks m \<Longrightarrow> (\<And>x. shrinks (f x)) \<Longrightarrow> shrinks (bind m f)"
  by (rule shrinksI)
    (auto simp: bind_def split: prod.splits sum.splits, (blast dest: shrinksD intro: suffix_order.trans)+)

lemma shrinks_seq [shrinks_intros]: "shrinks m \<Longrightarrow> shrinks n \<Longrightarrow> shrinks (seq m n)"
  unfolding seq_def by (rule shrinks_bind)

lemma shrinks_try_except [shrinks_intros]: "shrinks m \<Longrightarrow> (\<And>e. shrinks (h e)) \<Longrightarrow> shrinks (try_except m p h)"
  by (rule shrinksI)
    (auto simp: try_except_def split: prod.splits sum.splits if_splits, (blast dest: shrinksD intro: suffix_order.trans)+)

lemma shrinks_try_finally [shrinks_intros]: "shrinks m \<Longrightarrow> shrinks n \<Longrightarrow> shrinks (try_finally m n)"
  by (rule shrinksI)
    (auto simp: try_finally_def split: prod.splits sum.splits, (blast dest: shrinksD intro: suffix_order.trans)+)

lemma shrinks_for_each [shrinks_intros]: "(\<And>x. shrinks (f x)) \<Longrightarrow> shrinks (for_each f xs)"
  by (induction xs) (auto intro: shrinks_intros)

lemma shrinks_collect [shrinks_intros]: "(\<And>x. shrinks (f x)) \<Longrightarrow> shrinks (collect f xs)"
  by (induction xs) (auto intro: shrinks_intros)

lemma shrinks_if [shrinks_intros]: "shrinks m \<Longrightarrow> shrinks n \<Longrightarrow> shrinks (if b then m else n)"
  by simp

lemma shrinks_case_option [shrinks_intros]:
  "shrinks m \<Longrightarrow> (\<And>x. shrinks (f x)) \<Longrightarrow> shrinks (case y of None \<Rightarrow> m | Some x \<Rightarrow> f x)"
  by (cases y) auto

section \<open>The operations\<close>

lemma shrinks_files [shrinks_intros]:
  "shrinks (mkdir_parents p)" "shrinks mkstemp" "shrinks (write_temp t c)" "shrinks (unlink_temp t)"
  "shrinks (os_replace t p)" "shrinks (unlink_file p)" "shrinks sync_directory"
  unfolding mkdir_parents_def mkstemp_def write_temp_def unlink_temp_def os_replace_def unlink_file_def sync_directory_def
  by (auto intro!: shrinks_intros shrinks_modify split: option.splits)

lemma shrinks_read_parquet [shrinks_intros]: "shrinks (read_parquet p)"
  unfolding read_parquet_def by (auto intro!: shrinks_intros split: option.splits content.splits)

lemma shrinks_atomic_write [shrinks_intros]: "shrinks (atomic_write c p)" "shrinks (atomic_write_parquet f p)"
  unfolding atomic_write_parquet_def atomic_write_def write_and_rename_def by (intro shrinks_intros)+

lemma shrinks_snapshots [shrinks_intros]:
  "shrinks (snapshot_read schema of_row m p)"
  "shrinks (snapshot_upsert pl schema dict of_row key keys order m dm p x)"
  unfolding snapshot_upsert_def snapshot_read_def snapshot_write_def by (intro shrinks_intros)+

lemma shrinks_uow [shrinks_intros]:
  "shrinks (backup_file p)" "shrinks (restore_file b)" "shrinks (rollback bs)"
  "shrinks (commit_writes pl secrets lake_root months prepared r st)"
  "shrinks (upsert_run pl secrets p r)" "shrinks (month_paths q)" "shrinks (existing_paths ps)"
  unfolding backup_file_def restore_file_def rollback_def commit_writes_def write_month_def upsert_run_snapshot
    upsert_state_snapshot month_paths_def existing_paths_def
  by (intro shrinks_intros)+

lemma shrinks_commit [shrinks_intros]: "shrinks (commit_success pl T secrets lake_root prepared r st)"
  unfolding commit_success_def by (intro shrinks_intros)

section \<open>Without faults\<close>

lemma restore_quiet:
  assumes "faults w = []"
  shows "\<exists>w'. restore_file b w = (Inr (), w') \<and> faults w' = []"
  using assms
  by (auto simp: restore_file_def unlink_file_def mkdir_parents_def mkstemp_def write_temp_def os_replace_def
      seq_def bind_def fault_point_quiet modify_def gets_def ret_def try_except_def split: option.split)

lemma rollback_quiet:
  assumes "faults w = []"
  shows "is_ok (fst (rollback bs w))"
proof -
  have "is_ok (fst (for_each restore_file cs w))" if "faults w = []" for cs
    using that
  proof (induction cs arbitrary: w)
    case (Cons b cs)
    obtain w1 where "restore_file b w = (Inr (), w1)" "faults w1 = []"
      using restore_quiet [OF Cons.prems] by blast
    then show ?case
      using Cons.IH [of w1] by (simp add: seq_def bind_def)
  qed (simp add: ret_def)
  then show ?thesis
    using assms by (simp add: rollback_def)
qed

lemma rollback_complete:
  assumes "faults w = []"
  shows "\<not> rollback_fails pl T secrets lake_root prepared r st w"
proof
  assume "rollback_fails pl T secrets lake_root prepared r st w"
  then obtain months bs w1 e w2 e' w3 where
    1: "collect backup_file (tracked_files lake_root (pb_contract prepared) months) w = (Inr bs, w1)" and
    2: "commit_writes pl secrets lake_root months prepared r st w1 = (Inl e, w2)" and
    3: "rollback bs w2 = (Inl e', w3)"
    unfolding rollback_fails_def by blast
  have "shrinks (collect backup_file (tracked_files lake_root (pb_contract prepared) months) :: ('a lake_scheme, _) io)"
    by (intro shrinks_intros)
  from shrinksD [OF this 1] have "suffix (faults w1) (faults w)" .
  moreover have "shrinks (commit_writes pl secrets lake_root months prepared r st :: ('a lake_scheme, _) io)"
    by (rule shrinks_uow)
  from shrinksD [OF this 2] have "suffix (faults w2) (faults w1)" .
  ultimately have "faults w2 = []"
    using assms by simp
  then show False
    using rollback_quiet [of w2 bs] 3 by simp
qed

end
