(* ===== verification/Bronze_Orchestration.thy ===== *)
theory Bronze_Orchestration
  imports Lake_Faults
begin

text \<open>
  \<open>src/application/bronze_orchestration.py\<close> with its ports \<open>src/application/ports/market_data.py\<close> and
  \<open>src/application/ports/bronze.py\<close>: one isolated series run (plan, fetch, window check, prepare, audit,
  commit) and a batch of them.  The execution policy runs the series of a batch in threads; here they run
  in the order of the batch.  The write lock of the class has no effect on one thread.
\<close>

section \<open>Ports and results\<close>

record provider_request =
  pr_operation :: operation_mode
  pr_logical_start :: "int option"
  pr_logical_end :: int
  pr_maximum_history :: bool

text \<open>The constructor: the checks of \<open>__post_init__\<close>.\<close>

definition ProviderRequest :: "provider_request \<Rightarrow> provider_request result" where
  "ProviderRequest r =
    rbind (raise_if (\<exists>s \<in> set_option (pr_logical_start r). pr_logical_end r < s)
      ValueError ''logical_start cannot be after logical_end'') (\<lambda>_.
    rbind (raise_if (pr_operation r = UPDATE \<and> pr_logical_start r = None)
      ValueError ''update requires a bounded logical_start'') (\<lambda>_.
    rbind (raise_if (pr_operation r \<noteq> UPDATE \<and> \<not> pr_maximum_history r)
      ValueError ''bootstrap/reconcile require maximum_history'') (\<lambda>_.
    Inr r)))"

text \<open>The port of the unit of work.\<close>

record 'w unit_of_work =
  uow_bounds_of :: "series_contract \<Rightarrow> ('w, observation_bounds) io"
  uow_state_of :: "series_contract \<Rightarrow> ('w, ingestion_state) io"
  uow_prepare :: "series_contract \<Rightarrow> frame \<Rightarrow> ('w, prepared_bronze) io"
  uow_commit :: "prepared_bronze \<Rightarrow> ingestion_run \<Rightarrow> ingestion_state \<Rightarrow> ('w, unit) io"
  uow_failure :: "ingestion_run \<Rightarrow> ('w, unit) io"

definition filesystem_uow :: "polars \<Rightarrow> polars_tables \<Rightarrow> string list \<Rightarrow> path \<Rightarrow> 'z lake_scheme unit_of_work" where
  "filesystem_uow pl T secrets lake_root = \<lparr>
     uow_bounds_of = uow_bounds lake_root,
     uow_state_of = uow_state lake_root,
     uow_prepare = prepare pl T lake_root,
     uow_commit = commit_success pl T secrets lake_root,
     uow_failure = record_failure pl secrets lake_root\<rparr>"

type_synonym 'w market_data_provider = "series_contract \<Rightarrow> provider_request \<Rightarrow> ('w, frame) io"

text \<open>
  The orchestrator.  \<open>or_exc_name\<close> is \<open>type(exc).__name__\<close>: the classes of third-party exceptions are not
  in the repository.
\<close>

record 'w orchestrator =
  or_registry :: "string \<Rightarrow> series_contract option"
  or_providers :: "provider \<Rightarrow> 'w market_data_provider option"
  or_uow :: "'w unit_of_work"
  or_planner :: "int option"
  or_clock :: "('w, datetime) io"
  or_run_id :: "string \<Rightarrow> ('w, string) io"
  or_exc_name :: "exn \<Rightarrow> string"

record series_run_result =
  sr_series_id :: string
  sr_provider :: provider
  sr_run_id :: string
  sr_mode :: operation_mode
  sr_request_start :: "int option"
  sr_request_end :: int
  sr_maximum_history :: bool
  sr_inserted_rows :: nat
  sr_revised_rows :: nat
  sr_written_partitions :: nat

record batch_run_result =
  br_successes :: "series_run_result list"
  br_failures :: "string list"

section \<open>One series\<close>

definition resolve_contract :: "'w orchestrator \<Rightarrow> string \<Rightarrow> series_contract result" where
  "resolve_contract B series =
    (case or_registry B series of
       None \<Rightarrow> raise KeyError (''unknown canonical series_id: '' @ series) | Some c \<Rightarrow> Inr c)"

definition resolve_provider :: "'w orchestrator \<Rightarrow> provider \<Rightarrow> 'w market_data_provider result" where
  "resolve_provider B p =
    (case or_providers B p of
       None \<Rightarrow> raise KeyError (''provider adapter not registered: '' @ provider_value p) | Some f \<Rightarrow> Inr f)"

definition utc_now :: "'w orchestrator \<Rightarrow> ('w, datetime) io" where
  "utc_now B =
    bind (or_clock B) (\<lambda>now.
      if \<not> is_aware now then throw (Exn ValueError ''clock must return timezone-aware datetime'')
      else ret (astimezone_utc now))"

definition provider_request_of :: "fetch_instruction \<Rightarrow> provider_request result" where
  "provider_request_of plan =
    ProviderRequest \<lparr>pr_operation = fi_mode plan, pr_logical_start = opt_or (filter_start plan) (request_start plan),
      pr_logical_end = request_end plan, pr_maximum_history = maximum_history plan\<rparr>"

text \<open>
  \<open>_enforce_window\<close>: \<open>~is_between\<close> is null on a null date, and a filter drops nulls.  A column of another
  type than \<open>Date\<close> raises here.
\<close>

definition outside_window :: "int \<Rightarrow> int \<Rightarrow> cell \<Rightarrow> bool" where
  "outside_window start until x = (case x of CDate d \<Rightarrow> \<not> (start \<le> d \<and> d \<le> until) | _ \<Rightarrow> False)"

definition enforce_window :: "frame \<Rightarrow> fetch_instruction \<Rightarrow> frame result" where
  "enforce_window f plan =
    (if fi_mode plan \<noteq> UPDATE \<or> is_empty_frame f then Inr f
     else
       case opt_or (filter_start plan) (request_start plan) of
         None \<Rightarrow> raise AssertionError ''bounded update has no logical start''
       | Some start \<Rightarrow>
           rbind (raise_if (''observation_date'' \<notin> set (f_columns f))
             ValueError ''provider frame is missing observation_date'') (\<lambda>_.
           rbind (raise_if (map_of (f_schema f) ''observation_date'' \<noteq> Some DDate)
             PolarsError ''observation_date is not Date'') (\<lambda>_.
           rbind (raise_if (list_ex (outside_window start (request_end plan)) (column_cells f ''observation_date''))
             ValueError ''provider returned observations outside logical request window'') (\<lambda>_.
           Inr f))))"

text \<open>The audit of an attempt: \<open>_success_run\<close>, and the record of the exception handler.\<close>

definition success_run ::
  "string \<Rightarrow> series_contract \<Rightarrow> fetch_instruction \<Rightarrow> datetime \<Rightarrow> datetime \<Rightarrow> nat \<Rightarrow> nat \<Rightarrow> prepared_bronze \<Rightarrow>
    ingestion_run result" where
  "success_run rid c plan started completed fetched accepted p =
    rbind (RunMode (operation_value (fi_mode plan))) (\<lambda>m.
    IngestionRunRecord \<lparr>run_id = rid, run_provider = series_provider c, run_series_id = series_id c, run_mode_of = m,
      run_requested_start = opt_or (filter_start plan) (request_start plan), run_requested_end = Some (request_end plan),
      run_fetched_rows = int fetched, run_accepted_rows = int accepted,
      run_inserted_rows = int (f_height (inserts (pb_diff p))), run_revised_rows = int (f_height (revisions (pb_diff p))),
      run_written_partitions = int (pb_written_partitions p), run_status_of = RUN_SUCCESS,
      run_started_at = started, run_completed_at = completed, run_error_category = None, run_error_message = None\<rparr>)"

definition failed_run ::
  "string \<Rightarrow> series_contract \<Rightarrow> fetch_instruction \<Rightarrow> datetime \<Rightarrow> datetime \<Rightarrow> nat \<Rightarrow> nat \<Rightarrow> string \<Rightarrow>
    ingestion_run result" where
  "failed_run rid c plan started completed fetched accepted category =
    rbind (RunMode (operation_value (fi_mode plan))) (\<lambda>m.
    IngestionRunRecord \<lparr>run_id = rid, run_provider = series_provider c, run_series_id = series_id c, run_mode_of = m,
      run_requested_start = opt_or (filter_start plan) (request_start plan), run_requested_end = Some (request_end plan),
      run_fetched_rows = int fetched, run_accepted_rows = int accepted, run_inserted_rows = 0, run_revised_rows = 0,
      run_written_partitions = 0, run_status_of = RUN_FAILED, run_started_at = started, run_completed_at = completed,
      run_error_category = Some category, run_error_message = Some ''series ingestion failed''\<rparr>)"

text \<open>
  The handler of the attempt, with the counts of rows at the time of the exception; and a step of the
  attempt, whose exceptions go to a handler while the rest has a handler of its own.
\<close>

definition audit_failure ::
  "'w orchestrator \<Rightarrow> string \<Rightarrow> series_contract \<Rightarrow> fetch_instruction \<Rightarrow> datetime \<Rightarrow> nat \<Rightarrow> nat \<Rightarrow> exn \<Rightarrow> ('w, 'a) io" where
  "audit_failure B rid c plan started fetched accepted e =
    (if \<not> is_exception e then throw e
     else
       bind (utc_now B) (\<lambda>completed.
       bind (lift (failed_run rid c plan started completed fetched accepted (or_exc_name B e))) (\<lambda>failed.
       seq (uow_failure (or_uow B) failed) (throw e))))"

definition guarded :: "(exn \<Rightarrow> ('w, 'b) io) \<Rightarrow> ('w, 'a) io \<Rightarrow> ('a \<Rightarrow> ('w, 'b) io) \<Rightarrow> ('w, 'b) io" where
  "guarded h m k w = (case m w of (Inl e, w') \<Rightarrow> h e w' | (Inr x, w') \<Rightarrow> k x w')"

text \<open>The attempt after the window check: prepare, audit record, next state, commit.\<close>

definition commit_series ::
  "'w orchestrator \<Rightarrow> string \<Rightarrow> series_contract \<Rightarrow> fetch_instruction \<Rightarrow> datetime \<Rightarrow> nat \<Rightarrow> frame \<Rightarrow>
    ('w, prepared_bronze) io" where
  "commit_series B rid c plan started fetched accepted =
    bind (uow_prepare (or_uow B) c accepted) (\<lambda>p.
    bind (utc_now B) (\<lambda>completed.
    bind (lift (success_run rid c plan started completed fetched (f_height accepted) p)) (\<lambda>r.
    bind (uow_state_of (or_uow B) c) (\<lambda>prior.
    bind (lift (advance_state prior plan completed (pb_post_bounds p) (int fetched) (int (f_height accepted))
        (int (f_height (inserts (pb_diff p)) + f_height (revisions (pb_diff p)))) True True)) (\<lambda>next_state.
    seq (uow_commit (or_uow B) p r next_state) (ret p))))))"

definition run_attempt ::
  "'w orchestrator \<Rightarrow> string \<Rightarrow> string \<Rightarrow> series_contract \<Rightarrow> 'w market_data_provider \<Rightarrow> fetch_instruction \<Rightarrow>
    datetime \<Rightarrow> ('w, series_run_result) io" where
  "run_attempt B series rid c fetch plan started =
    (let failure = audit_failure B rid c plan started in
     guarded (failure 0 0) (bind (lift (provider_request_of plan)) (fetch c)) (\<lambda>incoming.
     guarded (failure (f_height incoming) 0) (lift (enforce_window incoming plan)) (\<lambda>accepted.
     guarded (failure (f_height incoming) (f_height accepted))
       (commit_series B rid c plan started (f_height incoming) accepted) (\<lambda>p.
     ret \<lparr>sr_series_id = series, sr_provider = series_provider c, sr_run_id = rid, sr_mode = fi_mode plan,
       sr_request_start = opt_or (filter_start plan) (request_start plan), sr_request_end = request_end plan,
       sr_maximum_history = maximum_history plan, sr_inserted_rows = f_height (inserts (pb_diff p)),
       sr_revised_rows = f_height (revisions (pb_diff p)), sr_written_partitions = pb_written_partitions p\<rparr>))))"

definition plan_series ::
  "'w orchestrator \<Rightarrow> series_contract \<Rightarrow> operation_mode \<Rightarrow> int \<Rightarrow> ('w, fetch_instruction) io" where
  "plan_series B c operation today =
    bind (uow_bounds_of (or_uow B) c) (\<lambda>bounds.
    seq (lift (raise_if (operation = BOOTSTRAP \<and> bounds_maximum bounds \<noteq> None)
      ValueError ''explicit bootstrap requires empty authoritative Bronze''))
    (bind (lift (build_plan c bounds today (operation = RECONCILE) (or_planner B))) (\<lambda>plan.
    seq (lift (raise_if (operation = BOOTSTRAP \<and> fi_mode plan \<noteq> BOOTSTRAP)
      ValueError ''explicit bootstrap did not resolve to bootstrap plan''))
    (seq (lift (raise_if (operation = UPDATE \<and> bounds_maximum bounds \<noteq> None
        \<and> (fi_mode plan \<noteq> UPDATE \<or> maximum_history plan))
      AssertionError ''normal existing-history call must remain a bounded update''))
    (ret plan)))))"

definition run_series ::
  "'w orchestrator \<Rightarrow> string \<Rightarrow> operation_mode \<Rightarrow> int \<Rightarrow> ('w, series_run_result) io" where
  "run_series B series operation today =
    bind (lift (resolve_contract B series)) (\<lambda>c.
    bind (lift (resolve_provider B (series_provider c))) (\<lambda>fetch.
    bind (plan_series B c operation today) (\<lambda>plan.
    bind (or_run_id B series) (\<lambda>rid.
    bind (utc_now B) (\<lambda>started.
    run_attempt B series rid c fetch plan started)))))"

section \<open>A batch\<close>

text \<open>\<open>run_one\<close>: the outcome of a series, \<open>None\<close> when it failed.\<close>

definition run_one ::
  "'w orchestrator \<Rightarrow> operation_mode \<Rightarrow> int \<Rightarrow> string \<Rightarrow> ('w, series_run_result option) io" where
  "run_one B operation today series =
    try_except (bind (run_series B series operation today) (\<lambda>r. ret (Some r))) is_exception (\<lambda>_. ret None)"

definition batch_of :: "string list \<Rightarrow> series_run_result option list \<Rightarrow> batch_run_result" where
  "batch_of selected outcomes =
    \<lparr>br_successes = List.map_filter (\<lambda>x. x) outcomes,
     br_failures = map fst (filter (\<lambda>p. snd p = None) (zip selected outcomes))\<rparr>"

definition run_many :: "'w orchestrator \<Rightarrow> string list \<Rightarrow> operation_mode \<Rightarrow> int \<Rightarrow> ('w, batch_run_result) io" where
  "run_many B selected operation today =
    seq (lift (raise_if (\<not> distinct selected) ValueError ''run_many requires distinct series IDs''))
      (bind (collect (run_one B operation today) selected) (\<lambda>outcomes. ret (batch_of selected outcomes)))"

end
