(* ===== verification/Daily_Pipeline.thy ===== *)
theory Daily_Pipeline
  imports Bronze_Orchestration Gold_Publication Gold_Retention Gold_Frame
begin

text \<open>
  \<open>src/application/daily_pipeline.py\<close>: the operational commands and the strict daily workflow over their
  services.  The Polars execution policy maps its function over the items in threads; here it runs them in
  order and stops at the first exception.
\<close>

section \<open>Services and results\<close>

text \<open>The values of a structured event.\<close>

datatype event_value = EvNone | EvStr string | EvInt int | EvBool bool | EvList "string list"

record event =
  ev_run_id :: string
  ev_command :: string
  ev_stage :: string
  ev_status :: string
  ev_context :: "(string \<times> event_value) list"

text \<open>
  The collaborators.  \<open>dp_assemble\<close> is \<open>assemble_gold_frame\<close> with the third-party functions it uses,
  \<open>dp_now\<close> the date of \<open>datetime.now(UTC)\<close>.
\<close>

record 'w daily_pipeline =
  dp_registry :: "(string \<times> series_contract) list"
  dp_bronze :: "'w orchestrator"
  dp_silver_build :: "series_contract \<Rightarrow> ('w, frame_diff) io"
  dp_silver_read :: "series_contract \<Rightarrow> ('w, frame) io"
  dp_assemble :: "(string \<times> frame) list \<Rightarrow> gold_frame_build result"
  dp_publisher :: "('w, frame, silver_input_signature list) publisher"
  dp_retain :: int
  dp_retention :: "'w retention"
  dp_inventory :: "('w, unit) io"
  dp_run_id :: "string \<Rightarrow> ('w, string) io"
  dp_event :: "event \<Rightarrow> ('w, unit) io"
  dp_now :: "('w, int) io"

record command_result =
  cr_command :: string
  cr_run_id :: string
  cr_selected :: "string list"
  cr_bronze :: "batch_run_result option"
  cr_gold_build_id :: "string option"
  cr_retention :: "retention_result option"

definition command_result_of :: "string \<Rightarrow> string \<Rightarrow> string list \<Rightarrow> command_result" where
  "command_result_of command rid selected =
    \<lparr>cr_command = command, cr_run_id = rid, cr_selected = selected, cr_bronze = None, cr_gold_build_id = None,
     cr_retention = None\<rparr>"

text \<open>\<open>ProviderBatchError\<close> is a \<open>RuntimeError\<close>.\<close>

definition provider_batch_error :: "string list \<Rightarrow> exn" where
  "provider_batch_error failures = Exn RuntimeError (''provider failures: '' @ join_with '', '' failures)"

section \<open>Events\<close>

definition emit ::
  "'w daily_pipeline \<Rightarrow> string \<Rightarrow> string \<Rightarrow> string \<Rightarrow> string \<Rightarrow> (string \<times> event_value) list \<Rightarrow> ('w, unit) io" where
  "emit P rid command stage_name status_name context =
    dp_event P \<lparr>ev_run_id = rid, ev_command = command, ev_stage = stage_name, ev_status = status_name, ev_context = context\<rparr>"

definition start_command :: "'w daily_pipeline \<Rightarrow> string \<Rightarrow> string list \<Rightarrow> ('w, string) io" where
  "start_command P command selected =
    bind (dp_run_id P command) (\<lambda>rid.
    seq (emit P rid command ''command'' ''started'' [(''selected_series'', EvList selected)]) (ret rid))"

definition finish_command :: "'w daily_pipeline \<Rightarrow> string \<Rightarrow> string \<Rightarrow> string \<Rightarrow> ('w, unit) io" where
  "finish_command P rid command status_name = emit P rid command ''command'' status_name []"

text \<open>
  \<open>try: body; finish "success"; return except Exception: finish "failed"; raise\<close>: the frame of every
  command.  The success event is inside the \<open>try\<close>.
\<close>

definition in_command :: "'w daily_pipeline \<Rightarrow> string \<Rightarrow> string \<Rightarrow> ('w, 'a) io \<Rightarrow> ('w, 'a) io" where
  "in_command P rid command body =
    try_except (bind body (\<lambda>r. seq (finish_command P rid command ''success'') (ret r))) is_exception
      (\<lambda>e. seq (finish_command P rid command ''failed'') (throw e))"

definition success_context :: "series_run_result \<Rightarrow> (string \<times> event_value) list" where
  "success_context r =
    [(''series'', EvStr (sr_series_id r)), (''provider'', EvStr (provider_value (sr_provider r))),
     (''mode'', EvStr (operation_value (sr_mode r))),
     (''request_start'', case sr_request_start r of None \<Rightarrow> EvNone | Some d \<Rightarrow> EvStr (date_iso d)),
     (''request_end'', EvStr (date_iso (sr_request_end r))), (''maximum_history'', EvBool (sr_maximum_history r)),
     (''inserted_rows'', EvInt (int (sr_inserted_rows r))), (''revised_rows'', EvInt (int (sr_revised_rows r))),
     (''written_partitions'', EvInt (int (sr_written_partitions r)))]"

definition lookup_series :: "'w daily_pipeline \<Rightarrow> string \<Rightarrow> series_contract result" where
  "lookup_series P series = (case map_of (dp_registry P) series of None \<Rightarrow> raise KeyError series | Some c \<Rightarrow> Inr c)"

definition log_bronze_results :: "'w daily_pipeline \<Rightarrow> string \<Rightarrow> string \<Rightarrow> batch_run_result \<Rightarrow> ('w, unit) io" where
  "log_bronze_results P rid command batch =
    seq (for_each (\<lambda>r. emit P rid command ''bronze-series'' ''success'' (success_context r)) (br_successes batch))
    (seq (for_each (\<lambda>series. bind (lift (lookup_series P series)) (\<lambda>c.
           emit P rid command ''bronze-series'' ''failed''
             [(''series'', EvStr series), (''provider'', EvStr (provider_value (series_provider c)))]))
         (br_failures batch))
      (emit P rid command ''bronze'' (if br_failures batch = [] then ''success'' else ''failed'')
        [(''failures'', EvList (br_failures batch))]))"

section \<open>Commands\<close>

definition resolve_series :: "'w daily_pipeline \<Rightarrow> string list \<Rightarrow> string list result" where
  "resolve_series P series_ids =
    (let selected = (if series_ids \<noteq> [] then series_ids else map fst (dp_registry P));
         duplicates = filter (\<lambda>s. 1 < count_list selected s) selected;
         unknown = filter (\<lambda>s. map_of (dp_registry P) s = None) selected
     in rbind (raise_if (duplicates \<noteq> []) ValueError
          (''duplicate --series value: '' @ names_repr (sort (remdups duplicates)))) (\<lambda>_.
        rbind (raise_if (unknown \<noteq> []) ValueError (''unknown series: '' @ join_with '', '' (sort unknown))) (\<lambda>_.
        Inr selected)))"

definition source_command ::
  "'w daily_pipeline \<Rightarrow> string \<Rightarrow> string list \<Rightarrow> operation_mode \<Rightarrow> int \<Rightarrow> ('w, command_result) io" where
  "source_command P command series_ids operation today =
    bind (lift (resolve_series P series_ids)) (\<lambda>selected.
    bind (start_command P command selected) (\<lambda>rid.
    in_command P rid command
      (bind (run_many (dp_bronze P) selected operation today) (\<lambda>batch.
       seq (log_bronze_results P rid command batch)
         (if br_failures batch \<noteq> [] then throw (provider_batch_error (br_failures batch))
          else ret ((command_result_of command rid selected)\<lparr>cr_bronze := Some batch\<rparr>))))))"

definition bootstrap_command :: "'w daily_pipeline \<Rightarrow> string list \<Rightarrow> int \<Rightarrow> ('w, command_result) io" where
  "bootstrap_command P series_ids today = source_command P ''bootstrap'' series_ids BOOTSTRAP today"

definition update_command :: "'w daily_pipeline \<Rightarrow> string list \<Rightarrow> int \<Rightarrow> ('w, command_result) io" where
  "update_command P series_ids today = source_command P ''update'' series_ids UPDATE today"

definition reconcile_command :: "'w daily_pipeline \<Rightarrow> string list \<Rightarrow> int \<Rightarrow> ('w, command_result) io" where
  "reconcile_command P series_ids today = source_command P ''reconcile'' series_ids RECONCILE today"

definition build_selected_silver :: "'w daily_pipeline \<Rightarrow> string \<Rightarrow> string \<Rightarrow> string list \<Rightarrow> ('w, unit) io" where
  "build_selected_silver P rid command selected =
    seq (emit P rid command ''silver'' ''started'' [])
    (seq (collect (\<lambda>series. bind (lift (lookup_series P series)) (dp_silver_build P)) selected)
      (emit P rid command ''silver'' ''success'' []))"

definition silver_build_command :: "'w daily_pipeline \<Rightarrow> string list \<Rightarrow> ('w, command_result) io" where
  "silver_build_command P series_ids =
    bind (lift (resolve_series P series_ids)) (\<lambda>selected.
    bind (start_command P ''silver-build'' selected) (\<lambda>rid.
    in_command P rid ''silver-build''
      (seq (build_selected_silver P rid ''silver-build'' selected)
        (ret (command_result_of ''silver-build'' rid selected)))))"

definition missing_silver :: "(string \<times> frame) list \<Rightarrow> string list" where
  "missing_silver silver = map fst (filter (\<lambda>p. is_empty_frame (snd p)) silver)"

definition canonical_gold :: "'w daily_pipeline \<Rightarrow> string \<Rightarrow> string \<Rightarrow> ('w, gold_frame_build) io" where
  "canonical_gold P rid command =
    seq (emit P rid command ''gold-frame'' ''started'' [])
    (bind (collect (\<lambda>(series, c). bind (dp_silver_read P c) (\<lambda>f. ret (series, f))) (dp_registry P)) (\<lambda>silver.
     seq (lift (raise_if (missing_silver silver \<noteq> []) ValueError
       (''full Gold requires non-empty Silver for every canonical series; missing: ''
         @ join_with '', '' (missing_silver silver))))
     (bind (lift (dp_assemble P silver)) (\<lambda>gold.
      seq (emit P rid command ''gold-frame'' ''success'' [(''row_count'', EvInt (int (f_height (gfb_frame gold))))])
        (ret gold)))))"

definition recover :: "'w daily_pipeline \<Rightarrow> string \<Rightarrow> string \<Rightarrow> ('w, unit) io" where
  "recover P rid command =
    seq (emit P rid command ''recovery'' ''started'' [])
    (seq (reconcile (dp_publisher P))
      (emit P rid command ''recovery'' ''success'' []))"

definition publish_gold :: "'w daily_pipeline \<Rightarrow> string \<Rightarrow> string \<Rightarrow> ('w, gold_record) io" where
  "publish_gold P rid command =
    bind (canonical_gold P rid command) (\<lambda>gold.
    bind (publish (dp_publisher P) (gfb_frame gold) (gfb_inputs gold)) (\<lambda>published.
    seq (emit P rid command ''gold-publish'' ''success'' [(''build_id'', EvStr (build_id published))])
      (ret published)))"

definition gold_build_command :: "'w daily_pipeline \<Rightarrow> int option \<Rightarrow> ('w, command_result) io" where
  "gold_build_command P today =
    bind (start_command P ''gold-build'' []) (\<lambda>rid.
    in_command P rid ''gold-build''
      (seq (recover P rid ''gold-build'')
        (seq (case today of None \<Rightarrow> dp_now P | Some d \<Rightarrow> ret d)
          (bind (publish_gold P rid ''gold-build'') (\<lambda>published.
            ret ((command_result_of ''gold-build'' rid [])\<lparr>cr_gold_build_id := Some (build_id published)\<rparr>))))))"

definition inventory_command :: "'w daily_pipeline \<Rightarrow> ('w, command_result) io" where
  "inventory_command P =
    bind (start_command P ''inventory'' []) (\<lambda>rid.
    in_command P rid ''inventory''
      (seq (dp_inventory P) (ret (command_result_of ''inventory'' rid []))))"

text \<open>The body of \<open>run_daily\<close>: recovery, sources, Silver, Gold, retention, inventory.\<close>

definition daily_sources :: "'w daily_pipeline \<Rightarrow> string \<Rightarrow> string list \<Rightarrow> int \<Rightarrow> ('w, batch_run_result) io" where
  "daily_sources P rid selected today =
    seq (recover P rid ''run-daily'')
    (seq (emit P rid ''run-daily'' ''bronze'' ''started'' [])
    (bind (run_many (dp_bronze P) selected UPDATE today) (\<lambda>batch.
     seq (log_bronze_results P rid ''run-daily'' batch)
       (if br_failures batch \<noteq> [] then throw (provider_batch_error (br_failures batch)) else ret batch))))"

definition daily_upkeep :: "'w daily_pipeline \<Rightarrow> string \<Rightarrow> ('w, retention_result) io" where
  "daily_upkeep P rid =
    bind (retention_run (dp_retain P) (dp_retention P)) (\<lambda>retention.
    seq (emit P rid ''run-daily'' ''retention'' ''success''
      [(''marked'', EvList (marked_build_ids retention)), (''swept'', EvList (swept_build_ids retention))])
    (seq (dp_inventory P)
    (seq (emit P rid ''run-daily'' ''inventory'' ''success'' [])
      (ret retention))))"

definition daily_body :: "'w daily_pipeline \<Rightarrow> string \<Rightarrow> string list \<Rightarrow> int \<Rightarrow> ('w, command_result) io" where
  "daily_body P rid selected today =
    bind (daily_sources P rid selected today) (\<lambda>batch.
    seq (build_selected_silver P rid ''run-daily'' selected)
    (bind (publish_gold P rid ''run-daily'') (\<lambda>published.
    bind (daily_upkeep P rid) (\<lambda>retention.
    ret \<lparr>cr_command = ''run-daily'', cr_run_id = rid, cr_selected = selected, cr_bronze = Some batch,
      cr_gold_build_id = Some (build_id published), cr_retention = Some retention\<rparr>))))"

definition run_daily :: "'w daily_pipeline \<Rightarrow> string list \<Rightarrow> int \<Rightarrow> ('w, command_result) io" where
  "run_daily P series_ids today =
    bind (lift (resolve_series P series_ids)) (\<lambda>selected.
    bind (start_command P ''run-daily'' selected) (\<lambda>rid.
    in_command P rid ''run-daily'' (daily_body P rid selected today)))"

end
