(* ===== verification/Bronze_Runs.thy ===== *)
theory Bronze_Runs
  imports Bronze_Orchestration
begin

text \<open>
  What a series run and a batch leave behind: isolation of a failing series, the audit and the state of a
  successful one, the order of a batch, and the requests an update may make.
\<close>

section \<open>Operations that only read the lake\<close>

definition keeps_lake :: "('z lake_scheme, 'a) io \<Rightarrow> bool" where
  "keeps_lake m \<longleftrightarrow> preserves files m \<and> shrinks m"

named_theorems keeps_lake_intros

lemma keeps_lakeD: "keeps_lake m \<Longrightarrow> m w = (r, w') \<Longrightarrow> files w' = files w \<and> suffix (faults w') (faults w)"
  using preservesD [of files m w r w'] shrinksD [of m w r w'] by (simp add: keeps_lake_def)

lemma keeps_lake_basic [keeps_lake_intros]:
  "keeps_lake (ret x)" "keeps_lake (throw e)" "keeps_lake (lift q)" "keeps_lake (gets f)"
  "keeps_lake fault_point" "keeps_lake (read_parquet p)"
  unfolding keeps_lake_def by (auto intro: preserves_intros shrinks_intros)

lemma keeps_lake_bind [keeps_lake_intros]: "keeps_lake m \<Longrightarrow> (\<And>x. keeps_lake (k x)) \<Longrightarrow> keeps_lake (bind m k)"
  unfolding keeps_lake_def by (simp add: preserves_bind shrinks_bind)

lemma keeps_lake_seq [keeps_lake_intros]: "keeps_lake m \<Longrightarrow> keeps_lake n \<Longrightarrow> keeps_lake (seq m n)"
  unfolding seq_def by (rule keeps_lake_bind)

lemma keeps_lake_if [keeps_lake_intros]: "keeps_lake m \<Longrightarrow> keeps_lake n \<Longrightarrow> keeps_lake (if b then m else n)"
  by simp

lemma keeps_lake_collect [keeps_lake_intros]: "(\<And>x. keeps_lake (f x)) \<Longrightarrow> keeps_lake (collect f xs)"
  by (induction xs) (simp_all add: keeps_lake_basic keeps_lake_bind)

lemma keeps_lake_uow [keeps_lake_intros]:
  "keeps_lake (uow_bounds lake_root c)" "keeps_lake (uow_state lake_root c)" "keeps_lake (prepare pl T lake_root c f)"
  unfolding uow_bounds_def read_observation_bounds_def file_bounds_def uow_state_def read_states_def snapshot_read_def
    prepare_def read_monthly_def month_paths_def existing_paths_def
  by (intro keeps_lake_intros)+

definition on_lake :: "polars \<Rightarrow> polars_tables \<Rightarrow> string list \<Rightarrow> path \<Rightarrow> 'z lake_scheme orchestrator \<Rightarrow> bool" where
  "on_lake pl T secrets lake_root B \<longleftrightarrow>
    or_uow B = filesystem_uow pl T secrets lake_root
    \<and> (\<forall>p f c r. or_providers B p = Some f \<longrightarrow> keeps_lake (f c r))
    \<and> keeps_lake (or_clock B) \<and> (\<forall>s. keeps_lake (or_run_id B s))"

lemma on_lake_reads:
  assumes "on_lake pl T secrets lake_root B"
  shows "keeps_lake (utc_now B)" "keeps_lake (or_run_id B s)" "keeps_lake (plan_series B c operation today)"
    "or_providers B p = Some f \<Longrightarrow> keeps_lake (f c r)"
  using assms unfolding on_lake_def utc_now_def plan_series_def filesystem_uow_def
  by (auto intro!: keeps_lake_intros)

section \<open>One series\<close>

text \<open>The handler changes the audit file only and raises.\<close>

lemma audit_failure_Inl:
  assumes B: "on_lake pl T secrets lake_root B"
    and run: "audit_failure B rid c plan started fetched accepted e w = (res, w')"
  shows "\<exists>e'. res = Inl e'" "p \<noteq> ingestion_runs_path lake_root \<Longrightarrow> file_at p w' = file_at p w"
proof -
  show "\<exists>e'. res = Inl e'"
    using run by (cases res) (auto simp: audit_failure_def io_inv throw_apply split: if_splits)
  assume p: "p \<noteq> ingestion_runs_path lake_root"
  have "preserves (file_at p) (uow_failure (or_uow B) r)" for r
    using B runs.upsert_other [OF p]
    by (simp add: on_lake_def filesystem_uow_def record_failure_def upsert_run_snapshot)
  moreover have "preserves (file_at p) (utc_now B)"
    by (rule preservesI) (drule keeps_lakeD [OF on_lake_reads(1) [OF B]], simp add: file_at_def)
  ultimately have "preserves (file_at p) (audit_failure B rid c plan started fetched accepted e)"
    unfolding audit_failure_def by (intro preserves_intros)
  from preservesD [OF this run] show "file_at p w' = file_at p w" .
qed

lemma failed_isolated:
  assumes "on_lake pl T secrets lake_root B" "\<And>p. file_at p w1 = file_at p w"
    and "audit_failure B rid c plan started fetched accepted e w1 = (res, w')"
  obtains e' where "res = Inl e'" "\<forall>p. p \<noteq> ingestion_runs_path lake_root \<longrightarrow> file_at p w' = file_at p w"
  using audit_failure_Inl [OF assms(1,3)] assms(2) by metis

lemma uow_state_key:
  assumes "uow_state lake_root c w = (Inr st, w')"
  shows "state_key st = (series_provider c, series_id c)"
proof -
  let ?P = "\<lambda>s. state_key s = (series_provider c, series_id c)"
  obtain states where st: "st = (case find ?P states of Some s \<Rightarrow> s | None \<Rightarrow> initial_state (series_provider c) (series_id c))"
    using assms by (auto simp: uow_state_def bind_eq_Inr ret_def)
  show ?thesis
  proof (cases "find ?P states")
    case None
    then show ?thesis
      by (simp add: st initial_state_def state_key_def)
  next
    case (Some s)
    then have "?P s" by (auto simp: find_Some_iff)
    with Some show ?thesis by (simp add: st)
  qed
qed

text \<open>The last part of an attempt: a commit, or nothing.\<close>

lemma commit_series_cases:
  assumes B: "on_lake pl T secrets lake_root B"
    and run: "commit_series B rid c plan started fetched accepted w = (res, w')"
  obtains (read) e where "res = Inl e" "files w' = files w"
  | (commit) p completed r st w1 u where "files w1 = files w" "suffix (faults w1) (faults w)"
      "success_run rid c plan started completed fetched (f_height accepted) p = Inr r"
      "state_key st = (series_provider c, series_id c)" "st_mode st = Some (fi_mode plan)"
      "last_requested_end st = Some (request_end plan)" "last_success_utc st = Some completed"
      "changed_row_count st = int (f_height (inserts (pb_diff p)) + f_height (revisions (pb_diff p)))"
      "commit_success pl T secrets lake_root p r st w1 = (u, w')" "res = (case u of Inl e \<Rightarrow> Inl e | Inr _ \<Rightarrow> Inr p)"
proof -
  let ?pre = "bind (uow_prepare (or_uow B) c accepted) (\<lambda>p.
    bind (utc_now B) (\<lambda>completed.
    bind (lift (success_run rid c plan started completed fetched (f_height accepted) p)) (\<lambda>r.
    bind (uow_state_of (or_uow B) c) (\<lambda>prior.
    bind (lift (advance_state prior plan completed (pb_post_bounds p) (int fetched) (int (f_height accepted))
        (int (f_height (inserts (pb_diff p)) + f_height (revisions (pb_diff p)))) True True)) (\<lambda>st.
    ret (p, completed, r, prior, st))))))"
  have split: "commit_series B rid c plan started fetched accepted w =
      bind ?pre (\<lambda>(p, completed, r, prior, st). seq (uow_commit (or_uow B) p r st) (ret p)) w"
    by (auto simp: commit_series_def bind_def ret_def split: prod.splits sum.splits)
  have uow: "or_uow B = filesystem_uow pl T secrets lake_root"
    using B by (simp add: on_lake_def)
  have pre: "keeps_lake ?pre"
    unfolding uow filesystem_uow_def by (simp, intro keeps_lake_intros on_lake_reads(1) [OF B])
  show thesis
  proof (cases "?pre w")
    case (Pair q w1)
    note kept = keeps_lakeD [OF pre Pair]
    show thesis
    proof (cases q)
      case (Inl e)
      then have "res = Inl e" "w' = w1"
        using run Pair unfolding split by (simp_all add: bind_def)
      then show thesis
        using read kept by simp
    next
      case (Inr x)
      obtain p completed r prior st where x: "x = (p, completed, r, prior, st)"
        by (cases x) auto
      obtain v where prior: "uow_state lake_root c v = (Inr prior, w1)"
        using Pair unfolding Inr x uow by (auto simp: io_inv lift_apply ret_apply filesystem_uow_def)
      have facts: "success_run rid c plan started completed fetched (f_height accepted) p = Inr r"
          "advance_state prior plan completed (pb_post_bounds p) (int fetched) (int (f_height accepted))
            (int (f_height (inserts (pb_diff p)) + f_height (revisions (pb_diff p)))) True True = Inr st"
        using Pair unfolding Inr x uow by (auto simp: io_inv lift_apply ret_apply filesystem_uow_def)
      have key: "state_key prior = (series_provider c, series_id c)"
        using prior by (rule uow_state_key)
      obtain u where u: "commit_success pl T secrets lake_root p r st w1 = (u, w')" "res = (case u of Inl e \<Rightarrow> Inl e | Inr _ \<Rightarrow> Inr p)"
        using run Pair unfolding split Inr x uow
        by (auto simp: bind_def seq_def ret_def filesystem_uow_def split: prod.splits sum.splits)
      have st: "state_key st = (series_provider c, series_id c)" "st_mode st = Some (fi_mode plan)"
          "last_requested_end st = Some (request_end plan)" "last_success_utc st = Some completed"
          "changed_row_count st = int (f_height (inserts (pb_diff p)) + f_height (revisions (pb_diff p)))"
        using facts(2) key by (auto simp: advance_state_def state_key_def result_simps)
      show thesis
        by (rule commit [OF _ _ facts(1) st u]) (use kept in simp_all)
    qed
  qed
qed

text \<open>A run that returns went through all steps; one that raises did so before or in the attempt.\<close>

lemma run_series_cases:
  assumes B: "on_lake pl T secrets lake_root B" and run: "run_series B series operation today w = (res, w')"
  obtains (early) e where "res = Inl e" "files w' = files w"
  | (failed) c plan rid started fetched accepted e w1 where "files w1 = files w"
      "audit_failure B rid c plan started fetched accepted e w1 = (res, w')"
  | (attempt) c plan rid started fetched accepted w1 q w2 where "files w1 = files w" "suffix (faults w1) (faults w)"
      "or_registry B series = Some c" "commit_series B rid c plan started fetched accepted w1 = (q, w2)"
      "case q of Inl e \<Rightarrow> audit_failure B rid c plan started fetched (f_height accepted) e w2 = (res, w')
       | Inr p \<Rightarrow> w' = w2 \<and> (\<exists>r. res = Inr r \<and> sr_run_id r = rid \<and> sr_provider r = series_provider c \<and> sr_mode r = fi_mode plan
           \<and> sr_request_end r = request_end plan \<and> sr_inserted_rows r = f_height (inserts (pb_diff p))
           \<and> sr_revised_rows r = f_height (revisions (pb_diff p)) \<and> sr_written_partitions r = pb_written_partitions p)"
proof -
  let ?pre = "bind (lift (resolve_contract B series)) (\<lambda>c.
    bind (lift (resolve_provider B (series_provider c))) (\<lambda>fetch.
    bind (plan_series B c operation today) (\<lambda>plan.
    bind (or_run_id B series) (\<lambda>rid.
    bind (utc_now B) (\<lambda>started. ret (c, fetch, plan, rid, started))))))"
  have split: "run_series B series operation today w =
      bind ?pre (\<lambda>(c, fetch, plan, rid, started). run_attempt B series rid c fetch plan started) w"
    by (auto simp: run_series_def bind_def ret_def split: prod.splits sum.splits)
  have pre: "keeps_lake ?pre"
    by (intro keeps_lake_intros on_lake_reads [OF B])
  obtain q0 w0 where Pair: "?pre w = (q0, w0)"
    by (cases "?pre w")
  note kept = keeps_lakeD [OF pre Pair]
  show thesis
  proof (cases q0)
    case (Inl e)
    then have "res = Inl e" "w' = w0"
      using run Pair unfolding split by (simp_all add: bind_def)
    then show thesis
      using early kept by simp
  next
    case (Inr x)
    obtain c fetch plan rid started where x: "x = (c, fetch, plan, rid, started)"
      by (cases x) auto
    have facts: "or_registry B series = Some c" "or_providers B (series_provider c) = Some fetch"
      using Pair unfolding Inr x
      by (auto simp: io_inv lift_apply ret_apply resolve_contract_def resolve_provider_def split: option.splits)
    have attempt_run: "run_attempt B series rid c fetch plan started w0 = (res, w')"
      using run Pair unfolding split Inr x by (simp add: bind_def)
    let ?fetch = "bind (lift (provider_request_of plan)) (fetch c)"
    have fetch: "keeps_lake ?fetch"
      by (intro keeps_lake_intros on_lake_reads(4) [OF B facts(2)])
    obtain q1 w1 where w1: "?fetch w0 = (q1, w1)"
      by (cases "?fetch w0")
    note kept1 = keeps_lakeD [OF fetch w1]
    have lake1: "files w1 = files w" "suffix (faults w1) (faults w)"
      using kept kept1 suffix_order.trans by auto
    show thesis
    proof (cases q1)
      case (Inl e)
      then have "audit_failure B rid c plan started 0 0 e w1 = (res, w')"
        using attempt_run w1 by (simp add: run_attempt_def Let_def guarded_def)
      then show thesis
        by (rule failed [OF lake1(1)])
    next
      case incoming: (Inr incoming)
      show thesis
      proof (cases "enforce_window incoming plan")
        case (Inl e)
        then have "audit_failure B rid c plan started (f_height incoming) 0 e w1 = (res, w')"
          using attempt_run w1 incoming by (simp add: run_attempt_def Let_def guarded_def lift_def)
        then show thesis
          by (rule failed [OF lake1(1)])
      next
        case accepted: (Inr accepted)
        obtain q w2 where w2: "commit_series B rid c plan started (f_height incoming) accepted w1 = (q, w2)"
          by (cases "commit_series B rid c plan started (f_height incoming) accepted w1")
        show thesis
          by (rule attempt [OF lake1 facts(1) w2])
            (use attempt_run w1 incoming accepted w2 in
              \<open>auto simp: run_attempt_def Let_def guarded_def lift_def ret_def split: sum.splits\<close>)
      qed
    qed
  qed
qed

lemma success_run_Inr:
  assumes "success_run rid c plan started completed fetched accepted p = Inr r"
  shows "valid_run r" "run_id r = rid" "run_status_of r = RUN_SUCCESS" "run_series_id r = series_id c"
    "run_inserted_rows r = int (f_height (inserts (pb_diff p)))" "run_revised_rows r = int (f_height (revisions (pb_diff p)))"
    "run_written_partitions r = int (pb_written_partitions p)" "run_completed_at r = completed"
  using assms by (auto simp: success_run_def rbind_Inr IngestionRunRecord_Inr)

lemma commit_months:
  "commit_success pl T secrets lake_root p r st w = (Inr u, w') \<Longrightarrow>
    \<exists>months. rbind (changed T (pb_diff p)) changed_months = Inr months"
  by (auto simp: commit_success_def io_inv lift_apply throw_apply)


section \<open>A provider that fails\<close>

text \<open>A registry of one series whose provider is unreachable.\<close>

definition unreachable :: exn where
  "unreachable = Exn HttpxError ''connection refused''"

definition demo_orchestrator :: "lake orchestrator" where
  "demo_orchestrator = \<lparr>or_registry = [''dgs10'' \<mapsto> demo_contract], or_providers = (\<lambda>_. Some (\<lambda>_ _. throw unreachable)),
     or_uow = filesystem_uow reference_polars reference_tables [] [''lake''], or_planner = None,
     or_clock = ret (Aware 5 0), or_run_id = (\<lambda>_. ret ''r1''), or_exc_name = (\<lambda>_. ''ConnectError'')\<rparr>"

lemma demo_on_lake: "on_lake reference_polars reference_tables [] [''lake''] demo_orchestrator"
  by (auto simp: on_lake_def demo_orchestrator_def intro: keeps_lake_intros)


section \<open>A batch\<close>

lemma audit_failure_raises [simp]: "audit_failure B rid c plan started fetched accepted e w \<noteq> (Inr r, w')"
  by (auto simp: audit_failure_def io_inv throw_apply)

lemma guarded_Inr:
  assumes "guarded h m k w = (Inr y, w')" "\<And>e v. h e v \<noteq> (Inr y, w')"
  obtains x w1 where "m w = (Inr x, w1)" "k x w1 = (Inr y, w')"
  using assms by (auto simp: guarded_def split: prod.splits sum.splits)

lemma run_series_id:
  assumes "run_series B series operation today w = (Inr r, w')"
  shows "sr_series_id r = series"
proof -
  obtain rid c f plan started v where "run_attempt B series rid c f plan started v = (Inr r, w')"
    using assms by (auto simp: run_series_def io_inv)
  then show ?thesis
    unfolding run_attempt_def Let_def by (auto elim!: guarded_Inr simp: ret_def)
qed

lemma run_one_Inr:
  assumes "run_one B operation today series w = (Inr q, w')"
  shows "case q of None \<Rightarrow> True | Some r \<Rightarrow> sr_series_id r = series"
  using assms run_series_id
  by (auto simp: run_one_def io_inv ret_apply split: option.split)

lemma collect_outcomes:
  "collect (run_one B operation today) selected w = (Inr outcomes, w') \<Longrightarrow>
    list_all2 (\<lambda>series q. case q of None \<Rightarrow> True | Some r \<Rightarrow> sr_series_id r = series) selected outcomes"
proof (induction selected arbitrary: outcomes w)
  case (Cons series selected)
  then obtain q w1 rest where "run_one B operation today series w = (Inr q, w1)"
      "collect (run_one B operation today) selected w1 = (Inr rest, w')" "outcomes = q # rest"
    by (auto simp: bind_eq_Inr ret_def)
  then show ?case
    using Cons.IH run_one_Inr by simp
qed (simp add: ret_def)

lemma collect_Inl:
  assumes "collect f xs w = (Inl e, w')"
  shows "\<exists>x v v'. f x v = (Inl e, v')"
  using assms
proof (induction xs arbitrary: w)
  case (Cons x xs)
  then consider "f x w = (Inl e, w')" | w1 where "collect f xs w1 = (Inl e, w')"
    by (auto simp: bind_eq_Inl ret_def)
  then show ?case
    using Cons.IH by cases blast+
qed (simp add: ret_def)

lemma batch_of_simps [simp]:
  "batch_of selected [] = \<lparr>br_successes = [], br_failures = []\<rparr>"
  "br_successes (batch_of (s # ss) (None # qs)) = br_successes (batch_of ss qs)"
  "br_successes (batch_of (s # ss) (Some r # qs)) = r # br_successes (batch_of ss qs)"
  "br_failures (batch_of (s # ss) (None # qs)) = s # br_failures (batch_of ss qs)"
  "br_failures (batch_of (s # ss) (Some r # qs)) = br_failures (batch_of ss qs)"
  by (simp_all add: batch_of_def map_filter_simps)

lemma batch_of_outcomes:
  assumes "list_all2 (\<lambda>series q. case q of None \<Rightarrow> True | Some r \<Rightarrow> sr_series_id r = series) selected outcomes" "distinct selected"
  shows "map sr_series_id (br_successes (batch_of selected outcomes))
      = filter (\<lambda>s. s \<notin> set (br_failures (batch_of selected outcomes))) selected"
    "br_failures (batch_of selected outcomes) = filter (\<lambda>s. s \<in> set (br_failures (batch_of selected outcomes))) selected"
proof -
  have "map sr_series_id (br_successes (batch_of selected outcomes))
        = filter (\<lambda>s. s \<notin> set (br_failures (batch_of selected outcomes))) selected
      \<and> br_failures (batch_of selected outcomes) = filter (\<lambda>s. s \<in> set (br_failures (batch_of selected outcomes))) selected
      \<and> set (br_failures (batch_of selected outcomes)) \<subseteq> set selected"
    using assms
  proof (induction rule: list_all2_induct)
    case (Cons series selected q outcomes)
    have "filter (\<lambda>s. s = series \<or> P s) selected = filter P selected"
      "filter (\<lambda>s. s \<noteq> series \<and> P s) selected = filter P selected" for P
      using Cons.prems by (auto intro!: filter_cong)
    moreover have "series \<notin> set (br_failures (batch_of selected outcomes))"
      using Cons by auto
    ultimately show ?case
      using Cons by (cases q) auto
  qed simp
  then show "map sr_series_id (br_successes (batch_of selected outcomes))
      = filter (\<lambda>s. s \<notin> set (br_failures (batch_of selected outcomes))) selected"
    "br_failures (batch_of selected outcomes) = filter (\<lambda>s. s \<in> set (br_failures (batch_of selected outcomes))) selected"
    by blast+
qed

text \<open>
  C32: a batch reports every selected series exactly once.  It raises for a repeated series before any work
  starts, and otherwise only for an interruption that is no \<open>Exception\<close>; the failure of a series never
  stops the others.  The successes and the failures are the selected series in their order, split by
  outcome.
\<close>

theorem batch_reports_all:
  "case run_many B selected operation today w of
     (Inr b, _) \<Rightarrow> distinct selected
       \<and> map sr_series_id (br_successes b) = filter (\<lambda>s. s \<notin> set (br_failures b)) selected
       \<and> br_failures b = filter (\<lambda>s. s \<in> set (br_failures b)) selected
   | (Inl e, w') \<Rightarrow> if distinct selected then \<not> is_exception e
       else e = Exn ValueError ''run_many requires distinct series IDs'' \<and> w' = w"
proof (cases "distinct selected")
  case False
  then show ?thesis
    by (simp add: run_many_def seq_def bind_def lift_def raise_def)
next
  case True
  have many: "run_many B selected operation today w
      = bind (collect (run_one B operation today) selected) (\<lambda>outcomes. ret (batch_of selected outcomes)) w"
    using True by (simp add: run_many_def seq_def bind_def lift_def)
  show ?thesis
  proof (cases "collect (run_one B operation today) selected w")
    case (Pair q w1)
    show ?thesis
    proof (cases q)
      case (Inl e)
      then obtain x v v' where "run_one B operation today x v = (Inl e, v')"
        using collect_Inl [OF Pair [unfolded Inl]] by blast
      then have "\<not> is_exception e"
        by (auto simp: run_one_def io_inv ret_apply)
      then show ?thesis
        using Inl Pair True by (simp add: many bind_def)
    next
      case (Inr outcomes)
      then show ?thesis
        using Pair True
        by (simp add: many bind_def ret_def)
          (intro conjI batch_of_outcomes [OF collect_outcomes [OF Pair [unfolded Inr]] True])
    qed
  qed
qed

section \<open>The requests of an update\<close>

text \<open>A request for a bounded window, or for the history of a series that has none.\<close>

definition bounded_request :: "provider_request \<Rightarrow> bool" where
  "bounded_request r \<longleftrightarrow> pr_operation r = BOOTSTRAP
    \<or> pr_operation r = UPDATE \<and> pr_logical_start r \<noteq> None \<and> \<not> pr_maximum_history r"

definition agree_on_bounded ::
  "(provider \<Rightarrow> 'w market_data_provider option) \<Rightarrow> (provider \<Rightarrow> 'w market_data_provider option) \<Rightarrow> bool" where
  "agree_on_bounded ps qs \<longleftrightarrow>
    (\<forall>p. rel_option (\<lambda>f g. \<forall>c r. bounded_request r \<longrightarrow> f c r = g c r) (ps p) (qs p))"

lemma update_plan_bounded:
  assumes "plan_series B c UPDATE today w = (Inr plan, w')" "provider_request_of plan = Inr r"
  shows "bounded_request r"
proof -
  obtain bounds v where plan: "build_plan c bounds today False (or_planner B) = Inr plan"
      "bounds_maximum bounds \<noteq> None \<longrightarrow> fi_mode plan = UPDATE \<and> \<not> maximum_history plan"
    using assms(1) by (auto simp: plan_series_def io_inv lift_apply ret_apply)
  have r: "r = \<lparr>pr_operation = fi_mode plan, pr_logical_start = opt_or (filter_start plan) (request_start plan),
      pr_logical_end = request_end plan, pr_maximum_history = maximum_history plan\<rparr>"
      "pr_operation r = UPDATE \<longrightarrow> pr_logical_start r \<noteq> None"
    using assms(2) by (auto simp: provider_request_of_def ProviderRequest_def guard_Inr)
  show ?thesis
  proof (cases "bounds_maximum bounds")
    case None
    then have "fi_mode plan = BOOTSTRAP"
      using plan(1) by (auto simp: build_plan_def choose_mode_def full_history_def)
    then show ?thesis by (simp add: bounded_request_def r(1))
  next
    case (Some _)
    then show ?thesis using plan(2) r by (auto simp: bounded_request_def)
  qed
qed

lemma run_attempt_agree:
  assumes "\<And>r. provider_request_of plan = Inr r \<Longrightarrow> f c r = g c r"
  shows "run_attempt B series rid c f plan started = run_attempt (B\<lparr>or_providers := qs\<rparr>) series rid c g plan started"
proof -
  have "bind (lift (provider_request_of plan)) (f c) = bind (lift (provider_request_of plan)) (g c)"
    using assms by (cases "provider_request_of plan") (auto simp: bind_def lift_def)
  moreover have "audit_failure (B\<lparr>or_providers := qs\<rparr>) = (audit_failure B :: _ \<Rightarrow> _ \<Rightarrow> _ \<Rightarrow> _ \<Rightarrow> _ \<Rightarrow> _ \<Rightarrow> _ \<Rightarrow> ('a, series_run_result) io)"
    by (intro ext) (simp add: audit_failure_def utc_now_def cong: if_cong)
  moreover have "commit_series (B\<lparr>or_providers := qs\<rparr>) = commit_series B"
    by (simp add: commit_series_def [abs_def] utc_now_def)
  ultimately show ?thesis
    by (simp add: run_attempt_def)
qed

lemma run_series_agree:
  assumes "agree_on_bounded (or_providers B) qs"
  shows "run_series B series UPDATE today = run_series (B\<lparr>or_providers := qs\<rparr>) series UPDATE today"
proof
  fix w
  let ?B = "B\<lparr>or_providers := qs\<rparr>"
  show "run_series B series UPDATE today w = run_series ?B series UPDATE today w"
  proof (cases "or_registry B series")
    case None
    then show ?thesis
      by (simp add: run_series_def resolve_contract_def bind_def lift_def raise_def)
  next
    case (Some c)
    have rel: "rel_option (\<lambda>f g. \<forall>c r. bounded_request r \<longrightarrow> f c r = g c r) (or_providers B (series_provider c)) (qs (series_provider c))"
      using assms by (simp add: agree_on_bounded_def)
    show ?thesis
    proof (cases "or_providers B (series_provider c)")
      case None
      then have "qs (series_provider c) = None" using rel by simp
      with None show ?thesis
        by (simp add: run_series_def resolve_contract_def resolve_provider_def Some bind_def lift_def raise_def)
    next
      case f: (Some f)
      then obtain g where g: "qs (series_provider c) = Some g" "\<And>r. bounded_request r \<Longrightarrow> f c r = g c r"
        using rel by (auto simp: option_rel_Some1)
      have "plan_series ?B c UPDATE today = plan_series B c UPDATE today" "utc_now ?B = utc_now B"
        by (simp_all add: plan_series_def utc_now_def)
      moreover have "run_attempt B series rid c f plan started = run_attempt ?B series rid c g plan started"
        if "plan_series B c UPDATE today w = (Inr plan, w')" for rid plan started w'
        using run_attempt_agree update_plan_bounded [OF that] g(2) by metis
      ultimately show ?thesis
        using f g(1) Some
        by (auto simp: run_series_def resolve_contract_def resolve_provider_def bind_def lift_def split: prod.split sum.split)
    qed
  qed
qed

lemma run_many_agree:
  assumes "agree_on_bounded (or_providers B) qs"
  shows "run_many B selected UPDATE today = run_many (B\<lparr>or_providers := qs\<rparr>) selected UPDATE today"
  using run_series_agree [OF assms] by (simp add: run_many_def run_one_def [abs_def])

section \<open>Views that no service changes\<close>

definition services_preserve :: "('w \<Rightarrow> 'v) \<Rightarrow> 'w orchestrator \<Rightarrow> bool" where
  "services_preserve v B \<longleftrightarrow>
    (\<forall>p f c r. or_providers B p = Some f \<longrightarrow> preserves v (f c r))
    \<and> preserves v (or_clock B) \<and> (\<forall>s. preserves v (or_run_id B s))
    \<and> (\<forall>c. preserves v (uow_bounds_of (or_uow B) c)) \<and> (\<forall>c. preserves v (uow_state_of (or_uow B) c))
    \<and> (\<forall>c f. preserves v (uow_prepare (or_uow B) c f)) \<and> (\<forall>p r st. preserves v (uow_commit (or_uow B) p r st))
    \<and> (\<forall>r. preserves v (uow_failure (or_uow B) r))"

lemma guarded_preserves:
  "(\<And>e. preserves v (h e)) \<Longrightarrow> preserves v m \<Longrightarrow> (\<And>x. preserves v (k x)) \<Longrightarrow> preserves v (guarded h m k)"
  by (rule preservesI) (auto simp: guarded_def split: prod.splits sum.splits, (metis preservesD)+)

lemma run_many_preserves:
  assumes "services_preserve v B"
  shows "preserves v (run_many B selected operation today)"
proof -
  have now: "preserves v (utc_now B)"
    unfolding utc_now_def using assms by (auto simp: services_preserve_def intro!: preserves_intros)
  have failure: "preserves v (audit_failure B rid c plan t a b e)" for rid c plan t a b e
    unfolding audit_failure_def using assms by (auto simp: services_preserve_def intro!: preserves_intros now)
  have commit: "preserves v (commit_series B rid c plan t n f)" for rid c plan t n f
    unfolding commit_series_def using assms by (auto simp: services_preserve_def intro!: preserves_intros now)
  have plan: "preserves v (plan_series B c operation today)" for c
    unfolding plan_series_def using assms by (auto simp: services_preserve_def intro!: preserves_intros)
  have attempt: "preserves v (run_attempt B s rid c f plan t)" if "\<And>r. preserves v (f c r)" for s rid c f plan t
    unfolding run_attempt_def Let_def
    by (intro guarded_preserves failure commit preserves_basic preserves_bind that)
  have "preserves v (run_series B s operation today)" for s
  proof (cases "resolve_contract B s")
    case (Inr c)
    show ?thesis
    proof (cases "resolve_provider B (series_provider c)")
      case f: (Inr f)
      then have "preserves v (f c r)" for r
        using assms by (auto simp: services_preserve_def resolve_provider_def split: option.splits)
      moreover have "preserves v (or_run_id B s)"
        using assms by (simp add: services_preserve_def)
      ultimately show ?thesis
        by (simp add: run_series_def Inr f bind_lift_Inr preserves_bind plan now attempt)
    qed (simp add: run_series_def Inr bind_lift_Inr preserves_def bind_def lift_def)
  qed (simp add: run_series_def preserves_def bind_def lift_def)
  then show ?thesis
    unfolding run_many_def run_one_def by (intro preserves_intros)
qed

end
