(* ===== verification/Daily_Runs.thy ===== *)
theory Daily_Runs
  imports Daily_Pipeline Bronze_Runs
begin

text \<open>
  The order of the daily workflow, read off its event log, and what it may ask of the providers.
\<close>

section \<open>The stages of a run\<close>

type_synonym stage_event = "string \<times> string"

definition stages :: "event list \<Rightarrow> stage_event list" where
  "stages es = map (\<lambda>e. (ev_stage e, ev_status e)) (filter (\<lambda>e. ev_stage e \<noteq> ''bronze-series'') es)"

text \<open>The edges of the daily workflow; any unfinished stage may be followed by the failure of the command.\<close>

definition stage_edges :: "(stage_event \<times> stage_event) list" where
  "stage_edges =
    [((''command'', ''started''), (''recovery'', ''started'')),
     ((''recovery'', ''started''), (''recovery'', ''success'')),
     ((''recovery'', ''success''), (''bronze'', ''started'')),
     ((''bronze'', ''started''), (''bronze'', ''success'')),
     ((''bronze'', ''started''), (''bronze'', ''failed'')),
     ((''bronze'', ''success''), (''silver'', ''started'')),
     ((''silver'', ''started''), (''silver'', ''success'')),
     ((''silver'', ''success''), (''gold-frame'', ''started'')),
     ((''gold-frame'', ''started''), (''gold-frame'', ''success'')),
     ((''gold-frame'', ''success''), (''gold-publish'', ''success'')),
     ((''gold-publish'', ''success''), (''retention'', ''success'')),
     ((''retention'', ''success''), (''inventory'', ''success'')),
     ((''inventory'', ''success''), (''command'', ''success''))]"

definition stage_step :: "stage_event \<Rightarrow> stage_event \<Rightarrow> bool" where
  "stage_step a b \<longleftrightarrow> (a, b) \<in> set stage_edges
    \<or> b = (''command'', ''failed'') \<and> a \<notin> {(''command'', ''success''), (''command'', ''failed'')}"

definition daily_stages :: "stage_event list" where
  "daily_stages = [(''recovery'', ''started''), (''recovery'', ''success''), (''bronze'', ''started''), (''bronze'', ''success''),
     (''silver'', ''started''), (''silver'', ''success''), (''gold-frame'', ''started''), (''gold-frame'', ''success''),
     (''gold-publish'', ''success''), (''retention'', ''success''), (''inventory'', ''success'')]"

section \<open>Traces of computations\<close>

text \<open>\<open>m\<close> appends \<open>S\<close> to the trace when it returns, one of \<open>F\<close> when it raises.\<close>

definition steps :: "('w \<Rightarrow> 'e list) \<Rightarrow> 'e list \<Rightarrow> 'e list set \<Rightarrow> ('w, 'a) io \<Rightarrow> bool" where
  "steps tr S F m \<longleftrightarrow>
    (\<forall>w. case m w of (Inr _, w') \<Rightarrow> tr w' = tr w @ S | (Inl _, w') \<Rightarrow> \<exists>f \<in> F. tr w' = tr w @ f)"

lemma steps_Inr: "steps tr S F m \<Longrightarrow> m w = (Inr x, w') \<Longrightarrow> tr w' = tr w @ S"
  unfolding steps_def by (drule spec [of _ w]) simp

lemma steps_Inl: "steps tr S F m \<Longrightarrow> m w = (Inl e, w') \<Longrightarrow> \<exists>f \<in> F. tr w' = tr w @ f"
  unfolding steps_def by (drule spec [of _ w]) simp

lemma stepsI:
  "(\<And>w x w'. m w = (Inr x, w') \<Longrightarrow> tr w' = tr w @ S) \<Longrightarrow>
   (\<And>w e w'. m w = (Inl e, w') \<Longrightarrow> \<exists>f \<in> F. tr w' = tr w @ f) \<Longrightarrow> steps tr S F m"
  by (auto simp: steps_def split: prod.splits sum.splits)

lemma steps_silent: "preserves tr m \<Longrightarrow> steps tr [] {[]} m"
  by (rule stepsI) (auto dest: preservesD)

lemma steps_ret: "steps tr [] {} (ret x)"
  by (rule stepsI) (auto simp: ret_def)

lemma steps_throw: "steps tr S {[]} (throw e)"
  by (rule stepsI) (auto simp: throw_def)

lemma steps_lift: "steps tr [] {[]} (lift r)"
  by (rule stepsI) (auto simp: lift_def)

lemma steps_mono: "steps tr S F m \<Longrightarrow> F \<subseteq> F' \<Longrightarrow> steps tr S F' m"
  by (rule stepsI) (auto dest: steps_Inr steps_Inl)

lemma steps_weaken: "steps tr S F m \<Longrightarrow> S = S' \<Longrightarrow> F \<subseteq> F' \<Longrightarrow> steps tr S' F' m"
  by (auto intro: steps_mono)

lemma steps_bind:
  assumes m: "steps tr S F m" and k: "\<And>x. steps tr S' F' (k x)"
  shows "steps tr (S @ S') (F \<union> (@) S ` F') (bind m k)"
proof (rule stepsI)
  show "tr w' = tr w @ S @ S'" if "bind m k w = (Inr x, w')" for w x w'
    using that steps_Inr [OF m] steps_Inr [OF k] by (fastforce simp: bind_eq_Inr)
  show "\<exists>f \<in> F \<union> (@) S ` F'. tr w' = tr w @ f" if run: "bind m k w = (Inl e, w')" for w e w'
  proof -
    from run consider "m w = (Inl e, w')" | x w1 where "m w = (Inr x, w1)" "k x w1 = (Inl e, w')"
      by (auto simp: bind_eq_Inl)
    then show ?thesis
    proof cases
      case 1
      then show ?thesis using steps_Inl [OF m] by blast
    next
      case 2
      then obtain f where "f \<in> F'" "tr w' = tr w1 @ f" "tr w1 = tr w @ S"
        using steps_Inl [OF k] steps_Inr [OF m] by blast
      then show ?thesis by auto
    qed
  qed
qed

lemma steps_seq:
  "steps tr S F m \<Longrightarrow> steps tr S' F' n \<Longrightarrow> steps tr (S @ S') (F \<union> (@) S ` F') (seq m n)"
  unfolding seq_def by (rule steps_bind)

lemma steps_seq_throw: "steps tr S F m \<Longrightarrow> steps tr S' (insert S F) (seq m (throw e))"
  by (rule stepsI) (auto simp: seq_eq_Inr seq_eq_Inl throw_def dest: steps_Inr steps_Inl)

lemma steps_for_each: "(\<And>x. steps tr [] {[]} (f x)) \<Longrightarrow> steps tr [] {[]} (for_each f xs)"
  using steps_seq [of tr "[]" "{[]}" _ "[]" "{[]}"] by (induction xs) (auto intro: steps_mono [OF steps_ret])

section \<open>The services\<close>

text \<open>The sink records every event, and nothing else writes the log.\<close>

definition records_events :: "('w \<Rightarrow> event list) \<Rightarrow> 'w daily_pipeline \<Rightarrow> bool" where
  "records_events evs P \<longleftrightarrow>
    (\<forall>e w. \<exists>w'. dp_event P e w = (Inr (), w') \<and> evs w' = evs w @ [e])
    \<and> preserves evs (reconcile (dp_publisher P))
    \<and> (\<forall>f i. preserves evs (publish (dp_publisher P) f i))
    \<and> (\<forall>selected operation today. preserves evs (run_many (dp_bronze P) selected operation today))
    \<and> (\<forall>c. preserves evs (dp_silver_build P c)) \<and> (\<forall>c. preserves evs (dp_silver_read P c))
    \<and> preserves evs (retention_run (dp_retain P) (dp_retention P))
    \<and> preserves evs (dp_inventory P) \<and> (\<forall>command. preserves evs (dp_run_id P command))"

lemma preserves_stages: "preserves evs m \<Longrightarrow> preserves (\<lambda>w. stages (evs w)) m"
  by (simp add: preserves_def)

lemma emit_steps:
  assumes "records_events evs P"
  shows "steps (\<lambda>w. stages (evs w)) (if st = ''bronze-series'' then [] else [(st, status')]) {} (emit P rid command st status' ctx)"
proof (rule stepsI)
  have sink: "\<exists>w'. emit P rid command st status' ctx w = (Inr (), w')
      \<and> evs w' = evs w @ [\<lparr>ev_run_id = rid, ev_command = command, ev_stage = st, ev_status = status', ev_context = ctx\<rparr>]" for w
    using assms unfolding records_events_def emit_def by blast
  show "stages (evs w') = stages (evs w) @ (if st = ''bronze-series'' then [] else [(st, status')])"
    if "emit P rid command st status' ctx w = (Inr x, w')" for w x w'
    using that sink [of w] by (auto simp: stages_def)
  show "\<exists>f \<in> {}. stages (evs w') = stages (evs w) @ f" if "emit P rid command st status' ctx w = (Inl e, w')" for w e w'
    using that sink [of w] by simp
qed

lemma emits:
  "records_events evs P \<Longrightarrow> st \<noteq> ''bronze-series'' \<Longrightarrow>
    steps (\<lambda>w. stages (evs w)) [(st, status')] {} (emit P rid command st status' ctx)"
  using emit_steps [of evs P st status' rid command ctx] by simp

lemma emits_series:
  "records_events evs P \<Longrightarrow> steps (\<lambda>w. stages (evs w)) [] {} (emit P rid command ''bronze-series'' status' ctx)"
  using emit_steps [of evs P "''bronze-series''" status' rid command ctx] by simp

lemma silent:
  assumes "records_events evs P"
  defines "tr \<equiv> \<lambda>w. stages (evs w)"
  shows "steps tr [] {[]} (reconcile (dp_publisher P))" "steps tr [] {[]} (publish (dp_publisher P) f i)"
    "steps tr [] {[]} (run_many (dp_bronze P) selected operation today)" "steps tr [] {[]} (dp_silver_build P c)"
    "steps tr [] {[]} (dp_silver_read P c)" "steps tr [] {[]} (retention_run (dp_retain P) (dp_retention P))"
    "steps tr [] {[]} (dp_inventory P)" "steps tr [] {[]} (dp_run_id P command)"
  using assms(1) unfolding tr_def by (auto simp: records_events_def intro!: steps_silent preserves_stages)

lemma steps_collect:
  assumes "\<And>x. steps tr [] {[]} (f x)"
  shows "steps tr [] {[]} (collect f xs)"
proof (induction xs)
  case (Cons x xs)
  have "steps tr [] {[]} (bind (collect f xs) (\<lambda>ys. ret (y # ys)))" for y
    using steps_bind [OF Cons steps_ret] by simp
  from steps_bind [OF assms this] show ?case by simp
qed (auto intro: steps_mono [OF steps_ret])

lemma bronze_results:
  assumes "records_events evs P"
  defines "tr \<equiv> \<lambda>w. stages (evs w)"
  shows "steps tr [(''bronze'', if br_failures b = [] then ''success'' else ''failed'')] {[]} (log_bronze_results P rid command b)"
proof -
  have 1: "steps tr [] {[]} (for_each (\<lambda>r. emit P rid command ''bronze-series'' ''success'' (success_context r)) (br_successes b))"
    unfolding tr_def by (intro steps_for_each steps_mono [OF emits_series [OF assms(1)]]) simp
  have "steps tr [] {[]} (bind (lift (lookup_series P series)) (\<lambda>c.
           emit P rid command ''bronze-series'' ''failed''
             [(''series'', EvStr series), (''provider'', EvStr (provider_value (series_provider c)))]))" for series
    unfolding tr_def using steps_bind [OF steps_lift emits_series [OF assms(1)]] by simp
  then have 2: "steps tr [] {[]} (for_each (\<lambda>series. bind (lift (lookup_series P series)) (\<lambda>c.
           emit P rid command ''bronze-series'' ''failed''
             [(''series'', EvStr series), (''provider'', EvStr (provider_value (series_provider c)))])) (br_failures b))"
    by (rule steps_for_each)
  have 3: "steps tr [(''bronze'', if br_failures b = [] then ''success'' else ''failed'')] {}
      (emit P rid command ''bronze'' (if br_failures b = [] then ''success'' else ''failed'') [(''failures'', EvList (br_failures b))])"
    unfolding tr_def by (rule emits [OF assms(1)]) simp
  from steps_seq [OF 1 steps_seq [OF 2 3]] show ?thesis
    by (simp add: log_bronze_results_def)
qed

section \<open>The parts of the workflow\<close>

lemma sources_steps:
  assumes "records_events evs P"
  defines "tr \<equiv> \<lambda>w. stages (evs w)"
  shows "steps tr (take 4 daily_stages)
    (insert (take 3 daily_stages @ [(''bronze'', ''failed'')]) {f. prefix f (take 4 daily_stages)})
    (daily_sources P rid selected today)"
proof -
  note em = emits [OF assms(1), folded tr_def] and quiet = silent [OF assms(1), folded tr_def]
  have batch: "steps tr [(''bronze'', ''success'')] {[], [(''bronze'', ''success'')], [(''bronze'', ''failed'')]}
      (seq (log_bronze_results P rid ''run-daily'' b)
        (if br_failures b \<noteq> [] then throw (provider_batch_error (br_failures b)) else ret b))" for b
  proof (cases "br_failures b = []")
    case True
    with steps_seq [OF bronze_results [OF assms(1), folded tr_def, of b rid "''run-daily''"] steps_ret [of tr b]] show ?thesis
      by (simp add: steps_mono)
  next
    case False
    show ?thesis
      using False
      by (simp, intro steps_weaken [OF steps_seq_throw [OF bronze_results [OF assms(1), folded tr_def, of b rid "''run-daily''"]]])
        simp_all
  qed
  have recover: "steps tr (take 2 daily_stages) {[], take 1 daily_stages} (recover P rid ''run-daily'')"
    unfolding recover_def
    using steps_seq [OF em [of "''recovery''" "''started''" rid "''run-daily''" "[]"]
        steps_seq [OF quiet(1) em [of "''recovery''" "''success''" rid "''run-daily''" "[]"]]]
    by (auto simp: daily_stages_def elim!: steps_mono)
  have "steps tr [(''bronze'', ''started''), (''bronze'', ''success'')]
      {[(''bronze'', ''started'')], [(''bronze'', ''started''), (''bronze'', ''success'')], [(''bronze'', ''started''), (''bronze'', ''failed'')]}
      (seq (emit P rid ''run-daily'' ''bronze'' ''started'' []) (bind (run_many (dp_bronze P) selected UPDATE today) (\<lambda>b.
        seq (log_bronze_results P rid ''run-daily'' b)
        (if br_failures b \<noteq> [] then throw (provider_batch_error (br_failures b)) else ret b))))"
    by (rule steps_weaken [OF steps_seq [OF em [of "''bronze''" "''started''" rid "''run-daily''" "[]"]
        steps_bind [OF quiet(3) batch]]]) auto
  from steps_seq [OF recover this] show ?thesis
    unfolding daily_sources_def by (rule steps_weaken) (auto simp: daily_stages_def)
qed

lemma silver_steps:
  assumes "records_events evs P"
  defines "tr \<equiv> \<lambda>w. stages (evs w)"
  shows "steps tr [(''silver'', ''started''), (''silver'', ''success'')] {[(''silver'', ''started'')]}
    (build_selected_silver P rid ''run-daily'' selected)"
proof -
  note em = emits [OF assms(1), folded tr_def] and quiet = silent [OF assms(1), folded tr_def]
  have "steps tr [] {[]} (bind (lift (lookup_series P series)) (dp_silver_build P))" for series
    using steps_bind [OF steps_lift quiet(4)] by simp
  from steps_seq [OF em [of "''silver''" "''started''" rid "''run-daily''" "[]"]
      steps_seq [OF steps_collect [OF this] em [of "''silver''" "''success''" rid "''run-daily''" "[]"]]]
  show ?thesis
    unfolding build_selected_silver_def by (rule steps_weaken) auto
qed

lemma gold_steps:
  assumes "records_events evs P"
  defines "tr \<equiv> \<lambda>w. stages (evs w)"
  shows "steps tr [(''gold-frame'', ''started''), (''gold-frame'', ''success''), (''gold-publish'', ''success'')]
    {[(''gold-frame'', ''started'')], [(''gold-frame'', ''started''), (''gold-frame'', ''success'')]}
    (publish_gold P rid ''run-daily'')"
proof -
  note em = emits [OF assms(1), folded tr_def] and quiet = silent [OF assms(1), folded tr_def]
  have read: "steps tr [] {[]} (case x of (series, c) \<Rightarrow> bind (dp_silver_read P c) (\<lambda>f. ret (series, f)))" for x
    using steps_bind [OF quiet(5) steps_ret] by (cases x) simp
  have emitted: "steps tr [(''gold-frame'', ''success'')] {}
      (seq (emit P rid ''run-daily'' ''gold-frame'' ''success'' [(''row_count'', EvInt (int (f_height (gfb_frame gold))))]) (ret gold))" for gold
    by (rule steps_weaken [OF steps_seq [OF em steps_ret]]) auto
  have assembled: "steps tr [(''gold-frame'', ''success'')] {[]}
      (seq (lift (raise_if b c m)) (bind (lift (dp_assemble P silver)) (\<lambda>gold.
        seq (emit P rid ''run-daily'' ''gold-frame'' ''success'' [(''row_count'', EvInt (int (f_height (gfb_frame gold))))]) (ret gold))))" for b c m silver
    by (rule steps_weaken [OF steps_seq [OF steps_lift steps_bind [OF steps_lift emitted]]]) auto
  have frame: "steps tr [(''gold-frame'', ''started''), (''gold-frame'', ''success'')] {[(''gold-frame'', ''started'')]}
      (canonical_gold P rid ''run-daily'')"
    unfolding canonical_gold_def
    by (rule steps_weaken [OF steps_seq [OF em [of "''gold-frame''" "''started''" rid "''run-daily''" "[]"]
        steps_bind [OF steps_collect [OF read] assembled]]]) auto
  have published: "steps tr [(''gold-publish'', ''success'')] {}
      (seq (emit P rid ''run-daily'' ''gold-publish'' ''success'' ctx) (ret r))" for ctx and r :: gold_record
    by (rule steps_weaken [OF steps_seq [OF em steps_ret]]) auto
  show ?thesis
    unfolding publish_gold_def
    by (rule steps_weaken [OF steps_bind [OF frame steps_bind [OF quiet(2) published]]]) auto
qed

lemma upkeep_steps:
  assumes "records_events evs P"
  defines "tr \<equiv> \<lambda>w. stages (evs w)"
  shows "steps tr [(''retention'', ''success''), (''inventory'', ''success'')] {[], [(''retention'', ''success'')]}
    (daily_upkeep P rid)"
proof -
  note em = emits [OF assms(1), folded tr_def] and quiet = silent [OF assms(1), folded tr_def]
  have "steps tr [(''inventory'', ''success'')] {}
      (seq (emit P rid ''run-daily'' ''inventory'' ''success'' []) (ret x))" for x :: retention_result
    by (rule steps_weaken [OF steps_seq [OF em steps_ret]]) auto
  then have rest: "steps tr [(''retention'', ''success''), (''inventory'', ''success'')] {[(''retention'', ''success'')]}
      (seq (emit P rid ''run-daily'' ''retention'' ''success'' ctx) (seq (dp_inventory P)
        (seq (emit P rid ''run-daily'' ''inventory'' ''success'' []) (ret x))))" for ctx and x :: retention_result
    by (intro steps_weaken [OF steps_seq [OF em [of "''retention''" "''success''"] steps_seq [OF quiet(7)]]]) auto
  show ?thesis
    unfolding daily_upkeep_def by (rule steps_weaken [OF steps_bind [OF quiet(6) rest]]) auto
qed

text \<open>The body emits the stages in order, stops anywhere, or ends with the failure of the sources.\<close>

lemma body_steps:
  assumes "records_events evs P"
  defines "tr \<equiv> \<lambda>w. stages (evs w)"
  shows "steps tr daily_stages
    (insert (take 3 daily_stages @ [(''bronze'', ''failed'')]) {f. prefix f daily_stages})
    (daily_body P rid selected today)"
proof -
  note S = sources_steps [OF assms(1), folded tr_def] silver_steps [OF assms(1), folded tr_def]
    gold_steps [OF assms(1), folded tr_def] upkeep_steps [OF assms(1), folded tr_def]
  show ?thesis
    unfolding daily_body_def
    by (rule steps_weaken [OF steps_bind [OF S(1) steps_seq [OF S(2) steps_bind [OF S(3) steps_bind [OF S(4) steps_ret]]]]])
      (auto simp: daily_stages_def elim!: prefix_order.trans)
qed

section \<open>The order of the stages\<close>

lemma daily_path:
  "successively stage_step ((''command'', ''started'') # daily_stages @ [(''command'', ''success'')])"
  by (simp add: daily_stages_def stage_step_def stage_edges_def)

lemma unfinished_stage: "e \<in> set ((''command'', ''started'') # daily_stages) \<Longrightarrow> stage_step e (''command'', ''failed'')"
  by (auto simp: daily_stages_def stage_step_def)

lemma prefix_path:
  assumes "prefix f daily_stages"
  shows "successively stage_step ((''command'', ''started'') # f)"
    "successively stage_step ((''command'', ''started'') # f @ [(''command'', ''failed'')])"
proof -
  obtain g where g: "daily_stages = f @ g"
    using assms by (auto simp: prefix_def)
  show path: "successively stage_step ((''command'', ''started'') # f)"
    using daily_path successively_append_iff [of stage_step "(''command'', ''started'') # f" "g @ [(''command'', ''success'')]"]
    unfolding g by simp
  have "last ((''command'', ''started'') # f) \<in> set ((''command'', ''started'') # daily_stages)"
    unfolding g by (cases f rule: rev_cases) auto
  from unfinished_stage [OF this] path
  show "successively stage_step ((''command'', ''started'') # f @ [(''command'', ''failed'')])"
    using successively_append_iff [of stage_step "(''command'', ''started'') # f" "[(''command'', ''failed'')]"] by simp
qed

lemma gold_after_sources:
  assumes "prefix f daily_stages" "(''gold-publish'', ''success'') \<in> set f"
  shows "(''bronze'', ''success'') \<in> set f \<and> (''silver'', ''success'') \<in> set f"
proof -
  have "f \<in> set (prefixes daily_stages)"
    using assms(1) by simp
  then show ?thesis
    using assms(2) by (auto simp: daily_stages_def simp del: in_set_prefixes)
qed

lemma run_daily_trace:
  assumes rec: "records_events evs P" and run: "run_daily P ids today w = (res, w')"
  obtains (early) e where "res = Inl e" "stages (evs w') = stages (evs w)"
  | (failed) e f where "res = Inl e" "f = take 3 daily_stages @ [(''bronze'', ''failed'')] \<or> prefix f daily_stages"
      "stages (evs w') = stages (evs w) @ (''command'', ''started'') # f @ (if is_exception e then [(''command'', ''failed'')] else [])"
  | (finished) r where "res = Inr r"
      "stages (evs w') = stages (evs w) @ (''command'', ''started'') # daily_stages @ [(''command'', ''success'')]"
      "\<exists>b. cr_bronze r = Some b \<and> br_failures b = []"
proof -
  let ?tr = "\<lambda>w. stages (evs w)"
  note em = emits [OF rec, of "''command''"]
  have start: "steps ?tr [(''command'', ''started'')] {[]} (start_command P ''run-daily'' selected)" for selected
    unfolding start_command_def
    by (rule steps_weaken [OF steps_bind [OF silent(8) [OF rec] steps_seq [OF em steps_ret]]]) auto
  note body = body_steps [OF rec]
  have finish: "finish_command P rid ''run-daily'' st v = (q, v') \<Longrightarrow> q = Inr () \<and> ?tr v' = ?tr v @ [(''command'', st)]" for rid st v q v'
    using steps_Inr [OF em [of st rid "''run-daily''" "[]"]] steps_Inl [OF em [of st rid "''run-daily''" "[]"]]
    by (cases q) (auto simp: finish_command_def)
  consider (none) e where "res = Inl e" "?tr w' = ?tr w"
    | (begun) selected rid w1 where "start_command P ''run-daily'' selected w = (Inr rid, w1)"
        "in_command P rid ''run-daily'' (daily_body P rid selected today) w1 = (res, w')"
  proof (cases "resolve_series P ids")
    case (Inr selected)
    then show thesis
      using run none begun steps_Inl [OF start [of selected]]
      by (cases "start_command P ''run-daily'' selected w" rule: prod.exhaust; cases "fst (start_command P ''run-daily'' selected w)")
        (auto simp: run_daily_def bind_def lift_def)
  qed (use run none in \<open>auto simp: run_daily_def bind_def lift_def\<close>)
  then show thesis
  proof cases
    case none
    then show thesis by (rule early)
  next
    case begun
    have w1: "?tr w1 = ?tr w @ [(''command'', ''started'')]"
      using steps_Inr [OF start begun(1)] .
    obtain q w2 where q: "daily_body P rid selected today w1 = (q, w2)"
      by (cases "daily_body P rid selected today w1")
    show thesis
    proof (cases q)
      case (Inl e)
      then obtain f where f: "f = take 3 daily_stages @ [(''bronze'', ''failed'')] \<or> prefix f daily_stages" "?tr w2 = ?tr w1 @ f"
        using steps_Inl [OF body q [unfolded Inl]] by auto
      obtain u w3 where u: "finish_command P rid ''run-daily'' ''failed'' w2 = (u, w3)"
        by (cases "finish_command P rid ''run-daily'' ''failed'' w2")
      note fin = finish [OF u]
      show thesis
      proof (rule failed [of e f])
        show "res = Inl e"
          using begun(2) q Inl u fin by (auto simp: in_command_def try_except_def bind_def seq_def throw_def split: if_splits)
        show "?tr w' = ?tr w @ (''command'', ''started'') # f @ (if is_exception e then [(''command'', ''failed'')] else [])"
          using begun(2) q Inl u fin f(2) w1
          by (auto simp: in_command_def try_except_def bind_def seq_def throw_def split: if_splits)
      qed (rule f(1))
    next
      case (Inr r)
      obtain u w3 where u: "finish_command P rid ''run-daily'' ''success'' w2 = (u, w3)"
        by (cases "finish_command P rid ''run-daily'' ''success'' w2")
      note fin = finish [OF u]
      have "\<exists>b. cr_bronze r = Some b \<and> br_failures b = []"
        using q Inr by (auto simp: daily_body_def daily_sources_def io_inv ret_apply throw_apply split: if_splits)
      moreover have "res = Inr r" "w' = w3"
        using begun(2) q Inr u fin by (auto simp: in_command_def try_except_def bind_def seq_def ret_def)
      ultimately show thesis
        using fin steps_Inr [OF body q [unfolded Inr]] w1 by (intro finished) auto
    qed
  qed
qed


section \<open>A day on which the only source fails\<close>

text \<open>The world is the event log; the services do nothing else, and the provider refuses the connection.\<close>

definition demo_uow :: "event list unit_of_work" where
  "demo_uow = \<lparr>uow_bounds_of = (\<lambda>_. ret \<lparr>bounds_minimum = Some 738000, bounds_maximum = Some 739000\<rparr>),
     uow_state_of = (\<lambda>c. ret (initial_state (series_provider c) (series_id c))),
     uow_prepare = (\<lambda>c f. throw unreachable), uow_commit = (\<lambda>p r st. ret ()), uow_failure = (\<lambda>r. ret ())\<rparr>"

definition demo_bronze_service :: "event list orchestrator" where
  "demo_bronze_service = \<lparr>or_registry = [''dgs10'' \<mapsto> demo_contract],
     or_providers = (\<lambda>_. Some (\<lambda>c r. throw unreachable)), or_uow = demo_uow, or_planner = None,
     or_clock = ret (Aware 5 0), or_run_id = (\<lambda>_. ret ''r1''), or_exc_name = (\<lambda>_. ''ConnectError'')\<rparr>"

definition demo_pipeline :: "event list daily_pipeline" where
  "demo_pipeline = \<lparr>dp_registry = [(''dgs10'', demo_contract)], dp_bronze = demo_bronze_service,
     dp_silver_build = (\<lambda>c. throw unreachable), dp_silver_read = (\<lambda>c. throw unreachable),
     dp_assemble = (\<lambda>_. Inl unreachable),
     dp_publisher = \<lparr>pub_read = ret [], pub_replace = (\<lambda>_. ret ()), pub_next_build_id = throw unreachable,
       pub_create_and_validate = (\<lambda>_ _ _ _. throw unreachable), pub_refresh_views = (\<lambda>_. ret ()), pub_mirror_sync = None,
       pub_clock = ret (Aware 5 0), pub_event = (\<lambda>_. ret ())\<rparr>,
     dp_retain = 3, dp_retention = \<lparr>ret_read = throw unreachable, ret_replace = (\<lambda>_. ret ()), ret_sweep = (\<lambda>_. ret ()),
       ret_refresh_views = (\<lambda>_. ret ()), ret_clock = ret (Aware 5 0)\<rparr>,
     dp_inventory = ret (), dp_run_id = (\<lambda>_. ret ''run''), dp_event = (\<lambda>e. modify (\<lambda>w. w @ [e])), dp_now = ret 739001\<rparr>"

lemma demo_records: "records_events id demo_pipeline"
proof -
  have "services_preserve id demo_bronze_service"
    by (auto simp: services_preserve_def demo_bronze_service_def demo_uow_def intro: preserves_intros)
  then have "preserves id (run_many (dp_bronze demo_pipeline) selected operation today)" for selected operation today
    by (simp add: demo_pipeline_def run_many_preserves)
  moreover have "preserves id (reconcile (dp_publisher demo_pipeline))"
    by (simp add: preserves_def reconcile_def demo_pipeline_def bind_def ret_def seq_def)
  moreover have "preserves id (publish (dp_publisher demo_pipeline) f i)" for f i
    by (simp add: preserves_def publish_def reconcile_def demo_pipeline_def bind_def ret_def throw_def seq_def)
  moreover have "preserves id (retention_run (dp_retain demo_pipeline) (dp_retention demo_pipeline))"
    by (simp add: preserves_def retention_run_def demo_pipeline_def bind_def throw_def)
  ultimately show ?thesis
    by (auto simp: records_events_def demo_pipeline_def modify_def intro: preserves_intros)
qed

lemma demo_batch:
  "run_many demo_bronze_service [''dgs10''] UPDATE 739001 w = (Inr \<lparr>br_successes = [], br_failures = [''dgs10'']\<rparr>, w)"
proof -
  let ?plan = "\<lparr>fi_mode = UPDATE, request_start = Some 738993, request_end = 739001, maximum_history = False,
    filter_start = Some 738993, filter_end = Some 739001\<rparr>"
  have plan: "plan_series demo_bronze_service demo_contract UPDATE 739001 w = (Inr ?plan, w)"
    by (simp add: plan_series_def demo_bronze_service_def demo_uow_def bind_def seq_def ret_def lift_def build_plan_def
        choose_mode_def date_minus_days_def default_overlap_days_def demo_contract_def)
  have failure: "audit_failure demo_bronze_service ''r1'' demo_contract ?plan (Aware 5 0) 0 0 unreachable w = (Inl unreachable, w)"
    by (simp add: audit_failure_def demo_bronze_service_def demo_uow_def utc_now_def bind_def seq_def ret_def lift_def throw_def
        failed_run_def RunMode_def enum_of_def IngestionRunRecord_def
        is_exception_def unreachable_def is_blank_def is_space_def)
  have "run_series demo_bronze_service ''dgs10'' UPDATE 739001 w = (Inl unreachable, w)"
    using plan failure
    by (simp add: run_series_def run_attempt_def Let_def guarded_def resolve_contract_def resolve_provider_def utc_now_def
        demo_bronze_service_def bind_def lift_def ret_def throw_def provider_request_of_def ProviderRequest_def opt_or_def)
  then show ?thesis
    by (simp add: run_many_def run_one_def bind_def seq_def lift_def ret_def try_except_def is_exception_def unreachable_def)
qed


section \<open>The daily command never reconciles\<close>


text \<open>A provider that ends the process when it is asked to reconcile.\<close>

definition guarded_providers :: "provider \<Rightarrow> event list market_data_provider option" where
  "guarded_providers p = Some (\<lambda>c r. throw (if bounded_request r then unreachable else Exn SystemExit ''reconciled''))"


end
