(* ===== verification/Silver_Files.thy ===== *)
theory Silver_Files
  imports Bronze_Commit
begin

text \<open>
  \<open>src/ingestion/silver_repository.py\<close>: the monthly Silver files of a series, read as one typed frame and
  rebuilt from its Bronze files.
\<close>

definition SILVER_KEY :: "string list" where
  "SILVER_KEY = [''series_id'', ''observation_date'']"

definition silver_root :: "path \<Rightarrow> series_contract \<Rightarrow> path" where
  "silver_root lake_root c = lake_root @ [''silver'', ''series='' @ series_id c]"

definition silver_frame :: "polars \<Rightarrow> frame \<Rightarrow> frame result" where
  "silver_frame pl f =
    (if f_columns f = [] then pl_dataframe pl [] SILVER_SCHEMA
     else if f_schema f \<noteq> SILVER_SCHEMA then raise ValueError ''invalid persisted Silver schema''
     else pl_sort pl SILVER_KEY f)"

definition silver_read :: "polars \<Rightarrow> polars_tables \<Rightarrow> path \<Rightarrow> series_contract \<Rightarrow> ('z lake_scheme, frame) io" where
  "silver_read pl T lake_root c =
    bind (month_paths (silver_root lake_root c)) (\<lambda>ps.
    bind (read_monthly pl T [] ps) (\<lambda>f. lift (silver_frame pl f)))"

definition silver_build ::
  "polars \<Rightarrow> polars_ops \<Rightarrow> polars_tables \<Rightarrow> path \<Rightarrow> series_contract \<Rightarrow> ('z lake_scheme, frame_diff) io" where
  "silver_build pl ops T lake_root c =
    bind (month_paths (series_root lake_root c)) (\<lambda>ps.
    bind (read_monthly pl T BRONZE_KEY ps) (\<lambda>bronze.
    bind (lift (canonicalize_silver pl ops c bronze)) (\<lambda>candidate.
    bind (silver_read pl T lake_root c) (\<lambda>existing.
    bind (upsert_monthly pl T existing candidate SILVER_KEY ''observation_date'' (silver_partition lake_root (series_id c)))
      (\<lambda>(diff, written). ret diff)))))"

section \<open>Reading\<close>

lemma reads_keep_files:
  "preserves files (month_paths q)" "preserves files (read_monthly pl T key ps)" "preserves files (silver_read pl T lake_root c)"
  unfolding silver_read_def month_paths_def read_monthly_def existing_paths_def by (intro preserves_intros)+

lemma preserves_file: "preserves files m \<Longrightarrow> preserves (file_at p) m"
  by (simp add: preserves_def file_at_def)

lemma reads_keep:
  "preserves (file_at p) (month_paths q)" "preserves (file_at p) (read_monthly pl T key ps)"
  "preserves (file_at p) (silver_read pl T lake_root c)"
  by (rule preserves_file, rule reads_keep_files)+

text \<open>
  C35: what the Silver repository returns for a series is typed and ordered whatever is on disk: a frame
  with exactly the Silver schema, its rows sorted by series and date; a file of another schema is an
  error.  Reading changes no file.
\<close>

theorem silver_read_typed:
  assumes "polars_frames pl" "silver_read pl T lake_root c w = (res, w')"
  shows "files w' = files w \<and> (case res of
      Inl _ \<Rightarrow> True
    | Inr f \<Rightarrow> f_schema f = SILVER_SCHEMA \<and> sorted (map (row_key SILVER_SCHEMA SILVER_KEY) (f_rows f)))"
proof -
  have "files w' = files w"
    using preservesD [OF reads_keep_files(3) assms(2)] .
  moreover have "f_schema f = SILVER_SCHEMA \<and> sorted (map (row_key SILVER_SCHEMA SILVER_KEY) (f_rows f))" if returned: "res = Inr f" for f
  proof -
    obtain g where g: "silver_frame pl g = Inr f"
      using assms(2) [unfolded returned] by (auto simp: silver_read_def io_inv lift_apply)
    show ?thesis
    proof (cases "f_columns g = []")
      case True
      have "encode_rows SILVER_SCHEMA [] = Some []" by simp
      from polars_frames.dataframe_fits [OF assms(1) this] show ?thesis
        using g True by (auto simp: silver_frame_def)
    next
      case False
      then have "f_schema g = SILVER_SCHEMA" "pl_sort pl SILVER_KEY g = Inr f"
        using g by (auto simp: silver_frame_def split: if_splits)
      then show ?thesis
        using polars_frames.sort_schema [OF assms(1)] polars_frames.sort_sorted [OF assms(1)] by metis
    qed
  qed
  ultimately show ?thesis
    by (cases res) simp_all
qed

theorem silver_read_typed_witness:
  "\<exists>f. silver_read reference_polars reference_tables [''lake''] demo_contract empty_lake = (Inr f, empty_lake) \<and> f_schema f = SILVER_SCHEMA"
proof -
  have run: "silver_read reference_polars reference_tables [''lake''] demo_contract empty_lake
      = (Inr \<lparr>f_schema = SILVER_SCHEMA, f_rows = []\<rparr>, empty_lake)"
    by (simp add: silver_read_def month_paths_def read_monthly_def existing_paths_def seq_def bind_def ret_def gets_def
        lift_def fault_point_def empty_lake_def silver_frame_def empty_frame_def f_columns_def reference_polars_def)
  from silver_read_typed [OF ref_polars.polars_frames_axioms run] show ?thesis
    using run by auto
qed

section \<open>Building\<close>

text \<open>
  C36: a Silver build is local: whatever fails, it changes no file but monthly Silver files of its own
  series, so Bronze, the operational files, Gold and the Silver of every other series stay as they are.
\<close>

theorem silver_build_local:
  assumes "silver_build pl ops T lake_root c w = (res, w')" "\<not> is_month_path (silver_root lake_root c) p"
  shows "file_at p w' = file_at p w"
proof -
  have "p \<notin> silver_partition lake_root (series_id c) ` set months" for months
    using assms(2) partition_is_month_path(2) by (auto simp: silver_root_def)
  then have months: "preserves (file_at p) (for_each (write_month ''observation_date''
      (silver_partition lake_root (series_id c)) merged) months)" for merged months
    by (rule write_month_other)
  have upsert: "preserves (file_at p) (upsert_monthly pl T existing candidate SILVER_KEY ''observation_date''
      (silver_partition lake_root (series_id c)))" for existing candidate
    unfolding upsert_monthly_def Let_def
    by (auto intro!: preserves_intros months split: prod.split)
  have "preserves (file_at p) (silver_build pl ops T lake_root c)"
    unfolding silver_build_def
    by (auto intro!: preserves_intros reads_keep upsert split: prod.split)
  from preservesD [OF this assms(1)] show ?thesis .
qed

theorem silver_build_local_witness:
  "\<exists>res w'. silver_build reference_polars reference_polars_ops reference_tables [''lake''] demo_contract empty_lake = (res, w')
    \<and> file_at [''lake'', ''manifests'', ''ingestion_state.parquet''] w' = None"
proof -
  obtain res w' where run: "silver_build reference_polars reference_polars_ops reference_tables [''lake''] demo_contract empty_lake = (res, w')"
    by (cases "silver_build reference_polars reference_polars_ops reference_tables [''lake''] demo_contract empty_lake")
  have "\<not> is_month_path (silver_root [''lake''] demo_contract) [''lake'', ''manifests'', ''ingestion_state.parquet'']"
    by (simp add: is_month_path_def silver_root_def)
  from silver_build_local [OF run this] run show ?thesis
    by (simp add: empty_lake_def file_at_def)
qed

end
