(* ===== verification/Frame_Keys.thy ===== *)
theory Frame_Keys
  imports Polars_Ops
begin

text \<open>
  How sorting, selecting and joining act on a frame whose rows are identified by a key column, in
  terms of \<open>cell_at\<close>: the cell of a column in the row of a key.
\<close>

lemma cell_at_iff:
  assumes "keyed key f" "row \<in> set (f_rows f)" "row_cell (f_schema f) row key = k"
  shows "cell_at key f k c = row_cell (f_schema f) row c"
  using cell_at_unique [OF assms(1,2)] assms(3) by simp

lemma key_row:
  assumes "k \<in> set (column_cells f key)"
  obtains row where "row \<in> set (f_rows f)" "row_cell (f_schema f) row key = k"
  using assms by (auto simp: column_cells_def)

text \<open>A permutation of the rows changes no cell.\<close>

lemma keyed_perm:
  assumes f: "keyed key f" and s: "f_schema g = f_schema f" and m: "mset (f_rows g) = mset (f_rows f)"
  shows "keyed key g" "cell_at key g k c = cell_at key f k c"
proof -
  have set: "set (f_rows g) = set (f_rows f)"
    by (rule mset_eq_setD [OF m])
  have cols: "mset (column_cells g key) = mset (column_cells f key)"
    using m s by (simp add: column_cells_def)
  show g: "keyed key g"
    using f mset_eq_setD [OF cols] mset_eq_imp_distinct_iff [OF cols] set
    by (simp add: keyed_def wf_frame_def s f_columns_def list_all_iff)
  show "cell_at key g k c = cell_at key f k c"
  proof (cases "k \<in> set (column_cells f key)")
    case True
    then obtain row where "row \<in> set (f_rows f)" "row_cell (f_schema f) row key = k"
      by (rule key_row)
    then show ?thesis
      using cell_at_iff [OF f, of row k c] cell_at_iff [OF g, of row k c] set s by simp
  next
    case False
    then show ?thesis
      using mset_eq_setD [OF cols] by (simp add: cell_at_absent)
  qed
qed

context polars_frames
begin

lemma sort_keyed:
  assumes "keyed key f" "pl_sort pl cols f = Inr g"
  shows "keyed key g" "cell_at key g k c = cell_at key f k c"
  using keyed_perm [OF assms(1) sort_schema [OF assms(2)] sort_perm [OF assms(2)]] by auto

end

section \<open>Selections\<close>

lemma select_schema_of:
  assumes "distinct (map fst es)" "(n, e) \<in> set es"
  shows "map_of (select_schema s es) n = Some (the (expr_type s e))"
proof -
  have "(n, the (expr_type s e)) \<in> set (select_schema s es)" "distinct (map fst (select_schema s es))"
    using assms by (force simp: select_schema_def comp_def split_def)+
  then show ?thesis
    by simp
qed

lemma select_columns: "map fst (select_schema s es) = map fst es"
  by (simp add: select_schema_def comp_def split_def)

lemma select_row_cell:
  assumes "distinct (map fst es)" "(n, e) \<in> set es"
  shows "row_cell (select_schema s es) (map (\<lambda>p. expr_cell cast t row (snd p)) es) n = expr_cell cast t row e"
  using assms
proof (induction es)
  case (Cons p es)
  show ?case
  proof (cases "p = (n, e)")
    case True
    then show ?thesis by (simp add: select_schema_def)
  next
    case False
    then have "(n, e) \<in> set es" "fst p \<noteq> n"
      using Cons.prems by (auto simp: rev_image_eqI)
    then show ?thesis
      using Cons by (cases p) (simp add: select_schema_def)
  qed
qed simp

definition expr_fits :: "pl_expr \<Rightarrow> bool" where
  "expr_fits e \<longleftrightarrow> (case e of PlLit x t \<Rightarrow> cell_fits t x | _ \<Rightarrow> True)"

text \<open>Every expression has a type.\<close>

definition exprs_ok :: "schema \<Rightarrow> (string \<times> pl_expr) list \<Rightarrow> bool" where
  "exprs_ok s es \<longleftrightarrow> distinct (map fst es) \<and> list_all (\<lambda>p. expr_type s (snd p) \<noteq> None \<and> expr_fits (snd p)) es"

context polars_expressions
begin

lemma expr_cell_fits:
  assumes "row_fits s row" "expr_type s e = Some t" "expr_fits e"
  shows "cell_fits t (expr_cell (pl_cast_float ops) s row e)"
proof (cases e)
  case (PlUtcMidnight c)
  then show ?thesis
    using assms(2) by (cases "row_cell s row c") (auto split: if_splits)
next
  case (PlFillNan c)
  then have "cell_fits DFloat64 (row_cell s row c)" "t = DFloat64"
    using assms row_fits_cell by (auto split: if_splits)
  then show ?thesis
    using PlFillNan by (cases "row_cell s row c") auto
qed (use assms row_fits_cell cast_float_fits in \<open>auto simp: expr_fits_def split: if_splits\<close>)

lemma select_row_fits:
  assumes "row_fits s row" "list_all (\<lambda>p. expr_type s (snd p) \<noteq> None \<and> expr_fits (snd p)) es"
  shows "row_fits (select_schema s es) (map (\<lambda>p. expr_cell (pl_cast_float ops) s row (snd p)) es)"
  using assms(2)
proof (induction es)
  case (Cons p es)
  then show ?case
    using expr_cell_fits [OF assms(1), of "snd p"] by (cases p) (auto simp: select_schema_def)
qed (simp add: select_schema_def)

lemma select_wf:
  assumes "wf_frame f" "exprs_ok (f_schema f) es"
  shows "wf_frame (select_rows (pl_cast_float ops) f es)"
  using assms select_row_fits [of "f_schema f" _ es]
  by (auto simp: wf_frame_def f_columns_def select_columns list_all_iff select_rows_def exprs_ok_def)

text \<open>
  A selection that maps the key of every row by an injective function to the new key, and a column by
  a function that keeps null.
\<close>

lemma select_keyed:
  assumes f: "keyed key f" and es: "exprs_ok (f_schema f) es"
    and k: "(key', ke) \<in> set es"
    and phi: "\<And>row. row \<in> set (f_rows f) \<Longrightarrow>
      expr_cell (pl_cast_float ops) (f_schema f) row ke = \<phi> (row_cell (f_schema f) row key)"
    and inj: "inj_on \<phi> (set (column_cells f key))" "CNull \<notin> \<phi> ` set (column_cells f key)"
  shows "keyed key' (select_rows (pl_cast_float ops) f es)"
    "column_cells (select_rows (pl_cast_float ops) f es) key' = map \<phi> (column_cells f key)"
proof -
  let ?g = "select_rows (pl_cast_float ops) f es"
  have dist: "distinct (map fst es)"
    using es by (simp add: exprs_ok_def)
  show col: "column_cells ?g key' = map \<phi> (column_cells f key)"
    using phi select_row_cell [OF dist k] by (simp add: column_cells_def select_rows_def)
  show "keyed key' ?g"
    unfolding keyed_def col using select_wf [OF keyedD(1) [OF f] es] keyedD(4) [OF f] inj k
    by (auto simp: distinct_map f_columns_def select_rows_def select_columns rev_image_eqI)
qed

lemma select_cell_at:
  assumes f: "keyed key f" and es: "exprs_ok (f_schema f) es"
    and ke: "(key', ke) \<in> set es"
    and phi: "\<And>row. row \<in> set (f_rows f) \<Longrightarrow>
      expr_cell (pl_cast_float ops) (f_schema f) row ke = \<phi> (row_cell (f_schema f) row key)"
    and inj: "inj_on \<phi> (insert k (set (column_cells f key)))" "CNull \<notin> \<phi> ` set (column_cells f key)"
    and e: "(n, e) \<in> set es"
    and psi: "\<And>row. expr_cell (pl_cast_float ops) (f_schema f) row e = \<psi> (row_cell (f_schema f) row c)"
      "\<psi> CNull = CNull"
  shows "cell_at key' (select_rows (pl_cast_float ops) f es) (\<phi> k) n = \<psi> (cell_at key f k c)"
proof -
  let ?g = "select_rows (pl_cast_float ops) f es"
  have dist: "distinct (map fst es)"
    using es by (simp add: exprs_ok_def)
  have inj': "inj_on \<phi> (set (column_cells f key))"
    using inj(1) by (rule inj_on_subset) auto
  have g: "keyed key' ?g" "column_cells ?g key' = map \<phi> (column_cells f key)"
    using select_keyed [OF f es ke, of \<phi>] phi inj' inj(2) by blast+
  show ?thesis
  proof (cases "k \<in> set (column_cells f key)")
    case True
    then obtain row where row: "row \<in> set (f_rows f)" "row_cell (f_schema f) row key = k"
      by (rule key_row)
    let ?out = "map (\<lambda>p. expr_cell (pl_cast_float ops) (f_schema f) row (snd p)) es"
    have "?out \<in> set (f_rows ?g)" "row_cell (f_schema ?g) ?out key' = \<phi> k"
      using row phi [OF row(1)] select_row_cell [OF dist ke] by (auto simp: select_rows_def)
    from cell_at_iff [OF g(1) this, of n] show ?thesis
      using psi select_row_cell [OF dist e] cell_at_iff [OF f row] by (simp add: select_rows_def)
  next
    case False
    then have "\<phi> k \<notin> set (column_cells ?g key')"
      using inj(1) unfolding g(2) by (auto simp: inj_on_def)
    then show ?thesis
      using False psi(2) by (simp add: cell_at_absent)
  qed
qed

end

section \<open>Joins\<close>

lemma full_join_cell_at:
  assumes "is_full_join key f g h" "keyed key f" "keyed key g" "c \<noteq> key"
  shows "c \<in> set (f_columns f) \<Longrightarrow> cell_at key h k c = cell_at key f k c"
    "c \<in> set (f_columns g) \<Longrightarrow> cell_at key h k c = cell_at key g k c"
proof -
  have "cell_at key h k c = CNull" "cell_at key f k c = CNull" "cell_at key g k c = CNull"
    if "k \<notin> set (column_cells h key)"
    using that assms(1) by (auto simp: is_full_join_def cell_at_absent)
  then show "c \<in> set (f_columns f) \<Longrightarrow> cell_at key h k c = cell_at key f k c"
    "c \<in> set (f_columns g) \<Longrightarrow> cell_at key h k c = cell_at key g k c"
    using assms by (cases "k \<in> set (column_cells h key)"; auto simp: is_full_join_def)+
qed

lemma full_join_columns:
  assumes "is_full_join key f g h"
  shows "f_columns h = f_columns f @ filter (\<lambda>c. c \<noteq> key) (f_columns g)"
  using assms by (simp add: is_full_join_def f_columns_def join_schema_def filter_map_eq)

end
