(* ===== verification/Gold_Assembly.thy ===== *)
theory Gold_Assembly
  imports Gold_Frame Frame_Keys
begin

text \<open>
  The Gold frame is the outer join of its inputs: no date is added or lost, no value is filled or
  changed.
\<close>

definition price_usable :: "cell \<Rightarrow> bool" where
  "price_usable c \<longleftrightarrow> cell_finite (fill_nan_cell c)"

text \<open>A Silver frame that the assembly accepts.\<close>

definition silver_input_ok :: "string \<Rightarrow> frame \<Rightarrow> bool" where
  "silver_input_ok s f \<longleftrightarrow> keyed ''observation_date'' f \<and> f_schema f = SILVER_SCHEMA \<and> \<not> wrong_identity f s
    \<and> CNull \<notin> set (column_cells f ''value'') \<and> list_all cell_finite (column_cells f ''value'')
    \<and> (\<forall>field \<in> set OHLC_FIELDS. list_all price_usable (column_cells f field))"

lemma cell_at_range: "cell_at key f k c \<in> insert CNull (set (column_cells f c))"
  by (auto simp: cell_at_def column_cells_def find_Some_iff split: option.split)

lemma gold_selection_columns:
  "map fst (gold_selection s) = ''timestamp_m1'' # level_column s # (if s \<in> set OHLC_SERIES then map (field_column s) OHLC_FIELDS else [])"
  by (simp add: gold_selection_def comp_def)

lemma series_columns_distinct:
  "distinct (''timestamp_m1'' # concat (map (\<lambda>s. tl (map fst (gold_selection s))) GOLD_SOURCE_SERIES))"
  unfolding gold_selection_columns list.sel
  by (simp add: source_series ohlc_series_eq OHLC_FIELDS_def level_column_def field_column_def)

lemma gold_columns_set:
  "set (tl GOLD_COLUMNS) = (\<Union>s \<in> set GOLD_SOURCE_SERIES. set (tl (map fst (gold_selection s))))"
  unfolding gold_selection_columns list.sel GOLD_COLUMNS_def using ohlc_in_source by (auto split: if_splits)

lemma midnight_inj: "inj_on midnight_cell (range CDate)"
  by (auto simp: inj_on_def utc_midnight_def us_per_day_def)

text \<open>The column of a Silver frame behind a Gold column.\<close>

definition source_column :: "string \<Rightarrow> string \<Rightarrow> string \<Rightarrow> bool" where
  "source_column s c src \<longleftrightarrow> c = level_column s \<and> src = ''value''
    \<or> s \<in> set OHLC_SERIES \<and> src \<in> set OHLC_FIELDS \<and> c = field_column s src"

lemma source_column_selected: "source_column s c src \<longleftrightarrow> (c, PlCol src) \<in> set (gold_selection s)"
  by (auto simp: source_column_def gold_selection_def)

lemma source_column_exists: "c \<in> set (tl (map fst (gold_selection s))) \<longleftrightarrow> (\<exists>src. source_column s c src)"
  by (auto simp: source_column_def gold_selection_columns)

lemma source_column_type: "source_column s c src \<Longrightarrow> map_of SILVER_SCHEMA src = Some DFloat64"
  by (auto simp: source_column_def SILVER_SCHEMA_def OHLC_FIELDS_def)

lemma finite_usable: "cell_finite x \<Longrightarrow> price_usable x"
  by (cases x) (auto simp: price_usable_def f64_finite_not_nan)

lemma source_cell_usable:
  assumes "silver_input_ok s f" "source_column s c src"
  shows "price_usable (cell_at key f k src)"
proof -
  have "list_all price_usable (column_cells f src)"
    using assms finite_usable unfolding silver_input_ok_def source_column_def list_all_iff by blast
  then show ?thesis
    using cell_at_range [of key f k src] by (auto simp: list_all_iff price_usable_def)
qed

text \<open>The frame of one series, before the join.\<close>

definition is_series_frame :: "string \<Rightarrow> frame \<Rightarrow> frame \<Rightarrow> bool" where
  "is_series_frame s f g \<longleftrightarrow> keyed ''timestamp_m1'' g \<and> map_of (f_schema g) ''timestamp_m1'' = Some DDatetimeUtc
    \<and> f_columns g = map fst (gold_selection s)
    \<and> set (column_cells g ''timestamp_m1'') = midnight_cell ` set (column_cells f ''observation_date'')
    \<and> (\<forall>c src. source_column s c src \<longrightarrow> map_of (f_schema g) c = Some DFloat64
        \<and> (\<forall>d. cell_at ''timestamp_m1'' g (CDatetime (utc_midnight d)) c = cell_at ''observation_date'' f (CDate d) src))"

text \<open>
  What the assembled frame is: the Gold columns, one row per observation date of any input in
  ascending order, and in each row the cell of every input at that date, null where it has none.
\<close>

definition assembled_from :: "(string \<times> frame) list \<Rightarrow> frame \<Rightarrow> bool" where
  "assembled_from inputs g \<longleftrightarrow>
    f_columns g = GOLD_COLUMNS \<and> keyed ''timestamp_m1'' g
    \<and> sorted (map cell_key (column_cells g ''timestamp_m1''))
    \<and> set (column_cells g ''timestamp_m1'') =
        (\<Union>s \<in> set GOLD_SOURCE_SERIES. midnight_cell ` set (column_cells (the (map_of inputs s)) ''observation_date''))
    \<and> (\<forall>s \<in> set GOLD_SOURCE_SERIES. \<forall>c src d. source_column s c src \<longrightarrow>
        cell_at ''timestamp_m1'' g (CDatetime (utc_midnight d)) c
          = fill_nan_cell (cell_at ''observation_date'' (the (map_of inputs s)) (CDate d) src))"

lemma cells_min_range: "cells_min cs \<in> insert CNull (set cs)"
  by (induction cs) (auto simp: Let_def split: if_splits)

lemma cells_max_range: "cells_max cs \<in> insert CNull (set cs)"
  by (induction cs) (auto simp: Let_def split: if_splits)

lemma keyed_typed:
  assumes "wf_frame f" "map_of (f_schema f) c = Some t" "x \<in> set (column_cells f c)"
  shows "cell_fits t x"
  using assms row_fits_cell by (auto simp: wf_frame_def column_cells_def list_all_iff)

lemma date_or_none_ok:
  assumes "\<And>x. x \<in> insert c (set []) \<Longrightarrow> cell_fits DDate x"
  shows "\<exists>d. date_or_none what c = Inr d"
  using assms by (cases c) (auto simp: date_or_none_def)

context silver_polars
begin

lemma validate_silver_ok:
  assumes "silver_input_ok s f"
  shows "\<exists>g. validate_silver pl s f = Inr g \<and> pl_sort pl [''observation_date''] f = Inr g"
proof -
  have "set [''observation_date''] \<subseteq> set (f_columns f)"
    using assms by (simp add: silver_input_ok_def keyed_def)
  then obtain g where "pl_sort pl [''observation_date''] f = Inr g"
    using sort_total by blast
  then show ?thesis
    using assms by (simp add: validate_silver_def silver_input_ok_def keyed_def)
qed

lemma series_frame_ok:
  assumes "map_of inputs s = Some f" and ok: "silver_input_ok s f" and s: "s \<in> set GOLD_SOURCE_SERIES"
  shows "\<exists>g. series_frame pl ops inputs s = Inr g \<and> is_series_frame s f g"
proof -
  obtain v where v: "validate_silver pl s f = Inr v" and sort: "pl_sort pl [''observation_date''] f = Inr v"
    using validate_silver_ok [OF ok] by blast
  have f: "keyed ''observation_date'' f" "f_schema f = SILVER_SCHEMA"
    using ok by (simp_all add: silver_input_ok_def)
  note kv = sort_keyed [OF f(1) sort]
  have sv: "f_schema v = SILVER_SCHEMA"
    using sort_schema [OF sort] f(2) by simp
  have dates: "set (column_cells v ''observation_date'') = set (column_cells f ''observation_date'')"
    using sort_column_perm [OF sort] by (rule mset_eq_setD)
  have "distinct (map fst (gold_selection s))"
  proof -
    have "distinct (tl (map fst (gold_selection s)))" "''timestamp_m1'' \<notin> set (tl (map fst (gold_selection s)))"
      using series_columns_distinct s by (auto simp: distinct_concat_iff)
    then show ?thesis
      by (simp add: gold_selection_columns)
  qed
  moreover have "list_all (\<lambda>p. expr_type SILVER_SCHEMA (snd p) \<noteq> None \<and> expr_fits (snd p)) (gold_selection s)"
    by (simp add: gold_selection_def SILVER_SCHEMA_def OHLC_FIELDS_def expr_fits_def)
  ultimately have es: "exprs_ok (f_schema v) (gold_selection s)"
    by (simp add: exprs_ok_def sv)
  let ?g = "select_rows (pl_cast_float ops) v (gold_selection s)"
  have sel: "pl_select ops (gold_selection s) v = Inr ?g"
  proof (rule select_ok)
    show "distinct (map fst (gold_selection s))" "list_all (\<lambda>p. expr_type (f_schema v) (snd p) \<noteq> None) (gold_selection s)"
      using es unfolding exprs_ok_def list_all_iff by blast+
  qed (simp add: gold_selection_def)
  have ts: "(''timestamp_m1'', PlUtcMidnight ''observation_date'') \<in> set (gold_selection s)"
    by (simp add: gold_selection_def)
  have "set (column_cells v ''observation_date'') \<subseteq> range CDate"
  proof
    fix c assume c: "c \<in> set (column_cells v ''observation_date'')"
    then obtain row where "row \<in> set (f_rows v)" "c = row_cell SILVER_SCHEMA row ''observation_date''"
      by (auto simp: column_cells_def sv)
    moreover have "map_of SILVER_SCHEMA ''observation_date'' = Some DDate"
      by (simp add: SILVER_SCHEMA_def)
    ultimately have "cell_fits DDate c"
      using keyedD(1) [OF kv(1)] row_fits_cell by (auto simp: wf_frame_def sv list_all_iff)
    moreover have "c \<noteq> CNull"
      using keyedD(3) [OF kv(1)] c by auto
    ultimately show "c \<in> range CDate"
      by (cases c) auto
  qed
  then have inj: "inj_on midnight_cell (insert (CDate d) (set (column_cells v ''observation_date'')))"
    and nonull: "CNull \<notin> midnight_cell ` set (column_cells v ''observation_date'')" for d
    by (auto intro!: inj_on_subset [OF midnight_inj] simp del: inj_on_insert)
  have phi: "expr_cell (pl_cast_float ops) (f_schema v) row (PlUtcMidnight ''observation_date'')
      = midnight_cell (row_cell (f_schema v) row ''observation_date'')" for row
    by simp
  have k: "keyed ''timestamp_m1'' ?g"
    "column_cells ?g ''timestamp_m1'' = map midnight_cell (column_cells v ''observation_date'')"
    using select_keyed [OF kv(1) es ts, of midnight_cell] phi inj_on_subset [OF inj subset_insertI] nonull by blast+
  have at: "cell_at ''timestamp_m1'' ?g (CDatetime (utc_midnight d)) c = cell_at ''observation_date'' f (CDate d) src"
    if "source_column s c src" for c src d
    using select_cell_at [OF kv(1) es ts _ inj nonull that [unfolded source_column_selected], of "\<lambda>x. x" src]
      phi kv(2) by simp
  have "map_of (f_schema ?g) c = Some DFloat64" if "source_column s c src" for c src
    using select_schema_of [of "gold_selection s" c "PlCol src" SILVER_SCHEMA] es that
      source_column_type [OF that] by (simp add: select_rows_def sv exprs_ok_def source_column_selected)
  moreover have "map_of (f_schema ?g) ''timestamp_m1'' = Some DDatetimeUtc"
    by (simp add: select_rows_def sv select_schema_def gold_selection_def SILVER_SCHEMA_def)
  moreover have "f_columns ?g = map fst (gold_selection s)"
    by (simp add: f_columns_def select_rows_def select_columns)
  ultimately have "is_series_frame s f ?g"
    unfolding is_series_frame_def using k at dates by simp
  then show ?thesis
    using sel v assms(1) by (simp add: series_frame_def silver_of_def)
qed

text \<open>The join of frames that share only the key column.\<close>

definition joinable :: "frame \<Rightarrow> bool" where
  "joinable g \<longleftrightarrow> keyed ''timestamp_m1'' g \<and> map_of (f_schema g) ''timestamp_m1'' = Some DDatetimeUtc
    \<and> f_columns g = ''timestamp_m1'' # tl (f_columns g)"

definition joined_from :: "frame list \<Rightarrow> frame \<Rightarrow> bool" where
  "joined_from gs j \<longleftrightarrow> joinable j \<and> tl (f_columns j) = concat (map (\<lambda>g. tl (f_columns g)) gs)
    \<and> set (column_cells j ''timestamp_m1'') = (\<Union>g \<in> set gs. set (column_cells g ''timestamp_m1''))
    \<and> (\<forall>g \<in> set gs. \<forall>c \<in> set (tl (f_columns g)). map_of (f_schema j) c = map_of (f_schema g) c
        \<and> (\<forall>k. cell_at ''timestamp_m1'' j k c = cell_at ''timestamp_m1'' g k c))"

lemma join_two:
  assumes "joinable g" "joinable f" "distinct (''timestamp_m1'' # tl (f_columns g) @ tl (f_columns f))"
  shows "\<exists>j. pl_full_join ops ''timestamp_m1'' g f = Inr j \<and> joined_from [g, f] j"
proof -
  have k: "keyed ''timestamp_m1'' g" "keyed ''timestamp_m1'' f"
    and t: "map_of (f_schema g) ''timestamp_m1'' = Some DDatetimeUtc" "map_of (f_schema f) ''timestamp_m1'' = Some DDatetimeUtc"
    and c: "f_columns g = ''timestamp_m1'' # tl (f_columns g)" "f_columns f = ''timestamp_m1'' # tl (f_columns f)"
    using assms by (simp_all add: joinable_def)
  have sets: "set (f_columns g) = insert ''timestamp_m1'' (set (tl (f_columns g)))"
    "set (f_columns f) = insert ''timestamp_m1'' (set (tl (f_columns f)))"
    using c by (metis list.simps(15))+
  have "set (f_columns g) \<inter> set (f_columns f) = {''timestamp_m1''}"
    using assms(3) unfolding sets by auto
  from full_join_ok [OF k _ this] t obtain j where
    run: "pl_full_join ops ''timestamp_m1'' g f = Inr j" and j: "is_full_join ''timestamp_m1'' g f j"
    by auto
  have "filter (\<lambda>c. c \<noteq> ''timestamp_m1'') (f_columns f) = tl (f_columns f)"
    using assms(3) by (subst c(2)) (auto simp: filter_id_conv)
  then have cols: "f_columns j = ''timestamp_m1'' # tl (f_columns g) @ tl (f_columns f)"
    using full_join_columns [OF j] c(1) by (metis append_Cons)
  have schema: "f_schema j = join_schema ''timestamp_m1'' (f_schema g) (f_schema f)" and "keyed ''timestamp_m1'' j"
    and keys: "set (column_cells j ''timestamp_m1'') = set (column_cells g ''timestamp_m1'') \<union> set (column_cells f ''timestamp_m1'')"
    using j by (simp_all add: is_full_join_def)
  have tg: "map_of (f_schema j) c = map_of (f_schema g) c" if "c \<in> set (f_columns g)" for c
    using that by (auto simp: schema join_schema_def map_add_def map_of_columns)
  have tf: "map_of (f_schema j) c = map_of (f_schema f) c"
    if "c \<notin> set (f_columns g)" "c \<noteq> ''timestamp_m1''" for c
  proof -
    have "map_of (filter (\<lambda>p. fst p \<noteq> ''timestamp_m1'') s) c = map_of s c" for s :: schema
      using that(2) by (induction s) auto
    then show ?thesis
      using that(1) map_of_columns [of c g] by (simp add: schema join_schema_def map_add_def split: option.split)
  qed
  have "joinable j"
    using \<open>keyed ''timestamp_m1'' j\<close> tg [of "''timestamp_m1''"] t(1) cols keyedD(2) [OF k(1)] by (simp add: joinable_def)
  moreover have "map_of (f_schema j) c = map_of (f_schema g) c
      \<and> (\<forall>k. cell_at ''timestamp_m1'' j k c = cell_at ''timestamp_m1'' g k c)" if "c \<in> set (tl (f_columns g))" for c
  proof -
    have "c \<noteq> ''timestamp_m1''" "c \<in> set (f_columns g)"
      using that assms(3) sets by auto
    then show ?thesis
      using tg full_join_cell_at(1) [OF j k] by blast
  qed
  moreover have "map_of (f_schema j) c = map_of (f_schema f) c
      \<and> (\<forall>k. cell_at ''timestamp_m1'' j k c = cell_at ''timestamp_m1'' f k c)" if "c \<in> set (tl (f_columns f))" for c
  proof -
    have "c \<noteq> ''timestamp_m1''" "c \<in> set (f_columns f)" "c \<notin> set (f_columns g)"
      using that assms(3) sets by auto
    then show ?thesis
      using tf full_join_cell_at(2) [OF j k] by blast
  qed
  ultimately have "joined_from [g, f] j"
    unfolding joined_from_def using cols keys by simp
  then show ?thesis
    using run by blast
qed

lemma join_frames_ok:
  assumes "\<And>g. g \<in> set (h # fs) \<Longrightarrow> joinable g"
    "distinct (''timestamp_m1'' # concat (map (\<lambda>g. tl (f_columns g)) (h # fs)))"
  shows "\<exists>j. join_frames ops h fs = Inr j \<and> joined_from (h # fs) j"
  using assms
proof (induction fs arbitrary: h)
  case Nil
  then show ?case
    by (auto simp: joined_from_def)
next
  case (Cons f fs)
  have "joinable h" "joinable f" "distinct (''timestamp_m1'' # tl (f_columns h) @ tl (f_columns f))"
    using Cons.prems by auto
  from join_two [OF this] obtain m where m: "pl_full_join ops ''timestamp_m1'' h f = Inr m" "joined_from [h, f] m"
    by blast
  have "joinable g" if "g \<in> set (m # fs)" for g
    using that m(2) Cons.prems(1) by (auto simp: joined_from_def)
  moreover have "concat (map (\<lambda>g. tl (f_columns g)) (m # fs)) = concat (map (\<lambda>g. tl (f_columns g)) (h # f # fs))"
    using m(2) by (simp add: joined_from_def)
  ultimately obtain j where j: "join_frames ops m fs = Inr j" "joined_from (m # fs) j"
    using Cons.IH [of m] Cons.prems(2) by auto
  have "joined_from (h # f # fs) j"
    using j(2) m(2) unfolding joined_from_def by (simp add: ball_Un Un_assoc)
  then show ?case
    using j(1) m(1) by auto
qed

lemma silver_signature_ok:
  assumes "silver_input_ok s f"
  shows "\<exists>sg. silver_signature pl csv sha256 s f = Inr sg \<and> sig_series_id sg = s"
proof -
  obtain v where sort: "pl_sort pl [''observation_date''] f = Inr v"
    using validate_silver_ok [OF assms] by blast
  have f: "keyed ''observation_date'' f" "f_schema f = SILVER_SCHEMA"
    using assms by (simp_all add: silver_input_ok_def)
  have v: "keyed ''observation_date'' v" "f_schema v = SILVER_SCHEMA"
    using sort_keyed [OF f(1) sort] sort_schema [OF sort] f(2) by simp_all
  have "cell_fits DDate x" if "x \<in> insert CNull (set (column_cells v ''observation_date''))" for x
    using that keyed_typed [OF keyedD(1) [OF v(1)], of "''observation_date''" DDate x] by (auto simp: v(2) SILVER_SCHEMA_def)
  then have "\<exists>d. date_or_none w (cells_min (column_cells v ''observation_date'')) = Inr d"
    "\<exists>d. date_or_none w (cells_max (column_cells v ''observation_date'')) = Inr d" for w
    using cells_min_range cells_max_range by (auto intro!: date_or_none_ok)
  then show ?thesis
    using f assms sort unfolding silver_signature_def Let_def
    by (auto simp: silver_input_ok_def) (metis rbind.simps(2) silver_input_signature.select_convs(1))
qed

lemma input_signatures_ok:
  assumes "\<And>s. s \<in> set GOLD_SOURCE_SERIES \<Longrightarrow> \<exists>f. map_of inputs s = Some f \<and> silver_input_ok s f"
  shows "\<exists>sgs. input_signatures pl csv sha256 inputs = Inr sgs \<and> map sig_series_id sgs = GOLD_SOURCE_SERIES"
proof -
  have "\<exists>sg. rbind (silver_of inputs s) (silver_signature pl csv sha256 s) = Inr sg \<and> sig_series_id sg = s"
    if "s \<in> set GOLD_SOURCE_SERIES" for s
    using assms [OF that] silver_signature_ok by (force simp: silver_of_def)
  then obtain h where h: "\<And>s. s \<in> set GOLD_SOURCE_SERIES \<Longrightarrow>
      rbind (silver_of inputs s) (silver_signature pl csv sha256 s) = Inr (h s) \<and> sig_series_id (h s) = s"
    by metis
  have "s \<in> set (map fst inputs)" if "s \<in> set GOLD_SOURCE_SERIES" for s
    using assms [OF that] map_of_eq_None_iff [of inputs s] by auto
  then have "filter (\<lambda>s. s \<notin> set (map fst inputs)) GOLD_SOURCE_SERIES = []"
    unfolding filter_empty_conv by blast
  moreover have "rmap (\<lambda>s. rbind (silver_of inputs s) (silver_signature pl csv sha256 s)) GOLD_SOURCE_SERIES
      = Inr (map h GOLD_SOURCE_SERIES)"
    using h by (intro rmap_all_Inr) blast
  moreover have "map sig_series_id (map h GOLD_SOURCE_SERIES) = GOLD_SOURCE_SERIES"
    using h by (simp add: map_idI)
  ultimately show ?thesis
    by (simp add: input_signatures_def)
qed

text \<open>The two selections after the join: the Gold columns in order, NaN replaced by null.\<close>

lemma reorder_ok:
  assumes j: "keyed ''timestamp_m1'' j" and cols: "set GOLD_COLUMNS \<subseteq> set (f_columns j)"
  shows "\<exists>g. pl_select ops (map (\<lambda>c. (c, PlCol c)) GOLD_COLUMNS) j = Inr g \<and> keyed ''timestamp_m1'' g
    \<and> column_cells g ''timestamp_m1'' = column_cells j ''timestamp_m1'' \<and> f_columns g = GOLD_COLUMNS
    \<and> (\<forall>c \<in> set GOLD_COLUMNS. map_of (f_schema g) c = map_of (f_schema j) c
        \<and> (\<forall>k. cell_at ''timestamp_m1'' g k c = cell_at ''timestamp_m1'' j k c))"
proof -
  let ?es = "map (\<lambda>c. (c, PlCol c)) GOLD_COLUMNS"
  let ?g = "select_rows (pl_cast_float ops) j ?es"
  have fst: "map fst ?es = GOLD_COLUMNS"
    by (simp add: comp_def)
  have typed: "\<forall>c \<in> set GOLD_COLUMNS. map_of (f_schema j) c \<noteq> None"
    using cols unfolding map_of_columns [symmetric] by blast
  have es: "exprs_ok (f_schema j) ?es"
    using gold_columns_distinct typed by (simp add: exprs_ok_def comp_def list_all_iff expr_fits_def)
  have ts: "''timestamp_m1'' \<in> set GOLD_COLUMNS" "GOLD_COLUMNS \<noteq> []"
    by (simp_all add: GOLD_COLUMNS_def)
  then have key: "(''timestamp_m1'', PlCol ''timestamp_m1'') \<in> set ?es"
    by auto
  have "pl_select ops ?es j = Inr ?g"
    by (rule select_ok) (use gold_columns_distinct typed ts in \<open>auto simp: fst list_all_iff comp_def\<close>)
  moreover have "keyed ''timestamp_m1'' ?g"
    "column_cells ?g ''timestamp_m1'' = map (\<lambda>x. x) (column_cells j ''timestamp_m1'')"
    using select_keyed [OF j es key, of "\<lambda>x. x"] keyedD(3) [OF j] by simp_all
  moreover have "f_columns ?g = GOLD_COLUMNS"
    unfolding f_columns_def select_rows_def frame.select_convs select_columns fst ..
  moreover have "map_of (f_schema ?g) c = map_of (f_schema j) c
      \<and> (\<forall>k. cell_at ''timestamp_m1'' ?g k c = cell_at ''timestamp_m1'' j k c)" if c: "c \<in> set GOLD_COLUMNS" for c
  proof -
    have e: "(c, PlCol c) \<in> set ?es"
      using c by simp
    have "map_of (f_schema ?g) c = map_of (f_schema j) c"
      using select_schema_of [OF _ e, of "f_schema j", unfolded fst, OF gold_columns_distinct] typed c
      by (auto simp: select_rows_def)
    then show ?thesis
      using select_cell_at [OF j es key, of "\<lambda>x. x" _ c "PlCol c" "\<lambda>x. x" c] e keyedD(3) [OF j] by simp
  qed
  ultimately show ?thesis
    by auto
qed

lemma fill_nan_ok:
  assumes j: "keyed ''timestamp_m1'' j" and cols: "f_columns j = GOLD_COLUMNS"
    and t: "map_of (f_schema j) ''timestamp_m1'' = Some DDatetimeUtc"
    and num: "\<forall>c \<in> set (tl GOLD_COLUMNS). map_of (f_schema j) c = Some DFloat64"
  shows "\<exists>g. pl_select ops ((''timestamp_m1'', PlCol ''timestamp_m1'')
      # map (\<lambda>c. (c, PlFillNan c)) (tl GOLD_COLUMNS)) j = Inr g \<and> keyed ''timestamp_m1'' g
    \<and> column_cells g ''timestamp_m1'' = column_cells j ''timestamp_m1'' \<and> f_columns g = GOLD_COLUMNS
    \<and> (\<forall>c \<in> set (tl GOLD_COLUMNS). \<forall>k.
        cell_at ''timestamp_m1'' g k c = fill_nan_cell (cell_at ''timestamp_m1'' j k c))"
proof -
  let ?es = "(''timestamp_m1'', PlCol ''timestamp_m1'') # map (\<lambda>c. (c, PlFillNan c)) (tl GOLD_COLUMNS)"
  let ?g = "select_rows (pl_cast_float ops) j ?es"
  have fst: "map fst ?es = GOLD_COLUMNS"
    by (simp add: comp_def GOLD_COLUMNS_def)
  have es: "exprs_ok (f_schema j) ?es"
    unfolding exprs_ok_def fst using gold_columns_distinct t num
    by (simp add: list_all_iff expr_fits_def)
  have key: "(''timestamp_m1'', PlCol ''timestamp_m1'') \<in> set ?es"
    by simp
  have "pl_select ops ?es j = Inr ?g"
  proof (rule select_ok)
    show "distinct (map fst ?es)" unfolding fst by (rule gold_columns_distinct)
    show "list_all (\<lambda>p. expr_type (f_schema j) (snd p) \<noteq> None) ?es"
      using es unfolding exprs_ok_def list_all_iff by blast
  qed simp
  moreover have "keyed ''timestamp_m1'' ?g"
    "column_cells ?g ''timestamp_m1'' = map (\<lambda>x. x) (column_cells j ''timestamp_m1'')"
    using select_keyed [OF j es key, of "\<lambda>x. x"] keyedD(3) [OF j] by simp_all
  moreover have "f_columns ?g = GOLD_COLUMNS"
    unfolding f_columns_def select_rows_def frame.select_convs select_columns fst ..
  moreover have "cell_at ''timestamp_m1'' ?g k c = fill_nan_cell (cell_at ''timestamp_m1'' j k c)"
    if c: "c \<in> set (tl GOLD_COLUMNS)" for c k
    using select_cell_at [OF j es key, of "\<lambda>x. x" k c "PlFillNan c" fill_nan_cell c] c keyedD(3) [OF j] by simp
  ultimately show ?thesis
    by auto
qed

lemma assemble_ok:
  assumes inputs: "\<And>s. s \<in> set GOLD_SOURCE_SERIES \<Longrightarrow> \<exists>f. map_of inputs s = Some f \<and> silver_input_ok s f"
  shows "\<exists>b. assemble_gold_frame pl ops csv sha256 inputs versions = Inr b \<and> assembled_from inputs (gfb_frame b)
    \<and> map sig_series_id (gfb_inputs b) = GOLD_SOURCE_SERIES
    \<and> gfb_schema_version b = gv_schema_version versions \<and> gfb_feature_version b = gv_feature_version versions"
proof -
  let ?ts = "''timestamp_m1''" and ?F = "\<lambda>s. the (map_of inputs s)"
  have "\<forall>s \<in> set GOLD_SOURCE_SERIES. \<exists>g. series_frame pl ops inputs s = Inr g \<and> is_series_frame s (?F s) g"
    using inputs series_frame_ok by fastforce
  then obtain G where G: "\<And>s. s \<in> set GOLD_SOURCE_SERIES \<Longrightarrow>
      series_frame pl ops inputs s = Inr (G s) \<and> is_series_frame s (?F s) (G s)"
    by metis
  then have frames: "rmap (series_frame pl ops inputs) GOLD_SOURCE_SERIES = Inr (map G GOLD_SOURCE_SERIES)"
    by (intro rmap_all_Inr) blast
  let ?h = "hd (map G GOLD_SOURCE_SERIES)" and ?fs = "tl (map G GOLD_SOURCE_SERIES)"
  have hfs: "?h # ?fs = map G GOLD_SOURCE_SERIES"
    by (simp add: source_series)
  have tlG: "tl (f_columns (G s)) = tl (map fst (gold_selection s))" if "s \<in> set GOLD_SOURCE_SERIES" for s
    using G [OF that] by (simp add: is_series_frame_def)
  then have cols: "map (\<lambda>g. tl (f_columns g)) (?h # ?fs) = map (\<lambda>s. tl (map fst (gold_selection s))) GOLD_SOURCE_SERIES"
    unfolding hfs by simp
  have "joinable g" if "g \<in> set (?h # ?fs)" for g
    using that G unfolding hfs by (auto simp: joinable_def is_series_frame_def gold_selection_columns)
  moreover have "distinct (?ts # concat (map (\<lambda>g. tl (f_columns g)) (?h # ?fs)))"
    unfolding cols by (rule series_columns_distinct)
  ultimately obtain j where j: "join_frames ops ?h ?fs = Inr j" and from_j: "joined_from (map G GOLD_SOURCE_SERIES) j"
    using join_frames_ok [of ?h ?fs] unfolding hfs by blast
  have kj: "keyed ?ts j" and tj: "map_of (f_schema j) ?ts = Some DDatetimeUtc"
    and cj: "f_columns j = ?ts # tl (f_columns j)"
    using from_j unfolding joined_from_def joinable_def by blast+
  have "set (tl (f_columns j)) = (\<Union>s \<in> set GOLD_SOURCE_SERIES. set (tl (f_columns (G s))))"
    using from_j by (simp add: joined_from_def)
  then have "set (tl (f_columns j)) = set (tl GOLD_COLUMNS)"
    using tlG unfolding gold_columns_set by simp
  then have setj: "set GOLD_COLUMNS = set (f_columns j)"
    by (subst cj) (simp add: GOLD_COLUMNS_def)
  have "set [?ts] \<subseteq> set (f_columns j)"
    using keyedD(2) [OF kj] by simp
  then obtain q where q: "pl_sort pl [?ts] j = Inr q"
    using sort_total by blast
  have kq: "keyed ?ts q" and aq: "\<And>k c. cell_at ?ts q k c = cell_at ?ts j k c"
    and sq: "f_schema q = f_schema j"
    using sort_keyed [OF kj q] sort_schema [OF q] by auto
  have "set GOLD_COLUMNS \<subseteq> set (f_columns q)"
    using setj by (simp add: f_columns_def sq)
  then obtain r where r: "pl_select ops (map (\<lambda>c. (c, PlCol c)) GOLD_COLUMNS) q = Inr r" "keyed ?ts r"
      "column_cells r ?ts = column_cells q ?ts" "f_columns r = GOLD_COLUMNS"
    and ar: "\<And>c. c \<in> set GOLD_COLUMNS \<Longrightarrow> map_of (f_schema r) c = map_of (f_schema q) c
      \<and> (\<forall>k. cell_at ?ts r k c = cell_at ?ts q k c)"
    using reorder_ok [OF kq] by blast
  have source: "\<exists>s src. s \<in> set GOLD_SOURCE_SERIES \<and> source_column s c src" if "c \<in> set (tl GOLD_COLUMNS)" for c
    using that unfolding gold_columns_set by (auto simp: source_column_exists)
  have gold: "c \<in> set (tl GOLD_COLUMNS) \<and> c \<in> set GOLD_COLUMNS \<and> map_of (f_schema j) c = Some DFloat64
      \<and> (\<forall>d. cell_at ?ts j (CDatetime (utc_midnight d)) c = cell_at ''observation_date'' (?F s) (CDate d) src)"
    if s: "s \<in> set GOLD_SOURCE_SERIES" "source_column s c src" for s c src
  proof -
    have c: "c \<in> set (tl (map fst (gold_selection s)))"
      using s(2) source_column_exists by blast
    then have "c \<in> set (tl GOLD_COLUMNS)"
      unfolding gold_columns_set using s(1) by blast
    moreover have "c \<in> set (tl (f_columns (G s)))"
      using c tlG [OF s(1)] by simp
    ultimately show ?thesis
      using from_j G [OF s(1)] s unfolding joined_from_def is_series_frame_def GOLD_COLUMNS_def by auto
  qed
  have "map_of (f_schema r) ?ts = Some DDatetimeUtc"
    using ar [of ?ts] tj by (simp add: GOLD_COLUMNS_def sq)
  moreover have "\<forall>c \<in> set (tl GOLD_COLUMNS). map_of (f_schema r) c = Some DFloat64"
    using source gold ar sq by metis
  ultimately obtain g where g: "pl_select ops ((?ts, PlCol ?ts) # map (\<lambda>c. (c, PlFillNan c)) (tl GOLD_COLUMNS)) r = Inr g"
      "keyed ?ts g" "column_cells g ?ts = column_cells r ?ts" "f_columns g = GOLD_COLUMNS"
    and ag: "\<And>c k. c \<in> set (tl GOLD_COLUMNS) \<Longrightarrow> cell_at ?ts g k c = fill_nan_cell (cell_at ?ts r k c)"
    using fill_nan_ok [OF r(2) r(4)] by blast
  have cells: "cell_at ?ts g (CDatetime (utc_midnight d)) c
      = fill_nan_cell (cell_at ''observation_date'' (?F s) (CDate d) src)"
    if "s \<in> set GOLD_SOURCE_SERIES" "source_column s c src" for s c src d
    using gold [OF that] ag ar aq by simp
  have keysj: "set (column_cells g ?ts) = (\<Union>s \<in> set GOLD_SOURCE_SERIES. midnight_cell ` set (column_cells (?F s) ''observation_date''))"
    using from_j G mset_eq_setD [OF sort_column_perm [OF q, of ?ts]] unfolding g(3) r(3) joined_from_def is_series_frame_def
    by simp
  have sorted: "sorted (map cell_key (column_cells g ?ts))"
    unfolding g(3) r(3) by (rule sort_single_sorted [OF q])
  have asm: "assembled_from inputs g"
    unfolding assembled_from_def using g(2,4) sorted keysj cells by blast
  have "check_numeric g c = Inr ()" if c: "c \<in> set (tl GOLD_COLUMNS)" for c
  proof -
    obtain s src where s: "s \<in> set GOLD_SOURCE_SERIES" "source_column s c src"
      using source [OF c] by blast
    obtain f where f: "map_of inputs s = Some f" "silver_input_ok s f"
      using inputs [OF s(1)] by blast
    have "cell_finite x" if x: "x \<in> set (column_cells g c)" for x
    proof -
      obtain row where row: "row \<in> set (f_rows g)" "x = row_cell (f_schema g) row c"
        using x by (auto simp: column_cells_def)
      let ?k = "row_cell (f_schema g) row ?ts"
      have x: "x = cell_at ?ts g ?k c"
        using cell_at_unique [OF g(2) row(1)] row(2) by simp
      have "?k \<in> set (column_cells g ?ts)"
        using row(1) by (simp add: column_cells_def)
      then obtain t d where "?k = midnight_cell d" "t \<in> set GOLD_SOURCE_SERIES" "d \<in> set (column_cells (?F t) ''observation_date'')"
        unfolding keysj by auto
      moreover have "?k \<noteq> CNull"
        using \<open>?k \<in> set (column_cells g ?ts)\<close> keyedD(3) [OF g(2)] by auto
      ultimately obtain n where "?k = CDatetime (utc_midnight n)"
        by (cases d) auto
      then have "x = fill_nan_cell (cell_at ''observation_date'' f (CDate n) src)"
        using x cells [OF s, of n] f(1) by simp
      then show ?thesis
        using source_cell_usable [OF f(2) s(2), of "''observation_date''" "CDate n"] by (simp add: price_usable_def)
    qed
    then show ?thesis
      by (auto simp: check_numeric_def Let_def list_all_iff)
  qed
  then have "rfor (check_numeric g) (tl GOLD_COLUMNS) = Inr ()"
    by (simp add: rfor_Inr)
  moreover have "''observation_date'' \<notin> set GOLD_COLUMNS"
    by (simp add: gold_columns_eval)
  moreover obtain sgs where "input_signatures pl csv sha256 inputs = Inr sgs" "map sig_series_id sgs = GOLD_SOURCE_SERIES"
    using input_signatures_ok [OF inputs] by blast
  ultimately show ?thesis
    using asm keyedD(3,4) [OF g(2)] frames j q r(1) g(1,4) by (simp add: assemble_gold_frame_def)
qed

end

section \<open>The property\<close>

text \<open>
  C14: on a Silver input for every registered series (right schema and identity, unique dates, finite
  values, no infinite price) the assembly returns, with the given versions and one signature per
  series in registry order.  The frame has the Gold columns, one row per date on which any series was
  observed, in ascending order, and the cell of a series at a date is exactly its Silver cell of that
  date: null where the series was not observed, never filled from another date; a NaN price is null.
\<close>

theorem gold_assembly:
  assumes "polars_frames pl" "polars_expressions ops"
    and "\<And>s. s \<in> set GOLD_SOURCE_SERIES \<Longrightarrow> \<exists>f. map_of inputs s = Some f \<and> silver_input_ok s f"
  shows "\<exists>b. assemble_gold_frame pl ops csv sha256 inputs versions = Inr b \<and> assembled_from inputs (gfb_frame b)
    \<and> map sig_series_id (gfb_inputs b) = GOLD_SOURCE_SERIES
    \<and> gfb_schema_version b = gv_schema_version versions \<and> gfb_feature_version b = gv_feature_version versions"
  by (rule silver_polars.assemble_ok) (use assms in \<open>auto simp: silver_polars_def\<close>)

definition demo_silver :: frame where
  "demo_silver = \<lparr>f_schema = SILVER_SCHEMA,
     f_rows = [[CDate 738000, CStr ''vix'', CFloat 0x4034000000000000, CFloat 0x4034000000000000,
       CFloat 0x4034000000000000, CFloat 0x4034000000000000, CFloat 0x4034000000000000,
       CStr ''index_points'', CStr ''cboe'', CStr ''VIX_History.csv'', CDatetime 5]]\<rparr>"

text \<open>One observation of vix, and no observation of any other series.\<close>

definition demo_inputs :: "(string \<times> frame) list" where
  "demo_inputs = map (\<lambda>s. (s, if s = ''vix'' then demo_silver else \<lparr>f_schema = SILVER_SCHEMA, f_rows = []\<rparr>))
    GOLD_SOURCE_SERIES"

theorem gold_assembly_witness:
  "\<exists>b. assemble_gold_frame reference_polars reference_polars_ops (\<lambda>_. []) (\<lambda>_. ''00'') demo_inputs GOLD_VERSIONS = Inr b
    \<and> cell_at ''timestamp_m1'' (gfb_frame b) (CDatetime (utc_midnight 738000)) ''vix_level'' = CFloat 0x4034000000000000
    \<and> cell_at ''timestamp_m1'' (gfb_frame b) (CDatetime (utc_midnight 738000)) ''estr_level'' = CNull"
proof -
  let ?e = "\<lparr>f_schema = SILVER_SCHEMA, f_rows = []\<rparr>"
  have look: "map_of demo_inputs s = Some (if s = ''vix'' then demo_silver else ?e)"
    if "s \<in> set GOLD_SOURCE_SERIES" for s
    using that by (simp add: demo_inputs_def map_of_map_restrict)
  have ok: "silver_input_ok ''vix'' demo_silver" "\<And>s. silver_input_ok s ?e"
    by (simp_all add: silver_input_ok_def demo_silver_def SILVER_SCHEMA_def keyed_def wf_frame_def f_columns_def
        column_cells_def wrong_identity_def price_usable_def f64_finite_def f64_exponent_def f64_nan_def OHLC_FIELDS_def)
  have "\<exists>f. map_of demo_inputs s = Some f \<and> silver_input_ok s f" if "s \<in> set GOLD_SOURCE_SERIES" for s
    using look [OF that] ok by auto
  from gold_assembly [OF ref_polars.polars_frames_axioms ref_ops.polars_expressions_axioms this,
      of "\<lambda>_. []" "\<lambda>_. ''00''" GOLD_VERSIONS]
  obtain b where b: "assemble_gold_frame reference_polars reference_polars_ops (\<lambda>_. []) (\<lambda>_. ''00'') demo_inputs GOLD_VERSIONS = Inr b"
    and from_b: "assembled_from demo_inputs (gfb_frame b)"
    by blast
  have cell: "cell_at ''timestamp_m1'' (gfb_frame b) (CDatetime (utc_midnight d)) c
      = fill_nan_cell (cell_at ''observation_date'' (the (map_of demo_inputs s)) (CDate d) src)"
    if "s \<in> set GOLD_SOURCE_SERIES" "source_column s c src" for s c src d
    using from_b that unfolding assembled_from_def by blast
  have v: "''vix'' \<in> set GOLD_SOURCE_SERIES" "source_column ''vix'' ''vix_level'' ''value''"
    and e: "''estr'' \<in> set GOLD_SOURCE_SERIES" "source_column ''estr'' ''estr_level'' ''value''"
    by (simp_all add: source_series source_column_def level_column_def)
  have "cell_at ''timestamp_m1'' (gfb_frame b) (CDatetime (utc_midnight 738000)) ''vix_level'' = CFloat 0x4034000000000000"
    using cell [OF v, of 738000] look [OF v(1)]
    by (simp add: demo_silver_def cell_at_def SILVER_SCHEMA_def f64_nan_def f64_finite_def f64_exponent_def)
  moreover have "cell_at ''timestamp_m1'' (gfb_frame b) (CDatetime (utc_midnight 738000)) ''estr_level'' = CNull"
    using cell [OF e, of 738000] look [OF e(1)] by (simp add: cell_at_def)
  ultimately show ?thesis
    using b by blast
qed

end
