(* ===== verification/Pg_Sync.thy ===== *)
theory Pg_Sync
  imports Gold_Frame Gold_Catalog
begin

text \<open>
  \<open>src/application/postgres_sync.py\<close>: the values exchanged by the synchronization of Gold into
  PostgreSQL, with every check of their constructors.  Inside these values all datetimes are in UTC,
  where Python's equality of datetimes is equality.
\<close>

definition POSTGRES_DATASET_ID :: string where
  "POSTGRES_DATASET_ID = ''macro_features_daily''"

definition POSTGRES_CONSUMER_SCHEMA :: string where
  "POSTGRES_CONSUMER_SCHEMA = ''macro_loader''"

definition POSTGRES_SYNC_SCHEMA :: string where
  "POSTGRES_SYNC_SCHEMA = ''macro_loader_sync''"

definition POSTGRES_RAW_TABLE_PREFIX :: string where
  "POSTGRES_RAW_TABLE_PREFIX = ''macro_raw_''"

definition POSTGRES_RAW_COLUMNS :: "string list" where
  "POSTGRES_RAW_COLUMNS = GOLD_COLUMNS"

definition POSTGRES_RAW_TABLES :: "string list" where
  "POSTGRES_RAW_TABLES = map (\<lambda>s. POSTGRES_RAW_TABLE_PREFIX @ s) GOLD_SOURCE_SERIES"

definition sync_utc :: "datetime \<Rightarrow> datetime result" where
  "sync_utc d =
    (if utcoffset d \<noteq> Some 0
     then raise ValueError ''PostgreSQL Gold sync timestamps must be zero-offset UTC'' else Inr d)"

definition opt_sync_utc :: "datetime option \<Rightarrow> datetime option result" where
  "opt_sync_utc x = (case x of None \<Rightarrow> Inr None | Some d \<Rightarrow> rbind (sync_utc d) (\<lambda>d. Inr (Some d)))"

definition is_sha256_hex :: "string \<Rightarrow> bool" where
  "is_sha256_hex s \<longleftrightarrow> length s = 64 \<and> list_all (\<lambda>c. c \<in> set ''0123456789abcdef'') s"

record gold_row_payload =
  pay_timestamp :: datetime
  pay_values :: "f64 option list"

definition GoldRowPayload :: "datetime \<Rightarrow> f64 option list \<Rightarrow> gold_row_payload result" where
  "GoldRowPayload t vs =
    rbind (sync_utc t) (\<lambda>t.
    rbind (raise_if (length vs \<noteq> length POSTGRES_RAW_COLUMNS - 1) ValueError
      ''PostgreSQL raw row payload length does not match canonical Gold columns'') (\<lambda>_.
    Inr \<lparr>pay_timestamp = t, pay_values = vs\<rparr>))"

record gold_row_digest =
  dig_timestamp :: datetime
  dig_sha256 :: string

definition GoldRowDigest :: "datetime \<Rightarrow> string \<Rightarrow> gold_row_digest result" where
  "GoldRowDigest t s =
    rbind (sync_utc t) (\<lambda>t.
    rbind (raise_if (\<not> is_sha256_hex s) ValueError
      ''row_sha256 must be 64 lowercase hexadecimal characters'') (\<lambda>_.
    Inr \<lparr>dig_timestamp = t, dig_sha256 = s\<rparr>))"

record gold_delta_plan =
  dp_inserts :: "gold_row_payload list"
  dp_updates :: "gold_row_payload list"
  dp_deletes :: "datetime list"
  dp_unchanged :: "datetime list"
  dp_source_digests :: "gold_row_digest list"

text \<open>The key sets are disjoint exactly when their union is as large as all of them together.\<close>

definition GoldDeltaPlan ::
  "gold_row_payload list \<Rightarrow> gold_row_payload list \<Rightarrow> datetime list \<Rightarrow> datetime list \<Rightarrow>
    gold_row_digest list \<Rightarrow> gold_delta_plan result" where
  "GoldDeltaPlan ins upd del unch src =
    rbind (rmap sync_utc del) (\<lambda>del.
    rbind (rmap sync_utc unch) (\<lambda>unch.
    let groups = [set (map pay_timestamp ins), set (map pay_timestamp upd), set del, set unch];
        total = sum_list (map card groups)
    in rbind (raise_if (card (\<Union>(set groups)) \<noteq> total) ValueError
         ''Gold delta mutation/unchanged key sets must be disjoint'') (\<lambda>_.
       Inr \<lparr>dp_inserts = ins, dp_updates = upd, dp_deletes = del, dp_unchanged = unch,
         dp_source_digests = src\<rparr>)))"

definition dp_inserted :: "gold_delta_plan \<Rightarrow> int" where
  "dp_inserted p = int (length (dp_inserts p))"

definition dp_updated :: "gold_delta_plan \<Rightarrow> int" where
  "dp_updated p = int (length (dp_updates p))"

definition dp_deleted :: "gold_delta_plan \<Rightarrow> int" where
  "dp_deleted p = int (length (dp_deletes p))"

definition dp_unchanged_count :: "gold_delta_plan \<Rightarrow> int" where
  "dp_unchanged_count p = int (length (dp_unchanged p))"

record gold_sync_state =
  st_dataset_id :: string
  st_source_build_id :: string
  st_data_sha256 :: string
  st_schema_version :: int
  st_feature_version :: int
  st_row_count :: int
  st_min_timestamp :: "datetime option"
  st_max_timestamp :: "datetime option"
  st_synced_at_utc :: datetime

text \<open>\<open>max_timestamp < min_timestamp\<close>; both are in UTC by then.\<close>

definition opt_less :: "datetime option \<Rightarrow> datetime option \<Rightarrow> bool result" where
  "opt_less a b = (case (a, b) of (Some x, Some y) \<Rightarrow> dt_less x y | _ \<Rightarrow> Inr False)"

definition GoldSyncState ::
  "string \<Rightarrow> string \<Rightarrow> string \<Rightarrow> int \<Rightarrow> int \<Rightarrow> int \<Rightarrow> datetime option \<Rightarrow> datetime option \<Rightarrow> datetime \<Rightarrow>
    gold_sync_state result" where
  "GoldSyncState ds bid sha sv fv n mn mx synced =
    rbind (raise_if (ds \<noteq> POSTGRES_DATASET_ID) ValueError ''unsupported PostgreSQL Gold dataset_id'') (\<lambda>_.
    rbind (raise_if (\<not> is_sha256_hex sha) ValueError
      ''data_sha256 must be 64 lowercase hexadecimal characters'') (\<lambda>_.
    rbind (raise_if (n < 0) ValueError ''row_count cannot be negative'') (\<lambda>_.
    rbind (sync_utc synced) (\<lambda>synced.
    rbind (opt_sync_utc mn) (\<lambda>mn.
    rbind (opt_sync_utc mx) (\<lambda>mx.
    rbind (raise_if (n = 0 \<and> (mn \<noteq> None \<or> mx \<noteq> None)) ValueError
      ''empty synchronized dataset cannot have timestamp bounds'') (\<lambda>_.
    rbind (raise_if (n > 0 \<and> (mn = None \<or> mx = None)) ValueError
      ''non-empty synchronized dataset requires timestamp bounds'') (\<lambda>_.
    rbind (opt_less mx mn) (\<lambda>reversed.
    rbind (raise_if reversed ValueError ''max_timestamp cannot precede min_timestamp'') (\<lambda>_.
    Inr \<lparr>st_dataset_id = ds, st_source_build_id = bid, st_data_sha256 = sha, st_schema_version = sv,
      st_feature_version = fv, st_row_count = n, st_min_timestamp = mn, st_max_timestamp = mx,
      st_synced_at_utc = synced\<rparr>))))))))))"

record gold_target_summary =
  ts_row_count :: int
  ts_min_timestamp :: "datetime option"
  ts_max_timestamp :: "datetime option"

definition GoldTargetSummary ::
  "int \<Rightarrow> datetime option \<Rightarrow> datetime option \<Rightarrow> gold_target_summary result" where
  "GoldTargetSummary n mn mx =
    rbind (raise_if (n < 0) ValueError ''row_count cannot be negative'') (\<lambda>_.
    rbind (opt_sync_utc mn) (\<lambda>mn.
    rbind (opt_sync_utc mx) (\<lambda>mx.
    Inr \<lparr>ts_row_count = n, ts_min_timestamp = mn, ts_max_timestamp = mx\<rparr>)))"

record gold_sync_result =
  sr_dataset_id :: string
  sr_source_build_id :: string
  sr_inserted :: int
  sr_updated :: int
  sr_deleted :: int
  sr_unchanged :: int

definition GoldSyncResult :: "string \<Rightarrow> string \<Rightarrow> int \<Rightarrow> int \<Rightarrow> int \<Rightarrow> int \<Rightarrow> gold_sync_result result" where
  "GoldSyncResult ds bid i u d n =
    rbind (raise_if (ds \<noteq> POSTGRES_DATASET_ID) ValueError ''unsupported PostgreSQL Gold dataset_id'') (\<lambda>_.
    rbind (raise_if (Min {i, u, d, n} < 0) ValueError ''Gold sync result counts cannot be negative'') (\<lambda>_.
    Inr \<lparr>sr_dataset_id = ds, sr_source_build_id = bid, sr_inserted = i, sr_updated = u, sr_deleted = d,
      sr_unchanged = n\<rparr>))"

definition current_compatibility :: gold_compatibility where
  "current_compatibility =
    \<lparr>wanted_schema_version = GOLD_SCHEMA_VERSION, wanted_feature_version = GOLD_FEATURE_VERSION\<rparr>"

definition require_sync_compatible :: "gold_record \<Rightarrow> unit result" where
  "require_sync_compatible r =
    rbind (raise_if (dataset_id r \<noteq> POSTGRES_DATASET_ID) LookupError
      ''Gold current row belongs to unsupported PostgreSQL dataset'') (\<lambda>_.
    raise_if (\<not> matches current_compatibility r) LookupError
      ''Gold current row semantic versions are not PostgreSQL-sync compatible'')"

definition select_current_sync_record :: "gold_record list \<Rightarrow> gold_record result" where
  "select_current_sync_record records =
    rbind (strict_current_resolve records current_compatibility) (\<lambda>r.
    rbind (require_sync_compatible r) (\<lambda>_. Inr r))"

section \<open>Facts\<close>

lemma sync_utc_Inr: "sync_utc d = Inr e \<longleftrightarrow> is_utc d \<and> e = d"
  by (cases d) (auto simp: sync_utc_def)

lemma opt_sync_utc_Inr: "opt_sync_utc x = Inr y \<longleftrightarrow> opt_all is_utc x \<and> y = x"
  by (cases x) (auto simp: opt_sync_utc_def rbind_Inr sync_utc_Inr)

lemma rmap_sync_utc: "rmap sync_utc xs = Inr ys \<longleftrightarrow> list_all is_utc xs \<and> ys = xs"
  by (induction xs arbitrary: ys) (auto simp: rbind_Inr sync_utc_Inr)

lemma GoldRowPayload_Inr:
  "GoldRowPayload t vs = Inr p \<longleftrightarrow> is_utc t \<and> length vs = 49 \<and> p = \<lparr>pay_timestamp = t, pay_values = vs\<rparr>"
  by (auto simp: GoldRowPayload_def rbind_Inr guard_Inr sync_utc_Inr POSTGRES_RAW_COLUMNS_def gold_columns_length)

lemma GoldRowDigest_Inr:
  "GoldRowDigest t s = Inr p \<longleftrightarrow> is_utc t \<and> is_sha256_hex s \<and> p = \<lparr>dig_timestamp = t, dig_sha256 = s\<rparr>"
  by (auto simp: GoldRowDigest_def rbind_Inr guard_Inr sync_utc_Inr)

lemma card_disjoint_groups:
  assumes "finite A" "finite B" "finite C" "finite D"
  shows "card (A \<union> B \<union> C \<union> D) = card A + card B + card C + card D \<longleftrightarrow>
    A \<inter> B = {} \<and> A \<inter> C = {} \<and> A \<inter> D = {} \<and> B \<inter> C = {} \<and> B \<inter> D = {} \<and> C \<inter> D = {}"
proof -
  have u: "card (X \<union> Y) = card X + card Y \<longleftrightarrow> X \<inter> Y = {}" "card (X \<union> Y) \<le> card X + card Y"
    if "finite X" "finite Y" for X Y :: "'a set"
    using that card_Un_Int [OF that] by (auto simp: card_Un_le)
  note e = u(1) [OF assms(1,2)] u(1) [OF finite_UnI [OF assms(1,2)] assms(3)]
    u(1) [OF finite_UnI [OF finite_UnI [OF assms(1,2)] assms(3)] assms(4)]
  note le = u(2) [OF assms(1,2)] u(2) [OF finite_UnI [OF assms(1,2)] assms(3)]
    u(2) [OF finite_UnI [OF finite_UnI [OF assms(1,2)] assms(3)] assms(4)]
  have "card (A \<union> B \<union> C \<union> D) = card A + card B + card C + card D \<longleftrightarrow>
      card (A \<union> B) = card A + card B \<and> card (A \<union> B \<union> C) = card (A \<union> B) + card C
      \<and> card (A \<union> B \<union> C \<union> D) = card (A \<union> B \<union> C) + card D"
    using le by linarith
  then show ?thesis
    unfolding e by blast
qed

lemma GoldDeltaPlan_Inr:
  "GoldDeltaPlan ins upd del unch src = Inr p \<longleftrightarrow>
    list_all is_utc del \<and> list_all is_utc unch
    \<and> pay_timestamp ` set ins \<inter> pay_timestamp ` set upd = {} \<and> pay_timestamp ` set ins \<inter> set del = {}
    \<and> pay_timestamp ` set ins \<inter> set unch = {} \<and> pay_timestamp ` set upd \<inter> set del = {}
    \<and> pay_timestamp ` set upd \<inter> set unch = {} \<and> set del \<inter> set unch = {}
    \<and> p = \<lparr>dp_inserts = ins, dp_updates = upd, dp_deletes = del, dp_unchanged = unch, dp_source_digests = src\<rparr>"
  using card_disjoint_groups [of "pay_timestamp ` set ins" "pay_timestamp ` set upd" "set del" "set unch"]
  by (auto simp: GoldDeltaPlan_def rbind_Inr guard_Inr rmap_sync_utc Let_def Un_assoc add.assoc)

lemma GoldTargetSummary_Inr:
  "GoldTargetSummary n mn mx = Inr s \<longleftrightarrow> 0 \<le> n \<and> opt_all is_utc mn \<and> opt_all is_utc mx
    \<and> s = \<lparr>ts_row_count = n, ts_min_timestamp = mn, ts_max_timestamp = mx\<rparr>"
  by (auto simp: GoldTargetSummary_def rbind_Inr guard_Inr opt_sync_utc_Inr)

lemma GoldSyncResult_Inr:
  "GoldSyncResult ds bid i u d n = Inr r \<longleftrightarrow> ds = POSTGRES_DATASET_ID \<and> 0 \<le> i \<and> 0 \<le> u \<and> 0 \<le> d \<and> 0 \<le> n
    \<and> r = \<lparr>sr_dataset_id = ds, sr_source_build_id = bid, sr_inserted = i, sr_updated = u, sr_deleted = d,
      sr_unchanged = n\<rparr>"
  by (auto simp: GoldSyncResult_def guard_Inr not_less)

text \<open>What the constructor of a synchronization state admits.\<close>

definition valid_sync_state :: "gold_sync_state \<Rightarrow> bool" where
  "valid_sync_state s \<longleftrightarrow>
    st_dataset_id s = POSTGRES_DATASET_ID \<and> is_sha256_hex (st_data_sha256 s) \<and> 0 \<le> st_row_count s
    \<and> is_utc (st_synced_at_utc s) \<and> opt_all is_utc (st_min_timestamp s) \<and> opt_all is_utc (st_max_timestamp s)
    \<and> (st_row_count s = 0 \<longleftrightarrow> st_min_timestamp s = None) \<and> (st_row_count s = 0 \<longleftrightarrow> st_max_timestamp s = None)
    \<and> (\<forall>a b. st_min_timestamp s = Some a \<longrightarrow> st_max_timestamp s = Some b \<longrightarrow> dt_num a \<le> dt_num b)"

lemma GoldSyncState_Inr:
  "GoldSyncState ds bid sha sv fv n mn mx synced = Inr s \<longleftrightarrow>
    valid_sync_state s \<and> s = \<lparr>st_dataset_id = ds, st_source_build_id = bid, st_data_sha256 = sha,
      st_schema_version = sv, st_feature_version = fv, st_row_count = n, st_min_timestamp = mn,
      st_max_timestamp = mx, st_synced_at_utc = synced\<rparr>"
proof -
  let ?s = "\<lparr>st_dataset_id = ds, st_source_build_id = bid, st_data_sha256 = sha,
      st_schema_version = sv, st_feature_version = fv, st_row_count = n, st_min_timestamp = mn,
      st_max_timestamp = mx, st_synced_at_utc = synced\<rparr>"
  have order: "opt_less mx mn = Inr False \<longleftrightarrow>
      (\<forall>a b. mn = Some a \<longrightarrow> mx = Some b \<longrightarrow> dt_num a \<le> dt_num b)"
    if "opt_all is_utc mn" "opt_all is_utc mx"
    using that by (cases mn; cases mx) (simp_all add: opt_less_def dt_less_aware not_less)
  have zero: "\<not> n < 0 \<and> \<not> (n = 0 \<and> (mn \<noteq> None \<or> mx \<noteq> None)) \<and> \<not> (n > 0 \<and> (mn = None \<or> mx = None))
      \<longleftrightarrow> 0 \<le> n \<and> (n = 0 \<longleftrightarrow> mn = None) \<and> (n = 0 \<longleftrightarrow> mx = None)"
    by (cases mn; cases mx) auto
  have flag: "rbind r (\<lambda>b. rbind (raise_if b X m) k) = Inr y \<longleftrightarrow> r = Inr False \<and> k () = Inr y"
    for r X m y and k :: "unit \<Rightarrow> gold_sync_state result"
    by (cases r) (auto simp: guard_Inr)
  have utc: "rbind (sync_utc d) k = Inr y \<longleftrightarrow> is_utc d \<and> k d = Inr y"
    "rbind (opt_sync_utc x) j = Inr y \<longleftrightarrow> opt_all is_utc x \<and> j x = Inr y"
    for d x y and k :: "datetime \<Rightarrow> gold_sync_state result" and j :: "datetime option \<Rightarrow> gold_sync_state result"
    by (auto simp: rbind_Inr sync_utc_Inr opt_sync_utc_Inr)
  have run: "GoldSyncState ds bid sha sv fv n mn mx synced = Inr s \<longleftrightarrow>
      ds = POSTGRES_DATASET_ID \<and> is_sha256_hex sha \<and> \<not> n < 0 \<and> is_utc synced \<and> opt_all is_utc mn
      \<and> opt_all is_utc mx \<and> \<not> (n = 0 \<and> (mn \<noteq> None \<or> mx \<noteq> None)) \<and> \<not> (n > 0 \<and> (mn = None \<or> mx = None))
      \<and> opt_less mx mn = Inr False \<and> ?s = s"
    unfolding GoldSyncState_def by (simp only: flag guard_Inr utc sum.inject not_not)
  have "valid_sync_state ?s \<longleftrightarrow> ds = POSTGRES_DATASET_ID \<and> is_sha256_hex sha \<and> 0 \<le> n \<and> is_utc synced
      \<and> opt_all is_utc mn \<and> opt_all is_utc mx \<and> (n = 0 \<longleftrightarrow> mn = None) \<and> (n = 0 \<longleftrightarrow> mx = None)
      \<and> (\<forall>a b. mn = Some a \<longrightarrow> mx = Some b \<longrightarrow> dt_num a \<le> dt_num b)"
    by (simp only: valid_sync_state_def gold_sync_state.select_convs)
  then have "GoldSyncState ds bid sha sv fv n mn mx synced = Inr s \<longleftrightarrow> valid_sync_state ?s \<and> ?s = s"
    using order zero unfolding run by blast
  then show ?thesis
    by metis
qed

lemma select_current_sync_record_Inr:
  "select_current_sync_record rs = Inr r \<longleftrightarrow> filter current rs = [r] \<and> selectable_complete r
    \<and> dataset_id r = POSTGRES_DATASET_ID \<and> schema_version r = GOLD_SCHEMA_VERSION
    \<and> feature_version r = GOLD_FEATURE_VERSION"
  by (auto simp: select_current_sync_record_def rbind_Inr guard_Inr strict_current_resolve_Inr
      require_sync_compatible_def matches_def current_compatibility_def)

end
