(* ===== verification/Pg_Delta.thy ===== *)
theory Pg_Delta
  imports Pg_Sync Frame_Keys "HOL-Library.AList"
begin

text \<open>
  \<open>src/application/postgres_delta.py\<close>: the canonical bytes of a Gold row, the digests of a complete
  Gold frame, and the delta between a frame and the digests of the target.  \<open>sha256\<close> maps bytes to the
  hexadecimal digest of \<open>hashlib\<close> and is a parameter.
\<close>

definition epoch_microseconds :: "datetime \<Rightarrow> int result" where
  "epoch_microseconds d =
    (case d of Naive _ \<Rightarrow> raise ValueError ''Gold timestamp_m1 must be timezone-aware'' | Aware t _ \<Rightarrow> Inr t)"

definition canonical_float :: "f64 \<Rightarrow> f64 result" where
  "canonical_float x =
    (if \<not> f64_finite x then raise ValueError ''Gold row digest rejects NaN and infinity''
     else Inr (if f64_zero x then 0 else x))"

section \<open>The bytes of a row\<close>

definition DIGEST_PREFIX :: "byte list" where
  "DIGEST_PREFIX = ascii_bytes ''macro-loader:gold-row:v1'' @ [0]"

definition value_bytes :: "string \<Rightarrow> f64 option \<Rightarrow> byte list result" where
  "value_bytes column v =
    (case v of
      None \<Rightarrow> Inr (ascii_bytes column @ [0] @ ascii_bytes ''N'')
    | Some x \<Rightarrow> rbind (canonical_float x) (\<lambda>y. Inr (ascii_bytes column @ [0] @ ascii_bytes ''F'' @ be_bytes y)))"

text \<open>The loop over \<open>zip(columns, values, strict=True)\<close>\<close>

fun values_bytes :: "string list \<Rightarrow> f64 option list \<Rightarrow> byte list result" where
  "values_bytes [] [] = Inr []"
| "values_bytes (c # cs) (v # vs) =
    rbind (value_bytes c v) (\<lambda>b. rbind (values_bytes cs vs) (\<lambda>bs. Inr (b @ bs)))"
| "values_bytes _ _ = raise ValueError ''zip() arguments have different lengths''"

definition gold_row_bytes :: "gold_row_payload \<Rightarrow> byte list result" where
  "gold_row_bytes row =
    rbind (epoch_microseconds (pay_timestamp row)) (\<lambda>us.
    rbind (pack_q us) (\<lambda>q.
    rbind (values_bytes (tl POSTGRES_RAW_COLUMNS) (pay_values row)) (\<lambda>vs.
    Inr (DIGEST_PREFIX @ ascii_bytes (hd POSTGRES_RAW_COLUMNS) @ [0] @ ascii_bytes ''T'' @ q @ vs))))"

definition gold_row_sha256 :: "(byte list \<Rightarrow> string) \<Rightarrow> gold_row_payload \<Rightarrow> string result" where
  "gold_row_sha256 sha256 row = rbind (gold_row_bytes row) (\<lambda>bs. Inr (sha256 bs))"

section \<open>The source\<close>

definition validate_source_frame :: "frame \<Rightarrow> unit result" where
  "validate_source_frame f =
    rbind (raise_if (f_columns f \<noteq> POSTGRES_RAW_COLUMNS) ValueError
      ''PostgreSQL delta source must use exact raw source column order'') (\<lambda>_.
    rbind (schema_type f ''timestamp_m1'') (\<lambda>t.
    rbind (raise_if (t \<noteq> DDatetimeUtc) TypeError
      ''PostgreSQL delta source timestamp_m1 must be Datetime(us, UTC)'') (\<lambda>_.
    rbind (raise_if (CNull \<in> set (column_cells f ''timestamp_m1'')) ValueError
      ''PostgreSQL delta source timestamp_m1 cannot be null'') (\<lambda>_.
    rbind (raise_if (\<not> distinct (column_cells f ''timestamp_m1'')) ValueError
      ''PostgreSQL delta source timestamp_m1 must be unique'') (\<lambda>_.
    rfor (\<lambda>c. rbind (schema_type f c) (\<lambda>t. raise_if (t \<noteq> DFloat64) TypeError
      (''PostgreSQL delta source feature '' @ c @ '' must be Float64''))) (tl POSTGRES_RAW_COLUMNS))))))"

definition source_value :: "cell \<Rightarrow> f64 option result" where
  "source_value c =
    (case c of
      CNull \<Rightarrow> Inr None
    | CFloat x \<Rightarrow> rbind (canonical_float x) (\<lambda>y. Inr (Some y))
    | _ \<Rightarrow> raise TypeError ''Gold feature row values must be float or null'')"

definition source_timestamp :: "cell \<Rightarrow> datetime result" where
  "source_timestamp c =
    (case c of CDatetime t \<Rightarrow> Inr (Aware t 0) | _ \<Rightarrow> raise TypeError ''Gold timestamp_m1 row value must be datetime'')"

definition source_row ::
  "(byte list \<Rightarrow> string) \<Rightarrow> cell list \<Rightarrow> (gold_row_payload \<times> gold_row_digest) result" where
  "source_row sha256 raw =
    rbind (source_timestamp (hd raw)) (\<lambda>timestamp.
    rbind (rmap source_value (tl raw)) (\<lambda>vs.
    rbind (GoldRowPayload timestamp vs) (\<lambda>payload.
    rbind (gold_row_sha256 sha256 payload) (\<lambda>digest.
    rbind (GoldRowDigest (pay_timestamp payload) digest) (\<lambda>digest.
    Inr (payload, digest))))))"

definition source_rows_and_digests ::
  "polars \<Rightarrow> (byte list \<Rightarrow> string) \<Rightarrow> frame \<Rightarrow> (gold_row_payload list \<times> gold_row_digest list) result" where
  "source_rows_and_digests pl sha256 f =
    rbind (validate_source_frame f) (\<lambda>_.
    rbind (pl_sort pl [''timestamp_m1''] f) (\<lambda>ordered.
    rbind (rmap (source_row sha256) (f_rows ordered)) (\<lambda>out.
    Inr (map fst out, map snd out))))"

section \<open>The delta\<close>

text \<open>A dictionary in insertion order; \<open>{k(x): v(x) for x in xs}\<close> keeps the last value of a key.\<close>

definition dict_of :: "('k \<times> 'v) list \<Rightarrow> ('k \<times> 'v) list" where
  "dict_of xs = foldl (\<lambda>d (k, v). AList.update k v d) [] xs"

definition digest_dict :: "gold_row_digest list \<Rightarrow> (datetime \<times> string) list" where
  "digest_dict ds = dict_of (map (\<lambda>d. (dig_timestamp d, dig_sha256 d)) ds)"

text \<open>A dictionary of digests that rejects a second digest for a timestamp.\<close>

fun unique_digest_map :: "string \<Rightarrow> (datetime \<times> string) list \<Rightarrow> gold_row_digest list \<Rightarrow> (datetime \<times> string) list result"
where
  "unique_digest_map msg acc [] = Inr acc"
| "unique_digest_map msg acc (d # ds) =
    rbind (raise_if (dig_timestamp d \<in> set (map fst acc)) ValueError msg) (\<lambda>_.
    unique_digest_map msg (acc @ [(dig_timestamp d, dig_sha256 d)]) ds)"

definition target_digest_map :: "gold_row_digest list \<Rightarrow> (datetime \<times> string) list result" where
  "target_digest_map ds = unique_digest_map ''PostgreSQL digest state contains duplicate timestamp_m1'' [] ds"

datatype delta_class = Insert | Update | Unchanged

definition classify :: "(datetime \<times> string) list \<Rightarrow> (datetime \<times> string) list \<Rightarrow> datetime \<Rightarrow> delta_class" where
  "classify source target t =
    (case map_of target t of
      None \<Rightarrow> Insert
    | Some h \<Rightarrow> if Some h \<noteq> map_of source t then Update else Unchanged)"

definition plan_gold_delta ::
  "polars \<Rightarrow> (byte list \<Rightarrow> string) \<Rightarrow> frame \<Rightarrow> gold_row_digest list \<Rightarrow> gold_sync_state option \<Rightarrow>
    gold_delta_plan result" where
  "plan_gold_delta pl sha256 f target_digests sync_state =
    rbind (source_rows_and_digests pl sha256 f) (\<lambda>(rows, source_digests).
    rbind (target_digest_map target_digests) (\<lambda>target.
    rbind (raise_if (sync_state = None \<and> target \<noteq> []) ValueError
      ''PostgreSQL target has row digests but no authoritative sync state'') (\<lambda>_.
    let source = digest_dict source_digests;
        row_of = map_of (dict_of (map (\<lambda>r. (pay_timestamp r, r)) rows));
        ts = sort_key dt_num (map fst source);
        of_class = (\<lambda>c. filter (\<lambda>t. classify source target t = c) ts)
    in GoldDeltaPlan (map (\<lambda>t. the (row_of t)) (of_class Insert)) (map (\<lambda>t. the (row_of t)) (of_class Update))
         (sort_key dt_num (filter (\<lambda>t. t \<notin> set (map fst source)) (map fst target)))
         (of_class Unchanged) source_digests)))"

section \<open>Facts on bytes\<close>

lemma canonical_float_Inr: "canonical_float x = Inr y \<longleftrightarrow> f64_finite x \<and> y = (if f64_zero x then 0 else x)"
  by (auto simp: canonical_float_def)

lemma canonical_eq:
  assumes "canonical_float x = Inr z" "canonical_float y = Inr w"
  shows "z = w \<longleftrightarrow> f64_eq x y"
  using assms f64_finite_not_nan by (auto simp: canonical_float_Inr f64_eq_def f64_zero_def)

lemma value_bytes_inject:
  assumes "value_bytes c v = Inr a" "value_bytes c w = Inr b" "a @ as = b @ bs"
  shows "opt_f64_eq v w \<and> as = bs"
proof -
  have be: "be_bytes x @ us = be_bytes y @ ws \<longleftrightarrow> x = y \<and> us = ws" for x y us ws
    by (simp add: append_eq_append_conv)
  show ?thesis
    using assms by (cases v; cases w) (auto simp: value_bytes_def rbind_Inr ascii_bytes_def be canonical_eq)
qed

lemma value_bytes_eq:
  assumes "value_bytes c v = Inr a" "value_bytes c w = Inr b" "opt_f64_eq v w"
  shows "a = b"
  using assms by (cases v; cases w) (auto simp: value_bytes_def rbind_Inr canonical_eq)

lemma values_bytes_inject:
  "values_bytes cs vs = Inr a \<Longrightarrow> values_bytes cs ws = Inr b \<Longrightarrow> a = b \<longleftrightarrow> list_all2 opt_f64_eq vs ws"
proof (induction cs vs arbitrary: a ws b rule: values_bytes.induct)
  case 1
  then show ?case
    by (cases ws) auto
next
  case (2 c cs v vs)
  then obtain w ws' where ws: "ws = w # ws'"
    by (cases ws) auto
  obtain a1 a2 b1 b2 where *: "value_bytes c v = Inr a1" "values_bytes cs vs = Inr a2" "a = a1 @ a2"
    "value_bytes c w = Inr b1" "values_bytes cs ws' = Inr b2" "b = b1 @ b2"
    using 2 unfolding ws by (auto simp: rbind_Inr)
  show ?case
    unfolding ws *(3,6) list.rel_inject 2(1) [OF *(2,5), symmetric]
    using value_bytes_inject [OF *(1,4), of a2 b2] value_bytes_eq [OF *(1,4)] by blast
qed auto

lemma gold_row_bytes_eq:
  assumes "gold_row_bytes p = Inr a" "gold_row_bytes q = Inr b"
  shows "a = b \<longleftrightarrow> dt_num (pay_timestamp p) = dt_num (pay_timestamp q) \<and> list_all2 opt_f64_eq (pay_values p) (pay_values q)"
proof -
  obtain t u where t: "epoch_microseconds (pay_timestamp p) = Inr t" and u: "epoch_microseconds (pay_timestamp q) = Inr u"
    using assms by (auto simp: gold_row_bytes_def rbind_Inr)
  obtain ta ua va wa where "pack_q t = Inr ta" "pack_q u = Inr ua"
    "values_bytes (tl POSTGRES_RAW_COLUMNS) (pay_values p) = Inr va"
    "values_bytes (tl POSTGRES_RAW_COLUMNS) (pay_values q) = Inr wa"
    and ab: "a = DIGEST_PREFIX @ ascii_bytes (hd POSTGRES_RAW_COLUMNS) @ [0] @ ascii_bytes ''T'' @ ta @ va"
      "b = DIGEST_PREFIX @ ascii_bytes (hd POSTGRES_RAW_COLUMNS) @ [0] @ ascii_bytes ''T'' @ ua @ wa"
    using assms t u by (auto simp: gold_row_bytes_def rbind_Inr)
  moreover have "t = dt_num (pay_timestamp p)" "u = dt_num (pay_timestamp q)"
    using t u by (auto simp: epoch_microseconds_def split: datetime.splits)
  moreover have "ta @ va = ua @ wa \<longleftrightarrow> ta = ua \<and> va = wa" if "length ta = length ua"
    using that by simp
  ultimately show ?thesis
    using pack_q_inject pack_q_length values_bytes_inject by (auto simp: ab)
qed


section \<open>Facts on the delta\<close>

lemma dict_of_distinct:
  assumes "distinct (map fst xs)"
  shows "dict_of xs = xs"
proof -
  have "foldl (\<lambda>d (k, v). AList.update k v d) acc xs = acc @ xs" if "distinct (map fst (acc @ xs))" for acc
    using that
  proof (induction xs arbitrary: acc)
    case (Cons x xs)
    have "AList.update k v d = d @ [(k, v)]" if "k \<notin> set (map fst d)" for k v and d :: "('a \<times> 'b) list"
      using that by (induction d) auto
    then show ?case
      using Cons by (cases x) auto
  qed simp
  from this [of "[]"] show ?thesis
    using assms by (simp add: dict_of_def)
qed

lemma unique_digest_map_Inr:
  "unique_digest_map msg acc ds = Inr m \<longleftrightarrow>
    m = acc @ map (\<lambda>d. (dig_timestamp d, dig_sha256 d)) ds
    \<and> distinct (map dig_timestamp ds) \<and> set (map fst acc) \<inter> set (map dig_timestamp ds) = {}"
  by (induction ds arbitrary: acc) (auto simp: guard_Inr)

definition digest_index :: "gold_row_digest list \<Rightarrow> datetime \<Rightarrow> string option" where
  "digest_index ds = map_of (map (\<lambda>d. (dig_timestamp d, dig_sha256 d)) ds)"

lemma digest_dict_distinct:
  "distinct (map dig_timestamp ds) \<Longrightarrow> digest_dict ds = map (\<lambda>d. (dig_timestamp d, dig_sha256 d)) ds"
  unfolding digest_dict_def by (rule dict_of_distinct) (simp add: comp_def)

lemma digest_index_dom: "digest_index ds t = None \<longleftrightarrow> t \<notin> dig_timestamp ` set ds"
  by (simp add: digest_index_def map_of_eq_None_iff image_image)

lemma digest_index_mem:
  "distinct (map dig_timestamp ds) \<Longrightarrow> d \<in> set ds \<Longrightarrow> digest_index ds (dig_timestamp d) = Some (dig_sha256 d)"
  unfolding digest_index_def by (rule map_of_is_SomeI) (auto simp: comp_def)

text \<open>The rows and digests of a source frame.\<close>

definition source_of :: "(byte list \<Rightarrow> string) \<Rightarrow> gold_row_payload list \<Rightarrow> gold_row_digest list \<Rightarrow> bool" where
  "source_of sha256 rows digests \<longleftrightarrow>
    map pay_timestamp rows = map dig_timestamp digests \<and> distinct (map dig_timestamp digests)
    \<and> sorted (map (\<lambda>d. dt_num (dig_timestamp d)) digests)
    \<and> list_all2 (\<lambda>r d. gold_row_sha256 sha256 r = Inr (dig_sha256 d)) rows digests
    \<and> list_all (\<lambda>r. is_utc (pay_timestamp r) \<and> length (pay_values r) = 49
        \<and> list_all (opt_all f64_finite) (pay_values r)) rows"

lemma source_value_Inr:
  "source_value c = Inr v \<longleftrightarrow> (c = CNull \<and> v = None)
    \<or> (\<exists>x. c = CFloat x \<and> f64_finite x \<and> v = Some (if f64_zero x then 0 else x))"
  by (cases c) (auto simp: source_value_def rbind_Inr canonical_float_Inr)

lemma source_row_Inr:
  assumes "source_row sha256 raw = Inr (p, d)"
  shows "hd raw = CDatetime (dt_num (pay_timestamp p))" "dig_timestamp d = pay_timestamp p" "is_utc (pay_timestamp p)"
    "length (pay_values p) = 49" "gold_row_sha256 sha256 p = Inr (dig_sha256 d)" "list_all (opt_all f64_finite) (pay_values p)"
proof -
  obtain vs where vs: "rmap source_value (tl raw) = Inr vs" "pay_values p = vs" and ts: "source_timestamp (hd raw) = Inr (pay_timestamp p)"
    and rest: "is_utc (pay_timestamp p)" "length vs = 49" "dig_timestamp d = pay_timestamp p" "gold_row_sha256 sha256 p = Inr (dig_sha256 d)"
    using assms by (auto simp: source_row_def rbind_Inr GoldRowPayload_Inr GoldRowDigest_Inr)
  show "hd raw = CDatetime (dt_num (pay_timestamp p))"
    using ts by (cases "hd raw") (auto simp: source_timestamp_def dest: sym)
  have "f64_finite (0 :: f64)"
    by (simp add: f64_finite_def f64_exponent_def)
  then have "list_all2 (\<lambda>c v. opt_all f64_finite v) (tl raw) vs"
    using vs(1) unfolding rmap_Inr by (auto elim!: list_all2_mono simp: source_value_Inr)
  then show "list_all (opt_all f64_finite) (pay_values p)"
    unfolding vs(2) by (auto simp: list_all2_conv_all_nth list_all_length)
qed (use assms in \<open>auto simp: source_row_def rbind_Inr GoldRowPayload_Inr GoldRowDigest_Inr\<close>)

context polars_frames
begin

lemma source_rows_cells:
  assumes wf: "wf_frame f" and run: "source_rows_and_digests pl sha256 f = Inr (rows, digests)"
  shows "\<exists>g out. pl_sort pl [''timestamp_m1''] f = Inr g \<and> rows = map fst out \<and> digests = map snd out
    \<and> list_all2 (\<lambda>raw o'. source_row sha256 raw = Inr o') (f_rows g) out
    \<and> distinct (column_cells f ''timestamp_m1'')
    \<and> column_cells g ''timestamp_m1'' = map (\<lambda>d. CDatetime (dt_num (dig_timestamp d))) digests"
proof -
  obtain g out where v: "validate_source_frame f = Inr ()" and g: "pl_sort pl [''timestamp_m1''] f = Inr g"
    and out: "rmap (source_row sha256) (f_rows g) = Inr out" "rows = map fst out" "digests = map snd out"
    using run by (auto simp: source_rows_and_digests_def rbind_Inr)
  have cols: "f_columns f = POSTGRES_RAW_COLUMNS" and dist: "distinct (column_cells f ''timestamp_m1'')"
    using v by (auto simp: validate_source_frame_def guard_Inr rbind_Inr)
  obtain t s where schema: "f_schema f = (''timestamp_m1'', t) # s"
    using cols by (cases "f_schema f") (auto simp: f_columns_def POSTGRES_RAW_COLUMNS_def GOLD_COLUMNS_def)
  have all: "list_all2 (\<lambda>raw o'. source_row sha256 raw = Inr o') (f_rows g) out"
    using out(1) by (simp add: rmap_Inr)
  have "row_cell (f_schema f) raw ''timestamp_m1'' = hd raw" if "raw \<in> set (f_rows g)" for raw
  proof -
    have "raw \<in> set (f_rows f)"
      using that mset_eq_setD [OF sort_perm [OF g]] by simp
    then have "row_fits (f_schema f) raw"
      using wf by (simp add: wf_frame_def list_all_iff)
    then show ?thesis
      unfolding schema by (cases raw) auto
  qed
  then have cells: "column_cells g ''timestamp_m1'' = map hd (f_rows g)"
    by (simp add: column_cells_def sort_schema [OF g])
  have "map hd (f_rows g) = map (\<lambda>o'. CDatetime (dt_num (dig_timestamp (snd o')))) out"
    using all by (induction rule: list_all2_induct) (auto simp: source_row_Inr(1,2))
  then have ts: "column_cells g ''timestamp_m1'' = map (\<lambda>d. CDatetime (dt_num (dig_timestamp d))) digests"
    by (simp add: cells out(3))
  then show ?thesis
    using g out(2,3) all dist by blast
qed

lemma source_rows_of:
  assumes wf: "wf_frame f" and run: "source_rows_and_digests pl sha256 f = Inr (rows, digests)"
  shows "source_of sha256 rows digests"
proof -
  obtain g out where g: "pl_sort pl [''timestamp_m1''] f = Inr g" and out: "rows = map fst out" "digests = map snd out"
    and all: "list_all2 (\<lambda>raw o'. source_row sha256 raw = Inr o') (f_rows g) out"
    and dist: "distinct (column_cells f ''timestamp_m1'')"
    and ts: "column_cells g ''timestamp_m1'' = map (\<lambda>d. CDatetime (dt_num (dig_timestamp d))) digests"
    using source_rows_cells [OF assms] by blast
  have "distinct (column_cells g ''timestamp_m1'')"
    using dist mset_eq_imp_distinct_iff [OF sort_column_perm [OF g]] by simp
  then have "distinct (map dig_timestamp digests)"
    unfolding ts by (auto simp: distinct_map inj_on_def)
  moreover have "sorted (map (\<lambda>d. dt_num (dig_timestamp d)) digests)"
    using sort_single_sorted [OF g] unfolding ts
    by (auto simp: sorted_wrt_map comp_def elim!: sorted_wrt_mono_rel [rotated])
  moreover have "map pay_timestamp rows = map dig_timestamp digests"
    unfolding out using all by (induction rule: list_all2_induct) (auto dest: source_row_Inr(2))
  moreover have "list_all2 (\<lambda>r d. gold_row_sha256 sha256 r = Inr (dig_sha256 d)) rows digests"
    unfolding out using all by (induction rule: list_all2_induct) (auto dest: source_row_Inr(5))
  moreover have "list_all (\<lambda>r. is_utc (pay_timestamp r) \<and> length (pay_values r) = 49
      \<and> list_all (opt_all f64_finite) (pay_values r)) rows"
    unfolding out using all by (induction rule: list_all2_induct) (auto dest: source_row_Inr(3,4,6))
  ultimately show ?thesis
    by (simp add: source_of_def)
qed

end


text \<open>What the target's digest index is after the plan was applied to it.\<close>

definition applied_index :: "gold_delta_plan \<Rightarrow> (datetime \<Rightarrow> string option) \<Rightarrow> datetime \<Rightarrow> string option" where
  "applied_index p m t =
    (if t \<in> set (dp_deletes p) then None
     else if t \<in> pay_timestamp ` set (dp_inserts p @ dp_updates p) then digest_index (dp_source_digests p) t
     else m t)"

text \<open>
  What the delta of a source against a target is: it classifies every timestamp by the two digest
  maps, in ascending order, with the source rows to write.
\<close>

definition is_delta :: "gold_row_payload list \<Rightarrow> gold_row_digest list \<Rightarrow> gold_row_digest list \<Rightarrow> gold_delta_plan \<Rightarrow> bool"
where
  "is_delta rows digests target p \<longleftrightarrow>
    dp_source_digests p = digests
    \<and> dp_inserts p = filter (\<lambda>r. digest_index target (pay_timestamp r) = None) rows
    \<and> dp_updates p = filter (\<lambda>r. digest_index target (pay_timestamp r)
        \<notin> {None, digest_index digests (pay_timestamp r)}) rows
    \<and> dp_unchanged p = filter (\<lambda>t. digest_index target t = digest_index digests t) (map pay_timestamp rows)
    \<and> set (dp_deletes p) = {t. digest_index target t \<noteq> None \<and> digest_index digests t = None}
    \<and> distinct (dp_deletes p) \<and> sorted (map dt_num (dp_deletes p))"

lemma delta_applied:
  assumes "is_delta rows digests target p" "map pay_timestamp rows = map dig_timestamp digests"
  shows "applied_index p (digest_index target) = digest_index digests"
proof
  fix t
  have dom: "digest_index digests t = None \<longleftrightarrow> t \<notin> pay_timestamp ` set rows"
    unfolding digest_index_dom using arg_cong [OF assms(2), of set] by auto
  show "applied_index p (digest_index target) t = digest_index digests t"
    using assms(1) dom unfolding is_delta_def applied_index_def by auto
qed

lemma groups_disjoint:
  assumes "A \<subseteq> I" "B \<subseteq> U" "D \<subseteq> N" "C \<inter> K = {}" "I \<union> U \<union> N \<subseteq> K" "I \<inter> U = {}" "I \<inter> N = {}" "U \<inter> N = {}"
  shows "A \<inter> B = {}" "A \<inter> C = {}" "A \<inter> D = {}" "B \<inter> C = {}" "B \<inter> D = {}" "C \<inter> D = {}"
  using assms by blast+

lemma plan_gold_delta_ok:
  assumes src: "source_rows_and_digests pl sha256 f = Inr (rows, digests)" "source_of sha256 rows digests"
    and target: "distinct (map dig_timestamp target)" "list_all (\<lambda>d. is_utc (dig_timestamp d)) target"
    and st: "st = None \<longrightarrow> target = []"
  shows "\<exists>p. plan_gold_delta pl sha256 f target st = Inr p \<and> is_delta rows digests target p"
proof -
  let ?S = "map (\<lambda>d. (dig_timestamp d, dig_sha256 d)) digests" and ?T = "map (\<lambda>d. (dig_timestamp d, dig_sha256 d)) target"
  let ?R = "map (\<lambda>r. (pay_timestamp r, r)) rows"
  have keys: "map pay_timestamp rows = map dig_timestamp digests" and dist: "distinct (map dig_timestamp digests)"
    and sorted: "sorted (map (\<lambda>d. dt_num (dig_timestamp d)) digests)"
    and utc: "list_all (\<lambda>r. is_utc (pay_timestamp r)) rows"
    using src(2) by (auto simp: source_of_def list_all_iff)
  have T: "target_digest_map target = Inr ?T"
    using target(1) by (simp add: target_digest_map_def unique_digest_map_Inr)
  have S: "digest_dict digests = ?S"
    by (rule digest_dict_distinct [OF dist])
  have R: "dict_of ?R = ?R"
    by (rule dict_of_distinct) (use dist keys in \<open>simp add: comp_def\<close>)
  have ts: "sort_key dt_num (map fst ?S) = map pay_timestamp rows"
  proof -
    have "map fst ?S = map pay_timestamp rows" "sorted (map dt_num (map dig_timestamp digests))"
      using sorted by (simp_all add: keys comp_def)
    then show ?thesis
      by (simp only: keys sort_key_id_if_sorted)
  qed
  let ?cl = "classify ?S ?T"
  have cl: "?cl t = Insert \<longleftrightarrow> digest_index target t = None"
    "?cl t = Update \<longleftrightarrow> digest_index target t \<notin> {None, digest_index digests t}"
    "?cl t = Unchanged \<longleftrightarrow> digest_index target t \<noteq> None \<and> digest_index target t = digest_index digests t" for t
    by (auto simp: classify_def digest_index_def split: option.splits)
  have rows_of: "map (\<lambda>t. the (map_of ?R t)) (filter P (map pay_timestamp rows)) = filter (\<lambda>r. P (pay_timestamp r)) rows" for P
  proof -
    have "the (map_of ?R (pay_timestamp r)) = r" if "r \<in> set rows" for r
    proof -
      have "distinct (map fst ?R)"
        using dist keys by (simp add: comp_def)
      then have "map_of ?R (pay_timestamp r) = Some r"
        by (rule map_of_is_SomeI) (use that in auto)
      then show ?thesis
        by simp
    qed
    then show ?thesis
      by (auto simp: filter_map_eq comp_def intro!: map_idI)
  qed
  let ?ins = "filter (\<lambda>r. ?cl (pay_timestamp r) = Insert) rows" and ?upd = "filter (\<lambda>r. ?cl (pay_timestamp r) = Update) rows"
    and ?un = "filter (\<lambda>t. ?cl t = Unchanged) (map pay_timestamp rows)"
    and ?del = "sort_key dt_num (filter (\<lambda>t. t \<notin> set (map fst ?S)) (map fst ?T))"
  let ?p = "\<lparr>dp_inserts = ?ins, dp_updates = ?upd, dp_deletes = ?del, dp_unchanged = ?un, dp_source_digests = digests\<rparr>"
  have rowkeys: "pay_timestamp ` set rows = dig_timestamp ` set digests"
    using arg_cong [OF keys, of set] by simp
  have "GoldDeltaPlan ?ins ?upd ?del ?un digests = Inr ?p"
  proof -
    let ?K = "\<lambda>c. {t \<in> dig_timestamp ` set digests. ?cl t = c}"
    have "pay_timestamp ` set ?ins \<subseteq> ?K Insert" "pay_timestamp ` set ?upd \<subseteq> ?K Update" "set ?un \<subseteq> ?K Unchanged"
      using rowkeys by auto
    moreover have "set ?del \<inter> dig_timestamp ` set digests = {}"
      by auto
    moreover have "?K Insert \<union> ?K Update \<union> ?K Unchanged \<subseteq> dig_timestamp ` set digests" "?K Insert \<inter> ?K Update = {}"
      "?K Insert \<inter> ?K Unchanged = {}" "?K Update \<inter> ?K Unchanged = {}"
      by auto
    ultimately have disjoint: "pay_timestamp ` set ?ins \<inter> pay_timestamp ` set ?upd = {}"
      "pay_timestamp ` set ?ins \<inter> set ?del = {}" "pay_timestamp ` set ?ins \<inter> set ?un = {}"
      "pay_timestamp ` set ?upd \<inter> set ?del = {}" "pay_timestamp ` set ?upd \<inter> set ?un = {}" "set ?del \<inter> set ?un = {}"
      by (rule groups_disjoint)+
    have "list_all is_utc ?del" "list_all is_utc ?un"
      using target(2) utc by (auto simp: list_all_iff)
    then show ?thesis
      unfolding GoldDeltaPlan_Inr by (intro conjI disjoint refl)
  qed
  moreover have "raise_if (st = None \<and> ?T \<noteq> []) X m = Inr ()" for X m
    using st by (cases st) auto
  ultimately have "plan_gold_delta pl sha256 f target st = Inr ?p"
    by (simp only: plan_gold_delta_def src(1) rbind.simps prod.case T S R Let_def ts rows_of)
  moreover have "is_delta rows digests target ?p"
  proof -
    have "digest_index digests t \<noteq> None" if "t \<in> pay_timestamp ` set rows" for t
      using that rowkeys by (simp add: digest_index_dom)
    then have "?un = filter (\<lambda>t. digest_index target t = digest_index digests t) (map pay_timestamp rows)"
      by (intro filter_cong refl) (auto simp: cl)
    moreover have "set ?del = {t. digest_index target t \<noteq> None \<and> digest_index digests t = None}"
      by (auto simp: digest_index_dom image_image)
    moreover have "distinct ?del" "sorted (map dt_num ?del)"
      using target(1) by (simp_all add: comp_def)
    ultimately show ?thesis
      by (simp add: is_delta_def cl del: set_sort)
  qed
  ultimately show ?thesis
    by blast
qed


section \<open>The properties\<close>

lemma value_bytes_ok: "is_ok (value_bytes c v) \<longleftrightarrow> opt_all f64_finite v"
  by (cases v) (auto simp: value_bytes_def canonical_float_def)

lemma values_bytes_ok:
  "is_ok (values_bytes cs vs) \<longleftrightarrow> length vs = length cs \<and> list_all (opt_all f64_finite) vs"
proof (induction cs vs rule: values_bytes.induct)
  case (2 c cs v vs)
  have "is_ok (values_bytes (c # cs) (v # vs)) \<longleftrightarrow> is_ok (value_bytes c v) \<and> is_ok (values_bytes cs vs)"
    by (cases "value_bytes c v"; cases "values_bytes cs vs") auto
  then show ?case
    using 2 value_bytes_ok by auto
qed auto

lemma gold_row_bytes_ok:
  "is_ok (gold_row_bytes row) \<longleftrightarrow> is_aware (pay_timestamp row) \<and> fits_int64 (dt_num (pay_timestamp row))
    \<and> length (pay_values row) = 49 \<and> list_all (opt_all f64_finite) (pay_values row)"
proof (cases "pay_timestamp row")
  case (Aware t off)
  have "is_ok (gold_row_bytes row) \<longleftrightarrow> fits_int64 t \<and> is_ok (values_bytes (tl POSTGRES_RAW_COLUMNS) (pay_values row))"
    by (cases "values_bytes (tl POSTGRES_RAW_COLUMNS) (pay_values row)")
      (auto simp: gold_row_bytes_def epoch_microseconds_def Aware pack_q_def raise_def)
  then show ?thesis
    using Aware by (simp add: values_bytes_ok POSTGRES_RAW_COLUMNS_def gold_columns_length)
qed (simp add: gold_row_bytes_def epoch_microseconds_def raise_def)

text \<open>
  C15: the bytes that are hashed for a row identify its content.  They exist exactly for an aware
  timestamp in the range of a signed 64-bit number of microseconds and 49 values that are null or
  finite (NaN and infinities raise), and two rows have the same bytes exactly when they have the
  same instant and the same values, where -0.0 equals 0.0 and null equals only null: the framing of
  column names, type marks and values is injective.
\<close>

theorem gold_row_framing:
  "(is_ok (gold_row_bytes p) \<longleftrightarrow> is_aware (pay_timestamp p) \<and> fits_int64 (dt_num (pay_timestamp p))
      \<and> length (pay_values p) = 49 \<and> list_all (opt_all f64_finite) (pay_values p))
   \<and> (gold_row_bytes p = Inr a \<longrightarrow> gold_row_bytes q = Inr b \<longrightarrow>
      (a = b \<longleftrightarrow> dt_num (pay_timestamp p) = dt_num (pay_timestamp q)
        \<and> list_all2 opt_f64_eq (pay_values p) (pay_values q)))"
  using gold_row_bytes_ok gold_row_bytes_eq by blast

lemma list_all_replicate: "list_all P (replicate n x) \<longleftrightarrow> n = 0 \<or> P x"
  by (induction n) auto

text \<open>A row with 20.0 for \<open>ciss\<close> and \<open>z\<close> for \<open>ciss_money\<close>.\<close>

definition demo_row :: "f64 option \<Rightarrow> gold_row_payload" where
  "demo_row z = \<lparr>pay_timestamp = Aware 0 0, pay_values = replicate 10 None @ [Some 0x4034000000000000, z] @ replicate 37 None\<rparr>"

theorem gold_row_framing_witness:
  "\<exists>a b. gold_row_bytes (demo_row (Some 0)) = Inr a \<and> gold_row_bytes (demo_row (Some 0x8000000000000000)) = Inr b
    \<and> a = b \<and> gold_row_bytes (demo_row None) \<noteq> Inr a"
proof -
  have ok: "is_ok (gold_row_bytes (demo_row z))" if "opt_all f64_finite z" for z
    using gold_row_framing [of "demo_row z"] that
    by (simp add: demo_row_def fits_int64_def f64_finite_def f64_exponent_def list_all_replicate)
  have "opt_all f64_finite (Some 0)" "opt_all f64_finite (Some 0x8000000000000000)" "opt_all f64_finite None"
    by (simp_all add: f64_finite_def f64_exponent_def)
  from this [THEN ok] obtain a b c where *: "gold_row_bytes (demo_row (Some 0)) = Inr a"
    "gold_row_bytes (demo_row (Some 0x8000000000000000)) = Inr b" "gold_row_bytes (demo_row None) = Inr c"
    unfolding is_ok_iff by blast
  have eq: "f64_eq 0 0x8000000000000000" "f64_eq 0x4034000000000000 0x4034000000000000"
    by (simp_all add: f64_eq_def f64_zero_def f64_nan_def f64_finite_def f64_exponent_def)
  have "list_all2 opt_f64_eq (replicate n None) (replicate n None)" for n
    by (simp add: list_all2_conv_all_nth)
  then have "a = b"
    using gold_row_framing [of "demo_row (Some 0)" a "demo_row (Some 0x8000000000000000)" b] * eq
    by (simp add: demo_row_def list_all2_append)
  moreover have "c \<noteq> a"
    using gold_row_framing [of "demo_row None" c "demo_row (Some 0)" a] * by (simp add: demo_row_def list_all2_append)
  ultimately show ?thesis
    using * by simp
qed

text \<open>
  C16: whenever the source frame can be digested, the stored digests have unique UTC timestamps, and
  there is a checkpoint unless nothing is stored, planning returns the delta: a source row is
  inserted exactly when its timestamp is not stored, updated exactly when the stored digest differs
  from its own, unchanged otherwise, and stored timestamps without a source row are deleted.  Applying
  it makes the stored index equal to the source, and it is empty exactly when they were equal before.
\<close>

theorem gold_delta_correct:
  assumes "polars_frames pl" "wf_frame f" "source_rows_and_digests pl sha256 f = Inr (rows, digests)"
    and "distinct (map dig_timestamp target)" "list_all (\<lambda>d. is_utc (dig_timestamp d)) target"
    and "st = None \<longrightarrow> target = []"
  shows "\<exists>p. plan_gold_delta pl sha256 f target st = Inr p \<and> is_delta rows digests target p
    \<and> applied_index p (digest_index target) = digest_index digests
    \<and> (dp_inserts p = [] \<and> dp_updates p = [] \<and> dp_deletes p = [] \<longleftrightarrow> digest_index target = digest_index digests)"
proof -
  note src = polars_frames.source_rows_of [OF assms(1,2,3)]
  have keys: "map pay_timestamp rows = map dig_timestamp digests"
    using src by (simp add: source_of_def)
  obtain p where p: "plan_gold_delta pl sha256 f target st = Inr p" "is_delta rows digests target p"
    using plan_gold_delta_ok [OF assms(3) src assms(4-6)] by blast
  have applied: "applied_index p (digest_index target) = digest_index digests"
    by (rule delta_applied [OF p(2) keys])
  have "digest_index target = digest_index digests" if "dp_inserts p = []" "dp_updates p = []" "dp_deletes p = []"
    using applied that by (auto simp: applied_index_def fun_eq_iff)
  moreover have "dp_inserts p = [] \<and> dp_updates p = [] \<and> dp_deletes p = []"
    if same: "digest_index target = digest_index digests"
  proof -
    have "digest_index digests (pay_timestamp r) \<noteq> None" if "r \<in> set rows" for r
      using that arg_cong [OF keys, of set] by (auto simp: digest_index_dom)
    moreover have "set (dp_deletes p) = {t. digest_index digests t \<noteq> None \<and> digest_index digests t = None}"
      using p(2) unfolding is_delta_def same by blast
    then have "dp_deletes p = []"
      by (metis (no_types, lifting) Collect_empty_eq set_empty)
    ultimately show ?thesis
      using p(2) unfolding is_delta_def same by (simp add: filter_empty_conv)
  qed
  ultimately show ?thesis
    using p applied by blast
qed

definition demo_gold :: frame where
  "demo_gold = \<lparr>f_schema = (''timestamp_m1'', DDatetimeUtc) # map (\<lambda>c. (c, DFloat64)) (tl GOLD_COLUMNS),
     f_rows = [CDatetime 0 # replicate 10 CNull @ [CFloat 0x4034000000000000] @ replicate 38 CNull]\<rparr>"

definition demo_sha :: "byte list \<Rightarrow> string" where
  "demo_sha bs = replicate 64 (CHR ''a'')"

definition demo_stale :: gold_row_digest where
  "demo_stale = \<lparr>dig_timestamp = Aware 86400000000 0, dig_sha256 = demo_sha []\<rparr>"

lemma demo_gold_wf: "wf_frame demo_gold"
  by (simp add: demo_gold_def wf_frame_def f_columns_def comp_def gold_columns_eval row_fits_def numeral_eq_Suc)

lemma demo_gold_rows:
  "source_rows_and_digests reference_polars demo_sha demo_gold = Inr ([demo_row None],
    [\<lparr>dig_timestamp = Aware 0 0, dig_sha256 = demo_sha []\<rparr>])"
proof -
  have cols: "f_columns demo_gold = POSTGRES_RAW_COLUMNS"
    by (simp add: demo_gold_def f_columns_def comp_def POSTGRES_RAW_COLUMNS_def GOLD_COLUMNS_def)
  have types: "map_of (f_schema demo_gold) c = Some DFloat64" if "c \<in> set (tl GOLD_COLUMNS)" for c
    using that timestamp_not_feature by (auto simp: demo_gold_def map_of_map_restrict)
  have cells: "column_cells demo_gold ''timestamp_m1'' = [CDatetime 0]"
    by (simp add: column_cells_def demo_gold_def)
  have valid: "validate_source_frame demo_gold = Inr ()"
  proof -
    have "schema_type demo_gold ''timestamp_m1'' = Inr DDatetimeUtc"
      by (simp add: schema_type_def demo_gold_def)
    moreover have "schema_type demo_gold c = Inr DFloat64" if "c \<in> set (tl POSTGRES_RAW_COLUMNS)" for c
      using types [of c] that by (simp add: schema_type_def POSTGRES_RAW_COLUMNS_def)
    ultimately show ?thesis
      using cells by (simp add: validate_source_frame_def cols rfor_Inr)
  qed
  have sort: "pl_sort reference_polars [''timestamp_m1''] demo_gold = Inr demo_gold"
    using cols by (simp add: reference_polars_def POSTGRES_RAW_COLUMNS_def GOLD_COLUMNS_def) (simp add: demo_gold_def)
  have fin: "f64_finite 0x4034000000000000" "\<not> f64_zero 0x4034000000000000"
    by (simp_all add: f64_finite_def f64_exponent_def f64_zero_def)
  have "rmap source_value (replicate n CNull) = Inr (replicate n None)" for n
    by (induction n) (simp_all add: source_value_def)
  then have vals: "rmap source_value (replicate 10 CNull @ [CFloat 0x4034000000000000] @ replicate 38 CNull) = Inr (pay_values (demo_row None))"
    using fin by (simp add: source_value_def canonical_float_def demo_row_def numeral_eq_Suc)
  have pay: "GoldRowPayload (Aware 0 0) (pay_values (demo_row None)) = Inr (demo_row None)"
    unfolding GoldRowPayload_Inr by (simp add: demo_row_def)
  obtain bs where "gold_row_bytes (demo_row None) = Inr bs"
    using gold_row_bytes_ok [of "demo_row None"] fin(1) unfolding is_ok_iff by (auto simp: demo_row_def fits_int64_def list_all_replicate)
  then have sha: "gold_row_sha256 demo_sha (demo_row None) = Inr (demo_sha [])"
    by (simp add: gold_row_sha256_def demo_sha_def)
  have dig: "GoldRowDigest (Aware 0 0) (demo_sha []) = Inr \<lparr>dig_timestamp = Aware 0 0, dig_sha256 = demo_sha []\<rparr>"
    unfolding GoldRowDigest_Inr by (simp add: is_sha256_hex_def demo_sha_def list_all_replicate)
  have "source_row demo_sha (CDatetime 0 # replicate 10 CNull @ [CFloat 0x4034000000000000] @ replicate 38 CNull)
      = Inr (demo_row None, \<lparr>dig_timestamp = Aware 0 0, dig_sha256 = demo_sha []\<rparr>)"
    using vals pay sha dig by (simp add: source_row_def source_timestamp_def del: rmap.simps) (simp add: demo_row_def)
  then show ?thesis
    by (simp add: source_rows_and_digests_def valid sort) (simp add: demo_gold_def)
qed

theorem gold_delta_correct_witness:
  "\<exists>p. plan_gold_delta reference_polars demo_sha demo_gold [demo_stale]
      (Some \<lparr>st_dataset_id = POSTGRES_DATASET_ID, st_source_build_id = ''b'', st_data_sha256 = demo_sha [],
        st_schema_version = 11, st_feature_version = 6, st_row_count = 1,
        st_min_timestamp = Some (Aware 86400000000 0), st_max_timestamp = Some (Aware 86400000000 0),
        st_synced_at_utc = Aware 0 0\<rparr>) = Inr p
    \<and> dp_inserts p = [demo_row None] \<and> dp_updates p = [] \<and> Aware 86400000000 0 \<in> set (dp_deletes p)"
proof -
  have "distinct (map dig_timestamp [demo_stale])" "list_all (\<lambda>d. is_utc (dig_timestamp d)) [demo_stale]"
    by (simp_all add: demo_stale_def)
  from gold_delta_correct [OF ref_polars.polars_frames_axioms demo_gold_wf demo_gold_rows this]
  show ?thesis
    by (fastforce simp: is_delta_def demo_stale_def digest_index_def demo_row_def)
qed

end
