(* ===== verification/Pg_Config.thy ===== *)
theory Pg_Config
  imports Pg_Sync
begin

text \<open>
  \<open>src/ingestion/postgres_gold_repository.py\<close>, connection settings: the timeout policy, the runtime and
  the administrator configuration with their checks, their construction from an environment, and the
  statements every session starts with.
\<close>

definition POSTGRES_HOST :: string where
  "POSTGRES_HOST = ''10.10.1.3''"

definition POSTGRES_PORT :: int where
  "POSTGRES_PORT = 54321"

definition POSTGRES_USER :: string where
  "POSTGRES_USER = ''macro_reader''"

definition POSTGRES_SYNC_USER :: string where
  "POSTGRES_SYNC_USER = ''macro_writer''"

definition POSTGRES_MIGRATION_STATEMENT_TIMEOUT_MS :: int where
  "POSTGRES_MIGRATION_STATEMENT_TIMEOUT_MS = 900000"

definition POSTGRES_FEATURE_REFRESH_TIMEOUT_MS :: int where
  "POSTGRES_FEATURE_REFRESH_TIMEOUT_MS = 900000"

definition POSTGRES_APPLICATION_NAME :: string where
  "POSTGRES_APPLICATION_NAME = ''macro-loader''"

section \<open>Timeouts\<close>

record timeout_policy =
  connect_timeout_seconds :: int
  lock_timeout_ms :: int
  statement_timeout_ms :: int
  idle_in_transaction_timeout_ms :: int
  application_name :: string

definition check_timeout_policy :: "timeout_policy \<Rightarrow> unit result" where
  "check_timeout_policy p =
    rbind (rfor (\<lambda>(name, v). raise_if (v \<le> 0) ValueError (''PostgreSQL '' @ name @ '' must be positive''))
      [(''connect_timeout_seconds'', connect_timeout_seconds p), (''lock_timeout_ms'', lock_timeout_ms p),
       (''statement_timeout_ms'', statement_timeout_ms p),
       (''idle_in_transaction_timeout_ms'', idle_in_transaction_timeout_ms p)]) (\<lambda>_.
    raise_if (application_name p \<noteq> POSTGRES_APPLICATION_NAME) ValueError
      (''PostgreSQL application_name must be '' @ POSTGRES_APPLICATION_NAME))"

definition default_timeout_policy :: timeout_policy where
  "default_timeout_policy = \<lparr>connect_timeout_seconds = 5, lock_timeout_ms = 5000, statement_timeout_ms = 300000,
     idle_in_transaction_timeout_ms = 30000, application_name = POSTGRES_APPLICATION_NAME\<rparr>"

definition admin_timeout_policy :: timeout_policy where
  "admin_timeout_policy = default_timeout_policy\<lparr>statement_timeout_ms := POSTGRES_MIGRATION_STATEMENT_TIMEOUT_MS\<rparr>"

definition session_configuration :: "timeout_policy \<Rightarrow> string list" where
  "session_configuration p =
    (let q = [CHR 39] in
     [''SET application_name = '' @ q @ application_name p @ q,
      ''SET TIME ZONE '' @ q @ ''UTC'' @ q,
      ''SET lock_timeout = '' @ q @ string_of_int (lock_timeout_ms p) @ ''ms'' @ q,
      ''SET statement_timeout = '' @ q @ string_of_int (statement_timeout_ms p) @ ''ms'' @ q,
      ''SET idle_in_transaction_session_timeout = '' @ q @ string_of_int (idle_in_transaction_timeout_ms p)
        @ ''ms'' @ q,
      ''SET jit = off''])"

section \<open>Configurations\<close>

record pg_config =
  pg_host :: string
  pg_port :: int
  pg_user :: string
  pg_database :: string
  pg_password :: string
  pg_timeouts :: timeout_policy

definition PostgresSyncConfig :: "string \<Rightarrow> int \<Rightarrow> string \<Rightarrow> string \<Rightarrow> string \<Rightarrow> timeout_policy \<Rightarrow> pg_config result" where
  "PostgresSyncConfig host port user database password policy =
    rbind (raise_if (host \<noteq> POSTGRES_HOST) ValueError (''PostgreSQL sync host must be '' @ POSTGRES_HOST)) (\<lambda>_.
    rbind (raise_if (port \<noteq> POSTGRES_PORT) ValueError
      (''PostgreSQL sync port must be '' @ string_of_int POSTGRES_PORT)) (\<lambda>_.
    rbind (raise_if (user \<notin> {POSTGRES_USER, POSTGRES_SYNC_USER}) ValueError
      (''PostgreSQL sync user must be '' @ POSTGRES_USER @ '' or '' @ POSTGRES_SYNC_USER)) (\<lambda>_.
    rbind (raise_if (database = []) ValueError ''PostgreSQL sync database is required'') (\<lambda>_.
    rbind (raise_if (password = []) ValueError ''PostgreSQL sync password is required'') (\<lambda>_.
    Inr \<lparr>pg_host = host, pg_port = port, pg_user = user, pg_database = database, pg_password = password,
      pg_timeouts = policy\<rparr>)))))"

definition PostgresAdminConfig :: "string \<Rightarrow> int \<Rightarrow> string \<Rightarrow> string \<Rightarrow> string \<Rightarrow> timeout_policy \<Rightarrow> pg_config result" where
  "PostgresAdminConfig host port user database password policy =
    rbind (raise_if (host \<noteq> POSTGRES_HOST) ValueError (''PostgreSQL admin host must be '' @ POSTGRES_HOST)) (\<lambda>_.
    rbind (raise_if (port \<noteq> POSTGRES_PORT) ValueError
      (''PostgreSQL admin port must be '' @ string_of_int POSTGRES_PORT)) (\<lambda>_.
    rbind (raise_if (user = []) ValueError ''PostgreSQL admin user is required'') (\<lambda>_.
    rbind (raise_if (user = POSTGRES_USER) ValueError ''PostgreSQL admin user must differ from runtime user'') (\<lambda>_.
    rbind (raise_if (database = []) ValueError ''PostgreSQL admin database is required'') (\<lambda>_.
    rbind (raise_if (password = []) ValueError ''PostgreSQL admin password is required'') (\<lambda>_.
    Inr \<lparr>pg_host = host, pg_port = port, pg_user = user, pg_database = database, pg_password = password,
      pg_timeouts = policy\<rparr>))))))"

text \<open>
  \<open>int(text)\<close>: surrounding whitespace, a sign, decimal digits with single underscores between them;
  anything else raises \<open>ValueError\<close>.
\<close>

fun digits_value :: "int \<Rightarrow> string \<Rightarrow> int option" where
  "digits_value acc [] = Some acc"
| "digits_value acc (c # cs) =
    (if is_digit c then digits_value (10 * acc + digit_value c) cs
     else if c = CHR ''_'' \<and> cs \<noteq> [] \<and> is_digit (hd cs) then digits_value acc cs
     else None)"

definition unsigned_value :: "string \<Rightarrow> int option" where
  "unsigned_value s = (case s of [] \<Rightarrow> None | c # _ \<Rightarrow> if is_digit c then digits_value 0 s else None)"

definition strip :: "string \<Rightarrow> string" where
  "strip s = rev (dropWhile is_space (rev (dropWhile is_space s)))"

definition parse_int :: "string \<Rightarrow> int option" where
  "parse_int s =
    (case strip s of
      [] \<Rightarrow> None
    | c # cs \<Rightarrow>
        if c = CHR ''-'' then map_option uminus (unsigned_value cs)
        else if c = CHR ''+'' then unsigned_value cs
        else unsigned_value (c # cs))"

text \<open>\<open>values.get(name, "")\<close>\<close>

definition env_get :: "(string \<times> string) list \<Rightarrow> string \<Rightarrow> string" where
  "env_get env name = (case map_of env name of None \<Rightarrow> '''' | Some v \<Rightarrow> v)"

definition int_setting :: "(string \<times> string) list \<Rightarrow> string \<Rightarrow> int result" where
  "int_setting env name =
    (case parse_int (env_get env name) of
      None \<Rightarrow> raise ValueError (name @ '' must be an integer'')
    | Some i \<Rightarrow> Inr i)"

definition sync_config_from_mapping :: "(string \<times> string) list \<Rightarrow> pg_config result" where
  "sync_config_from_mapping env =
    rbind (int_setting env ''PGPORT'') (\<lambda>port.
    PostgresSyncConfig (env_get env ''PGHOST'') port (env_get env ''PGUSER'') (env_get env ''PGDATABASE'')
      (env_get env ''PGPASSWORD'') default_timeout_policy)"

definition reader_from_env :: "(string \<times> string) list \<Rightarrow> pg_config result" where
  "reader_from_env env =
    rbind (sync_config_from_mapping
      [(''PGHOST'', env_get env ''PGHOST''), (''PGPORT'', env_get env ''PGPORT''),
       (''PGDATABASE'', env_get env ''PGDATABASE''), (''PGUSER'', env_get env ''PGREADUSER''),
       (''PGPASSWORD'', env_get env ''PGREADPASSWORD'')]) (\<lambda>config.
    rbind (raise_if (pg_user config \<noteq> POSTGRES_USER) ValueError
      (''PostgreSQL reader user must be '' @ POSTGRES_USER)) (\<lambda>_.
    Inr config))"

definition admin_config_from_mapping :: "(string \<times> string) list \<Rightarrow> pg_config result" where
  "admin_config_from_mapping env =
    rbind (int_setting env ''MARKET_MACRO_POSTGRES_ADMIN_PORT'') (\<lambda>port.
    rbind (PostgresAdminConfig (env_get env ''MARKET_MACRO_POSTGRES_ADMIN_HOST'') port
      (env_get env ''MARKET_MACRO_POSTGRES_ADMIN_USER'') (env_get env ''MARKET_MACRO_POSTGRES_ADMIN_DATABASE'')
      (env_get env ''MARKET_MACRO_POSTGRES_ADMIN_PASSWORD'') admin_timeout_policy) (\<lambda>config.
    let runtime_password = env_get env ''PGPASSWORD''
    in rbind (raise_if (runtime_password \<noteq> [] \<and> runtime_password = pg_password config) ValueError
         ''PostgreSQL admin password must differ from runtime password'') (\<lambda>_.
       Inr config)))"

section \<open>Facts\<close>

lemma default_policies_ok:
  "check_timeout_policy default_timeout_policy = Inr ()" "check_timeout_policy admin_timeout_policy = Inr ()"
  by (simp_all add: check_timeout_policy_def default_timeout_policy_def admin_timeout_policy_def rfor_Inr
      POSTGRES_MIGRATION_STATEMENT_TIMEOUT_MS_def)

lemma PostgresSyncConfig_Inr:
  "PostgresSyncConfig h p u d w policy = Inr c \<longleftrightarrow>
    h = POSTGRES_HOST \<and> p = POSTGRES_PORT \<and> u \<in> {POSTGRES_USER, POSTGRES_SYNC_USER} \<and> d \<noteq> [] \<and> w \<noteq> []
    \<and> c = \<lparr>pg_host = h, pg_port = p, pg_user = u, pg_database = d, pg_password = w, pg_timeouts = policy\<rparr>"
  unfolding PostgresSyncConfig_def by (simp only: guard_Inr sum.inject not_not) blast

lemma PostgresAdminConfig_Inr:
  "PostgresAdminConfig h p u d w policy = Inr c \<longleftrightarrow>
    h = POSTGRES_HOST \<and> p = POSTGRES_PORT \<and> u \<noteq> [] \<and> u \<noteq> POSTGRES_USER \<and> d \<noteq> [] \<and> w \<noteq> []
    \<and> c = \<lparr>pg_host = h, pg_port = p, pg_user = u, pg_database = d, pg_password = w, pg_timeouts = policy\<rparr>"
  unfolding PostgresAdminConfig_def by (simp only: guard_Inr sum.inject not_not) blast

lemma int_setting_Inr: "int_setting env n = Inr i \<longleftrightarrow> parse_int (env_get env n) = Some i"
  by (auto simp: int_setting_def split: option.split)

section \<open>The parsing of integers\<close>

lemma digits_value_append:
  "list_all is_digit s \<Longrightarrow> digits_value acc (s @ t) =
    digits_value (foldl (\<lambda>a c. 10 * a + digit_value c) acc s) t"
  by (induction s arbitrary: acc) auto

lemma digit_not_space: "is_digit c \<Longrightarrow> \<not> is_space c \<and> c \<noteq> CHR ''-'' \<and> c \<noteq> CHR ''+''"
  by (auto simp: is_digit_def is_space_def)

lemma strip_id: "s \<noteq> [] \<Longrightarrow> \<not> is_space (hd s) \<Longrightarrow> \<not> is_space (last s) \<Longrightarrow> strip s = s"
proof -
  assume s: "s \<noteq> []" "\<not> is_space (hd s)" "\<not> is_space (last s)"
  then have "dropWhile is_space s = s" "dropWhile is_space (rev s) = rev s"
    by (simp_all add: dropWhile_eq_self_iff hd_rev)
  then show ?thesis
    by (simp add: strip_def)
qed

text \<open>\<open>int(str(i)) == i\<close>\<close>

lemma parse_int_of_string: "parse_int (string_of_int i) = Some i"
proof -
  have digits: "list_all is_digit (string_of_nat n)" "string_of_nat n \<noteq> []" for n
    using string_of_nat_digits by blast+
  have u: "unsigned_value (string_of_nat n) = Some (int n)" for n
  proof -
    have "digits_value 0 (string_of_nat n @ []) = Some (int n)"
      using digits_value_append [OF digits(1) [of n], of 0 "[]"] string_of_nat_digits [of n] by simp
    then show ?thesis
      using digits [of n] by (cases "string_of_nat n") (auto simp: unsigned_value_def)
  qed
  have hd_last: "is_digit (hd (string_of_nat n))" "is_digit (last (string_of_nat n))" for n
    using digits [of n] by (auto simp: list_all_iff)
  show ?thesis
  proof (cases "i < 0")
    case True
    have "strip (CHR ''-'' # string_of_nat (nat (- i))) = CHR ''-'' # string_of_nat (nat (- i))"
      by (rule strip_id) (use digits(2) hd_last(2) digit_not_space in \<open>auto simp: is_space_def\<close>)
    then show ?thesis
      using True u by (simp add: string_of_int_def parse_int_def)
  next
    case False
    obtain c cs where c: "string_of_nat (nat i) = c # cs"
      using digits(2) by (cases "string_of_nat (nat i)") auto
    have "strip (string_of_nat (nat i)) = string_of_nat (nat i)"
      by (rule strip_id) (use digits(2) hd_last digit_not_space in blast)+
    then show ?thesis
      using False u [of "nat i"] hd_last(1) [of "nat i"] digit_not_space [of c]
      by (simp add: string_of_int_def parse_int_def c)
  qed
qed


section \<open>The properties\<close>

text \<open>The environment that carries a configuration.\<close>

definition sync_env :: "pg_config \<Rightarrow> (string \<times> string) list" where
  "sync_env c = [(''PGHOST'', pg_host c), (''PGPORT'', string_of_int (pg_port c)), (''PGUSER'', pg_user c),
     (''PGDATABASE'', pg_database c), (''PGPASSWORD'', pg_password c)]"

text \<open>
  C17: reading the settings of an accepted runtime configuration back from the environment variables
  that carry them gives the same configuration, and an environment is accepted exactly when it names
  the fixed host, port and one of the two runtime users, a database and a password.
\<close>

theorem sync_config_roundtrip:
  "(sync_config_from_mapping env = Inr c \<longrightarrow> sync_config_from_mapping (sync_env c) = Inr c)
   \<and> (is_ok (sync_config_from_mapping env) \<longleftrightarrow>
      env_get env ''PGHOST'' = POSTGRES_HOST \<and> parse_int (env_get env ''PGPORT'') = Some POSTGRES_PORT
      \<and> env_get env ''PGUSER'' \<in> {POSTGRES_USER, POSTGRES_SYNC_USER}
      \<and> env_get env ''PGDATABASE'' \<noteq> [] \<and> env_get env ''PGPASSWORD'' \<noteq> [])"
proof
  have run: "sync_config_from_mapping e = Inr k \<longleftrightarrow>
      (\<exists>i. parse_int (env_get e ''PGPORT'') = Some i \<and>
        PostgresSyncConfig (env_get e ''PGHOST'') i (env_get e ''PGUSER'') (env_get e ''PGDATABASE'')
          (env_get e ''PGPASSWORD'') default_timeout_policy = Inr k)" for e k
    by (simp add: sync_config_from_mapping_def rbind_Inr int_setting_Inr)
  show "sync_config_from_mapping env = Inr c \<longrightarrow> sync_config_from_mapping (sync_env c) = Inr c"
    unfolding run PostgresSyncConfig_Inr by (auto simp: sync_env_def env_get_def parse_int_of_string)
  show "is_ok (sync_config_from_mapping env) \<longleftrightarrow>
      env_get env ''PGHOST'' = POSTGRES_HOST \<and> parse_int (env_get env ''PGPORT'') = Some POSTGRES_PORT
      \<and> env_get env ''PGUSER'' \<in> {POSTGRES_USER, POSTGRES_SYNC_USER}
      \<and> env_get env ''PGDATABASE'' \<noteq> [] \<and> env_get env ''PGPASSWORD'' \<noteq> []"
    unfolding is_ok_iff run PostgresSyncConfig_Inr by blast
qed


definition demo_env :: "(string \<times> string) list" where
  "demo_env = [(''PGHOST'', ''10.10.1.3''), (''PGPORT'', '' 54321 ''), (''PGUSER'', ''macro_writer''),
     (''PGDATABASE'', ''db''), (''PGPASSWORD'', ''w''), (''PGREADUSER'', ''macro_reader''), (''PGREADPASSWORD'', ''r''),
     (''MARKET_MACRO_POSTGRES_ADMIN_HOST'', ''10.10.1.3''), (''MARKET_MACRO_POSTGRES_ADMIN_PORT'', ''+54_321''),
     (''MARKET_MACRO_POSTGRES_ADMIN_USER'', ''postgres''), (''MARKET_MACRO_POSTGRES_ADMIN_DATABASE'', ''db''),
     (''MARKET_MACRO_POSTGRES_ADMIN_PASSWORD'', ''a'')]"

lemma demo_ports: "parse_int '' 54321 '' = Some 54321" "parse_int ''+54_321'' = Some 54321"
  by (simp_all add: parse_int_def strip_def is_space_def unsigned_value_def is_digit_def digit_value_def)

theorem sync_config_roundtrip_witness:
  "\<exists>c. sync_config_from_mapping demo_env = Inr c \<and> sync_config_from_mapping (sync_env c) = Inr c"
proof -
  have "is_ok (sync_config_from_mapping demo_env)"
    using sync_config_roundtrip [of demo_env]
    by (simp add: demo_env_def env_get_def demo_ports POSTGRES_HOST_def POSTGRES_PORT_def POSTGRES_SYNC_USER_def)
  then show ?thesis
    using sync_config_roundtrip unfolding is_ok_iff by blast
qed


end
