(* ===== verification/Pg_Store.thy ===== *)
theory Pg_Store
  imports Pg_Delta Pg_Config Lake_Files
begin

text \<open>
  The serving database as \<open>src/ingestion/postgres_gold_repository.py\<close> uses it: its tables, the meaning
  of the SQL statements the synchronization executes, connections and transactions, and the conversion
  of fetched rows.

  A table is an association list with unique keys.  A connection works on a copy of the committed
  tables: \<open>commit\<close> publishes the copy, \<open>rollback\<close> and \<open>close\<close> discard it.  Every call of the client
  library may raise: it is a fault point, before its effect; \<open>commit\<close> may also raise after its effect,
  when the acknowledgement is lost.  Timestamps are read back in UTC, the time zone every session sets.
  The query behind the materialized view is a parameter; only when it is refreshed is modelled.
  Writers exclude each other by the advisory lock, so no other session changes the tables meanwhile.
  The world of the database extends the one of the lake: a synchronization reads the lake.
\<close>

section \<open>Values and rows\<close>

datatype sqlval =
    SNull | SText string | SInt int | SBool bool | SFloat f64 | STime datetime | SNames "string list"

definition as_text :: "sqlval \<Rightarrow> string \<Rightarrow> string result" where
  "as_text v name =
    (case v of SText s \<Rightarrow> Inr s | _ \<Rightarrow> raise TypeError (''PostgreSQL '' @ name @ '' must be text''))"

text \<open>A Python bool is an int.\<close>

definition as_int :: "sqlval \<Rightarrow> string \<Rightarrow> int result" where
  "as_int v name =
    (case v of SInt i \<Rightarrow> Inr i | SBool b \<Rightarrow> Inr (if b then 1 else 0)
     | _ \<Rightarrow> raise TypeError (''PostgreSQL '' @ name @ '' must be integer''))"

definition as_datetime :: "sqlval \<Rightarrow> string \<Rightarrow> datetime option result" where
  "as_datetime v name =
    (case v of SNull \<Rightarrow> Inr None | STime d \<Rightarrow> Inr (Some d)
     | _ \<Rightarrow> raise TypeError (''PostgreSQL '' @ name @ '' must be datetime''))"

text \<open>A null \<open>synced_at_utc\<close> reaches \<open>_utc\<close>, after the first three checks of the constructor.\<close>

definition state_from_row :: "sqlval list \<Rightarrow> gold_sync_state result" where
  "state_from_row row =
    rbind (raise_if (length row \<noteq> 9) ValueError ''PostgreSQL Gold sync state row has unexpected width'') (\<lambda>_.
    rbind (as_text (row ! 0) ''dataset_id'') (\<lambda>ds.
    rbind (as_text (row ! 1) ''source_build_id'') (\<lambda>bid.
    rbind (as_text (row ! 2) ''data_sha256'') (\<lambda>sha.
    rbind (as_int (row ! 3) ''schema_version'') (\<lambda>sv.
    rbind (as_int (row ! 4) ''feature_version'') (\<lambda>fv.
    rbind (as_int (row ! 5) ''row_count'') (\<lambda>n.
    rbind (as_datetime (row ! 6) ''min_timestamp'') (\<lambda>mn.
    rbind (as_datetime (row ! 7) ''max_timestamp'') (\<lambda>mx.
    rbind (as_datetime (row ! 8) ''synced_at_utc'') (\<lambda>synced.
    case synced of
      Some at_utc \<Rightarrow> GoldSyncState ds bid sha sv fv n mn mx at_utc
    | None \<Rightarrow>
        rbind (raise_if (ds \<noteq> POSTGRES_DATASET_ID) ValueError ''unsupported PostgreSQL Gold dataset_id'') (\<lambda>_.
        rbind (raise_if (\<not> is_sha256_hex sha) ValueError
          ''data_sha256 must be 64 lowercase hexadecimal characters'') (\<lambda>_.
        rbind (raise_if (n < 0) ValueError ''row_count cannot be negative'') (\<lambda>_.
        raise AttributeError ''NoneType object has no attribute tzinfo'')))))))))))))"

definition summary_from_row :: "sqlval list \<Rightarrow> gold_target_summary result" where
  "summary_from_row row =
    rbind (raise_if (length row \<noteq> 3) ValueError ''PostgreSQL Gold target summary row has unexpected width'') (\<lambda>_.
    rbind (as_int (row ! 0) ''row_count'') (\<lambda>n.
    rbind (as_datetime (row ! 1) ''min_timestamp'') (\<lambda>mn.
    rbind (as_datetime (row ! 2) ''max_timestamp'') (\<lambda>mx.
    GoldTargetSummary n mn mx))))"

definition feature_from :: "sqlval \<Rightarrow> f64 option result" where
  "feature_from v =
    (case v of SNull \<Rightarrow> Inr None | SFloat x \<Rightarrow> Inr (Some x)
     | _ \<Rightarrow> raise TypeError ''PostgreSQL Gold consumer feature must be float or null'')"

definition payload_from_row :: "sqlval list \<Rightarrow> gold_row_payload result" where
  "payload_from_row row =
    rbind (raise_if (length row \<noteq> length POSTGRES_RAW_COLUMNS) ValueError
      ''PostgreSQL Gold consumer row has unexpected width'') (\<lambda>_.
    rbind (as_datetime (hd row) ''timestamp_m1'') (\<lambda>timestamp.
    case timestamp of
      None \<Rightarrow> raise ValueError ''PostgreSQL Gold consumer timestamp cannot be null''
    | Some t \<Rightarrow> rbind (rmap feature_from (tl row)) (GoldRowPayload t)))"

definition digest_from_row :: "sqlval list \<Rightarrow> gold_row_digest result" where
  "digest_from_row row =
    rbind (raise_if (length row \<noteq> 2) ValueError ''PostgreSQL Gold digest row has unexpected width'') (\<lambda>_.
    rbind (as_datetime (row ! 0) ''timestamp_m1'') (\<lambda>timestamp.
    case timestamp of
      None \<Rightarrow> raise ValueError ''PostgreSQL Gold digest timestamp cannot be null''
    | Some t \<Rightarrow> rbind (as_text (row ! 1) ''row_sha256'') (GoldRowDigest t)))"

definition opt_time :: "datetime option \<Rightarrow> sqlval" where
  "opt_time x = (case x of None \<Rightarrow> SNull | Some d \<Rightarrow> STime d)"

definition opt_float :: "f64 option \<Rightarrow> sqlval" where
  "opt_float x = (case x of None \<Rightarrow> SNull | Some v \<Rightarrow> SFloat v)"

definition state_params :: "gold_sync_state \<Rightarrow> sqlval list" where
  "state_params s =
    [SText (st_dataset_id s), SText (st_source_build_id s), SText (st_data_sha256 s),
     SInt (st_schema_version s), SInt (st_feature_version s), SInt (st_row_count s),
     opt_time (st_min_timestamp s), opt_time (st_max_timestamp s), STime (st_synced_at_utc s)]"

section \<open>Tables and statements\<close>

type_synonym raw_table = "(datetime \<times> f64 option list) list"

record 'v pg_db =
  raw :: "string \<Rightarrow> raw_table"
  row_hashes :: "((string \<times> datetime) \<times> string) list"
  sync_states :: "(string \<times> sqlval list) list"
  features :: 'v

text \<open>\<open>INSERT ... ON CONFLICT (timestamp_m1) DO UPDATE SET ...\<close> and \<open>DELETE ... WHERE timestamp_m1 = %s\<close> of a raw table\<close>

definition upsert_raw :: "string \<Rightarrow> datetime \<Rightarrow> f64 option list \<Rightarrow> 'v pg_db \<Rightarrow> 'v pg_db" where
  "upsert_raw s t vs db = db\<lparr>raw := (raw db)(s := AList.update t vs (raw db s))\<rparr>"

definition delete_raw :: "string \<Rightarrow> datetime \<Rightarrow> 'v pg_db \<Rightarrow> 'v pg_db" where
  "delete_raw s t db = db\<lparr>raw := (raw db)(s := AList.delete t (raw db s))\<rparr>"

definition upsert_digest :: "string \<Rightarrow> datetime \<Rightarrow> string \<Rightarrow> 'v pg_db \<Rightarrow> 'v pg_db" where
  "upsert_digest ds t sha db = db\<lparr>row_hashes := AList.update (ds, t) sha (row_hashes db)\<rparr>"

definition delete_digest :: "string \<Rightarrow> datetime \<Rightarrow> 'v pg_db \<Rightarrow> 'v pg_db" where
  "delete_digest ds t db = db\<lparr>row_hashes := AList.delete (ds, t) (row_hashes db)\<rparr>"

definition upsert_state :: "gold_sync_state \<Rightarrow> 'v pg_db \<Rightarrow> 'v pg_db" where
  "upsert_state s db = db\<lparr>sync_states := AList.update (st_dataset_id s) (state_params s) (sync_states db)\<rparr>"

text \<open>
  The projection of the raw tables to wide rows: the full outer join of all raw tables on the
  timestamp.  The level of an OHLC series is its close.
\<close>

definition series_fields :: "string \<Rightarrow> string list" where
  "series_fields s = (if s \<in> set OHLC_SERIES then OHLC_FIELDS else [''indexvalue''])"

definition raw_cell :: "(string \<Rightarrow> raw_table) \<Rightarrow> datetime \<Rightarrow> string \<Rightarrow> string \<Rightarrow> f64 option" where
  "raw_cell r t s field =
    (case map_of (r s) t of
      None \<Rightarrow> None
    | Some vs \<Rightarrow> (case map_of (zip (series_fields s) vs) field of None \<Rightarrow> None | Some v \<Rightarrow> v))"

definition level_field :: "string \<Rightarrow> string" where
  "level_field s = (if s \<in> set OHLC_SERIES then ''close'' else ''indexvalue'')"

definition projected_values :: "(string \<Rightarrow> raw_table) \<Rightarrow> datetime \<Rightarrow> f64 option list" where
  "projected_values r t =
    map (\<lambda>s. raw_cell r t s (level_field s)) GOLD_SOURCE_SERIES
    @ concat (map (\<lambda>s. map (raw_cell r t s) OHLC_FIELDS) OHLC_SERIES)"

definition raw_timestamps :: "(string \<Rightarrow> raw_table) \<Rightarrow> datetime list" where
  "raw_timestamps r = sort_key dt_num (remdups (concat (map (\<lambda>s. map fst (r s)) GOLD_SOURCE_SERIES)))"

text \<open>The rows with at least one feature, by timestamp: \<open>_CONSUMER_ROWS_SQL\<close> and \<open>_TARGET_SUMMARY_SQL\<close>.\<close>

definition consumer_timestamps :: "(string \<Rightarrow> raw_table) \<Rightarrow> datetime list" where
  "consumer_timestamps r = filter (\<lambda>t. \<not> list_all (\<lambda>v. v = None) (projected_values r t)) (raw_timestamps r)"

definition consumer_rows :: "(string \<Rightarrow> raw_table) \<Rightarrow> sqlval list list" where
  "consumer_rows r = map (\<lambda>t. STime t # map opt_float (projected_values r t)) (consumer_timestamps r)"

definition summary_row :: "(string \<Rightarrow> raw_table) \<Rightarrow> sqlval list" where
  "summary_row r =
    (let ts = consumer_timestamps r in
     [SInt (int (length ts)),
      opt_time (if ts = [] then None else Some (hd ts)), opt_time (if ts = [] then None else Some (last ts))])"

definition digest_rows :: "string \<Rightarrow> 'v pg_db \<Rightarrow> sqlval list list" where
  "digest_rows ds db =
    map (\<lambda>((d, t), sha). [STime t, SText sha])
      (sort_key (\<lambda>p. dt_num (snd (fst p))) (filter (\<lambda>p. fst (fst p) = ds) (row_hashes db)))"

section \<open>Connections\<close>

text \<open>
  The queries of the PostgreSQL catalogs that the schema contract asks; their answers come from the
  database.
\<close>

datatype catalog_query =
    OwnedTables | OwnedColumns | GeneratedAvailability string | OwnedKeys
  | CanSelect string string | CanWrite string string
  | FeatureViewClass | FeatureViewColumns | FeatureViewDefinition | FeatureViewIndex string
  | RetiredViews "string list"

record 'v pg = lake +
  committed :: "'v pg_db"
  working :: "'v pg_db"
  lock_held :: "int option"
  catalog_answer :: "catalog_query \<Rightarrow> sqlval list list"

definition execute :: "('v pg_db \<Rightarrow> 'v pg_db) \<Rightarrow> (('v, 'z) pg_scheme, unit) io" where
  "execute eff = seq fault_point (modify (\<lambda>w. w\<lparr>working := eff (working w)\<rparr>))"

text \<open>A statement that changes no table.\<close>

definition execute_setting :: "string \<Rightarrow> (('v, 'z) pg_scheme, unit) io" where
  "execute_setting statement = fault_point"

definition query :: "('v pg_db \<Rightarrow> 'a) \<Rightarrow> (('v, 'z) pg_scheme, 'a) io" where
  "query f = seq fault_point (gets (\<lambda>w. f (working w)))"

definition catalog_rows :: "catalog_query \<Rightarrow> (('v, 'z) pg_scheme, sqlval list list) io" where
  "catalog_rows q = seq fault_point (gets (\<lambda>w. catalog_answer w q))"

definition advisory_lock :: "int \<Rightarrow> (('v, 'z) pg_scheme, unit) io" where
  "advisory_lock key = seq fault_point (modify (\<lambda>w. w\<lparr>lock_held := Some key\<rparr>))"

definition connect :: "(('v, 'z) pg_scheme, unit) io" where
  "connect = seq fault_point (modify (\<lambda>w. w\<lparr>working := committed w, lock_held := None\<rparr>))"

definition open_cursor :: "(('v, 'z) pg_scheme, unit) io" where
  "open_cursor = fault_point"

definition close_cursor :: "(('v, 'z) pg_scheme, unit) io" where
  "close_cursor = fault_point"

definition commit :: "(('v, 'z) pg_scheme, unit) io" where
  "commit = seq fault_point (seq (modify (\<lambda>w. w\<lparr>committed := working w, lock_held := None\<rparr>)) fault_point)"

definition rollback :: "(('v, 'z) pg_scheme, unit) io" where
  "rollback = seq fault_point (modify (\<lambda>w. w\<lparr>working := committed w, lock_held := None\<rparr>))"

definition close_connection :: "(('v, 'z) pg_scheme, unit) io" where
  "close_connection = seq (modify (\<lambda>w. w\<lparr>working := committed w, lock_held := None\<rparr>)) fault_point"

definition with_cursor :: "(('v, 'z) pg_scheme, 'a) io \<Rightarrow> (('v, 'z) pg_scheme, 'a) io" where
  "with_cursor m = seq open_cursor (try_finally m close_cursor)"

text \<open>
  The SQLSTATE of a database error is its message here.  A lock timeout is \<open>55P03\<close>, a cancelled
  statement \<open>57014\<close>; nothing else of the error is kept.
\<close>

definition sanitized :: "string \<Rightarrow> exn \<Rightarrow> exn" where
  "sanitized operation e =
    (if exc_class e = DatabaseError \<and> exc_message e = ''55P03''
     then Exn PostgresLockContentionError ''PostgreSQL advisory lock wait timed out''
     else if exc_class e = DatabaseError \<and> exc_message e = ''57014''
     then Exn PostgresOperationTimeoutError (''PostgreSQL '' @ operation @ '' timed out'')
     else Exn PostgresGoldRepositoryError (''PostgreSQL '' @ operation @ '' failed''))"

text \<open>What \<open>except PostgresGoldRepositoryError\<close> catches.\<close>

definition is_repository_error :: "exn \<Rightarrow> bool" where
  "is_repository_error e \<longleftrightarrow>
    exc_class e \<in> {PostgresGoldRepositoryError, PostgresOperationTimeoutError, PostgresLockContentionError}"

text \<open>\<open>_open\<close>: a connection whose session settings could not be made is closed again.\<close>

definition open_session :: "string \<Rightarrow> timeout_policy \<Rightarrow> (('v, 'z) pg_scheme, unit) io" where
  "open_session what policy =
    seq (try_except connect is_exception (\<lambda>e. throw (sanitized what e)))
      (try_except (with_cursor (for_each execute_setting (session_configuration policy))) is_exception
        (\<lambda>e. seq close_connection (throw (sanitized what e))))"

end
