(* ===== verification/Pg_Repository.thy ===== *)
theory Pg_Repository
  imports Pg_Store
begin

text \<open>
  \<open>src/ingestion/postgres_gold_repository.py\<close>: the operations of one locked transaction and the
  repository that runs them.  \<open>view\<close> is the query of the materialized view, \<open>sha256\<close> the hexadecimal
  digest.
\<close>

section \<open>The operations of a transaction\<close>

definition require_dataset :: "string \<Rightarrow> unit result" where
  "require_dataset ds =
    raise_if (ds \<noteq> POSTGRES_DATASET_ID) ValueError ''unsupported PostgreSQL Gold dataset_id''"

definition fetch_state :: "string \<Rightarrow> (('v, 'z) pg_scheme, gold_sync_state option) io" where
  "fetch_state ds = bind (query (\<lambda>db. map_of (sync_states db) ds)) (\<lambda>row.
    case row of None \<Rightarrow> ret None | Some r \<Rightarrow> lift (rbind (state_from_row r) (\<lambda>s. Inr (Some s))))"

definition txn_read_state :: "string \<Rightarrow> (('v, 'z) pg_scheme, gold_sync_state option) io" where
  "txn_read_state ds = seq (lift (require_dataset ds)) (fetch_state ds)"

definition txn_read_digests :: "string \<Rightarrow> (('v, 'z) pg_scheme, gold_row_digest list) io" where
  "txn_read_digests ds = seq (lift (require_dataset ds))
    (bind (query (digest_rows ds)) (\<lambda>rows. lift (rmap digest_from_row rows)))"

definition consumer_digest :: "(byte list \<Rightarrow> string) \<Rightarrow> sqlval list \<Rightarrow> gold_row_digest result" where
  "consumer_digest sha256 row =
    rbind (payload_from_row row) (\<lambda>payload.
    rbind (gold_row_sha256 sha256 payload) (GoldRowDigest (pay_timestamp payload)))"

definition txn_read_consumer_digests ::
  "(byte list \<Rightarrow> string) \<Rightarrow> string \<Rightarrow> (('v, 'z) pg_scheme, gold_row_digest list) io" where
  "txn_read_consumer_digests sha256 ds = seq (lift (require_dataset ds))
    (bind (query (\<lambda>db. consumer_rows (raw db))) (\<lambda>rows. lift (rmap (consumer_digest sha256) rows)))"

text \<open>The summary query always returns one row.\<close>

definition txn_summary :: "string \<Rightarrow> (('v, 'z) pg_scheme, gold_target_summary) io" where
  "txn_summary ds = seq (lift (require_dataset ds))
    (bind (query (\<lambda>db. summary_row (raw db))) (\<lambda>row. lift (summary_from_row row)))"

text \<open>The values of a row for one series, in the order of its table.\<close>

definition row_value :: "gold_row_payload \<Rightarrow> string \<Rightarrow> f64 option result" where
  "row_value row column =
    (case map_of (zip (tl POSTGRES_RAW_COLUMNS) (pay_values row)) column of
      None \<Rightarrow> raise KeyError column | Some v \<Rightarrow> Inr v)"

definition source_columns :: "string \<Rightarrow> string list" where
  "source_columns s = (if s \<in> set OHLC_SERIES then map (field_column s) OHLC_FIELDS else [level_column s])"

definition apply_series_row :: "gold_row_payload \<Rightarrow> string \<Rightarrow> (('v, 'z) pg_scheme, unit) io" where
  "apply_series_row row s =
    bind (lift (rmap (row_value row) (source_columns s))) (\<lambda>vs.
    bind (lift (row_value row (level_column s))) (\<lambda>level.
    if s \<in> set OHLC_SERIES \<and> \<not> opt_f64_eq level (last vs)
    then throw (Exn ValueError (''PostgreSQL OHLC source level must equal '' @ s @ ''_close''))
    else if list_all (\<lambda>v. v = None) vs then execute (delete_raw s (pay_timestamp row))
    else execute (upsert_raw s (pay_timestamp row) vs)))"

definition apply_feature_row :: "gold_row_payload \<Rightarrow> (('v, 'z) pg_scheme, unit) io" where
  "apply_feature_row row =
    seq (lift (raise_if (length (pay_values row) \<noteq> length (tl POSTGRES_RAW_COLUMNS)) ValueError
      ''zip() arguments have different lengths''))
    (for_each (apply_series_row row) GOLD_SOURCE_SERIES)"

definition delete_feature_timestamp :: "datetime \<Rightarrow> (('v, 'z) pg_scheme, unit) io" where
  "delete_feature_timestamp t = for_each (\<lambda>s. execute (delete_raw s t)) GOLD_SOURCE_SERIES"

definition refresh_features :: "((string \<Rightarrow> raw_table) \<Rightarrow> 'v) \<Rightarrow> (('v, 'z) pg_scheme, unit) io" where
  "refresh_features view =
    seq (execute_setting (''SET LOCAL statement_timeout = '' @ [CHR 39]
      @ string_of_int POSTGRES_FEATURE_REFRESH_TIMEOUT_MS @ ''ms'' @ [CHR 39]))
    (execute (\<lambda>db. db\<lparr>features := view (raw db)\<rparr>))"

text \<open>Equality of dictionaries with unique keys.\<close>

definition dict_eq :: "('k \<times> 'v) list \<Rightarrow> ('k \<times> 'v) list \<Rightarrow> bool" where
  "dict_eq a b \<longleftrightarrow> length a = length b \<and> list_all (\<lambda>(k, v). map_of b k = Some v) a"

definition source_digest_map :: "gold_row_digest list \<Rightarrow> (datetime \<times> string) list result" where
  "source_digest_map ds = unique_digest_map ''duplicate source Gold digest timestamp'' [] ds"

text \<open>The checks of \<open>apply_delta\<close> before anything is written.\<close>

definition check_delta ::
  "string \<Rightarrow> gold_delta_plan \<Rightarrow> gold_sync_state \<Rightarrow> (datetime \<times> string) list result" where
  "check_delta ds plan state =
    rbind (require_dataset ds) (\<lambda>_.
    rbind (raise_if (st_dataset_id state \<noteq> ds) ValueError
      ''Gold sync state dataset does not match requested dataset'') (\<lambda>_.
    rbind (source_digest_map (dp_source_digests plan)) (\<lambda>digests.
    rbind (rfor (\<lambda>row. raise_if (pay_timestamp row \<notin> set (map fst digests)) ValueError
      ''Gold delta mutation is missing its source row digest'') (dp_inserts plan @ dp_updates plan)) (\<lambda>_.
    Inr digests))))"

definition digest_of :: "(datetime \<times> string) list \<Rightarrow> datetime \<Rightarrow> string result" where
  "digest_of digests t = (case map_of digests t of None \<Rightarrow> raise KeyError ''timestamp_m1'' | Some h \<Rightarrow> Inr h)"

definition write_delta ::
  "string \<Rightarrow> (datetime \<times> string) list \<Rightarrow> gold_delta_plan \<Rightarrow> (('v, 'z) pg_scheme, unit) io" where
  "write_delta ds digests plan =
    seq (for_each apply_feature_row (dp_inserts plan))
    (seq (for_each apply_feature_row (dp_updates plan))
    (seq (for_each delete_feature_timestamp (dp_deletes plan))
    (seq (for_each (\<lambda>row. bind (lift (digest_of digests (pay_timestamp row)))
            (\<lambda>h. execute (upsert_digest ds (pay_timestamp row) h))) (dp_inserts plan @ dp_updates plan))
    (for_each (\<lambda>t. execute (delete_digest ds t)) (dp_deletes plan)))))"

definition changes_rows :: "gold_delta_plan \<Rightarrow> bool" where
  "changes_rows plan \<longleftrightarrow> dp_inserts plan \<noteq> [] \<or> dp_updates plan \<noteq> [] \<or> dp_deletes plan \<noteq> []"

definition expected_summary :: "gold_sync_state \<Rightarrow> gold_target_summary result" where
  "expected_summary state =
    GoldTargetSummary (st_row_count state) (st_min_timestamp state) (st_max_timestamp state)"

definition check_summary :: "gold_sync_state \<Rightarrow> string \<Rightarrow> (('v, 'z) pg_scheme, unit) io" where
  "check_summary state ds =
    bind (lift (expected_summary state)) (\<lambda>expected.
    bind (txn_summary ds) (\<lambda>actual.
    lift (raise_if (actual \<noteq> expected) ValueError
      ''PostgreSQL Gold post-write summary does not match source'')))"

definition check_digests ::
  "(byte list \<Rightarrow> string) \<Rightarrow> gold_delta_plan \<Rightarrow> string \<Rightarrow> (('v, 'z) pg_scheme, unit) io" where
  "check_digests sha256 plan ds =
    bind (txn_read_digests ds) (\<lambda>digests.
    seq (lift (raise_if (\<not> dict_eq (digest_dict digests) (digest_dict (dp_source_digests plan))) ValueError
      ''PostgreSQL Gold post-write digest index does not match source''))
    (bind (txn_read_consumer_digests sha256 ds) (\<lambda>consumer.
    lift (raise_if (\<not> dict_eq (digest_dict consumer) (digest_dict (dp_source_digests plan))) ValueError
      ''PostgreSQL Gold post-write consumer rows do not match source''))))"

text \<open>\<open>_PostgresGoldSyncTransaction.apply_delta\<close>\<close>

definition txn_apply_delta ::
  "((string \<Rightarrow> raw_table) \<Rightarrow> 'v) \<Rightarrow> (byte list \<Rightarrow> string) \<Rightarrow> string \<Rightarrow> gold_delta_plan \<Rightarrow> gold_sync_state \<Rightarrow>
    (('v, 'z) pg_scheme, unit) io" where
  "txn_apply_delta view sha256 ds plan state =
    bind (lift (check_delta ds plan state)) (\<lambda>digests.
    seq (write_delta ds digests plan)
    (seq (if changes_rows plan then refresh_features view else ret ())
    (seq (check_summary state ds)
    (seq (check_digests sha256 plan ds)
    (execute (upsert_state state))))))"

section \<open>The repository\<close>

definition advisory_lock_key :: "(byte list \<Rightarrow> byte list) \<Rightarrow> string \<Rightarrow> int" where
  "advisory_lock_key sha256_raw ds =
    sint (word_of_nat (of_be_bytes (take 8
      (sha256_raw (ascii_bytes (''macro-loader:postgres-gold-sync:v1:'' @ ds))))) :: 64 word)"

definition run_locked ::
  "timeout_policy \<Rightarrow> int \<Rightarrow> (('v, 'z) pg_scheme, 'a) io \<Rightarrow> (('v, 'z) pg_scheme, 'a) io" where
  "run_locked policy key operation =
    seq (open_session ''connection initialization'' policy)
    (try_finally
      (try_except
        (bind (with_cursor (seq (advisory_lock key) operation)) (\<lambda>r. seq commit (ret r)))
        is_exception
        (\<lambda>e. seq rollback
          (throw (Exn PostgresGoldRepositoryError ''PostgreSQL Gold locked transaction failed''))))
      close_connection)"

text \<open>
  A read outside a locked transaction; the fetched rows are converted after the cursor is closed in
  all but \<open>read_consumer_digests\<close>.
\<close>

definition read_session :: "timeout_policy \<Rightarrow> string \<Rightarrow> (('v, 'z) pg_scheme, 'a) io \<Rightarrow> (('v, 'z) pg_scheme, 'a) io" where
  "read_session policy what m =
    seq (open_session ''connection initialization'' policy)
    (try_finally
      (try_except m is_exception (\<lambda>e. throw (if is_repository_error e then e else sanitized what e)))
      close_connection)"

definition repo_read_state :: "timeout_policy \<Rightarrow> string \<Rightarrow> (('v, 'z) pg_scheme, gold_sync_state option) io" where
  "repo_read_state policy ds = seq (lift (require_dataset ds))
    (read_session policy ''Gold sync-state read''
      (bind (with_cursor (query (\<lambda>db. map_of (sync_states db) ds))) (\<lambda>row.
        case row of None \<Rightarrow> ret None | Some r \<Rightarrow> lift (rbind (state_from_row r) (\<lambda>s. Inr (Some s))))))"

definition repo_read_digests :: "timeout_policy \<Rightarrow> string \<Rightarrow> (('v, 'z) pg_scheme, gold_row_digest list) io" where
  "repo_read_digests policy ds = seq (lift (require_dataset ds))
    (read_session policy ''Gold digest read''
      (bind (with_cursor (query (digest_rows ds))) (\<lambda>rows. lift (rmap digest_from_row rows))))"

definition repo_read_consumer_digests ::
  "timeout_policy \<Rightarrow> (byte list \<Rightarrow> string) \<Rightarrow> string \<Rightarrow> (('v, 'z) pg_scheme, gold_row_digest list) io" where
  "repo_read_consumer_digests policy sha256 ds = seq (lift (require_dataset ds))
    (read_session policy ''Gold consumer read'' (with_cursor (txn_read_consumer_digests sha256 ds)))"

definition repo_summary :: "timeout_policy \<Rightarrow> string \<Rightarrow> (('v, 'z) pg_scheme, gold_target_summary) io" where
  "repo_summary policy ds = seq (lift (require_dataset ds))
    (read_session policy ''Gold summary read''
      (bind (with_cursor (query (\<lambda>db. summary_row (raw db)))) (\<lambda>row. lift (summary_from_row row))))"

text \<open>
  \<open>PostgresGoldSyncRepository.apply_delta\<close>: the checks come before the connection, the schema contract
  is asserted under the lock, and the summary is checked before the view is refreshed.
\<close>

definition repo_apply_delta ::
  "(('v, 'z) pg_scheme, unit) io \<Rightarrow> ((string \<Rightarrow> raw_table) \<Rightarrow> 'v) \<Rightarrow> (byte list \<Rightarrow> string) \<Rightarrow> timeout_policy \<Rightarrow> int \<Rightarrow>
    string \<Rightarrow> gold_delta_plan \<Rightarrow> gold_sync_state \<Rightarrow> (('v, 'z) pg_scheme, unit) io" where
  "repo_apply_delta contract view sha256 policy key ds plan state =
    bind (lift (check_delta ds plan state)) (\<lambda>digests.
    seq (open_session ''connection initialization'' policy)
    (try_finally
      (try_except
        (seq (with_cursor
          (seq (advisory_lock key)
          (seq contract
          (seq (write_delta ds digests plan)
          (seq (check_summary state ds)
          (seq (if changes_rows plan then refresh_features view else ret ())
          (seq (check_digests sha256 plan ds)
          (execute (upsert_state state)))))))))
          commit)
        is_exception
        (\<lambda>e. seq rollback (throw (if is_repository_error e then e else sanitized ''Gold delta transaction'' e))))
      close_connection))"

definition repo_preflight :: "(('v, 'z) pg_scheme, unit) io \<Rightarrow> timeout_policy \<Rightarrow> (('v, 'z) pg_scheme, unit) io" where
  "repo_preflight contract policy =
    seq (open_session ''connection initialization'' policy)
    (try_finally
      (try_except
        (seq (with_cursor (seq (execute_setting ''SET TRANSACTION READ ONLY'') contract)) rollback)
        is_exception
        (\<lambda>e. seq rollback (throw (if is_repository_error e then e else sanitized ''Gold schema preflight'' e))))
      close_connection)"


section \<open>What the calls leave unchanged\<close>

lemma preserves_seq_modify:
  "preserves v m \<Longrightarrow> (\<And>w. v (f w) = v w) \<Longrightarrow> preserves v (seq m (modify f))"
  by (intro preserves_seq preserves_modify)

lemma committed_intros [preserves_intros]:
  "preserves committed (execute eff)" "preserves committed (execute_setting s)" "preserves committed (query f)"
  "preserves committed (catalog_rows q)" "preserves committed (advisory_lock key)" "preserves committed connect"
  "preserves committed open_cursor" "preserves committed close_cursor" "preserves committed rollback"
  "preserves committed close_connection" "preserves committed fault_point"
  by (auto simp: execute_def execute_setting_def query_def catalog_rows_def advisory_lock_def connect_def
      open_cursor_def close_cursor_def rollback_def close_connection_def
      intro!: preserves_intros preserves_modify preserves_fault_point)

lemma working_intros [preserves_intros]:
  "preserves working (execute_setting s)" "preserves working (query f)" "preserves working (catalog_rows q)"
  "preserves working (advisory_lock key)" "preserves working open_cursor" "preserves working close_cursor"
  "preserves working fault_point"
  by (auto simp: execute_setting_def query_def catalog_rows_def advisory_lock_def open_cursor_def close_cursor_def
      intro!: preserves_intros preserves_modify preserves_fault_point)

lemma lock_intros [preserves_intros]:
  "preserves lock_held (execute_setting s)" "preserves lock_held (query f)" "preserves lock_held (catalog_rows q)"
  "preserves lock_held (execute eff)" "preserves lock_held open_cursor" "preserves lock_held close_cursor"
  "preserves lock_held fault_point"
  by (auto simp: execute_setting_def query_def catalog_rows_def open_cursor_def close_cursor_def execute_def
      intro!: preserves_intros preserves_modify preserves_fault_point)

lemma files_intros [preserves_intros]:
  "preserves files (execute eff)" "preserves files (execute_setting s)" "preserves files (query f)"
  "preserves files (catalog_rows q)" "preserves files (advisory_lock key)" "preserves files connect"
  "preserves files open_cursor" "preserves files close_cursor" "preserves files rollback"
  "preserves files close_connection" "preserves files commit"
  by (auto simp: execute_def execute_setting_def query_def catalog_rows_def advisory_lock_def connect_def commit_def
      open_cursor_def close_cursor_def rollback_def close_connection_def
      intro!: preserves_intros preserves_modify)

lemma preserves_with_cursor [preserves_intros]:
  "preserves v open_cursor \<Longrightarrow> preserves v close_cursor \<Longrightarrow> preserves v m \<Longrightarrow> preserves v (with_cursor m)"
  by (auto simp: with_cursor_def intro!: preserves_intros)

lemma open_session_committed [preserves_intros]:
  "preserves committed (open_session what policy)" "preserves files (open_session what policy)"
  by (auto simp: open_session_def intro!: preserves_intros)

lemma transaction_reads_committed [preserves_intros]:
  "preserves committed (txn_read_state ds)" "preserves committed (txn_read_digests ds)"
  "preserves committed (txn_read_consumer_digests sha256 ds)" "preserves committed (txn_summary ds)"
  "preserves files (txn_read_state ds)" "preserves files (txn_read_digests ds)"
  "preserves files (txn_read_consumer_digests sha256 ds)" "preserves files (txn_summary ds)"
  by (auto simp: txn_read_state_def fetch_state_def txn_read_digests_def txn_read_consumer_digests_def txn_summary_def
      intro!: preserves_intros)

lemma transaction_reads_working [preserves_intros]:
  "preserves working (txn_read_state ds)" "preserves working (txn_read_digests ds)"
  "preserves working (txn_read_consumer_digests sha256 ds)" "preserves working (txn_summary ds)"
  "preserves working (check_summary state ds)" "preserves working (check_digests sha256 plan ds)"
  by (auto simp: txn_read_state_def fetch_state_def txn_read_digests_def txn_read_consumer_digests_def txn_summary_def
      check_summary_def check_digests_def intro!: preserves_intros)

lemma apply_delta_committed [preserves_intros]:
  "preserves committed (apply_feature_row row)" "preserves committed (delete_feature_timestamp t)"
  "preserves committed (refresh_features view)" "preserves committed (write_delta ds digests plan)"
  "preserves committed (check_summary state ds)" "preserves committed (check_digests sha256 plan ds)"
  "preserves committed (txn_apply_delta view sha256 ds plan state)" "preserves files (txn_apply_delta view sha256 ds plan state)"
  by (auto simp: txn_apply_delta_def write_delta_def apply_feature_row_def apply_series_row_def
      delete_feature_timestamp_def refresh_features_def check_summary_def check_digests_def intro!: preserves_intros)

section \<open>The commit point\<close>

text \<open>
  Whatever a locked operation does and whatever call fails, the committed tables are the ones before,
  or the ones the operation left when it returned; and they are the latter whenever it is reported to
  have returned.
\<close>

lemma connect_working:
  "hoare (\<lambda>w. committed w = D \<and> files w = F) connect (\<lambda>_ w. committed w = D \<and> working w = D \<and> files w = F) (\<lambda>_ w. committed w = D)"
  by (auto simp: hoare_def connect_def fault_point_def io_run split: list.splits option.splits)

lemma close_committed:
  "hoare (\<lambda>w. P (committed w)) close_connection (\<lambda>_ w. P (committed w)) (\<lambda>_ w. P (committed w))"
  by (intro preserves_hoare preserves_intros)

lemma rollback_committed:
  "hoare (\<lambda>w. P (committed w)) rollback (\<lambda>_ w. P (committed w)) (\<lambda>_ w. P (committed w))"
  by (intro preserves_hoare preserves_intros)

lemma open_session_working:
  "hoare (\<lambda>w. committed w = D \<and> files w = F) (open_session what policy) (\<lambda>_ w. committed w = D \<and> working w = D \<and> files w = F) (\<lambda>_ w. committed w = D)"
  unfolding open_session_def
proof (rule hoare_seq)
  show "hoare (\<lambda>w. committed w = D \<and> files w = F) (try_except connect is_exception (\<lambda>e. throw (sanitized what e)))
      (\<lambda>_ w. committed w = D \<and> working w = D \<and> files w = F) (\<lambda>_ w. committed w = D)"
    by (rule hoare_try_except [OF connect_working]) (auto intro: hoare_throw)
  have cfg: "hoare (\<lambda>w. committed w = D \<and> working w = D \<and> files w = F) (with_cursor (for_each execute_setting (session_configuration policy)))
      (\<lambda>_ w. committed w = D \<and> working w = D \<and> files w = F) (\<lambda>_ w. committed w = D \<and> working w = D \<and> files w = F)"
    by (intro preserves_keeps3 preserves_intros)
  show "hoare (\<lambda>w. committed w = D \<and> working w = D \<and> files w = F)
      (try_except (with_cursor (for_each execute_setting (session_configuration policy))) is_exception
        (\<lambda>e. seq close_connection (throw (sanitized what e))))
      (\<lambda>_ w. committed w = D \<and> working w = D \<and> files w = F) (\<lambda>_ w. committed w = D)"
  proof (rule hoare_try_except [OF cfg])
    show "hoare (\<lambda>w. committed w = D \<and> working w = D \<and> files w = F) (seq close_connection (throw (sanitized what e)))
        (\<lambda>_ w. committed w = D \<and> working w = D \<and> files w = F) (\<lambda>_ w. committed w = D)" for e
      by (rule hoare_seq [where R = "\<lambda>w. committed w = D"])
        (auto intro: hoare_throw hoare_pre [OF close_committed [of "\<lambda>d. d = D"]])
  qed auto
qed

lemma commit_point:
  "hoare (\<lambda>w. committed w = D \<and> Q (working w)) commit (\<lambda>_ w. Q (committed w)) (\<lambda>_ w. committed w = D \<or> Q (committed w))"
  by (auto simp: hoare_def commit_def fault_point_def io_run split: list.splits option.splits)

lemma with_cursor_rule:
  assumes "hoare (\<lambda>w. committed w = D \<and> working w = D \<and> files w = F) m (\<lambda>x w. committed w = D \<and> Q x (working w)) (\<lambda>_ w. committed w = D)"
  shows "hoare (\<lambda>w. committed w = D \<and> working w = D \<and> files w = F) (with_cursor m)
    (\<lambda>x w. committed w = D \<and> Q x (working w)) (\<lambda>_ w. committed w = D)"
  unfolding with_cursor_def
proof (rule hoare_seq)
  show "hoare (\<lambda>w. committed w = D \<and> working w = D \<and> files w = F) open_cursor (\<lambda>_ w. committed w = D \<and> working w = D \<and> files w = F) (\<lambda>_ w. committed w = D)"
    by (rule hoare_conseq [OF preserves_keeps3 [OF committed_intros(7) working_intros(5) files_intros(7), of "\<lambda>c k fs. c = D \<and> k = D \<and> fs = F"]]) auto
  show "hoare (\<lambda>w. committed w = D \<and> working w = D \<and> files w = F) (try_finally m close_cursor)
      (\<lambda>x w. committed w = D \<and> Q x (working w)) (\<lambda>_ w. committed w = D)"
  proof (rule hoare_try_finally [OF assms])
    show "hoare (\<lambda>w. committed w = D \<and> Q x (working w)) close_cursor (\<lambda>_ w. committed w = D \<and> Q x (working w)) (\<lambda>_ w. committed w = D)" for x
      by (rule hoare_conseq [OF preserves_keeps2 [OF committed_intros(8) working_intros(6), of "\<lambda>c k. c = D \<and> Q x k"]]) auto
    show "hoare (\<lambda>w. committed w = D) close_cursor (\<lambda>_ w. committed w = D) (\<lambda>_ w. committed w = D)" for e :: exn
      by (rule preserves_hoare [OF committed_intros(8)])
  qed
qed

text \<open>The shape shared by the transactions: commit what \<open>m\<close> did, or roll back and raise.\<close>

lemma transaction_rule:
  assumes "hoare (\<lambda>w. committed w = D \<and> working w = D \<and> files w = F) m (\<lambda>x w. committed w = D \<and> Q x (working w)) (\<lambda>_ w. committed w = D)"
  shows "hoare (\<lambda>w. committed w = D \<and> files w = F)
    (seq (open_session what policy)
      (try_finally
        (try_except (bind (with_cursor m) (\<lambda>r. seq commit (ret r))) is_exception (\<lambda>e. seq rollback (throw (g e))))
        close_connection))
    (\<lambda>x w. Q x (committed w)) (\<lambda>_ w. committed w = D \<or> (\<exists>x. Q x (committed w)))"
    (is "hoare _ _ _ (\<lambda>_. ?E)")
proof (rule hoare_seq)
  show "hoare (\<lambda>w. committed w = D \<and> files w = F) (open_session what policy) (\<lambda>_ w. committed w = D \<and> working w = D \<and> files w = F) (\<lambda>_. ?E)"
    by (rule hoare_conseq [OF open_session_working]) auto
  have body: "hoare (\<lambda>w. committed w = D \<and> working w = D \<and> files w = F) (bind (with_cursor m) (\<lambda>r. seq commit (ret r)))
      (\<lambda>x w. Q x (committed w)) (\<lambda>_. ?E)"
  proof (rule hoare_bind)
    show "hoare (\<lambda>w. committed w = D \<and> working w = D \<and> files w = F) (with_cursor m) (\<lambda>x w. committed w = D \<and> Q x (working w)) (\<lambda>_. ?E)"
      by (rule hoare_conseq [OF with_cursor_rule [OF assms]]) auto
    show "hoare (\<lambda>w. committed w = D \<and> Q x (working w)) (seq commit (ret x)) (\<lambda>x w. Q x (committed w)) (\<lambda>_. ?E)" for x
      by (rule hoare_seq [where R = "\<lambda>w. Q x (committed w)"])
        (auto intro: hoare_conseq [OF commit_point] hoare_ret)
  qed
  have undo: "hoare ?E (seq rollback (throw (g e))) (\<lambda>x w. Q x (committed w)) (\<lambda>_. ?E)" for e
    by (rule hoare_seq [where R = ?E])
      (auto intro: hoare_conseq [OF rollback_committed [of "\<lambda>c. c = D \<or> (\<exists>x. Q x c)"]] hoare_throw)
  have tried: "hoare (\<lambda>w. committed w = D \<and> working w = D \<and> files w = F)
      (try_except (bind (with_cursor m) (\<lambda>r. seq commit (ret r))) is_exception (\<lambda>e. seq rollback (throw (g e))))
      (\<lambda>x w. Q x (committed w)) (\<lambda>_. ?E)"
    by (rule hoare_try_except [OF body undo]) auto
  show "hoare (\<lambda>w. committed w = D \<and> working w = D \<and> files w = F)
      (try_finally
        (try_except (bind (with_cursor m) (\<lambda>r. seq commit (ret r))) is_exception (\<lambda>e. seq rollback (throw (g e))))
        close_connection)
      (\<lambda>x w. Q x (committed w)) (\<lambda>_. ?E)"
  proof (rule hoare_try_finally [OF tried])
    show "hoare (\<lambda>w. Q x (committed w)) close_connection (\<lambda>_ w. Q x (committed w)) (\<lambda>_. ?E)" for x
      by (rule hoare_conseq [OF close_committed [of "Q x"]]) auto
    show "hoare ?E close_connection (\<lambda>_. ?E) (\<lambda>_. ?E)" for e :: exn
      by (rule close_committed)
  qed
qed

lemma lock_step:
  assumes "hoare (\<lambda>w. committed w = D \<and> working w = D \<and> files w = F \<and> lock_held w = Some key) m
    (\<lambda>x w. committed w = D \<and> Q x (working w)) (\<lambda>_ w. committed w = D)"
  shows "hoare (\<lambda>w. committed w = D \<and> working w = D \<and> files w = F) (seq (advisory_lock key) m)
    (\<lambda>x w. committed w = D \<and> Q x (working w)) (\<lambda>_ w. committed w = D)"
  by (rule hoare_seq [OF _ assms])
    (auto simp: hoare_def advisory_lock_def fault_point_def io_run split: list.splits option.splits)

lemma run_locked_rule:
  assumes "hoare (\<lambda>w. committed w = D \<and> working w = D \<and> files w = F \<and> lock_held w = Some key) operation
    (\<lambda>x w. committed w = D \<and> Q x (working w)) (\<lambda>_ w. committed w = D)"
  shows "hoare (\<lambda>w. committed w = D \<and> files w = F) (run_locked policy key operation)
    (\<lambda>x w. Q x (committed w)) (\<lambda>_ w. committed w = D \<or> (\<exists>x. Q x (committed w)))"
  unfolding run_locked_def by (rule transaction_rule) (rule lock_step [OF assms])

end
