(* ===== verification/Pg_Verified.thy ===== *)
theory Pg_Verified
  imports Pg_Repository
begin

text \<open>
  What a committed synchronization guarantees: the checks that \<open>apply_delta\<close> makes after writing hold of
  the tables it commits, so the served rows, the digest index, the summary and the checkpoint agree.
\<close>

section \<open>Runs of single calls\<close>

lemma query_InrD: "query f w = (Inr x, w') \<Longrightarrow> x = f (working w) \<and> working w' = working w"
  by (auto simp: query_def seq_def bind_def gets_def fault_point_def split: list.splits option.splits)

lemma execute_InrD: "execute eff w = (Inr u, w') \<Longrightarrow> working w' = eff (working w) \<and> committed w' = committed w"
  by (auto simp: execute_def seq_def bind_def modify_def fault_point_def split: list.splits option.splits)

lemma lift_Inr: "lift r w = (Inr x, w') \<longleftrightarrow> r = Inr x \<and> w' = w"
  by (auto simp: lift_def)

lemma txn_summary_InrD:
  "txn_summary ds w = (Inr s, w') \<Longrightarrow> summary_from_row (summary_row (raw (working w))) = Inr s \<and> working w' = working w"
  by (auto simp: txn_summary_def seq_eq_Inr bind_eq_Inr lift_Inr dest!: query_InrD)

lemma txn_read_digests_InrD:
  "txn_read_digests ds w = (Inr d, w') \<Longrightarrow>
    ds = POSTGRES_DATASET_ID \<and> rmap digest_from_row (digest_rows ds (working w)) = Inr d \<and> working w' = working w"
  by (auto simp: txn_read_digests_def seq_eq_Inr bind_eq_Inr lift_Inr require_dataset_def dest!: query_InrD)

lemma txn_read_consumer_digests_InrD:
  "txn_read_consumer_digests sha256 ds w = (Inr d, w') \<Longrightarrow>
    rmap (consumer_digest sha256) (consumer_rows (raw (working w))) = Inr d \<and> working w' = working w"
  by (auto simp: txn_read_consumer_digests_def seq_eq_Inr bind_eq_Inr lift_Inr dest!: query_InrD)

lemma txn_read_state_InrD:
  "txn_read_state ds w = (Inr s, w') \<Longrightarrow> working w' = working w
    \<and> (case map_of (sync_states (working w)) ds of
        None \<Rightarrow> s = None | Some row \<Rightarrow> (\<exists>x. state_from_row row = Inr x \<and> s = Some x))"
  by (auto simp: txn_read_state_def fetch_state_def seq_eq_Inr bind_eq_Inr lift_Inr rbind_Inr ret_def
      split: option.splits dest!: query_InrD)

section \<open>Verified tables\<close>

definition index_agrees :: "gold_row_digest list result \<Rightarrow> gold_row_digest list \<Rightarrow> bool" where
  "index_agrees r source \<longleftrightarrow> (\<exists>ds. r = Inr ds \<and> dict_eq (digest_dict ds) (digest_dict source))"

definition verified ::
  "((string \<Rightarrow> raw_table) \<Rightarrow> 'v) \<Rightarrow> (byte list \<Rightarrow> string) \<Rightarrow> gold_delta_plan \<Rightarrow> gold_sync_state \<Rightarrow> 'v pg_db \<Rightarrow> bool"
where
  "verified view sha256 plan state db \<longleftrightarrow>
    map_of (sync_states db) POSTGRES_DATASET_ID = Some (state_params state)
    \<and> index_agrees (rmap digest_from_row (digest_rows POSTGRES_DATASET_ID db)) (dp_source_digests plan)
    \<and> index_agrees (rmap (consumer_digest sha256) (consumer_rows (raw db))) (dp_source_digests plan)
    \<and> (\<exists>s. summary_from_row (summary_row (raw db)) = Inr s \<and> expected_summary state = Inr s)
    \<and> (changes_rows plan \<longrightarrow> features db = view (raw db))"

lemma check_summary_InrD:
  "check_summary state ds w = (Inr u, w') \<Longrightarrow> working w' = working w
    \<and> (\<exists>s. summary_from_row (summary_row (raw (working w))) = Inr s \<and> expected_summary state = Inr s)"
  by (auto simp: check_summary_def bind_eq_Inr lift_Inr dest!: txn_summary_InrD)

lemma check_digests_InrD:
  "check_digests sha256 plan ds w = (Inr u, w') \<Longrightarrow> working w' = working w \<and> ds = POSTGRES_DATASET_ID
    \<and> index_agrees (rmap digest_from_row (digest_rows ds (working w))) (dp_source_digests plan)
    \<and> index_agrees (rmap (consumer_digest sha256) (consumer_rows (raw (working w)))) (dp_source_digests plan)"
  by (auto simp: check_digests_def bind_eq_Inr seq_eq_Inr lift_Inr index_agrees_def
      dest!: txn_read_digests_InrD txn_read_consumer_digests_InrD)

lemma refresh_InrD:
  "refresh_features view w = (Inr u, w') \<Longrightarrow>
    raw (working w') = raw (working w) \<and> features (working w') = view (raw (working w))"
proof -
  assume "refresh_features view w = (Inr u, w')"
  then obtain v w1 where "execute_setting (''SET LOCAL statement_timeout = '' @ [CHR 39]
      @ string_of_int POSTGRES_FEATURE_REFRESH_TIMEOUT_MS @ ''ms'' @ [CHR 39]) w = (Inr v, w1)"
    "execute (\<lambda>db. db\<lparr>features := view (raw db)\<rparr>) w1 = (Inr u, w')"
    by (auto simp: refresh_features_def seq_eq_Inr)
  moreover have "working w1 = working w"
    by (rule preservesD [OF working_intros(1) calculation(1)])
  ultimately show ?thesis
    using execute_InrD [of _ w1] by fastforce
qed

lemma apply_delta_verified:
  "hoare (\<lambda>w. committed w = D) (txn_apply_delta view sha256 ds plan state)
    (\<lambda>_ w. committed w = D \<and> verified view sha256 plan state (working w)) (\<lambda>_ w. committed w = D)"
proof (rule hoareI)
  fix w x w'
  assume D: "committed w = D" and run: "txn_apply_delta view sha256 ds plan state w = (Inr x, w')"
  obtain digests v1 w1 w2 v2 w3 w4 v3 w5 where
    digests: "check_delta ds plan state = Inr digests"
    and w1: "write_delta ds digests plan w = (Inr v1, w1)"
    and w2: "(if changes_rows plan then refresh_features view else ret ()) w1 = (Inr v2, w2)"
    and w3: "check_summary state ds w2 = (Inr v3, w3)"
    and w4: "check_digests sha256 plan ds w3 = (Inr x, w4)"
    and w5: "execute (upsert_state state) w4 = (Inr x, w')"
    using run by (auto simp: txn_apply_delta_def bind_eq_Inr seq_eq_Inr lift_Inr)
  have ds: "ds = POSTGRES_DATASET_ID" "st_dataset_id state = POSTGRES_DATASET_ID"
    using digests by (auto simp: check_delta_def rbind_Inr require_dataset_def)
  have "changes_rows plan \<longrightarrow> features (working w2) = view (raw (working w2))"
    using w2 refresh_InrD [of view w1 v2 w2] by auto
  then have "verified view sha256 plan state (upsert_state state (working w4))"
    using check_summary_InrD [OF w3] check_digests_InrD [OF w4] ds
    unfolding verified_def by (simp add: upsert_state_def digest_rows_def update_conv')
  then show "committed w' = D \<and> verified view sha256 plan state (working w')"
    using execute_InrD [OF w5] preservesD [OF apply_delta_committed(7) run] D by simp
next
  fix w e w'
  assume "committed w = D" "txn_apply_delta view sha256 ds plan state w = (Inl e, w')"
  then show "committed w' = D"
    using preservesD [OF apply_delta_committed(7)] by fastforce
qed

end
