(* ===== verification/Pg_Apply.thy ===== *)
theory Pg_Apply
  imports Pg_Verified
begin

text \<open>
  Applying a delta to healthy tables: when no call fails, the writes make the tables hold exactly the
  source rows, so the checks after the writes pass and the synchronization returns.  Two abstractions
  of the tables carry the proofs: \<open>projected_values\<close>, the wide row of a timestamp, and the digest index.
\<close>

section \<open>Runs without failures\<close>

definition quiet :: "(('v, 'z) pg_scheme, unit) io \<Rightarrow> ('v pg_db \<Rightarrow> 'v pg_db) \<Rightarrow> bool" where
  "quiet m f \<longleftrightarrow> (\<forall>w. faults w = [] \<longrightarrow> m w = (Inr (), w\<lparr>working := f (working w)\<rparr>))"

lemma quietD: "quiet m f \<Longrightarrow> faults w = [] \<Longrightarrow> m w = (Inr (), w\<lparr>working := f (working w)\<rparr>)"
  by (simp add: quiet_def)

lemma quiet_execute: "quiet (execute f) f"
  by (simp add: quiet_def execute_def seq_def bind_def fault_point_quiet modify_def)

lemma quiet_setting: "quiet (execute_setting s) (\<lambda>db. db)"
  by (simp add: quiet_def execute_setting_def fault_point_quiet)

lemma quiet_ret: "quiet (ret ()) (\<lambda>db. db)"
  by (simp add: quiet_def ret_def)

lemma quiet_seq: "quiet m f \<Longrightarrow> quiet n g \<Longrightarrow> quiet (seq m n) (\<lambda>db. g (f db))"
  by (simp add: quiet_def seq_def bind_def)

lemma quiet_lift: "r = Inr x \<Longrightarrow> quiet (k x) f \<Longrightarrow> quiet (bind (lift r) k) f"
  by (simp add: quiet_def)

lemma quiet_lift_seq: "r = Inr () \<Longrightarrow> quiet n f \<Longrightarrow> quiet (seq (lift r) n) f"
  unfolding seq_def by (rule quiet_lift)

lemma quiet_for_each:
  "(\<And>x. x \<in> set xs \<Longrightarrow> quiet (m x) (f x)) \<Longrightarrow> quiet (for_each m xs) (fold f xs)"
proof (induction xs)
  case Nil
  then show ?case
    using quiet_ret by (simp add: id_def)
next
  case (Cons x xs)
  then show ?case
    using quiet_seq [of "m x" "f x" "for_each m xs" "fold f xs"] by (simp add: comp_def)
qed

lemma query_quiet: "faults w = [] \<Longrightarrow> query f w = (Inr (f (working w)), w)"
  by (simp add: query_def seq_def bind_def fault_point_quiet gets_def)

section \<open>Raw tables as functions of the timestamp\<close>

definition raw_ok :: "(string \<Rightarrow> raw_table) \<Rightarrow> bool" where
  "raw_ok r \<longleftrightarrow> (\<forall>s \<in> set GOLD_SOURCE_SERIES. distinct (map fst (r s)) \<and> list_all (\<lambda>p. is_utc (fst p)) (r s))"

text \<open>The tables hold for \<open>t\<close> what the row holds: its values for each series, no line where all are null.\<close>

definition row_cells :: "gold_row_payload \<Rightarrow> string \<Rightarrow> f64 option" where
  "row_cells row c = the (map_of (zip (tl POSTGRES_RAW_COLUMNS) (pay_values row)) c)"

definition series_line :: "gold_row_payload \<Rightarrow> string \<Rightarrow> f64 option list" where
  "series_line row s = map (row_cells row) (source_columns s)"

definition series_effect :: "gold_row_payload \<Rightarrow> string \<Rightarrow> 'v pg_db \<Rightarrow> 'v pg_db" where
  "series_effect row s =
    (if list_all (\<lambda>v. v = None) (series_line row s) then delete_raw s (pay_timestamp row)
     else upsert_raw s (pay_timestamp row) (series_line row s))"

definition row_effect :: "gold_row_payload \<Rightarrow> 'v pg_db \<Rightarrow> 'v pg_db" where
  "row_effect row = fold (series_effect row) GOLD_SOURCE_SERIES"

text \<open>A row the tables can represent: 49 values, and the level of an OHLC series is its close.\<close>

definition row_fits_tables :: "gold_row_payload \<Rightarrow> bool" where
  "row_fits_tables row \<longleftrightarrow> is_utc (pay_timestamp row) \<and> length (pay_values row) = 49
    \<and> list_all (opt_all f64_finite) (pay_values row)
    \<and> (\<forall>s \<in> set OHLC_SERIES. row_cells row (level_column s) = row_cells row (field_column s ''close''))"

lemma row_value_ok:
  assumes "length (pay_values row) = 49" "c \<in> set (tl POSTGRES_RAW_COLUMNS)"
  shows "row_value row c = Inr (row_cells row c)"
proof -
  have "length (tl POSTGRES_RAW_COLUMNS) = length (pay_values row)"
    using assms(1) by (simp add: POSTGRES_RAW_COLUMNS_def gold_columns_length)
  then have "map_of (zip (tl POSTGRES_RAW_COLUMNS) (pay_values row)) c \<noteq> None"
    using assms(2) by (simp add: map_of_zip_is_None)
  then show ?thesis
    by (auto simp: row_value_def row_cells_def)
qed

lemma pay_values_cells:
  assumes "length (pay_values row) = 49"
  shows "pay_values row = map (row_cells row) (tl POSTGRES_RAW_COLUMNS)"
proof -
  have len: "length (tl POSTGRES_RAW_COLUMNS) = length (pay_values row)"
    using assms by (simp add: POSTGRES_RAW_COLUMNS_def gold_columns_length)
  have dist: "distinct (tl POSTGRES_RAW_COLUMNS)"
    unfolding POSTGRES_RAW_COLUMNS_def by (rule distinct_tl) (rule gold_columns_distinct)
  show ?thesis
  proof (rule nth_equalityI)
    fix i
    assume i: "i < length (pay_values row)"
    then have "map_of (zip (tl POSTGRES_RAW_COLUMNS) (pay_values row)) (tl POSTGRES_RAW_COLUMNS ! i) = Some (pay_values row ! i)"
      by (intro map_of_zip_nth [OF len dist])
    then show "pay_values row ! i = map (row_cells row) (tl POSTGRES_RAW_COLUMNS) ! i"
      using len i by (simp only: row_cells_def nth_map option.sel)
  qed (use len in simp)
qed

lemma columns_of_series:
  assumes "s \<in> set GOLD_SOURCE_SERIES"
  shows "set (source_columns s) \<subseteq> set (tl POSTGRES_RAW_COLUMNS)" "level_column s \<in> set (tl POSTGRES_RAW_COLUMNS)"
  using assms by (auto simp: source_columns_def POSTGRES_RAW_COLUMNS_def GOLD_COLUMNS_def)

lemma cells_finite:
  assumes "row_fits_tables row" "c \<in> set (tl POSTGRES_RAW_COLUMNS)"
  shows "opt_all f64_finite (row_cells row c)"
  using assms pay_values_cells [of row] by (metis (no_types, lifting) imageI list.set_map list_all_iff row_fits_tables_def)

lemma apply_series_row_quiet:
  assumes row: "row_fits_tables row" and s: "s \<in> set GOLD_SOURCE_SERIES"
  shows "quiet (apply_series_row row s) (series_effect row s)"
proof -
  have len: "length (pay_values row) = 49"
    using row by (simp add: row_fits_tables_def)
  have vs: "rmap (row_value row) (source_columns s) = Inr (series_line row s)"
    unfolding series_line_def using columns_of_series(1) [OF s] row_value_ok [OF len] by (intro rmap_all_Inr) blast
  have level: "row_value row (level_column s) = Inr (row_cells row (level_column s))"
    by (rule row_value_ok [OF len columns_of_series(2) [OF s]])
  have close: "\<not> (s \<in> set OHLC_SERIES \<and> \<not> opt_f64_eq (row_cells row (level_column s)) (last (series_line row s)))"
  proof -
    have "opt_f64_eq v v" if "opt_all f64_finite v" for v
      using that f64_eq_refl by (cases v) auto
    then have "opt_f64_eq (row_cells row (level_column s)) (row_cells row (level_column s))"
      using cells_finite [OF row columns_of_series(2) [OF s]] by blast
    then show ?thesis
      using row by (auto simp: series_line_def source_columns_def row_fits_tables_def OHLC_FIELDS_def)
  qed
  have "quiet (if list_all (\<lambda>v. v = None) (series_line row s) then execute (delete_raw s (pay_timestamp row))
      else execute (upsert_raw s (pay_timestamp row) (series_line row s))) (series_effect row s)"
    by (simp add: series_effect_def quiet_execute)
  then show ?thesis
    unfolding apply_series_row_def by (intro quiet_lift [OF vs] quiet_lift [OF level]) (simp only: close if_False)
qed

lemma apply_feature_row_quiet:
  assumes "row_fits_tables row"
  shows "quiet (apply_feature_row row) (row_effect row)"
  unfolding apply_feature_row_def row_effect_def
proof (rule quiet_lift_seq)
  show "raise_if (length (pay_values row) \<noteq> length (tl POSTGRES_RAW_COLUMNS)) ValueError
      ''zip() arguments have different lengths'' = Inr ()"
    using assms by (simp add: row_fits_tables_def POSTGRES_RAW_COLUMNS_def gold_columns_length)
qed (intro quiet_for_each apply_series_row_quiet [OF assms])

definition timestamp_effect :: "datetime \<Rightarrow> 'v pg_db \<Rightarrow> 'v pg_db" where
  "timestamp_effect t = fold (\<lambda>s. delete_raw s t) GOLD_SOURCE_SERIES"

lemma delete_timestamp_quiet: "quiet (delete_feature_timestamp t) (timestamp_effect t)"
  unfolding delete_feature_timestamp_def timestamp_effect_def by (intro quiet_for_each quiet_execute)

text \<open>Both effects change one timestamp of every table and nothing else.\<close>

definition raw_at :: "(string \<Rightarrow> raw_table) \<Rightarrow> datetime \<Rightarrow> string \<Rightarrow> f64 option list option" where
  "raw_at r t s = map_of (r s) t"

definition sets_timestamp :: "datetime \<Rightarrow> (string \<Rightarrow> f64 option list option) \<Rightarrow> ('v pg_db \<Rightarrow> 'v pg_db) \<Rightarrow> bool" where
  "sets_timestamp t line f \<longleftrightarrow> (\<forall>db. (raw_ok (raw db) \<longrightarrow> raw_ok (raw (f db)))
    \<and> (\<forall>s \<in> set GOLD_SOURCE_SERIES. raw_at (raw (f db)) t s = line s)
    \<and> (\<forall>s \<in> set GOLD_SOURCE_SERIES. \<forall>u. u \<noteq> t \<longrightarrow> raw_at (raw (f db)) u s = raw_at (raw db) u s)
    \<and> row_hashes (f db) = row_hashes db \<and> sync_states (f db) = sync_states db \<and> features (f db) = features db)"

lemma delete_line: "map_of (AList.delete t (r :: raw_table)) u = (if u = t then None else map_of r u)"
  by (simp add: delete_conv')

lemma update_line: "map_of (AList.update t vs (r :: raw_table)) u = (if u = t then Some vs else map_of r u)"
  by (simp add: update_conv')

lemma table_keys:
  assumes "distinct (map fst (r :: raw_table))" "list_all (\<lambda>p. is_utc (fst p)) r"
  shows "distinct (map fst (AList.delete t r))" "list_all (\<lambda>p. is_utc (fst p)) (AList.delete t r)"
    "distinct (map fst (AList.update t vs r))" "is_utc t \<Longrightarrow> list_all (\<lambda>p. is_utc (fst p)) (AList.update t vs r)"
proof -
  show "distinct (map fst (AList.delete t r))"
    using assms(1) by (rule distinct_delete)
  show "list_all (\<lambda>p. is_utc (fst p)) (AList.delete t r)"
    using assms(2) by (auto simp: AList.delete_eq list_all_iff)
  show "distinct (map fst (AList.update t vs r))"
    using assms(1) by (rule distinct_update)
  show "list_all (\<lambda>p. is_utc (fst p)) (AList.update t vs r)" if "is_utc t"
    using assms(2) that by (induction r) auto
qed

lemma fold_series:
  fixes eff :: "string \<Rightarrow> raw_table \<Rightarrow> raw_table"
  assumes "distinct ss" "\<And>s db. s \<in> set ss \<Longrightarrow> f s db = db\<lparr>raw := (raw db)(s := eff s (raw db s))\<rparr>"
  shows "fold f ss db = db\<lparr>raw := (\<lambda>s. if s \<in> set ss then eff s (raw db s) else raw db s)\<rparr>"
  using assms
proof (induction ss arbitrary: db)
  case (Cons s ss)
  have "fold f (s # ss) db = fold f ss (f s db)"
    by simp
  also have "f s db = db\<lparr>raw := (raw db)(s := eff s (raw db s))\<rparr>"
    by (rule Cons.prems(2)) simp
  also have "fold f ss (db\<lparr>raw := (raw db)(s := eff s (raw db s))\<rparr>)
      = db\<lparr>raw := (\<lambda>u. if u \<in> set ss then eff u (((raw db)(s := eff s (raw db s))) u) else ((raw db)(s := eff s (raw db s))) u)\<rparr>"
    using Cons.prems(1) by (subst Cons.IH) (simp_all add: Cons.prems(2) cong: if_cong del: fun_upd_apply)
  also have "\<dots> = db\<lparr>raw := (\<lambda>u. if u \<in> set (s # ss) then eff u (raw db u) else raw db u)\<rparr>"
    using Cons.prems(1) by (intro arg_cong [where f = "\<lambda>r. db\<lparr>raw := r\<rparr>"]) (auto simp: fun_eq_iff)
  finally show ?case .
qed simp

lemma row_effect_sets:
  assumes "row_fits_tables row"
  shows "sets_timestamp (pay_timestamp row)
    (\<lambda>s. if list_all (\<lambda>v. v = None) (series_line row s) then None else Some (series_line row s))
    (row_effect row :: 'v pg_db \<Rightarrow> 'v pg_db)"
proof -
  let ?eff = "\<lambda>s r. if list_all (\<lambda>v. v = None) (series_line row s) then AList.delete (pay_timestamp row) r
    else AList.update (pay_timestamp row) (series_line row s) r"
  have "row_effect row db = db\<lparr>raw := (\<lambda>s. if s \<in> set GOLD_SOURCE_SERIES then ?eff s (raw db s) else raw db s)\<rparr>" for db :: "'v pg_db"
    unfolding row_effect_def by (rule fold_series [OF source_series_distinct])
      (simp add: series_effect_def delete_raw_def upsert_raw_def)
  then show ?thesis
    using assms table_keys
    by (auto simp: sets_timestamp_def raw_at_def delete_line update_line raw_ok_def row_fits_tables_def)
qed

lemma timestamp_effect_sets: "sets_timestamp t (\<lambda>s. None) (timestamp_effect t :: 'v pg_db \<Rightarrow> 'v pg_db)"
proof -
  have "timestamp_effect t db
      = db\<lparr>raw := (\<lambda>s. if s \<in> set GOLD_SOURCE_SERIES then AList.delete t (raw db s) else raw db s)\<rparr>" for db :: "'v pg_db"
    unfolding timestamp_effect_def by (rule fold_series [OF source_series_distinct]) (simp add: delete_raw_def)
  then show ?thesis
    using table_keys by (simp add: sets_timestamp_def raw_at_def delete_line raw_ok_def)
qed

section \<open>The wide rows\<close>

definition all_null :: "f64 option list" where
  "all_null = replicate 49 None"

lemma projected_cong:
  assumes "\<And>s. s \<in> set GOLD_SOURCE_SERIES \<Longrightarrow> raw_at r t s = raw_at q u s"
  shows "projected_values r t = projected_values q u"
proof -
  have "raw_cell r t s = raw_cell q u s" if "s \<in> set GOLD_SOURCE_SERIES" for s
    using assms [OF that] by (auto simp: raw_cell_def raw_at_def fun_eq_iff)
  then show ?thesis
    using ohlc_in_source by (auto simp: projected_values_def intro!: arg_cong [where f = concat])
qed

lemma projected_none:
  assumes "\<And>s. s \<in> set GOLD_SOURCE_SERIES \<Longrightarrow> raw_at r t s = None"
  shows "projected_values r t = all_null"
proof -
  have cell: "raw_cell r t s = (\<lambda>_. None)" if "s \<in> set GOLD_SOURCE_SERIES" for s
    using assms [OF that] by (auto simp: raw_cell_def raw_at_def)
  have "projected_values r t = map (\<lambda>_. None) GOLD_SOURCE_SERIES @ concat (map (\<lambda>s. map (\<lambda>_. None) OHLC_FIELDS) OHLC_SERIES)"
    unfolding projected_values_def using cell ohlc_in_source
    by (auto intro!: arg_cong2 [where f = append] arg_cong [where f = concat])
  then show ?thesis
    by (simp add: all_null_def source_series ohlc_series_eq OHLC_FIELDS_def numeral_eq_Suc)
qed

lemma projected_row:
  assumes row: "row_fits_tables row"
    and at: "\<And>s. s \<in> set GOLD_SOURCE_SERIES \<Longrightarrow> raw_at r (pay_timestamp row) s =
      (if list_all (\<lambda>v. v = None) (series_line row s) then None else Some (series_line row s))"
  shows "projected_values r (pay_timestamp row) = pay_values row"
proof -
  have zip: "map_of (zip ks (map f ks)) k = Some (f k)" if "k \<in> set ks" for ks k and f :: "string \<Rightarrow> f64 option"
    using that by (induction ks) auto
  have ohlc: "raw_cell r (pay_timestamp row) s field = row_cells row (field_column s field)"
    if s: "s \<in> set OHLC_SERIES" and field: "field \<in> set OHLC_FIELDS" for s field
  proof -
    have "series_line row s = map (\<lambda>n. row_cells row (field_column s n)) OHLC_FIELDS"
      using s by (simp add: series_line_def source_columns_def)
    then show ?thesis
      using at [OF ohlc_in_source [OF s]] field zip [OF field, of "\<lambda>n. row_cells row (field_column s n)"] s
      by (auto simp: raw_cell_def raw_at_def series_fields_def list_all_iff split: if_splits)
  qed
  have scalar: "raw_cell r (pay_timestamp row) s ''indexvalue'' = row_cells row (level_column s)"
    if "s \<in> set GOLD_SOURCE_SERIES" "s \<notin> set OHLC_SERIES" for s
    using at [OF that(1)] that(2)
    by (auto simp: raw_cell_def raw_at_def series_fields_def series_line_def source_columns_def split: if_splits)
  have "raw_cell r (pay_timestamp row) s (level_field s) = row_cells row (level_column s)"
    if "s \<in> set GOLD_SOURCE_SERIES" for s
    using that scalar ohlc [of s "''close''"] row by (auto simp: level_field_def row_fits_tables_def OHLC_FIELDS_def)
  then have "projected_values r (pay_timestamp row) = map (row_cells row) (tl POSTGRES_RAW_COLUMNS)"
    using ohlc unfolding projected_values_def POSTGRES_RAW_COLUMNS_def GOLD_COLUMNS_def
    by (auto simp: map_concat comp_def intro!: arg_cong [where f = concat])
  then show ?thesis
    using pay_values_cells row by (simp add: row_fits_tables_def)
qed

end
