(* ===== verification/Pg_Tables.thy ===== *)
theory Pg_Tables
  imports Pg_Apply
begin

text \<open>
  What the writes of a delta do to the two abstractions of the tables: the wide row of a timestamp and
  the digest index; and what reading the tables back gives in terms of them.
\<close>

section \<open>Dictionaries\<close>

lemma dict_eq_map_of:
  assumes "distinct (map fst a)" "distinct (map fst b)"
  shows "dict_eq a b \<longleftrightarrow> map_of a = map_of b"
proof
  assume eq: "dict_eq a b"
  have sub: "map_of a \<subseteq>\<^sub>m map_of b"
    using eq assms(1) by (fastforce simp: dict_eq_def map_le_def list_all_iff)
  have "length a = length b"
    using eq by (simp add: dict_eq_def)
  then have "card (dom (map_of a)) = card (dom (map_of b))"
    by (metis assms distinct_card dom_map_of_conv_image_fst length_map list.set_map)
  then have "dom (map_of a) = dom (map_of b)"
    using sub by (intro card_subset_eq) (auto simp: map_le_implies_dom_le finite_dom_map_of)
  then show "map_of a = map_of b"
    using sub by (metis map_le_antisym map_le_def)
next
  assume eq: "map_of a = map_of b"
  have "length a = length b"
    using assms eq by (metis distinct_card dom_map_of_conv_image_fst length_map list.set_map)
  then show "dict_eq a b"
    using assms(1) unfolding dict_eq_def list_all_iff eq [symmetric] by auto
qed

lemma digest_dict_eq:
  assumes "distinct (map dig_timestamp a)" "distinct (map dig_timestamp b)"
  shows "dict_eq (digest_dict a) (digest_dict b) \<longleftrightarrow> digest_index a = digest_index b"
  using assms by (simp add: digest_dict_distinct dict_eq_map_of digest_index_def comp_def)

section \<open>Wide rows\<close>

abbreviation wide :: "'v pg_db \<Rightarrow> datetime \<Rightarrow> f64 option list" where
  "wide db \<equiv> projected_values (raw db)"

definition null_row :: "f64 option list \<Rightarrow> bool" where
  "null_row vs \<longleftrightarrow> list_all (\<lambda>v. v = None) vs"

lemma null_row_all_null [simp]: "null_row all_null"
  by (simp add: null_row_def all_null_def list_all_iff)

lemma sets_timestamp_wide:
  assumes "sets_timestamp t line f" "u \<noteq> t"
  shows "wide (f db) u = wide db u"
  using assms by (intro projected_cong) (simp add: sets_timestamp_def)

lemma row_effect_wide:
  assumes "row_fits_tables row"
  shows "wide (row_effect row db) = (wide db)(pay_timestamp row := pay_values row)"
proof
  fix t
  note sets = row_effect_sets [OF assms, where 'v = 'a]
  show "wide (row_effect row db) t = ((wide db)(pay_timestamp row := pay_values row)) t"
  proof (cases "t = pay_timestamp row")
    case True
    then show ?thesis
      using sets by (simp add: projected_row [OF assms] sets_timestamp_def)
  next
    case False
    then show ?thesis
      using sets_timestamp_wide [OF sets] by simp
  qed
qed

lemma timestamp_effect_wide: "wide (timestamp_effect t db) = (wide db)(t := all_null)"
proof
  fix u
  note sets = timestamp_effect_sets [of t, where 'v = 'a]
  show "wide (timestamp_effect t db) u = ((wide db)(t := all_null)) u"
  proof (cases "u = t")
    case True
    then show ?thesis
      using sets by (simp add: projected_none sets_timestamp_def)
  next
    case False
    then show ?thesis
      using sets_timestamp_wide [OF sets] by simp
  qed
qed

text \<open>A write that keeps the raw tables well-formed and the other tables as they are.\<close>

definition raw_write :: "('v pg_db \<Rightarrow> 'v pg_db) \<Rightarrow> bool" where
  "raw_write f \<longleftrightarrow> (\<forall>db. (raw_ok (raw db) \<longrightarrow> raw_ok (raw (f db))) \<and> row_hashes (f db) = row_hashes db
    \<and> sync_states (f db) = sync_states db)"

lemma row_effect_write: "row_fits_tables row \<Longrightarrow> raw_write (row_effect row)"
  using row_effect_sets [of row] by (auto simp: raw_write_def sets_timestamp_def)

lemma timestamp_effect_write: "raw_write (timestamp_effect t)"
  using timestamp_effect_sets [of t] by (auto simp: raw_write_def sets_timestamp_def)

lemma raw_write_fold:
  "(\<And>x. x \<in> set xs \<Longrightarrow> raw_write (f x)) \<Longrightarrow> raw_write (fold f xs)"
  by (induction xs) (auto simp: raw_write_def)

lemma raw_write_comp: "raw_write f \<Longrightarrow> raw_write g \<Longrightarrow> raw_write (\<lambda>db. g (f db))"
  by (simp add: raw_write_def)

lemma rows_wide:
  assumes "list_all row_fits_tables rows" "distinct (map pay_timestamp rows)"
  shows "wide (fold row_effect rows db) t =
    (case find (\<lambda>r. pay_timestamp r = t) rows of Some r \<Rightarrow> pay_values r | None \<Rightarrow> wide db t)"
  using assms
proof (induction rows arbitrary: db)
  case (Cons r rows)
  have "find (\<lambda>x. pay_timestamp x = pay_timestamp r) rows = None"
  proof -
    have "pay_timestamp x \<noteq> pay_timestamp r" if "x \<in> set rows" for x
      using that Cons.prems(2) by (auto dest: rev_image_eqI [OF _ sym])
    then show ?thesis
      by (simp add: find_None_iff)
  qed
  then show ?case
    using Cons by (cases "pay_timestamp r = t") (auto simp: row_effect_wide split: option.split)
qed simp

lemma deletes_wide:
  "wide (fold timestamp_effect ts db) t = (if t \<in> set ts then all_null else wide db t)"
  by (induction ts arbitrary: db) (auto simp: timestamp_effect_wide)

section \<open>The digest index\<close>

definition hash_at :: "'v pg_db \<Rightarrow> datetime \<Rightarrow> string option" where
  "hash_at db t = map_of (row_hashes db) (POSTGRES_DATASET_ID, t)"

definition hashes_ok :: "'v pg_db \<Rightarrow> bool" where
  "hashes_ok db \<longleftrightarrow> distinct (map fst (row_hashes db))
    \<and> (\<forall>t h. hash_at db t = Some h \<longrightarrow> is_utc t \<and> is_sha256_hex h)"

lemma upsert_digest_hash: "hash_at (upsert_digest POSTGRES_DATASET_ID t h db) = (hash_at db)(t \<mapsto> h)"
  by (auto simp: fun_eq_iff hash_at_def upsert_digest_def update_conv')

lemma delete_digest_hash: "hash_at (delete_digest POSTGRES_DATASET_ID t db) = (hash_at db)(t := None)"
  by (auto simp: fun_eq_iff hash_at_def delete_digest_def delete_conv')

lemma upsert_digest_ok:
  "hashes_ok db \<Longrightarrow> is_utc t \<Longrightarrow> is_sha256_hex h \<Longrightarrow> hashes_ok (upsert_digest POSTGRES_DATASET_ID t h db)"
  by (auto simp: hashes_ok_def upsert_digest_hash) (simp add: upsert_digest_def distinct_update)

lemma delete_digest_ok: "hashes_ok db \<Longrightarrow> hashes_ok (delete_digest POSTGRES_DATASET_ID t db)"
  by (auto simp: hashes_ok_def delete_digest_hash split: if_splits) (simp add: delete_digest_def distinct_delete)

lemma upserts_hash:
  "hash_at (fold (\<lambda>r. upsert_digest POSTGRES_DATASET_ID (pay_timestamp r) (h (pay_timestamp r))) rows db) t =
    (if t \<in> pay_timestamp ` set rows then Some (h t) else hash_at db t)"
  by (induction rows arbitrary: db) (auto simp: upsert_digest_hash)

lemma deletes_hash:
  "hash_at (fold (delete_digest POSTGRES_DATASET_ID) ts db) t = (if t \<in> set ts then None else hash_at db t)"
  by (induction ts arbitrary: db) (auto simp: delete_digest_hash)

lemma fold_keeps: "(\<And>x db. x \<in> set xs \<Longrightarrow> P db \<Longrightarrow> P (f x db)) \<Longrightarrow> P db \<Longrightarrow> P (fold f xs db)"
  by (induction xs arbitrary: db) auto

lemma fold_same: "(\<And>x db. x \<in> set xs \<Longrightarrow> v (f x db) = v db) \<Longrightarrow> v (fold f xs db) = v db"
  by (induction xs arbitrary: db) auto

text \<open>Reading the index back.\<close>

definition index_entries :: "'v pg_db \<Rightarrow> ((string \<times> datetime) \<times> string) list" where
  "index_entries db = sort_key (\<lambda>p. dt_num (snd (fst p))) (filter (\<lambda>p. fst (fst p) = POSTGRES_DATASET_ID) (row_hashes db))"

definition entry_digest :: "((string \<times> datetime) \<times> string) \<Rightarrow> gold_row_digest" where
  "entry_digest p = \<lparr>dig_timestamp = snd (fst p), dig_sha256 = snd p\<rparr>"

lemma digest_rows_entries:
  "digest_rows POSTGRES_DATASET_ID db = map (\<lambda>p. [STime (snd (fst p)), SText (snd p)]) (index_entries db)"
  by (simp add: digest_rows_def index_entries_def case_prod_unfold)

lemma digest_from_entry:
  "digest_from_row [STime t, SText h] = Inr d \<longleftrightarrow>
    is_utc t \<and> is_sha256_hex h \<and> d = \<lparr>dig_timestamp = t, dig_sha256 = h\<rparr>"
  by (simp add: digest_from_row_def as_datetime_def as_text_def GoldRowDigest_Inr)

lemma entries_hash:
  assumes "distinct (map fst (row_hashes db))"
  shows "p \<in> set (index_entries db) \<longleftrightarrow> fst (fst p) = POSTGRES_DATASET_ID \<and> hash_at db (snd (fst p)) = Some (snd p)"
  using assms by (cases p) (auto simp: index_entries_def hash_at_def)

lemma entries_distinct:
  assumes "distinct (map fst (row_hashes db))"
  shows "distinct (map (\<lambda>p. snd (fst p)) (index_entries db))"
proof -
  have "distinct (index_entries db)"
    using assms by (simp add: index_entries_def distinct_map)
  moreover have "inj_on (\<lambda>p. snd (fst p)) (set (index_entries db))"
    using entries_hash [OF assms] by (auto simp: inj_on_def prod_eq_iff)
  ultimately show ?thesis
    by (simp add: distinct_map)
qed

lemma read_index:
  assumes "hashes_ok db"
  shows "rmap digest_from_row (digest_rows POSTGRES_DATASET_ID db) = Inr (map entry_digest (index_entries db))"
    "distinct (map dig_timestamp (map entry_digest (index_entries db)))"
    "digest_index (map entry_digest (index_entries db)) = hash_at db"
proof -
  have keys: "distinct (map fst (row_hashes db))"
    using assms by (simp add: hashes_ok_def)
  have "digest_from_row [STime (snd (fst p)), SText (snd p)] = Inr (entry_digest p)" if "p \<in> set (index_entries db)" for p
    using that assms entries_hash [OF keys, of p] by (auto simp: digest_from_entry entry_digest_def hashes_ok_def)
  then show "rmap digest_from_row (digest_rows POSTGRES_DATASET_ID db) = Inr (map entry_digest (index_entries db))"
    unfolding digest_rows_entries by (rule rmap_map_Inr)
  show dist: "distinct (map dig_timestamp (map entry_digest (index_entries db)))"
    using entries_distinct [OF keys] by (simp add: comp_def entry_digest_def)
  show "digest_index (map entry_digest (index_entries db)) = hash_at db"
  proof
    fix t
    let ?ds = "map entry_digest (index_entries db)"
    show "digest_index ?ds t = hash_at db t"
    proof (cases "hash_at db t")
      case None
      then have "t \<notin> dig_timestamp ` set ?ds"
        using entries_hash [OF keys] by (auto simp: entry_digest_def)
      then show ?thesis
        using None digest_index_dom [of ?ds t] by simp
    next
      case (Some h)
      then have "((POSTGRES_DATASET_ID, t), h) \<in> set (index_entries db)"
        using entries_hash [OF keys] by simp
      then have "\<lparr>dig_timestamp = t, dig_sha256 = h\<rparr> \<in> set ?ds"
        by (force simp: entry_digest_def)
      from digest_index_mem [OF dist this] show ?thesis
        using Some by simp
    qed
  qed
qed

lemma hashes_okI:
  assumes "distinct (map fst (row_hashes db))" "rmap digest_from_row (digest_rows POSTGRES_DATASET_ID db) = Inr target"
  shows "hashes_ok db" "target = map entry_digest (index_entries db)"
proof -
  have all: "list_all2 (\<lambda>p d. is_utc (snd (fst p)) \<and> is_sha256_hex (snd p) \<and> d = entry_digest p) (index_entries db) target"
    using assms(2) unfolding digest_rows_entries rmap_Inr by (simp add: list_all2_map1 digest_from_entry entry_digest_def)
  show "hashes_ok db"
    using all entries_hash [OF assms(1)] assms(1) unfolding hashes_ok_def
    by (metis (no_types, lifting) fst_conv list_all2_conv_all_nth in_set_conv_nth snd_conv)
  show "target = map entry_digest (index_entries db)"
    using all by (auto simp: list_all2_conv_all_nth intro!: nth_equalityI)
qed

section \<open>Reading the served rows back\<close>

lemma consumer_timestamps_mem:
  "t \<in> set (consumer_timestamps r) \<longleftrightarrow> \<not> null_row (projected_values r t)"
proof -
  have "t \<in> set (raw_timestamps r)" if "\<not> null_row (projected_values r t)"
  proof (rule ccontr)
    assume "t \<notin> set (raw_timestamps r)"
    then have "raw_at r t s = None" if "s \<in> set GOLD_SOURCE_SERIES" for s
      using that by (auto simp: raw_timestamps_def raw_at_def map_of_eq_None_iff)
    then show False
      using that projected_none [of r t] by simp
  qed
  then show ?thesis
    by (auto simp: consumer_timestamps_def null_row_def)
qed

lemma raw_timestamps_utc: "raw_ok r \<Longrightarrow> t \<in> set (raw_timestamps r) \<Longrightarrow> is_utc t"
  by (auto simp: raw_timestamps_def raw_ok_def list_all_iff)

lemma utc_inj: "(\<And>t. t \<in> A \<Longrightarrow> is_utc t) \<Longrightarrow> inj_on dt_num A"
  by (meson inj_onI is_utc_eqI)

text \<open>The served timestamps are the ascending list of those with a value.\<close>

lemma consumer_timestamps_eq:
  assumes r: "raw_ok r" and ts: "sorted (map dt_num ts)" "distinct ts" "list_all is_utc ts"
    and mem: "\<And>t. t \<in> set ts \<longleftrightarrow> \<not> null_row (projected_values r t)"
  shows "consumer_timestamps r = ts"
proof -
  have sets: "set (consumer_timestamps r) = set ts"
    using mem consumer_timestamps_mem by blast
  have utc: "is_utc t" if "t \<in> set ts" for t
    using that ts(3) by (simp add: list_all_iff)
  have "sorted (map dt_num (consumer_timestamps r))" "distinct (consumer_timestamps r)"
    unfolding consumer_timestamps_def raw_timestamps_def by (auto simp: sorted_filter)
  moreover have "inj_on dt_num (set ts)"
    by (rule utc_inj) (rule utc)
  ultimately have "map dt_num (consumer_timestamps r) = map dt_num ts"
    using ts sets by (intro sorted_distinct_set_unique) (auto simp: distinct_map)
  then show ?thesis
    using \<open>inj_on dt_num (set ts)\<close> sets by (metis inj_on_map_eq_map sup.idem)
qed

lemma payload_of_row:
  assumes "is_utc t" "length vs = 49"
  shows "payload_from_row (STime t # map opt_float vs) = Inr \<lparr>pay_timestamp = t, pay_values = vs\<rparr>"
proof -
  have "feature_from (opt_float v) = Inr v" for v
    by (cases v) (simp_all add: feature_from_def opt_float_def)
  then have "rmap feature_from (map opt_float vs) = Inr (map (\<lambda>v. v) vs)"
    by (intro rmap_map_Inr)
  then show ?thesis
    using assms by (simp add: payload_from_row_def as_datetime_def POSTGRES_RAW_COLUMNS_def gold_columns_length
        GoldRowPayload_Inr)
qed

lemma projected_length: "length (projected_values r t) = 49"
  by (simp add: projected_values_def source_series ohlc_series_eq OHLC_FIELDS_def)

end
