(* ===== verification/Pg_Service.thy ===== *)
theory Pg_Service
  imports Pg_Verified
begin

text \<open>
  \<open>src/application/postgres_sync_service.py\<close>: one complete reconciliation of the serving replica with
  the current Gold build.  As in the source, the catalog, the frame source, the clock, the repository
  and its locked transaction are ports; \<open>pg_repository\<close> is the repository of the database.
\<close>

section \<open>Ports\<close>

record 'w gold_source =
  src_validate_bundle :: "gold_record \<Rightarrow> ('w, unit) io"
  src_sha256_path :: "string \<Rightarrow> ('w, string) io"
  src_read_path :: "string \<Rightarrow> ('w, frame) io"

record 'w gold_sync_transaction =
  tx_read_state :: "string \<Rightarrow> ('w, gold_sync_state option) io"
  tx_read_digests :: "string \<Rightarrow> ('w, gold_row_digest list) io"
  tx_read_consumer_digests :: "string \<Rightarrow> ('w, gold_row_digest list) io"
  tx_apply_delta :: "string \<Rightarrow> gold_delta_plan \<Rightarrow> gold_sync_state \<Rightarrow> ('w, unit) io"
  tx_summary :: "string \<Rightarrow> ('w, gold_target_summary) io"

record ('w, 'a) gold_sync_repository =
  rp_preflight_schema :: "('w, unit) io"
  rp_run_locked :: "('w gold_sync_transaction \<Rightarrow> ('w, 'a) io) \<Rightarrow> ('w, 'a) io"

definition pg_transaction ::
  "((string \<Rightarrow> raw_table) \<Rightarrow> 'v) \<Rightarrow> (byte list \<Rightarrow> string) \<Rightarrow> ('v, 'z) pg_scheme gold_sync_transaction" where
  "pg_transaction view sha256 =
    \<lparr>tx_read_state = txn_read_state, tx_read_digests = txn_read_digests,
     tx_read_consumer_digests = txn_read_consumer_digests sha256,
     tx_apply_delta = txn_apply_delta view sha256, tx_summary = txn_summary\<rparr>"

definition pg_repository ::
  "(('v, 'z) pg_scheme, unit) io \<Rightarrow> ((string \<Rightarrow> raw_table) \<Rightarrow> 'v) \<Rightarrow> (byte list \<Rightarrow> string) \<Rightarrow> timeout_policy \<Rightarrow> int \<Rightarrow>
    (('v, 'z) pg_scheme, 'a) gold_sync_repository" where
  "pg_repository contract view sha256 policy key =
    \<lparr>rp_preflight_schema = repo_preflight contract policy,
     rp_run_locked = (\<lambda>operation. run_locked policy key (operation (pg_transaction view sha256)))\<rparr>"

section \<open>Compatibility of the checkpoint\<close>

definition is_schema_only_upgrade :: "gold_sync_state \<Rightarrow> gold_sync_state \<Rightarrow> bool" where
  "is_schema_only_upgrade prior desired \<longleftrightarrow>
    st_feature_version prior = st_feature_version desired \<and> st_feature_version desired = GOLD_FEATURE_VERSION
    \<and> 7 \<le> st_schema_version prior \<and> st_schema_version prior < st_schema_version desired
    \<and> st_schema_version desired \<le> GOLD_SCHEMA_VERSION"

text \<open>The earlier releases: schema and feature version before and after.\<close>

definition version_steps :: "((int \<times> int) \<times> int \<times> int) list" where
  "version_steps = [((2, 1), 3, 2), ((3, 2), 4, 3), ((4, 3), 5, 4), ((5, 4), 6, 5), ((6, 5), 7, 6)]"

definition is_version_step :: "gold_sync_state \<Rightarrow> gold_sync_state \<Rightarrow> bool" where
  "is_version_step prior desired \<longleftrightarrow>
    ((st_schema_version prior, st_feature_version prior), st_schema_version desired, st_feature_version desired)
      \<in> set version_steps"

definition require_state_compatible :: "gold_sync_state option \<Rightarrow> gold_sync_state \<Rightarrow> unit result" where
  "require_state_compatible prior desired =
    (case prior of
      None \<Rightarrow> Inr ()
    | Some p \<Rightarrow>
        if st_schema_version p = 1 \<and> st_schema_version desired = 2
          \<and> st_feature_version p = st_feature_version desired then Inr ()
        else if is_version_step p desired then Inr ()
        else if is_schema_only_upgrade p desired then Inr ()
        else raise_if (st_schema_version p \<noteq> st_schema_version desired
            \<or> st_feature_version p \<noteq> st_feature_version desired) GoldSyncCompatibilityError
          ''PostgreSQL Gold semantic versions differ from current canonical Gold'')"

definition is_schema_upgrade :: "gold_sync_state option \<Rightarrow> gold_sync_state \<Rightarrow> bool" where
  "is_schema_upgrade prior desired =
    (case prior of None \<Rightarrow> False | Some p \<Rightarrow> is_version_step p desired \<or> is_schema_only_upgrade p desired)"

definition same_data :: "gold_sync_state \<Rightarrow> gold_sync_state \<Rightarrow> bool" where
  "same_data prior desired \<longleftrightarrow>
    st_data_sha256 prior = st_data_sha256 desired
    \<and> st_schema_version prior = st_schema_version desired
    \<and> st_feature_version prior = st_feature_version desired
    \<and> st_row_count prior = st_row_count desired
    \<and> opt_dt_eq (st_min_timestamp prior) (st_min_timestamp desired)
    \<and> opt_dt_eq (st_max_timestamp prior) (st_max_timestamp desired)"

section \<open>Checks\<close>

definition require_matching_digests ::
  "gold_row_digest list \<Rightarrow> gold_row_digest list \<Rightarrow> string \<Rightarrow> unit result" where
  "require_matching_digests source target target_name =
    raise_if (\<not> dict_eq (digest_dict source) (digest_dict target)) GoldSyncVerificationError
      (''PostgreSQL Gold '' @ target_name @ '' do not match canonical source'')"

definition timestamp_or_none :: "string \<Rightarrow> cell \<Rightarrow> datetime option result" where
  "timestamp_or_none what c =
    (case c of CNull \<Rightarrow> Inr None | CDatetime t \<Rightarrow> Inr (Some (Aware t 0))
     | _ \<Rightarrow> raise GoldSyncSourceError (''current Gold '' @ what @ '' timestamp is invalid''))"

definition validate_frame_metadata :: "frame \<Rightarrow> gold_record \<Rightarrow> unit result" where
  "validate_frame_metadata f r =
    rbind (raise_if (f_columns f \<noteq> GOLD_COLUMNS) GoldSyncSourceError
      ''current Gold columns differ from the canonical schema'') (\<lambda>_.
    rbind (schema_type f ''timestamp_m1'') (\<lambda>t.
    rbind (raise_if (t \<noteq> DDatetimeUtc) GoldSyncSourceError
      ''current Gold timestamp dtype differs from the canonical schema'') (\<lambda>_.
    rbind (rfor (\<lambda>c. rbind (schema_type f c) (\<lambda>t. raise_if (t \<noteq> DFloat64) GoldSyncSourceError
      ''current Gold feature dtype differs from the canonical schema'')) (tl GOLD_COLUMNS)) (\<lambda>_.
    case row_count r of
      None \<Rightarrow> raise GoldSyncSourceError ''current complete Gold catalog row has no row_count''
    | Some n \<Rightarrow>
        rbind (raise_if (int (f_height f) \<noteq> n) GoldSyncSourceError
          ''current Gold row count differs from catalog metadata'') (\<lambda>_.
        let timestamps = column_cells f ''timestamp_m1'' in
        rbind (timestamp_or_none ''minimum'' (cells_min timestamps)) (\<lambda>minimum.
        rbind (timestamp_or_none ''maximum'' (cells_max timestamps)) (\<lambda>maximum.
        raise_if (\<not> opt_dt_eq minimum (min_timestamp r) \<or> \<not> opt_dt_eq maximum (max_timestamp r))
          GoldSyncSourceError ''current Gold timestamp bounds differ from catalog metadata'')))))))"

text \<open>The target must have been written by an earlier synchronization that recorded its checkpoint.\<close>

definition check_target ::
  "gold_sync_state option \<Rightarrow> gold_row_digest list \<Rightarrow> gold_row_digest list \<Rightarrow> unit result" where
  "check_target prior target consumer =
    (case prior of
      None \<Rightarrow>
        rbind (raise_if (target \<noteq> []) GoldSyncVerificationError
          ''PostgreSQL Gold digests exist without authoritative sync state'') (\<lambda>_.
        raise_if (consumer \<noteq> []) GoldSyncVerificationError
          ''PostgreSQL Gold consumer rows exist without authoritative sync state'')
    | Some p \<Rightarrow>
        raise_if (int (length target) \<noteq> st_row_count p) GoldSyncVerificationError
          ''PostgreSQL Gold digest count does not match authoritative sync state'')"

definition check_plan ::
  "gold_sync_state option \<Rightarrow> gold_sync_state \<Rightarrow> gold_delta_plan \<Rightarrow> gold_row_digest list \<Rightarrow> unit result" where
  "check_plan prior desired plan target =
    (case prior of
      None \<Rightarrow> Inr ()
    | Some p \<Rightarrow>
        rbind (if same_data p desired
          then require_matching_digests (dp_source_digests plan) target ''digest index'' else Inr ()) (\<lambda>_.
        raise_if (dp_inserts plan = [] \<and> dp_updates plan = [] \<and> dp_deletes plan = []
            \<and> \<not> same_data p desired \<and> \<not> is_schema_upgrade prior desired) GoldSyncVerificationError
          ''PostgreSQL Gold sync state does not match canonical source''))"

definition sync_validate_sha256 :: "string \<Rightarrow> unit result" where
  "sync_validate_sha256 v =
    raise_if (\<not> is_sha256_hex v) GoldSyncSourceError ''current Gold data SHA-256 is invalid''"

definition required_data_path :: "gold_record \<Rightarrow> string result" where
  "required_data_path r =
    (case data_path r of
      None \<Rightarrow> raise GoldSyncSourceError ''current complete Gold catalog row has no data path''
    | Some p \<Rightarrow> if p = [] then raise GoldSyncSourceError ''current complete Gold catalog row has no data path''
        else Inr p)"

definition desired_state :: "('w, datetime) io \<Rightarrow> gold_record \<Rightarrow> string \<Rightarrow> ('w, gold_sync_state) io" where
  "desired_state clock r sha =
    (case row_count r of
      None \<Rightarrow> throw (Exn GoldSyncSourceError ''current complete Gold catalog row has no row_count'')
    | Some n \<Rightarrow> bind clock (\<lambda>now.
        lift (rbind (raise_if (\<not> is_aware now) GoldSyncSourceError
          ''Gold PostgreSQL sync clock must be timezone-aware'') (\<lambda>_.
        GoldSyncState POSTGRES_DATASET_ID (build_id r) sha (schema_version r) (feature_version r) n
          (min_timestamp r) (max_timestamp r) (astimezone_utc now)))))"

text \<open>What \<open>except (OSError, TypeError, ValueError)\<close> catches.\<close>

definition is_source_fault :: "exn \<Rightarrow> bool" where
  "is_source_fault e \<longleftrightarrow> exc_class e \<in> {OSError, FileNotFoundError, FileExistsError, TypeError, ValueError}"

definition sync_validate_bundle :: "'w gold_source \<Rightarrow> gold_record \<Rightarrow> ('w, unit) io" where
  "sync_validate_bundle source r =
    try_except (src_validate_bundle source r) is_source_fault
      (\<lambda>_. throw (Exn GoldSyncSourceError ''current Gold bundle integrity verification failed''))"

section \<open>The synchronization\<close>

definition raw_selection :: "(string \<times> pl_expr) list" where
  "raw_selection = map (\<lambda>c. (c, PlCol c)) POSTGRES_RAW_COLUMNS"

definition sync_locked ::
  "polars \<Rightarrow> polars_ops \<Rightarrow> (byte list \<Rightarrow> string) \<Rightarrow> 'w gold_source \<Rightarrow> 'w gold_sync_transaction \<Rightarrow> gold_record \<Rightarrow>
    string \<Rightarrow> gold_sync_state \<Rightarrow> ('w, gold_sync_result) io" where
  "sync_locked pl ops sha256 source tx r path desired =
    bind (tx_read_state tx POSTGRES_DATASET_ID) (\<lambda>prior.
    seq (lift (require_state_compatible prior desired))
    (bind (tx_read_digests tx POSTGRES_DATASET_ID) (\<lambda>target.
    bind (tx_read_consumer_digests tx POSTGRES_DATASET_ID) (\<lambda>consumer.
    seq (lift (check_target prior target consumer))
    (seq (lift (if is_schema_upgrade prior desired then Inr ()
      else require_matching_digests target consumer ''consumer rows''))
    (bind (src_read_path source path) (\<lambda>f.
    seq (lift (validate_frame_metadata f r))
    (bind (lift (rbind (pl_select ops raw_selection f) (\<lambda>selected. plan_gold_delta pl sha256 selected target prior))) (\<lambda>plan.
    seq (lift (check_plan prior desired plan target))
    (seq (tx_apply_delta tx POSTGRES_DATASET_ID plan desired)
    (lift (GoldSyncResult POSTGRES_DATASET_ID (build_id r) (dp_inserted plan) (dp_updated plan)
      (dp_deleted plan) (dp_unchanged_count plan)))))))))))))"

definition gold_sync ::
  "polars \<Rightarrow> polars_ops \<Rightarrow> (byte list \<Rightarrow> string) \<Rightarrow> ('w, gold_record list) io \<Rightarrow> 'w gold_source \<Rightarrow>
    ('w, gold_sync_result) gold_sync_repository \<Rightarrow> ('w, datetime) io \<Rightarrow> ('w, gold_sync_result) io" where
  "gold_sync pl ops sha256 catalog source repository clock =
    bind catalog (\<lambda>records.
    bind (lift (select_current_sync_record records)) (\<lambda>r.
    seq (sync_validate_bundle source r)
    (seq (rp_preflight_schema repository)
    (bind (lift (required_data_path r)) (\<lambda>path.
    bind (src_sha256_path source path) (\<lambda>sha.
    seq (lift (sync_validate_sha256 sha))
    (bind (desired_state clock r sha) (\<lambda>desired.
    rp_run_locked repository (\<lambda>tx. sync_locked pl ops sha256 source tx r path desired)))))))))"

end
