(* ===== verification/Pg_Synchronization.thy ===== *)
theory Pg_Synchronization
  imports Pg_Service
begin

text \<open>
  Correctness of the synchronization: which checkpoints it accepts, what a returning run has
  committed, and that nothing else is ever committed, whatever call fails.
\<close>

section \<open>Upgrades\<close>

lemma compatible_iff:
  assumes "st_schema_version d = GOLD_SCHEMA_VERSION" "st_feature_version d = GOLD_FEATURE_VERSION"
  shows "require_state_compatible (Some p) d = Inr () \<longleftrightarrow>
      st_feature_version p = GOLD_FEATURE_VERSION \<and> st_schema_version p \<in> {7..GOLD_SCHEMA_VERSION}"
    "is_schema_upgrade (Some p) d \<longleftrightarrow>
      st_feature_version p = GOLD_FEATURE_VERSION \<and> st_schema_version p \<in> {7..<GOLD_SCHEMA_VERSION}"
  using assms by (auto simp: require_state_compatible_def is_schema_upgrade_def is_version_step_def
      version_steps_def is_schema_only_upgrade_def GOLD_SCHEMA_VERSION_def GOLD_FEATURE_VERSION_def)

text \<open>
  C22: with the semantic versions of this release as the desired ones, a checkpoint is accepted exactly
  when there is none, or it has the same feature version and a schema version from 7 up to the
  current one; of these, exactly the older schema versions are treated as an upgrade, for which the
  stored rows need not match the digest index beforehand.
\<close>

theorem upgrade_policy:
  "st_schema_version d = GOLD_SCHEMA_VERSION \<Longrightarrow> st_feature_version d = GOLD_FEATURE_VERSION \<Longrightarrow>
    (require_state_compatible prior d = Inr () \<longleftrightarrow>
      (\<forall>p. prior = Some p \<longrightarrow> st_feature_version p = GOLD_FEATURE_VERSION
        \<and> st_schema_version p \<in> {7..GOLD_SCHEMA_VERSION}))
    \<and> (is_schema_upgrade prior d \<longleftrightarrow>
      (\<exists>p. prior = Some p \<and> st_feature_version p = GOLD_FEATURE_VERSION
        \<and> st_schema_version p \<in> {7..<GOLD_SCHEMA_VERSION}))"
  by (cases prior) (auto simp: compatible_iff, auto simp: require_state_compatible_def is_schema_upgrade_def)

definition demo_state :: "int \<Rightarrow> gold_sync_state" where
  "demo_state schema = \<lparr>st_dataset_id = POSTGRES_DATASET_ID, st_source_build_id = ''20260102T030405Z'',
     st_data_sha256 = demo_sha [], st_schema_version = schema, st_feature_version = 6, st_row_count = 1,
     st_min_timestamp = Some (Aware 0 0), st_max_timestamp = Some (Aware 0 0), st_synced_at_utc = Aware 0 0\<rparr>"

theorem upgrade_policy_witness:
  "is_schema_upgrade (Some (demo_state 7)) (demo_state 11)
    \<and> require_state_compatible (Some (demo_state 7)) (demo_state 11) = Inr ()
    \<and> require_state_compatible (Some (demo_state 6)) (demo_state 11) \<noteq> Inr ()
    \<and> \<not> is_schema_upgrade (Some (demo_state 11)) (demo_state 11)"
  using upgrade_policy [of "demo_state 11" "Some (demo_state 7)"] upgrade_policy [of "demo_state 11" "Some (demo_state 6)"]
    upgrade_policy [of "demo_state 11" "Some (demo_state 11)"]
  by (simp add: demo_state_def GOLD_SCHEMA_VERSION_def GOLD_FEATURE_VERSION_def)

section \<open>What is served\<close>

text \<open>The view shows the raw tables.\<close>

definition fresh_view :: "((string \<Rightarrow> raw_table) \<Rightarrow> 'v) \<Rightarrow> 'v pg_db \<Rightarrow> bool" where
  "fresh_view view db \<longleftrightarrow> features db = view (raw db)"

definition checkpoint_of :: "gold_record \<Rightarrow> string \<Rightarrow> gold_sync_state \<Rightarrow> bool" where
  "checkpoint_of r sha s \<longleftrightarrow> valid_sync_state s \<and> st_source_build_id s = build_id r \<and> st_data_sha256 s = sha
    \<and> st_schema_version s = schema_version r \<and> st_feature_version s = feature_version r
    \<and> row_count r = Some (st_row_count s) \<and> st_min_timestamp s = min_timestamp r \<and> st_max_timestamp s = max_timestamp r"

text \<open>
  The tables serve the rows of the frame \<open>f\<close> of the build \<open>r\<close>: the digest index and the digests of the
  served rows are those of the source, the summary and the checkpoint are those of the record.
\<close>

definition serves ::
  "polars \<Rightarrow> polars_ops \<Rightarrow> (byte list \<Rightarrow> string) \<Rightarrow> gold_record \<Rightarrow> string \<Rightarrow> frame \<Rightarrow> 'v pg_db \<Rightarrow> bool" where
  "serves pl ops sha256 r sha f db \<longleftrightarrow> validate_frame_metadata f r = Inr ()
    \<and> (\<exists>selected rows digests s. pl_select ops raw_selection f = Inr selected
      \<and> source_rows_and_digests pl sha256 selected = Inr (rows, digests)
      \<and> index_agrees (rmap digest_from_row (digest_rows POSTGRES_DATASET_ID db)) digests
      \<and> index_agrees (rmap (consumer_digest sha256) (consumer_rows (raw db))) digests
      \<and> checkpoint_of r sha s \<and> map_of (sync_states db) POSTGRES_DATASET_ID = Some (state_params s)
      \<and> (\<exists>t. summary_from_row (summary_row (raw db)) = Inr t \<and> expected_summary s = Inr t))"

text \<open>The value a call can return while the lake holds the files \<open>F\<close>.\<close>

definition reads_at :: "(path \<times> content) list \<Rightarrow> ('z lake_scheme, 'a) io \<Rightarrow> 'a \<Rightarrow> bool" where
  "reads_at F m x \<longleftrightarrow> (\<exists>w w'. files w = F \<and> m w = (Inr x, w'))"

definition untouched :: "(('v, 'z) pg_scheme, 'a) io \<Rightarrow> bool" where
  "untouched m \<longleftrightarrow> preserves committed m \<and> preserves working m \<and> preserves files m"

text \<open>The ports of the lake only read; the schema contract changes nothing either.\<close>

definition reading_ports ::
  "(('v, 'z) pg_scheme, gold_record list) io \<Rightarrow> ('v, 'z) pg_scheme gold_source \<Rightarrow> (('v, 'z) pg_scheme, datetime) io \<Rightarrow>
    (('v, 'z) pg_scheme, unit) io \<Rightarrow> bool" where
  "reading_ports catalog source clock contract \<longleftrightarrow>
    untouched catalog \<and> untouched clock \<and> untouched contract
    \<and> (\<forall>r. untouched (src_validate_bundle source r))
    \<and> (\<forall>p. untouched (src_sha256_path source p) \<and> untouched (src_read_path source p))"

section \<open>The locked part\<close>

lemma write_nothing:
  "\<not> changes_rows plan \<Longrightarrow> write_delta ds digests plan = ret ()"
  by (rule ext) (simp add: changes_rows_def write_delta_def io_run)

lemma apply_delta_fresh:
  assumes run: "txn_apply_delta view sha256 ds plan state w = (Inr x, w')" and fresh: "fresh_view view (working w)"
  shows "fresh_view view (working w')"
proof (cases "changes_rows plan")
  case True
  have "verified view sha256 plan state (working w')"
    using hoareD_Inr [OF apply_delta_verified _ run] by blast
  then show ?thesis
    using True by (simp add: verified_def fresh_view_def)
next
  case False
  obtain digests w1 w2 where w: "check_summary state ds w = (Inr (), w1)" "check_digests sha256 plan ds w1 = (Inr (), w2)"
    "execute (upsert_state state) w2 = (Inr x, w')"
    using run False by (auto simp: txn_apply_delta_def bind_eq_Inr seq_eq_Inr lift_Inr write_nothing ret_def)
  have "working w2 = working w"
    using check_summary_InrD [OF w(1)] check_digests_InrD [OF w(2)] by simp
  then show ?thesis
    using execute_InrD [OF w(3)] fresh by (simp add: fresh_view_def upsert_state_def)
qed

lemma plan_source_digests:
  "plan_gold_delta pl sha256 f target st = Inr p \<Longrightarrow>
    \<exists>rows. source_rows_and_digests pl sha256 f = Inr (rows, dp_source_digests p)"
  by (auto simp: plan_gold_delta_def rbind_Inr guard_Inr Let_def GoldDeltaPlan_Inr split: prod.splits)

text \<open>The steps of a returning locked part: the reads, the plan and its application.\<close>

lemma sync_locked_steps:
  assumes ports: "\<And>p. untouched (src_read_path source p)"
    and run: "sync_locked pl ops sha256 source (pg_transaction view sha256) r path s w = (Inr out, w')"
  obtains prior target consumer f selected plan w1 where
    "rmap digest_from_row (digest_rows POSTGRES_DATASET_ID (working w)) = Inr target"
    "check_target prior target consumer = Inr ()"
    "reads_at (files w) (src_read_path source path) f" "validate_frame_metadata f r = Inr ()"
    "pl_select ops raw_selection f = Inr selected" "plan_gold_delta pl sha256 selected target prior = Inr plan"
    "working w1 = working w" "committed w1 = committed w"
    "txn_apply_delta view sha256 POSTGRES_DATASET_ID plan s w1 = (Inr (), w')"
    "GoldSyncResult POSTGRES_DATASET_ID (build_id r) (dp_inserted plan) (dp_updated plan)
      (dp_deleted plan) (dp_unchanged_count plan) = Inr out"
proof -
  obtain prior target consumer f selected plan w1 w2 w3 w4 w5 where
    w1: "txn_read_state POSTGRES_DATASET_ID w = (Inr prior, w1)"
    and w2: "txn_read_digests POSTGRES_DATASET_ID w1 = (Inr target, w2)"
    and w3: "txn_read_consumer_digests sha256 POSTGRES_DATASET_ID w2 = (Inr consumer, w3)"
    and check: "check_target prior target consumer = Inr ()"
    and w4: "src_read_path source path w3 = (Inr f, w4)" and f: "validate_frame_metadata f r = Inr ()"
    and selected: "pl_select ops raw_selection f = Inr selected" "plan_gold_delta pl sha256 selected target prior = Inr plan"
    and w5: "txn_apply_delta view sha256 POSTGRES_DATASET_ID plan s w4 = (Inr (), w5)" and w': "w' = w5"
    and out: "GoldSyncResult POSTGRES_DATASET_ID (build_id r) (dp_inserted plan) (dp_updated plan)
      (dp_deleted plan) (dp_unchanged_count plan) = Inr out"
    using run by (auto simp: sync_locked_def pg_transaction_def bind_eq_Inr seq_eq_Inr lift_Inr rbind_Inr)
  have "working w4 = working w3" "committed w4 = committed w3"
    using ports [of path] w4 by (auto simp: untouched_def dest: preservesD)
  then have same: "working w4 = working w" "committed w4 = committed w" "files w3 = files w"
    using preservesD [OF transaction_reads_working(1) w1] preservesD [OF transaction_reads_working(2) w2]
      preservesD [OF transaction_reads_working(3) w3] preservesD [OF transaction_reads_committed(1) w1]
      preservesD [OF transaction_reads_committed(2) w2] preservesD [OF transaction_reads_committed(3) w3]
      preservesD [OF transaction_reads_committed(5) w1] preservesD [OF transaction_reads_committed(6) w2]
      preservesD [OF transaction_reads_committed(7) w3]
    by simp_all
  have target: "rmap digest_from_row (digest_rows POSTGRES_DATASET_ID (working w)) = Inr target"
    using txn_read_digests_InrD [OF w2] preservesD [OF transaction_reads_working(1) w1] by simp
  have "reads_at (files w) (src_read_path source path) f"
    using w4 same(3) by (auto simp: reads_at_def)
  then show ?thesis
    using that [OF target check _ f selected same(1,2) _ out] w5 w' by blast
qed

lemma sync_locked_InrD:
  assumes ports: "\<And>p. untouched (src_read_path source p)"
    and desired: "checkpoint_of r sha s"
    and run: "sync_locked pl ops sha256 source (pg_transaction view sha256) r path s w = (Inr out, w')"
  shows "\<exists>f. reads_at (files w) (src_read_path source path) f \<and> serves pl ops sha256 r sha f (working w')
    \<and> sr_source_build_id out = build_id r" "committed w' = committed w"
    "fresh_view view (working w) \<Longrightarrow> fresh_view view (working w')"
proof -
  obtain prior target f selected plan w1 where f: "reads_at (files w) (src_read_path source path) f" "validate_frame_metadata f r = Inr ()"
    and selected: "pl_select ops raw_selection f = Inr selected" "plan_gold_delta pl sha256 selected target prior = Inr plan"
    and w1: "working w1 = working w" "committed w1 = committed w"
    and run1: "txn_apply_delta view sha256 POSTGRES_DATASET_ID plan s w1 = (Inr (), w')"
    and out: "GoldSyncResult POSTGRES_DATASET_ID (build_id r) (dp_inserted plan) (dp_updated plan)
      (dp_deleted plan) (dp_unchanged_count plan) = Inr out"
    using sync_locked_steps [OF ports run] by metis
  obtain rows where rows: "source_rows_and_digests pl sha256 selected = Inr (rows, dp_source_digests plan)"
    using plan_source_digests [OF selected(2)] by blast
  have v: "verified view sha256 plan s (working w')" and c: "committed w' = committed w1"
    using hoareD_Inr [OF apply_delta_verified _ run1, of "committed w1"] by auto
  then have "serves pl ops sha256 r sha f (working w')"
    using f(2) selected(1) rows desired unfolding serves_def verified_def by blast
  then show "\<exists>f. reads_at (files w) (src_read_path source path) f \<and> serves pl ops sha256 r sha f (working w')
      \<and> sr_source_build_id out = build_id r"
    using f(1) out by (auto simp: GoldSyncResult_Inr)
  show "committed w' = committed w"
    using c w1 by simp
  show "fresh_view view (working w')" if "fresh_view view (working w)"
    using apply_delta_fresh [OF run1] that w1(1) by simp
qed

lemma sync_locked_committed:
  assumes "\<And>p. untouched (src_read_path source p)"
  shows "preserves committed (sync_locked pl ops sha256 source (pg_transaction view sha256) r path s)"
  using assms by (auto simp: sync_locked_def pg_transaction_def untouched_def intro!: preserves_intros)

section \<open>The whole run\<close>

lemma desired_state_InrD:
  assumes "desired_state clock r sha w = (Inr s, w')" "is_sha256_hex sha"
  shows "checkpoint_of r sha s" "st_dataset_id s = POSTGRES_DATASET_ID"
  using assms by (auto simp: desired_state_def bind_eq_Inr lift_Inr guard_Inr GoldSyncState_Inr checkpoint_of_def
      valid_sync_state_def throw_def split: option.splits)

lemma desired_state_untouched: "untouched clock \<Longrightarrow> untouched (desired_state clock r sha)"
  unfolding untouched_def desired_state_def by (auto intro!: preserves_intros)

lemma preflight_committed:
  assumes "preserves committed contract"
  shows "preserves committed (repo_preflight contract policy)"
  using assms by (auto simp: repo_preflight_def intro!: preserves_intros)

lemma preflight_files:
  assumes "preserves files contract"
  shows "preserves files (repo_preflight contract policy)"
  using assms by (auto simp: repo_preflight_def intro!: preserves_intros)

text \<open>What a run may have committed; \<open>out\<close> is what it reports.\<close>

definition synchronized ::
  "polars \<Rightarrow> polars_ops \<Rightarrow> (byte list \<Rightarrow> string) \<Rightarrow> ((string \<Rightarrow> raw_table) \<Rightarrow> 'v) \<Rightarrow>
    (('v, 'z) pg_scheme, gold_record list) io \<Rightarrow> ('v, 'z) pg_scheme gold_source \<Rightarrow> (path \<times> content) list \<Rightarrow> 'v pg_db \<Rightarrow>
    gold_sync_result \<Rightarrow> 'v pg_db \<Rightarrow> bool" where
  "synchronized pl ops sha256 view catalog source F D out db \<longleftrightarrow>
    (\<exists>records r path sha f. reads_at F catalog records \<and> select_current_sync_record records = Inr r
      \<and> data_path r = Some path \<and> reads_at F (src_validate_bundle source r) ()
      \<and> reads_at F (src_sha256_path source path) sha
      \<and> reads_at F (src_read_path source path) f \<and> serves pl ops sha256 r sha f db
      \<and> sr_source_build_id out = build_id r)
    \<and> (fresh_view view D \<longrightarrow> fresh_view view db)"

lemma required_data_path_Inr: "required_data_path r = Inr p \<longleftrightarrow> data_path r = Some p \<and> p \<noteq> []"
  by (auto simp: required_data_path_def split: option.splits)

lemma validate_bundle_untouched:
  "untouched (src_validate_bundle source r) \<Longrightarrow> untouched (sync_validate_bundle source r)"
  unfolding untouched_def sync_validate_bundle_def by (auto intro!: preserves_intros)

text \<open>A call that reads the lake, as a step of a run that commits at most once, later.\<close>

lemma reading_step:
  fixes m :: "(('v, 'z) pg_scheme, 'a) io" and k :: "'a \<Rightarrow> (('v, 'z) pg_scheme, 'b) io"
  assumes m: "preserves committed m" "preserves files m"
    and k: "\<And>x. reads_at F m x \<Longrightarrow> hoare (\<lambda>w. committed w = D \<and> files w = F) (k x) Q (\<lambda>_ w. committed w = D \<or> X w)"
  shows "hoare (\<lambda>w. committed w = D \<and> files w = F) (bind m k) Q (\<lambda>_ w. committed w = D \<or> X w)"
proof -
  have next_ok: "reads_at F m y \<and> committed w1 = D \<and> files w1 = F"
    if "committed w = D \<and> files w = F" "m w = (Inr y, w1)" for w y w1
    using that preservesD [OF m(1) that(2)] preservesD [OF m(2) that(2)] by (auto simp: reads_at_def)
  show ?thesis
  proof (rule hoareI)
    fix w x w'
    assume P: "committed w = D \<and> files w = F" and "bind m k w = (Inr x, w')"
    then obtain y w1 where y: "m w = (Inr y, w1)" "k y w1 = (Inr x, w')"
      by (auto simp: bind_eq_Inr)
    show "Q x w'"
      using hoareD_Inr [OF k _ y(2)] next_ok [OF P y(1)] by blast
  next
    fix w e w'
    assume P: "committed w = D \<and> files w = F" and "bind m k w = (Inl e, w')"
    then consider "m w = (Inl e, w')" | y w1 where "m w = (Inr y, w1)" "k y w1 = (Inl e, w')"
      by (auto simp: bind_eq_Inl)
    then show "committed w' = D \<or> X w'"
    proof cases
      case 1
      show ?thesis
        using preservesD [OF m(1) 1] P by simp
    next
      case 2
      show ?thesis
        using hoareD_Inl [OF k _ 2(2)] next_ok [OF P 2(1)] by blast
    qed
  qed
qed

lemma pure_step:
  assumes "\<And>x. q = Inr x \<Longrightarrow> hoare P (k x) Q (\<lambda>_ w. E w)" "\<And>w. P w \<Longrightarrow> E w"
  shows "hoare P (bind (lift q) k) Q (\<lambda>_ w. E w)"
  using assms by (cases q) (auto simp: hoare_def bind_def lift_def)

lemma bundle_read: "reads_at F (sync_validate_bundle source r) u \<Longrightarrow> reads_at F (src_validate_bundle source r) ()"
  by (auto simp: reads_at_def sync_validate_bundle_def try_except_eq_Inr throw_def)

lemma sync_locked_rule:
  assumes source: "\<And>p. untouched (src_read_path source p)"
    and reads: "reads_at F catalog records" "select_current_sync_record records = Inr r"
      "reads_at F (src_validate_bundle source r) ()" "required_data_path r = Inr path"
      "reads_at F (src_sha256_path source path) sha" and s: "checkpoint_of r sha s"
  shows "hoare (\<lambda>w. committed w = D \<and> working w = D \<and> files w = F \<and> lock_held w = Some key)
    (sync_locked pl ops sha256 source (pg_transaction view sha256) r path s)
    (\<lambda>out w. committed w = D \<and> synchronized pl ops sha256 view catalog source F D out (working w)) (\<lambda>_ w. committed w = D)"
proof (rule hoareI)
  fix w out w'
  assume P: "committed w = D \<and> working w = D \<and> files w = F \<and> lock_held w = Some key"
    and run: "sync_locked pl ops sha256 source (pg_transaction view sha256) r path s w = (Inr out, w')"
  obtain f where "reads_at F (src_read_path source path) f" "serves pl ops sha256 r sha f (working w')"
    "sr_source_build_id out = build_id r"
    using sync_locked_InrD(1) [OF source s run] P by blast
  moreover have "committed w' = D" "fresh_view view D \<longrightarrow> fresh_view view (working w')"
    using sync_locked_InrD(2,3) [OF source s run] P by simp_all
  ultimately show "committed w' = D \<and> synchronized pl ops sha256 view catalog source F D out (working w')"
    using reads unfolding synchronized_def required_data_path_Inr by blast
next
  fix w e w'
  assume "committed w = D \<and> working w = D \<and> files w = F \<and> lock_held w = Some key"
    "sync_locked pl ops sha256 source (pg_transaction view sha256) r path s w = (Inl e, w')"
  then show "committed w' = D"
    using preservesD [OF sync_locked_committed [OF source]] by fastforce
qed

text \<open>
  A run commits only through its locked transaction: what holds of the tables this leaves holds of
  the committed tables, unless they are unchanged.
\<close>

lemma gold_sync_general:
  assumes ports: "reading_ports catalog source clock contract"
    and locked: "\<And>records r path sha s. reads_at F catalog records \<Longrightarrow> select_current_sync_record records = Inr r \<Longrightarrow>
      reads_at F (src_validate_bundle source r) () \<Longrightarrow> required_data_path r = Inr path \<Longrightarrow>
      reads_at F (src_sha256_path source path) sha \<Longrightarrow> checkpoint_of r sha s \<Longrightarrow>
      hoare (\<lambda>w. committed w = D \<and> working w = D \<and> files w = F \<and> lock_held w = Some key)
        (sync_locked pl ops sha256 source (pg_transaction view sha256) r path s)
        (\<lambda>out w. committed w = D \<and> Q out (working w)) (\<lambda>_ w. committed w = D)"
  shows "hoare (\<lambda>w. committed w = D \<and> files w = F)
    (gold_sync pl ops sha256 catalog source (pg_repository contract view sha256 policy key) clock)
    (\<lambda>out w. Q out (committed w)) (\<lambda>_ w. committed w = D \<or> (\<exists>out. Q out (committed w)))"
proof -
  have p: "preserves committed catalog" "preserves files catalog" "untouched clock"
    "preserves committed (repo_preflight contract policy)" "preserves files (repo_preflight contract policy)"
    "\<And>r. preserves committed (sync_validate_bundle source r)" "\<And>r. preserves files (sync_validate_bundle source r)"
    "\<And>p. preserves committed (src_sha256_path source p)" "\<And>p. preserves files (src_sha256_path source p)"
    using ports preflight_committed preflight_files validate_bundle_untouched [of source]
    by (auto simp: reading_ports_def untouched_def)
  have d: "preserves committed (desired_state clock r sha)" "preserves files (desired_state clock r sha)" for r sha
    using desired_state_untouched [OF p(3)] by (auto simp: untouched_def)
  have s: "checkpoint_of r sha s" if "reads_at F (desired_state clock r sha) s" "sync_validate_sha256 sha = Inr ()" for r sha s
    using that desired_state_InrD(1) unfolding reads_at_def sync_validate_sha256_def by fastforce
  show ?thesis
    unfolding gold_sync_def seq_def pg_repository_def gold_sync_repository.select_convs
    by (intro reading_step pure_step p d run_locked_rule locked disjI1) (auto intro: bundle_read s)
qed

lemma gold_sync_rule:
  assumes "reading_ports catalog source clock contract"
  shows "hoare (\<lambda>w. committed w = D \<and> files w = F)
    (gold_sync pl ops sha256 catalog source (pg_repository contract view sha256 policy key) clock)
    (\<lambda>out w. synchronized pl ops sha256 view catalog source F D out (committed w))
    (\<lambda>_ w. committed w = D \<or> (\<exists>out. synchronized pl ops sha256 view catalog source F D out (committed w)))"
  using assms by (intro gold_sync_general sync_locked_rule) (auto simp: reading_ports_def)

end
