(* ===== verification/Pg_Liveness.thy ===== *)
theory Pg_Liveness
  imports Pg_Tables Pg_Synchronization
begin

text \<open>
  A synchronization of healthy tables returns when no call fails: the writes of the delta make the
  tables hold the source, so every check after them passes.
\<close>

section \<open>The writes of a delta\<close>

definition delta_effect :: "(datetime \<Rightarrow> string) \<Rightarrow> gold_delta_plan \<Rightarrow> 'v pg_db \<Rightarrow> 'v pg_db" where
  "delta_effect h plan db =
    fold (delete_digest POSTGRES_DATASET_ID) (dp_deletes plan)
      (fold (\<lambda>r. upsert_digest POSTGRES_DATASET_ID (pay_timestamp r) (h (pay_timestamp r))) (dp_inserts plan @ dp_updates plan)
        (fold timestamp_effect (dp_deletes plan)
          (fold row_effect (dp_updates plan) (fold row_effect (dp_inserts plan) db))))"

lemma write_delta_quiet:
  assumes fits: "list_all row_fits_tables (dp_inserts plan @ dp_updates plan)"
    and digests: "\<And>r. r \<in> set (dp_inserts plan @ dp_updates plan) \<Longrightarrow> map_of digests (pay_timestamp r) = Some (h (pay_timestamp r))"
  shows "quiet (write_delta POSTGRES_DATASET_ID digests plan) (delta_effect h plan)"
proof -
  have rows: "quiet (for_each apply_feature_row rs) (fold row_effect rs)"
    if "set rs \<subseteq> set (dp_inserts plan @ dp_updates plan)" for rs
    using fits that by (intro quiet_for_each apply_feature_row_quiet) (auto simp: list_all_iff)
  have upserts: "quiet (for_each (\<lambda>row. bind (lift (digest_of digests (pay_timestamp row)))
      (\<lambda>x. execute (upsert_digest POSTGRES_DATASET_ID (pay_timestamp row) x))) (dp_inserts plan @ dp_updates plan))
    (fold (\<lambda>r. upsert_digest POSTGRES_DATASET_ID (pay_timestamp r) (h (pay_timestamp r))) (dp_inserts plan @ dp_updates plan))"
  proof (rule quiet_for_each)
    fix r
    assume "r \<in> set (dp_inserts plan @ dp_updates plan)"
    then have "digest_of digests (pay_timestamp r) = Inr (h (pay_timestamp r))"
      using digests by (simp add: digest_of_def)
    then show "quiet (bind (lift (digest_of digests (pay_timestamp r)))
        (\<lambda>x. execute (upsert_digest POSTGRES_DATASET_ID (pay_timestamp r) x)))
      (upsert_digest POSTGRES_DATASET_ID (pay_timestamp r) (h (pay_timestamp r)))"
      by (rule quiet_lift) (rule quiet_execute)
  qed
  have deletes: "quiet (for_each delete_feature_timestamp ts) (fold timestamp_effect ts)"
    "quiet (for_each (\<lambda>t. execute (delete_digest POSTGRES_DATASET_ID t)) ts) (fold (delete_digest POSTGRES_DATASET_ID) ts)" for ts
    by (intro quiet_for_each delete_timestamp_quiet quiet_execute)+
  have "set (dp_inserts plan) \<subseteq> set (dp_inserts plan @ dp_updates plan)" "set (dp_updates plan) \<subseteq> set (dp_inserts plan @ dp_updates plan)"
    by auto
  note rows = this [THEN rows]
  show ?thesis
    using quiet_seq [OF rows(1) quiet_seq [OF rows(2) quiet_seq [OF deletes(1) quiet_seq [OF upserts deletes(2)]]]]
    unfolding write_delta_def delta_effect_def [abs_def] .
qed

lemma delta_effect_tables:
  fixes db :: "'v pg_db"
  assumes fits: "list_all row_fits_tables (dp_inserts plan @ dp_updates plan)"
    and dist: "distinct (map pay_timestamp (dp_inserts plan))" "distinct (map pay_timestamp (dp_updates plan))"
  shows "wide (delta_effect h plan db) t =
      (if t \<in> set (dp_deletes plan) then all_null
       else case find (\<lambda>r. pay_timestamp r = t) (dp_updates plan) of Some r \<Rightarrow> pay_values r
       | None \<Rightarrow> (case find (\<lambda>r. pay_timestamp r = t) (dp_inserts plan) of Some r \<Rightarrow> pay_values r | None \<Rightarrow> wide db t))"
    "hash_at (delta_effect h plan db) t =
      (if t \<in> set (dp_deletes plan) then None
       else if t \<in> pay_timestamp ` set (dp_inserts plan @ dp_updates plan) then Some (h t) else hash_at db t)"
    "raw_ok (raw db) \<Longrightarrow> raw_ok (raw (delta_effect h plan db))"
    "hashes_ok db \<Longrightarrow> (\<And>r. r \<in> set (dp_inserts plan @ dp_updates plan) \<Longrightarrow> is_sha256_hex (h (pay_timestamp r))) \<Longrightarrow>
      hashes_ok (delta_effect h plan db)"
proof -
  let ?raw = "\<lambda>db. fold timestamp_effect (dp_deletes plan) (fold row_effect (dp_updates plan) (fold row_effect (dp_inserts plan) db))"
  let ?ups = "fold (\<lambda>r. upsert_digest POSTGRES_DATASET_ID (pay_timestamp r) (h (pay_timestamp r))) (dp_inserts plan @ dp_updates plan)"
  have frame: "raw_write (?raw :: 'v pg_db \<Rightarrow> 'v pg_db)"
  proof -
    have rows: "raw_write (fold row_effect rs)" if "set rs \<subseteq> set (dp_inserts plan @ dp_updates plan)" for rs
      using fits that by (intro raw_write_fold row_effect_write) (auto simp: list_all_iff)
    show ?thesis
      by (rule raw_write_comp [OF raw_write_comp [OF rows rows] raw_write_fold [OF timestamp_effect_write]]) auto
  qed
  have raw: "raw (delta_effect h plan db) = raw (?raw db)"
  proof -
    have del: "raw (fold (delete_digest POSTGRES_DATASET_ID) ts d) = raw d" for ts and d :: "'v pg_db"
      by (rule fold_same) (simp add: delete_digest_def)
    have ups: "raw (fold (\<lambda>r. upsert_digest POSTGRES_DATASET_ID (pay_timestamp r) (h (pay_timestamp r))) rs d) = raw d"
      for rs and d :: "'v pg_db"
      by (rule fold_same) (simp add: upsert_digest_def)
    show ?thesis
      unfolding delta_effect_def del ups ..
  qed
  show "wide (delta_effect h plan db) t =
      (if t \<in> set (dp_deletes plan) then all_null
       else case find (\<lambda>r. pay_timestamp r = t) (dp_updates plan) of Some r \<Rightarrow> pay_values r
       | None \<Rightarrow> (case find (\<lambda>r. pay_timestamp r = t) (dp_inserts plan) of Some r \<Rightarrow> pay_values r | None \<Rightarrow> wide db t))"
    unfolding raw deletes_wide using fits dist by (simp add: rows_wide split: option.split)
  have hash: "hash_at (?raw db) = hash_at db"
    using frame by (simp add: raw_write_def hash_at_def fun_eq_iff)
  show "hash_at (delta_effect h plan db) t =
      (if t \<in> set (dp_deletes plan) then None
       else if t \<in> pay_timestamp ` set (dp_inserts plan @ dp_updates plan) then Some (h t) else hash_at db t)"
    unfolding delta_effect_def deletes_hash upserts_hash hash ..
  show "raw_ok (raw (delta_effect h plan db))" if "raw_ok (raw db)"
    using frame that unfolding raw by (simp add: raw_write_def)
  show "hashes_ok (delta_effect h plan db)"
    if ok: "hashes_ok db" and hex: "\<And>r. r \<in> set (dp_inserts plan @ dp_updates plan) \<Longrightarrow> is_sha256_hex (h (pay_timestamp r))"
  proof -
    have "hashes_ok (?raw db)"
      using frame ok hash by (simp add: hashes_ok_def raw_write_def)
    moreover have "hashes_ok (?ups d)" if "hashes_ok d" for d :: "'v pg_db"
      using that hex fits
      by (intro fold_keeps [where P = hashes_ok] upsert_digest_ok) (auto simp: list_all_iff row_fits_tables_def)
    moreover have "hashes_ok (fold (delete_digest POSTGRES_DATASET_ID) (dp_deletes plan) d)" if "hashes_ok d" for d :: "'v pg_db"
      using that by (intro fold_keeps [where P = hashes_ok] delete_digest_ok)
    ultimately show ?thesis
      unfolding delta_effect_def by blast
  qed
qed

section \<open>Healthy tables\<close>

text \<open>
  The tables as an earlier synchronization leaves them: well-formed keys, and every row of the digest
  index is the digest of the served row of its timestamp.
\<close>

definition row_digest :: "(byte list \<Rightarrow> string) \<Rightarrow> 'v pg_db \<Rightarrow> datetime \<Rightarrow> string option" where
  "row_digest sha256 db t =
    (if null_row (wide db t) then None
     else case gold_row_sha256 sha256 \<lparr>pay_timestamp = t, pay_values = wide db t\<rparr> of Inl e \<Rightarrow> None | Inr h \<Rightarrow> Some h)"

definition healthy :: "(byte list \<Rightarrow> string) \<Rightarrow> 'v pg_db \<Rightarrow> bool" where
  "healthy sha256 db \<longleftrightarrow> raw_ok (raw db) \<and> hashes_ok db
    \<and> (\<forall>t. null_row (wide db t) \<longleftrightarrow> hash_at db t = None) \<and> (\<forall>t. hash_at db t = row_digest sha256 db t)"

text \<open>A source whose rows the tables can hold, none of them empty.\<close>

definition servable :: "(byte list \<Rightarrow> string) \<Rightarrow> gold_row_payload list \<Rightarrow> gold_row_digest list \<Rightarrow> bool" where
  "servable sha256 rows digests \<longleftrightarrow> source_of sha256 rows digests
    \<and> list_all (\<lambda>r. row_fits_tables r \<and> \<not> null_row (pay_values r)) rows
    \<and> list_all (\<lambda>d. is_sha256_hex (dig_sha256 d)) digests"

lemma servable_row:
  assumes "servable sha256 rows digests" "r \<in> set rows"
  shows "row_fits_tables r" "\<not> null_row (pay_values r)"
    "\<exists>h. digest_index digests (pay_timestamp r) = Some h \<and> gold_row_sha256 sha256 r = Inr h \<and> is_sha256_hex h"
proof -
  show "row_fits_tables r" "\<not> null_row (pay_values r)"
    using assms by (auto simp: servable_def list_all_iff)
  obtain i where i: "i < length rows" "r = rows ! i"
    using assms(2) by (auto simp: in_set_conv_nth)
  have src: "source_of sha256 rows digests"
    using assms(1) by (simp add: servable_def)
  then have len: "length rows = length digests" "gold_row_sha256 sha256 r = Inr (dig_sha256 (digests ! i))"
    using i by (auto simp: source_of_def list_all2_conv_all_nth)
  then have d: "digests ! i \<in> set digests"
    using i by simp
  moreover have "pay_timestamp r = dig_timestamp (digests ! i)"
    using src i len(1) nth_map [of i rows pay_timestamp] by (auto simp: source_of_def)
  ultimately show "\<exists>h. digest_index digests (pay_timestamp r) = Some h \<and> gold_row_sha256 sha256 r = Inr h \<and> is_sha256_hex h"
    using len(2) src digest_index_mem [OF _ d] assms(1) by (auto simp: source_of_def servable_def list_all_iff)
qed

text \<open>After the writes the tables are healthy again and hold exactly the source.\<close>

lemma delta_reaches_source:
  assumes healthy: "healthy sha256 db" and source: "servable sha256 rows digests"
    and target: "digest_index target = hash_at db" and plan: "is_delta rows digests target plan"
    and db': "db' = delta_effect (\<lambda>t. the (digest_index digests t)) plan db"
  shows "raw_ok (raw db')" "hashes_ok db'" "hash_at db' = digest_index digests"
    "\<And>t. null_row (wide db' t) \<longleftrightarrow> t \<notin> pay_timestamp ` set rows"
    "\<And>t h. digest_index digests t = Some h \<Longrightarrow> row_digest sha256 db' t = Some h"
proof -
  have keys: "map pay_timestamp rows = map dig_timestamp digests" and dist: "distinct (map pay_timestamp rows)"
    using source by (auto simp: servable_def source_of_def)
  have ins: "dp_inserts plan = filter (\<lambda>r. digest_index target (pay_timestamp r) = None) rows"
    and upd: "dp_updates plan = filter (\<lambda>r. digest_index target (pay_timestamp r) \<notin> {None, digest_index digests (pay_timestamp r)}) rows"
    and del: "set (dp_deletes plan) = {t. digest_index target t \<noteq> None \<and> digest_index digests t = None}"
    using plan by (auto simp: is_delta_def)
  have dom: "digest_index digests t = None \<longleftrightarrow> t \<notin> pay_timestamp ` set rows" for t
    unfolding digest_index_dom using arg_cong [OF keys, of set] by auto
  have fits: "list_all row_fits_tables (dp_inserts plan @ dp_updates plan)"
    using servable_row(1) [OF source] by (auto simp: ins upd list_all_iff)
  have dists: "distinct (map pay_timestamp (dp_inserts plan))" "distinct (map pay_timestamp (dp_updates plan))"
    unfolding ins upd using dist by (simp_all add: distinct_map_filter)
  note tables = delta_effect_tables [OF fits dists, where h = "\<lambda>t. the (digest_index digests t)" and db = db, folded db']
  show "raw_ok (raw db')"
    using tables(3) healthy by (simp add: healthy_def)
  show "hashes_ok db'"
    using tables(4) healthy servable_row(3) [OF source] by (fastforce simp: healthy_def ins upd)
  have applied: "applied_index plan (digest_index target) = digest_index digests"
    by (rule delta_applied [OF plan keys])
  show hash: "hash_at db' = digest_index digests"
  proof
    fix t
    have "t \<in> pay_timestamp ` set (dp_inserts plan @ dp_updates plan) \<Longrightarrow> digest_index digests t \<noteq> None"
      unfolding dom ins upd by auto
    then show "hash_at db' t = digest_index digests t"
      using fun_cong [OF applied, of t] plan unfolding tables(2) target [symmetric] applied_index_def is_delta_def
      by (auto split: if_splits)
  qed
  have changed: "wide db' (pay_timestamp r) = pay_values r"
    if r: "r \<in> set rows" and c: "digest_index target (pay_timestamp r) \<noteq> digest_index digests (pay_timestamp r)" for r
  proof -
    have in_digests: "digest_index digests (pay_timestamp r) \<noteq> None"
      using r dom by blast
    have find: "find (\<lambda>x. pay_timestamp x = pay_timestamp r) (filter P rows) = (if P r then Some r else None)" for P
    proof (cases "P r")
      case True
      then show ?thesis
        using find_Some_unique [of pay_timestamp "filter P rows" r] r dist by (simp add: distinct_map_filter)
    next
      case False
      then show ?thesis
        using r distinct_map_eqD [OF dist] by (auto simp: find_None_iff)
    qed
    show ?thesis
      using c in_digests del unfolding tables(1) ins upd find by (auto split: option.split)
  qed
  have kept: "wide db' t = wide db t" if "digest_index target t = digest_index digests t" for t
  proof -
    have "find (\<lambda>x. pay_timestamp x = t) (dp_inserts plan) = None" "find (\<lambda>x. pay_timestamp x = t) (dp_updates plan) = None"
      using that dom [of t] by (auto simp: ins upd find_None_iff)
    then show ?thesis
      using that del unfolding tables(1) by auto
  qed
  have gone: "null_row (wide db' t)" if "digest_index target t \<noteq> None" "digest_index digests t = None" for t
    using that del unfolding tables(1) by simp
  show "null_row (wide db' t) \<longleftrightarrow> t \<notin> pay_timestamp ` set rows" for t
  proof (cases "digest_index target t = digest_index digests t")
    case True
    then show ?thesis
      using healthy kept [OF True] dom [of t] target by (auto simp: healthy_def)
  next
    case False
    show ?thesis
    proof (cases "t \<in> pay_timestamp ` set rows")
      case True
      then obtain r where "r \<in> set rows" "t = pay_timestamp r"
        by blast
      then show ?thesis
        using changed False servable_row(2) [OF source] True by auto
    next
      case out: False
      then show ?thesis
        using gone dom [of t] False by auto
    qed
  qed
  show "row_digest sha256 db' t = Some h" if h: "digest_index digests t = Some h" for t h
  proof (cases "digest_index target t = digest_index digests t")
    case True
    have "row_digest sha256 db t = Some h"
      using healthy h True target by (metis healthy_def)
    then show ?thesis
      using kept [OF True] by (simp add: row_digest_def split: if_splits)
  next
    case False
    have "t \<in> pay_timestamp ` set rows"
      using h dom [of t] by simp
    then obtain r where r: "r \<in> set rows" "t = pay_timestamp r"
      by (elim imageE)
    have "wide db' t = pay_values r"
      unfolding r(2) by (rule changed [OF r(1)]) (rule False [unfolded r(2)])
    moreover have "\<not> null_row (pay_values r)"
      by (rule servable_row(2) [OF source r(1)])
    moreover have "\<lparr>pay_timestamp = t, pay_values = pay_values r\<rparr> = r"
      using r(2) by simp
    moreover have "gold_row_sha256 sha256 r = Inr h"
      using servable_row(3) [OF source r(1)] h r(2) by auto
    ultimately show ?thesis
      by (simp add: row_digest_def)
  qed
qed

end
