(* ===== verification/Pg_Returns.thy ===== *)
theory Pg_Returns
  imports Pg_Liveness
begin

text \<open>
  The checks after the writes of a delta pass, so a synchronization of healthy tables returns when no
  call fails.
\<close>

section \<open>Reading the served rows\<close>

lemma consumer_digest_row:
  assumes "length vs = 49"
  shows "consumer_digest sha256 (STime t # map opt_float vs) = Inr d \<longleftrightarrow>
    is_utc t \<and> gold_row_sha256 sha256 \<lparr>pay_timestamp = t, pay_values = vs\<rparr> = Inr (dig_sha256 d)
    \<and> is_sha256_hex (dig_sha256 d) \<and> dig_timestamp d = t"
proof (cases "is_utc t")
  case True
  then show ?thesis
    using payload_of_row [OF True assms] by (cases d) (auto simp: consumer_digest_def rbind_Inr GoldRowDigest_Inr)
next
  case False
  have "payload_from_row (STime t # map opt_float vs) \<noteq> Inr p" for p
    using False by (auto simp: payload_from_row_def as_datetime_def rbind_Inr GoldRowPayload_Inr)
  then show ?thesis
    using False by (auto simp: consumer_digest_def rbind_Inr)
qed

lemma read_consumer:
  "rmap (consumer_digest sha256) (consumer_rows (raw db)) = Inr ds \<longleftrightarrow>
    list_all2 (\<lambda>t d. is_utc t \<and> gold_row_sha256 sha256 \<lparr>pay_timestamp = t, pay_values = wide db t\<rparr> = Inr (dig_sha256 d)
      \<and> is_sha256_hex (dig_sha256 d) \<and> dig_timestamp d = t) (consumer_timestamps (raw db)) ds"
  by (simp add: consumer_rows_def rmap_Inr list_all2_map1 consumer_digest_row projected_length)

lemma consumer_distinct: "distinct (consumer_timestamps r)"
  by (simp add: consumer_timestamps_def raw_timestamps_def)

lemma read_consumer_index:
  assumes "rmap (consumer_digest sha256) (consumer_rows (raw db)) = Inr ds"
  shows "map dig_timestamp ds = consumer_timestamps (raw db)" "digest_index ds = row_digest sha256 db"
proof -
  have all: "list_all2 (\<lambda>t d. is_utc t \<and> gold_row_sha256 sha256 \<lparr>pay_timestamp = t, pay_values = wide db t\<rparr> = Inr (dig_sha256 d)
      \<and> is_sha256_hex (dig_sha256 d) \<and> dig_timestamp d = t) (consumer_timestamps (raw db)) ds"
    using assms by (simp add: read_consumer)
  show ts: "map dig_timestamp ds = consumer_timestamps (raw db)"
    using all by (auto simp: list_all2_conv_all_nth intro!: nth_equalityI)
  have dist: "distinct (map dig_timestamp ds)"
    unfolding ts by (rule consumer_distinct)
  show "digest_index ds = row_digest sha256 db"
  proof
    fix t
    show "digest_index ds t = row_digest sha256 db t"
    proof (cases "null_row (wide db t)")
      case True
      then have "t \<notin> dig_timestamp ` set ds"
        using consumer_timestamps_mem [of t "raw db"] arg_cong [OF ts, of set] by auto
      then show ?thesis
        using True digest_index_dom [of ds t] by (simp add: row_digest_def)
    next
      case False
      then have "t \<in> set (map dig_timestamp ds)"
        unfolding ts by (simp add: consumer_timestamps_mem)
      then obtain i where i: "i < length ds" "t = dig_timestamp (ds ! i)"
        by (auto simp: in_set_conv_nth)
      then have "gold_row_sha256 sha256 \<lparr>pay_timestamp = t, pay_values = wide db t\<rparr> = Inr (dig_sha256 (ds ! i))"
        using all by (auto simp: list_all2_conv_all_nth)
      then show ?thesis
        using False i digest_index_mem [OF dist nth_mem [OF i(1)]] by (simp add: row_digest_def)
    qed
  qed
qed

text \<open>The reads that pass the checks before a delta establish the health of the tables.\<close>

lemma checked_healthy:
  assumes raw: "raw_ok (raw db)" and keys: "distinct (map fst (row_hashes db))"
    and target: "rmap digest_from_row (digest_rows POSTGRES_DATASET_ID db) = Inr target"
    and consumer: "rmap (consumer_digest sha256) (consumer_rows (raw db)) = Inr consumer"
    and eq: "dict_eq (digest_dict target) (digest_dict consumer)"
  shows "healthy sha256 db" "digest_index target = hash_at db"
proof -
  note ok = hashes_okI [OF keys target]
  show index: "digest_index target = hash_at db"
    using read_index(3) [OF ok(1)] ok(2) by simp
  have "distinct (map dig_timestamp target)" "distinct (map dig_timestamp consumer)"
    using read_index(2) [OF ok(1)] ok(2) read_consumer_index(1) [OF consumer] consumer_distinct by simp_all
  then have same: "hash_at db = row_digest sha256 db"
    using eq index read_consumer_index(2) [OF consumer] by (simp add: digest_dict_eq)
  have "null_row (wide db t) \<longleftrightarrow> digest_index consumer t = None" for t
    using consumer_timestamps_mem [of t "raw db"] arg_cong [OF read_consumer_index(1) [OF consumer], of set]
    by (auto simp: digest_index_dom)
  then show "healthy sha256 db"
    using raw ok(1) same read_consumer_index(2) [OF consumer] by (simp add: healthy_def)
qed

section \<open>The checks after the writes\<close>

definition bounds_of :: "gold_row_payload list \<Rightarrow> gold_sync_state \<Rightarrow> bool" where
  "bounds_of rows s \<longleftrightarrow> st_row_count s = int (length rows)
    \<and> st_min_timestamp s = (if rows = [] then None else Some (pay_timestamp (hd rows)))
    \<and> st_max_timestamp s = (if rows = [] then None else Some (pay_timestamp (last rows)))"

lemma reached_reads:
  assumes source: "servable sha256 rows digests"
    and db: "raw_ok (raw db)" "hashes_ok db" "hash_at db = digest_index digests"
      "\<And>t. null_row (wide db t) \<longleftrightarrow> t \<notin> pay_timestamp ` set rows"
      "\<And>t h. digest_index digests t = Some h \<Longrightarrow> row_digest sha256 db t = Some h"
  shows "consumer_timestamps (raw db) = map pay_timestamp rows"
    "rmap (consumer_digest sha256) (consumer_rows (raw db)) = Inr digests"
    "\<exists>index. rmap digest_from_row (digest_rows POSTGRES_DATASET_ID db) = Inr index
      \<and> dict_eq (digest_dict index) (digest_dict digests)"
proof -
  have src: "map pay_timestamp rows = map dig_timestamp digests" "distinct (map dig_timestamp digests)"
    "sorted (map dt_num (map dig_timestamp digests))" and utc': "list_all (\<lambda>x. is_utc (pay_timestamp x)) rows"
    using source by (simp_all add: servable_def source_of_def comp_def list_all_iff)
  have utc: "list_all is_utc (map pay_timestamp rows)"
    using utc' by (simp only: list.pred_map comp_def)
  show ts: "consumer_timestamps (raw db) = map pay_timestamp rows"
  proof (rule consumer_timestamps_eq [OF db(1) _ _ utc])
    show "sorted (map dt_num (map pay_timestamp rows))" "distinct (map pay_timestamp rows)"
      unfolding src(1) by (rule src(3), rule src(2))
    show "t \<in> set (map pay_timestamp rows) \<longleftrightarrow> \<not> null_row (wide db t)" for t
      using db(4) [of t] by simp
  qed
  have "list_all2 (\<lambda>t d. is_utc t \<and> gold_row_sha256 sha256 \<lparr>pay_timestamp = t, pay_values = wide db t\<rparr> = Inr (dig_sha256 d)
      \<and> is_sha256_hex (dig_sha256 d) \<and> dig_timestamp d = t) (map dig_timestamp digests) digests"
  proof (rule list_all2_all_nthI)
    fix i
    assume i: "i < length (map dig_timestamp digests)"
    let ?d = "digests ! i"
    have d: "?d \<in> set digests"
      using i by simp
    have "row_digest sha256 db (dig_timestamp ?d) = Some (dig_sha256 ?d)"
      using db(5) digest_index_mem [OF src(2) d] by blast
    then have "gold_row_sha256 sha256 \<lparr>pay_timestamp = dig_timestamp ?d, pay_values = wide db (dig_timestamp ?d)\<rparr> = Inr (dig_sha256 ?d)"
      by (auto simp: row_digest_def split: if_splits sum.splits)
    moreover have "is_utc (dig_timestamp ?d)"
      using utc d unfolding src(1) by (auto simp: list_all_iff)
    moreover have "is_sha256_hex (dig_sha256 ?d)"
      using source d by (auto simp: servable_def list_all_iff)
    ultimately show "is_utc (map dig_timestamp digests ! i) \<and> gold_row_sha256 sha256
        \<lparr>pay_timestamp = map dig_timestamp digests ! i, pay_values = wide db (map dig_timestamp digests ! i)\<rparr> = Inr (dig_sha256 ?d)
      \<and> is_sha256_hex (dig_sha256 ?d) \<and> dig_timestamp ?d = map dig_timestamp digests ! i"
      using i by simp
  qed simp
  then show "rmap (consumer_digest sha256) (consumer_rows (raw db)) = Inr digests"
    unfolding read_consumer ts src(1) .
  show "\<exists>index. rmap digest_from_row (digest_rows POSTGRES_DATASET_ID db) = Inr index
      \<and> dict_eq (digest_dict index) (digest_dict digests)"
    using read_index [OF db(2)] db(3) src(2) by (auto simp: digest_dict_eq)
qed

lemma summary_reached:
  assumes "consumer_timestamps r = map pay_timestamp rows" "list_all (\<lambda>x. is_utc (pay_timestamp x)) rows"
    "bounds_of rows s"
  shows "\<exists>t. summary_from_row (summary_row r) = Inr t \<and> expected_summary s = Inr t"
proof -
  have "is_utc (pay_timestamp (hd rows))" "is_utc (pay_timestamp (last rows))" if "rows \<noteq> []"
    using assms(2) that by (auto simp: list_all_iff)
  then show ?thesis
    using assms(1,3) by (cases "rows = []") (auto simp: summary_from_row_def summary_row_def expected_summary_def
        bounds_of_def Let_def as_int_def as_datetime_def opt_time_def GoldTargetSummary_Inr hd_map last_map)
qed

text \<open>The states reached by a call when no call fails.\<close>

definition reaches :: "('z lake_scheme, 'a) io \<Rightarrow> 'z lake_scheme \<Rightarrow> 'a \<Rightarrow> 'z lake_scheme \<Rightarrow> bool" where
  "reaches m w x w' \<longleftrightarrow> m w = (Inr x, w') \<and> faults w' = [] \<and> files w' = files w"

lemma reaches_bind: "reaches m w x w' \<Longrightarrow> reaches (k x) w' y w'' \<Longrightarrow> reaches (bind m k) w y w''"
  by (simp add: reaches_def bind_def)

lemma reaches_seq: "reaches m w x w' \<Longrightarrow> reaches n w' y w'' \<Longrightarrow> reaches (seq m n) w y w''"
  unfolding seq_def by (rule reaches_bind)

lemma reaches_lift: "faults w = [] \<Longrightarrow> r = Inr x \<Longrightarrow> reaches (lift r) w x w"
  by (simp add: reaches_def lift_def)

lemma reaches_quiet: "quiet m f \<Longrightarrow> faults w = [] \<Longrightarrow> reaches m w () (w\<lparr>working := f (working w)\<rparr>)"
  by (simp add: reaches_def quiet_def)

lemma reaches_query: "faults w = [] \<Longrightarrow> f (working w) = x \<Longrightarrow> reaches (query f) w x w"
  by (simp add: reaches_def query_quiet)

lemma reaches_read_digests:
  "faults w = [] \<Longrightarrow> rmap digest_from_row (digest_rows POSTGRES_DATASET_ID (working w)) = Inr ds \<Longrightarrow>
    reaches (txn_read_digests POSTGRES_DATASET_ID) w ds w"
  unfolding txn_read_digests_def
  by (rule reaches_seq [OF reaches_lift reaches_bind [OF reaches_query reaches_lift]]) (simp_all add: require_dataset_def)

lemma reaches_read_consumer:
  "faults w = [] \<Longrightarrow> rmap (consumer_digest sha256) (consumer_rows (raw (working w))) = Inr ds \<Longrightarrow>
    reaches (txn_read_consumer_digests sha256 POSTGRES_DATASET_ID) w ds w"
  unfolding txn_read_consumer_digests_def
  by (rule reaches_seq [OF reaches_lift reaches_bind [OF reaches_query reaches_lift]]) (simp_all add: require_dataset_def)

lemma reaches_summary:
  "faults w = [] \<Longrightarrow> summary_from_row (summary_row (raw (working w))) = Inr s \<Longrightarrow>
    reaches (txn_summary POSTGRES_DATASET_ID) w s w"
  unfolding txn_summary_def
  by (rule reaches_seq [OF reaches_lift reaches_bind [OF reaches_query reaches_lift]]) (simp_all add: require_dataset_def)

lemma refresh_quiet: "quiet (refresh_features view) (\<lambda>db. db\<lparr>features := view (raw db)\<rparr>)"
  unfolding refresh_features_def by (rule quiet_seq [OF quiet_setting quiet_execute])

lemma checks_pass:
  assumes w: "faults w = []" and state: "summary_from_row (summary_row (raw (working w))) = Inr t" "expected_summary s = Inr t"
    and index: "rmap digest_from_row (digest_rows POSTGRES_DATASET_ID (working w)) = Inr index"
      "dict_eq (digest_dict index) (digest_dict (dp_source_digests plan))"
    and consumer: "rmap (consumer_digest sha256) (consumer_rows (raw (working w))) = Inr (dp_source_digests plan)"
    and refl: "dict_eq (digest_dict (dp_source_digests plan)) (digest_dict (dp_source_digests plan))"
  shows "reaches (check_summary s POSTGRES_DATASET_ID) w () w" "reaches (check_digests sha256 plan POSTGRES_DATASET_ID) w () w"
proof -
  show "reaches (check_summary s POSTGRES_DATASET_ID) w () w"
    unfolding check_summary_def
    by (rule reaches_bind [OF reaches_lift [OF w state(2)] reaches_bind [OF reaches_summary [OF w state(1)] reaches_lift [OF w]]]) simp
  show "reaches (check_digests sha256 plan POSTGRES_DATASET_ID) w () w"
    unfolding check_digests_def
    by (rule reaches_bind [OF reaches_read_digests [OF w index(1)] reaches_seq [OF reaches_lift [OF w]
        reaches_bind [OF reaches_read_consumer [OF w consumer] reaches_lift [OF w]]]]) (simp_all add: index(2) refl)
qed

lemma apply_delta_returns:
  assumes w: "faults w = []" and healthy: "healthy sha256 (working w)" and source: "servable sha256 rows digests"
    and target: "digest_index target = hash_at (working w)" and plan: "is_delta rows digests target plan"
    and state: "bounds_of rows s" "st_dataset_id s = POSTGRES_DATASET_ID"
  shows "\<exists>w'. reaches (txn_apply_delta view sha256 POSTGRES_DATASET_ID plan s) w () w'
    \<and> healthy sha256 (working w') \<and> committed w' = committed w"
proof -
  define db where "db = delta_effect (\<lambda>t. the (digest_index digests t)) plan (working w)"
  note reached = delta_reaches_source [OF healthy source target plan db_def]
  have src: "map pay_timestamp rows = map dig_timestamp digests" "distinct (map dig_timestamp digests)"
    and rows: "list_all (\<lambda>x. is_utc (pay_timestamp x)) rows" and p: "dp_source_digests plan = digests"
    using source plan by (auto simp: servable_def source_of_def list_all_iff is_delta_def)
  let ?map = "map (\<lambda>d. (dig_timestamp d, dig_sha256 d)) digests"
  have mem: "r \<in> set rows" if "r \<in> set (dp_inserts plan @ dp_updates plan)" for r
    using that plan by (auto simp: is_delta_def)
  have in_digests: "pay_timestamp r \<in> set (map fst ?map)" if "r \<in> set rows" for r
    using that arg_cong [OF src(1), of set] by (auto simp: image_image)
  have "source_digest_map (dp_source_digests plan) = Inr ?map"
    using src(2) p by (simp add: source_digest_map_def unique_digest_map_Inr)
  then have check: "check_delta POSTGRES_DATASET_ID plan s = Inr ?map"
    using state(2) mem in_digests by (auto simp: check_delta_def require_dataset_def rbind_Inr rfor_Inr guard_Inr image_image)
  have quiet: "quiet (write_delta POSTGRES_DATASET_ID ?map plan) (delta_effect (\<lambda>t. the (digest_index digests t)) plan)"
  proof (rule write_delta_quiet)
    show "list_all row_fits_tables (dp_inserts plan @ dp_updates plan)"
      using mem servable_row(1) [OF source] by (auto simp: list_all_iff)
    show "map_of ?map (pay_timestamp r) = Some (the (digest_index digests (pay_timestamp r)))"
      if "r \<in> set (dp_inserts plan @ dp_updates plan)" for r
      using servable_row(3) [OF source mem [OF that]] by (auto simp: digest_index_def)
  qed
  define db' where "db' = (if changes_rows plan then db\<lparr>features := view (raw db)\<rparr> else db)"
  have same: "raw db' = raw db" "row_hashes db' = row_hashes db"
    by (simp_all add: db'_def)
  then have views: "hash_at db' = hash_at db" "digest_rows POSTGRES_DATASET_ID db' = digest_rows POSTGRES_DATASET_ID db"
    by (simp_all add: hash_at_def fun_eq_iff digest_rows_def)
  note reads = reached_reads [OF source reached]
  obtain t where t: "summary_from_row (summary_row (raw db)) = Inr t" "expected_summary s = Inr t"
    using summary_reached [OF reads(1) rows state(1)] by blast
  obtain index where index: "rmap digest_from_row (digest_rows POSTGRES_DATASET_ID db) = Inr index"
    "dict_eq (digest_dict index) (digest_dict digests)"
    using reads(3) by blast
  let ?w1 = "w\<lparr>working := db\<rparr>" and ?w2 = "w\<lparr>working := db'\<rparr>" and ?w3 = "w\<lparr>working := upsert_state s db'\<rparr>"
  have refresh: "reaches (if changes_rows plan then refresh_features view else ret ()) ?w1 () ?w2"
    using reaches_quiet [OF refresh_quiet, of ?w1] w by (auto simp: db'_def reaches_def ret_def)
  have checks: "reaches (check_summary s POSTGRES_DATASET_ID) ?w2 () ?w2"
    "reaches (check_digests sha256 plan POSTGRES_DATASET_ID) ?w2 () ?w2"
    using checks_pass [of ?w2 t s index plan sha256] w t index reads(2) src(2) by (simp_all add: same views p digest_dict_eq)
  have writes: "reaches (write_delta POSTGRES_DATASET_ID ?map plan) w () ?w1"
    using reaches_quiet [OF quiet w] by (simp add: db_def)
  have upsert: "reaches (execute (upsert_state s)) ?w2 () ?w3"
    using reaches_quiet [OF quiet_execute, of ?w2 "upsert_state s"] w by simp
  have run: "reaches (txn_apply_delta view sha256 POSTGRES_DATASET_ID plan s) w () ?w3"
    unfolding txn_apply_delta_def
    by (rule reaches_bind, rule reaches_lift [OF w check])
      (rule reaches_seq [OF writes reaches_seq [OF refresh reaches_seq [OF checks(1) reaches_seq [OF checks(2) upsert]]]])
  have tables: "raw (upsert_state s db') = raw db" "row_hashes (upsert_state s db') = row_hashes db"
    by (simp_all add: upsert_state_def same)
  have "hash_at (upsert_state s db') = hash_at db" "row_digest sha256 (upsert_state s db') = row_digest sha256 db"
    by (rule ext, simp add: hash_at_def row_digest_def tables)+
  moreover have dom: "digest_index digests u = None \<longleftrightarrow> u \<notin> pay_timestamp ` set rows" for u
    unfolding digest_index_dom using arg_cong [OF src(1), of set] by auto
  moreover have "row_digest sha256 db u = digest_index digests u" for u
    using reached(4) [of u] reached(5) [of u] dom [of u] by (cases "digest_index digests u") (auto simp: row_digest_def)
  ultimately have "healthy sha256 (upsert_state s db')"
    using reached(1-4) tables by (simp add: healthy_def hashes_ok_def)
  then show ?thesis
    using run by (intro exI [of _ ?w3]) simp
qed

end
