(* ===== verification/Pg_Sync_Theorems.thy ===== *)
theory Pg_Sync_Theorems
  imports Pg_Returns
begin

text \<open>
  The theorems on a whole synchronization: it is atomic, a returning run serves the current build, and
  it returns when no call fails and the tables are those of an earlier synchronization.
\<close>

section \<open>Reading an earlier synchronization back\<close>

lemma state_row_roundtrip:
  assumes "valid_sync_state s"
  shows "state_from_row (state_params s) = Inr s"
proof -
  have time: "as_datetime (opt_time x) m = Inr x" "as_datetime (STime d) m = Inr (Some d)" for x d m
    by (cases x) (simp_all add: as_datetime_def opt_time_def)
  have "GoldSyncState (st_dataset_id s) (st_source_build_id s) (st_data_sha256 s) (st_schema_version s)
      (st_feature_version s) (st_row_count s) (st_min_timestamp s) (st_max_timestamp s) (st_synced_at_utc s) = Inr s"
    using assms by (simp add: GoldSyncState_Inr)
  then show ?thesis
    by (simp add: state_from_row_def state_params_def as_text_def as_int_def time)
qed

definition state_stored :: "gold_sync_state option \<Rightarrow> 'v pg_db \<Rightarrow> bool" where
  "state_stored prior db \<longleftrightarrow> map_of (sync_states db) POSTGRES_DATASET_ID = map_option state_params prior
    \<and> opt_all valid_sync_state prior"

lemma reaches_read_state:
  assumes "faults w = []" "state_stored prior (working w)"
  shows "reaches (txn_read_state POSTGRES_DATASET_ID) w prior w"
proof -
  have "reaches (fetch_state POSTGRES_DATASET_ID) w prior w"
    unfolding fetch_state_def using assms
    by (cases prior) (auto simp: state_stored_def state_row_roundtrip ret_def reaches_def bind_def query_quiet lift_def)
  then show ?thesis
    unfolding txn_read_state_def by (rule reaches_seq [rotated]) (simp add: reaches_def lift_def require_dataset_def assms(1))
qed

lemma healthy_consumer:
  assumes "healthy sha256 db"
  shows "\<exists>consumer. rmap (consumer_digest sha256) (consumer_rows (raw db)) = Inr consumer \<and> digest_index consumer = hash_at db
    \<and> distinct (map dig_timestamp consumer) \<and> (consumer = [] \<longleftrightarrow> hash_at db = Map.empty)"
proof -
  let ?ds = "map (\<lambda>t. \<lparr>dig_timestamp = t, dig_sha256 = the (hash_at db t)\<rparr>) (consumer_timestamps (raw db))"
  have row: "is_utc t \<and> gold_row_sha256 sha256 \<lparr>pay_timestamp = t, pay_values = wide db t\<rparr> = Inr (the (hash_at db t))
      \<and> is_sha256_hex (the (hash_at db t))" if "t \<in> set (consumer_timestamps (raw db))" for t
  proof -
    have "\<not> null_row (wide db t)"
      using that by (simp add: consumer_timestamps_mem)
    then have "hash_at db t \<noteq> None"
      using assms by (metis healthy_def)
    then obtain h where h: "hash_at db t = Some h"
      by blast
    then have "row_digest sha256 db t = Some h"
      using assms by (metis healthy_def)
    then have "gold_row_sha256 sha256 \<lparr>pay_timestamp = t, pay_values = wide db t\<rparr> = Inr h"
      by (simp add: row_digest_def split: if_splits sum.splits)
    then show ?thesis
      using h assms by (auto simp: healthy_def hashes_ok_def)
  qed
  have "rmap (consumer_digest sha256) (consumer_rows (raw db)) = Inr ?ds"
    unfolding read_consumer using row by (auto simp: list_all2_conv_all_nth)
  moreover have "row_digest sha256 db = hash_at db"
    using assms by (auto simp: healthy_def)
  moreover have "?ds = [] \<longleftrightarrow> hash_at db = Map.empty"
  proof -
    have "?ds = [] \<longleftrightarrow> (\<forall>t. t \<notin> set (consumer_timestamps (raw db)))"
      by (cases "consumer_timestamps (raw db)") auto
    then show ?thesis
      using assms by (auto simp: consumer_timestamps_mem healthy_def fun_eq_iff)
  qed
  ultimately show ?thesis
    using read_consumer_index [of sha256 db ?ds] consumer_distinct by metis
qed

section \<open>The bounds of the source\<close>

lemma cells_min_least:
  "cs \<noteq> [] \<Longrightarrow> CNull \<notin> set cs \<Longrightarrow> cells_min cs \<in> set cs \<and> (\<forall>c \<in> set cs. cell_key (cells_min cs) \<le> cell_key c)"
proof (induction cs)
  case (Cons c cs)
  then show ?case
    by (cases "cs = []") (auto simp: Let_def intro: order_trans less_imp_le)
qed simp

lemma cells_max_greatest:
  "cs \<noteq> [] \<Longrightarrow> CNull \<notin> set cs \<Longrightarrow> cells_max cs \<in> set cs \<and> (\<forall>c \<in> set cs. cell_key c \<le> cell_key (cells_max cs))"
proof (induction cs)
  case (Cons c cs)
  then show ?case
    by (cases "cs = []") (auto simp: Let_def intro: order_trans less_imp_le)
qed simp

lemma datetime_bounds:
  assumes "set cs = CDatetime ` set ts" "ts \<noteq> []" "sorted ts"
  shows "cells_min cs = CDatetime (hd ts)" "cells_max cs = CDatetime (last ts)"
proof -
  have cs: "cs \<noteq> []" "CNull \<notin> set cs"
    using assms(1,2) by auto
  have key: "cell_key (CDatetime a) \<le> cell_key (CDatetime b) \<longleftrightarrow> a \<le> b" for a b
    by (auto simp: less_eq_prod_def)
  have mem: "hd ts \<in> set ts" "last ts \<in> set ts"
    using assms(2) by simp_all
  have least: "hd ts \<le> t" "t \<le> last ts" if "t \<in> set ts" for t
  proof -
    show "hd ts \<le> t"
      using that assms(2,3) by (cases ts) auto
    show "t \<le> last ts"
      using that assms(2,3) by (induction ts) (auto split: if_splits)
  qed
  obtain a where a: "cells_min cs = CDatetime a" "a \<in> set ts"
    using cells_min_least [OF cs] unfolding assms(1) by blast
  have a': "a \<le> t" if "t \<in> set ts" for t
    using cells_min_least [OF cs] that unfolding assms(1) a(1) by (simp add: key del: cell_key.simps)
  obtain b where b: "cells_max cs = CDatetime b" "b \<in> set ts"
    using cells_max_greatest [OF cs] unfolding assms(1) by blast
  have b': "t \<le> b" if "t \<in> set ts" for t
    using cells_max_greatest [OF cs] that unfolding assms(1) b(1) by (simp add: key del: cell_key.simps)
  show "cells_min cs = CDatetime (hd ts)" "cells_max cs = CDatetime (last ts)"
    using a a' b b' mem least by (simp_all add: antisym)
qed

lemma raw_selection_facts: "map fst raw_selection = POSTGRES_RAW_COLUMNS" "raw_selection \<noteq> []"
  by (simp_all add: raw_selection_def comp_def POSTGRES_RAW_COLUMNS_def GOLD_COLUMNS_def)

lemma selected_frame:
  assumes ops: "polars_expressions ops" and wf: "wf_frame f" and cols: "f_columns f = GOLD_COLUMNS"
  shows "pl_select ops raw_selection f = Inr f"
proof -
  have expr: "expr_type (f_schema f) (PlCol c) \<noteq> None" if "c \<in> set POSTGRES_RAW_COLUMNS" for c
  proof -
    have "c \<in> set (f_columns f)"
      using that cols by (simp add: POSTGRES_RAW_COLUMNS_def)
    then show ?thesis
      by (simp add: f_columns_def map_of_eq_None_iff)
  qed
  let ?g = "select_rows (pl_cast_float ops) f raw_selection"
  have "pl_select ops raw_selection f = Inr ?g"
  proof (rule polars_expressions.select_ok [OF ops])
    show "distinct (map fst raw_selection)"
      unfolding raw_selection_facts POSTGRES_RAW_COLUMNS_def by (rule gold_columns_distinct)
    show "list_all (\<lambda>p. expr_type (f_schema f) (snd p) \<noteq> None) raw_selection"
      using expr by (auto simp: list_all_iff raw_selection_def)
    show "concat (map (\<lambda>p. expr_columns (snd p)) raw_selection) \<noteq> []"
      by (simp add: raw_selection_def POSTGRES_RAW_COLUMNS_def GOLD_COLUMNS_def)
  qed
  moreover have g: "?g = f"
  proof -
    have s: "map (\<lambda>c. (c, the (map_of (f_schema f) c))) (f_columns f) = f_schema f"
    proof (rule nth_equalityI)
      fix i
      assume i: "i < length (map (\<lambda>c. (c, the (map_of (f_schema f) c))) (f_columns f))"
      then have "map_of (f_schema f) (fst (f_schema f ! i)) = Some (snd (f_schema f ! i))"
        using wf by (intro map_of_is_SomeI) (simp_all add: wf_frame_def f_columns_def)
      with i show "map (\<lambda>c. (c, the (map_of (f_schema f) c))) (f_columns f) ! i = f_schema f ! i"
        by (simp add: f_columns_def prod_eq_iff)
    qed (simp add: f_columns_def)
    have r: "map (\<lambda>c. row_cell (f_schema f) row c) (f_columns f) = row" if "row \<in> set (f_rows f)" for row
    proof (rule nth_equalityI)
      have fits: "row_fits (f_schema f) row"
        using wf that by (simp add: wf_frame_def list_all_iff)
      then have len: "length row = length (f_schema f)"
        by (auto simp: row_fits_def dest: list_all2_lengthD)
      then show "length (map (\<lambda>c. row_cell (f_schema f) row c) (f_columns f)) = length row"
        by (simp add: f_columns_def)
      fix i
      assume i: "i < length (map (\<lambda>c. row_cell (f_schema f) row c) (f_columns f))"
      have dist: "distinct (map fst (f_schema f))"
        using wf by (simp add: wf_frame_def f_columns_def)
      have "map_of (zip (map fst (f_schema f)) row) (map fst (f_schema f) ! i) = Some (row ! i)"
        using i len dist by (intro map_of_zip_nth) (simp_all add: f_columns_def)
      then show "map (\<lambda>c. row_cell (f_schema f) row c) (f_columns f) ! i = row ! i"
        using i by (simp add: row_cell_def f_columns_def)
    qed
    show ?thesis
      using s r unfolding cols
      by (simp add: select_rows_def select_schema_def raw_selection_def POSTGRES_RAW_COLUMNS_def comp_def case_prod_unfold map_idI)
  qed
  ultimately show ?thesis
    by simp
qed

text \<open>The checkpoint of the record fits the rows of the frame that was validated against it.\<close>

lemma source_bounds:
  assumes pl: "polars_frames pl" and wf: "wf_frame f" and meta: "validate_frame_metadata f r = Inr ()"
    and src: "source_rows_and_digests pl sha256 f = Inr (rows, digests)" and s: "checkpoint_of r sha s"
  shows "bounds_of rows s"
proof -
  obtain g out where g: "pl_sort pl [''timestamp_m1''] f = Inr g" and out: "rows = map fst out" "digests = map snd out"
    and all: "list_all2 (\<lambda>raw o'. source_row sha256 raw = Inr o') (f_rows g) out"
    and ts: "column_cells g ''timestamp_m1'' = map (\<lambda>d. CDatetime (dt_num (dig_timestamp d))) digests"
    using polars_frames.source_rows_cells [OF pl wf src] by blast
  have of: "source_of sha256 rows digests"
    by (rule polars_frames.source_rows_of [OF pl wf src])
  let ?ts = "map (\<lambda>x. dt_num (pay_timestamp x)) rows"
  have keys: "?ts = map (\<lambda>d. dt_num (dig_timestamp d)) digests"
    using of arg_cong [of _ _ "map dt_num"] by (simp add: source_of_def comp_def) (metis (no_types, lifting) comp_apply map_map map_eq_conv)
  have perm: "mset (column_cells g ''timestamp_m1'') = mset (column_cells f ''timestamp_m1'')"
    using polars_frames.sort_column_perm [OF pl g] by simp
  have cells: "set (column_cells f ''timestamp_m1'') = CDatetime ` set ?ts"
    using mset_eq_setD [OF perm] unfolding ts keys by (simp add: image_image)
  have "length (f_rows f) = length rows"
    using mset_eq_length [OF perm] list_all2_lengthD [OF all] by (simp add: column_cells_def out)
  then have count: "st_row_count s = int (length rows)"
    using meta s by (auto simp: validate_frame_metadata_def checkpoint_of_def rbind_Inr guard_Inr f_height_def)
  obtain mn mx where mn: "timestamp_or_none ''minimum'' (cells_min (column_cells f ''timestamp_m1'')) = Inr mn"
      "opt_dt_eq mn (min_timestamp r)"
    and mx: "timestamp_or_none ''maximum'' (cells_max (column_cells f ''timestamp_m1'')) = Inr mx"
      "opt_dt_eq mx (max_timestamp r)"
    using meta by (auto simp: validate_frame_metadata_def rbind_Inr guard_Inr Let_def split: option.splits)
  have utc: "opt_all is_utc (min_timestamp r)" "opt_all is_utc (max_timestamp r)"
    using s by (auto simp: checkpoint_of_def valid_sync_state_def)
  show ?thesis
  proof (cases "rows = []")
    case True
    then have "st_min_timestamp s = None" "st_max_timestamp s = None"
      using count s by (simp_all add: checkpoint_of_def valid_sync_state_def)
    then show ?thesis
      using True count by (simp add: bounds_of_def)
  next
    case False
    have sorted: "sorted ?ts"
      using of unfolding keys by (simp add: source_of_def)
    note bounds = datetime_bounds [OF cells _ sorted]
    have ends: "is_utc (pay_timestamp (hd rows))" "is_utc (pay_timestamp (last rows))"
      using of False by (auto simp: source_of_def list_all_iff)
    have "opt_dt_eq (Some (Aware (dt_num (pay_timestamp (hd rows))) 0)) (min_timestamp r)"
      "opt_dt_eq (Some (Aware (dt_num (pay_timestamp (last rows))) 0)) (max_timestamp r)"
      using mn mx bounds False by (simp_all add: timestamp_or_none_def hd_map last_map)
    then have "min_timestamp r = Some (pay_timestamp (hd rows))" "max_timestamp r = Some (pay_timestamp (last rows))"
      using utc ends by (cases "min_timestamp r"; cases "max_timestamp r"; auto simp: dt_eq_iff intro: is_utc_eqI)+
    then show ?thesis
      using False count s by (simp add: bounds_of_def checkpoint_of_def)
  qed
qed

section \<open>The locked part returns\<close>

text \<open>
  The tables an earlier synchronization left (or empty ones): healthy, the checkpoint counts the rows,
  its versions can be upgraded to the current ones; and the new build may replace what is stored: the
  same data has the same rows, other data of the same versions has other rows.
\<close>

definition count_of :: "('a \<Rightarrow> 'b option) \<Rightarrow> int" where
  "count_of m = int (card (dom m))"

definition replaceable ::
  "(byte list \<Rightarrow> string) \<Rightarrow> gold_row_digest list \<Rightarrow> gold_sync_state option \<Rightarrow> gold_sync_state \<Rightarrow> 'v pg_db \<Rightarrow> bool" where
  "replaceable sha256 digests prior s db \<longleftrightarrow> healthy sha256 db \<and> state_stored prior db
    \<and> (case prior of None \<Rightarrow> hash_at db = Map.empty
      | Some p \<Rightarrow> st_row_count p = count_of (hash_at db)
          \<and> st_feature_version p = GOLD_FEATURE_VERSION \<and> st_schema_version p \<in> {7..GOLD_SCHEMA_VERSION}
          \<and> (same_data p s \<longrightarrow> hash_at db = digest_index digests)
          \<and> (\<not> same_data p s \<longrightarrow> st_schema_version p = GOLD_SCHEMA_VERSION \<longrightarrow> hash_at db \<noteq> digest_index digests))"

lemma entries_count:
  assumes "hashes_ok db"
  shows "int (length (map entry_digest (index_entries db))) = count_of (hash_at db)"
proof -
  let ?ds = "map entry_digest (index_entries db)"
  have "dom (hash_at db) = dig_timestamp ` set ?ds"
    using read_index(3) [OF assms] digest_index_dom [of ?ds] by (auto simp: dom_def simp flip: read_index(3) [OF assms])
  then have "card (dom (hash_at db)) = length (map dig_timestamp ?ds)"
    using distinct_card [OF read_index(2) [OF assms]] by (simp add: image_image)
  then show ?thesis
    by (simp add: count_of_def)
qed

definition quietly :: "(path \<times> content) list \<Rightarrow> ('z lake_scheme, 'a) io \<Rightarrow> 'a \<Rightarrow> bool" where
  "quietly F m x \<longleftrightarrow> (\<forall>w. faults w = [] \<longrightarrow> files w = F \<longrightarrow> m w = (Inr x, w))"

lemma reaches_quietly: "quietly F m x \<Longrightarrow> faults w = [] \<Longrightarrow> files w = F \<Longrightarrow> reaches m w x w"
  by (simp add: quietly_def reaches_def)

lemma delta_empty_iff:
  assumes "is_delta rows digests target p" "map pay_timestamp rows = map dig_timestamp digests"
  shows "dp_inserts p = [] \<and> dp_updates p = [] \<and> dp_deletes p = [] \<longleftrightarrow> digest_index target = digest_index digests"
proof -
  have applied: "applied_index p (digest_index target) = digest_index digests"
    by (rule delta_applied [OF assms])
  have dom: "digest_index digests (pay_timestamp r) \<noteq> None" if "r \<in> set rows" for r
    using that arg_cong [OF assms(2), of set] by (auto simp: digest_index_dom)
  have "dp_inserts p = [] \<and> dp_updates p = [] \<and> dp_deletes p = []" if same: "digest_index target = digest_index digests"
  proof -
    have "set (dp_deletes p) = {t. digest_index digests t \<noteq> None \<and> digest_index digests t = None}"
      using assms(1) unfolding is_delta_def same by blast
    then have "dp_deletes p = []"
      by (metis (no_types, lifting) Collect_empty_eq set_empty)
    then show ?thesis
      using assms(1) dom unfolding is_delta_def same by (simp add: filter_empty_conv)
  qed
  moreover have "digest_index target = digest_index digests" if "dp_inserts p = []" "dp_updates p = []" "dp_deletes p = []"
    using applied that by (auto simp: applied_index_def fun_eq_iff)
  ultimately show ?thesis
    by blast
qed

lemma checks_before:
  assumes rep: "replaceable sha256 digests prior s db" and versions: "st_schema_version s = GOLD_SCHEMA_VERSION"
      "st_feature_version s = GOLD_FEATURE_VERSION"
    and target: "target = map entry_digest (index_entries db)"
    and consumer: "digest_index consumer = hash_at db" "distinct (map dig_timestamp consumer)" "consumer = [] \<longleftrightarrow> hash_at db = Map.empty"
    and plan: "is_delta rows digests target p" "map pay_timestamp rows = map dig_timestamp digests" "distinct (map dig_timestamp digests)"
  shows "require_state_compatible prior s = Inr ()" "check_target prior target consumer = Inr ()"
    "require_matching_digests target consumer ''consumer rows'' = Inr ()" "check_plan prior s p target = Inr ()"
proof -
  have ok: "hashes_ok db"
    using rep by (simp add: replaceable_def healthy_def)
  note index = read_index [OF ok, folded target]
  show "require_state_compatible prior s = Inr ()"
  proof (cases prior)
    case (Some q)
    then show ?thesis
      using rep by (simp only: replaceable_def option.case compatible_iff(1) [OF versions])
  qed (simp add: require_state_compatible_def)
  show "check_target prior target consumer = Inr ()"
  proof (cases prior)
    case None
    have empty: "hash_at db = Map.empty"
      using rep None by (simp add: replaceable_def)
    have "target = []"
      using digest_index_dom [of target] index(3) empty by (cases target) (auto simp: fun_eq_iff)
    then show ?thesis
      using None consumer(3) empty by (simp add: check_target_def)
  next
    case (Some q)
    then show ?thesis
      using rep entries_count [OF ok] by (simp add: replaceable_def check_target_def target)
  qed
  show "require_matching_digests target consumer ''consumer rows'' = Inr ()"
    using index consumer by (simp add: require_matching_digests_def digest_dict_eq)
  have "require_matching_digests (dp_source_digests p) target ''digest index'' = Inr ()" if "hash_at db = digest_index digests"
    using that index plan(1,3) by (simp add: require_matching_digests_def digest_dict_eq is_delta_def)
  note matching = this
  show "check_plan prior s p target = Inr ()"
  proof (cases prior)
    case (Some q)
    have rows: "same_data q s \<longrightarrow> hash_at db = digest_index digests"
      "\<not> same_data q s \<longrightarrow> st_schema_version q = GOLD_SCHEMA_VERSION \<longrightarrow> hash_at db \<noteq> digest_index digests"
      and prior: "st_feature_version q = GOLD_FEATURE_VERSION" "st_schema_version q \<in> {7..GOLD_SCHEMA_VERSION}"
      using rep Some by (auto simp: replaceable_def)
    have "\<not> (dp_inserts p = [] \<and> dp_updates p = [] \<and> dp_deletes p = [] \<and> \<not> same_data q s \<and> \<not> is_schema_upgrade (Some q) s)"
      using rows(2) prior delta_empty_iff [OF plan(1,2)] index(3) unfolding compatible_iff(2) [OF versions] by auto
    then show ?thesis
      using rows(1) matching Some by (auto simp: check_plan_def)
  qed (simp add: check_plan_def)
qed

lemma sync_locked_returns:
  assumes pl: "polars_frames pl" and ops: "polars_expressions ops" and wf: "wf_frame f"
    and meta: "validate_frame_metadata f r = Inr ()" and src: "source_rows_and_digests pl sha256 f = Inr (rows, digests)"
    and servable: "servable sha256 rows digests" and s: "checkpoint_of r sha s"
    and versions: "st_schema_version s = GOLD_SCHEMA_VERSION" "st_feature_version s = GOLD_FEATURE_VERSION"
    and rep: "replaceable sha256 digests prior s (working w)"
    and w: "faults w = []" "files w = F" and source: "quietly F (src_read_path source path) f"
  shows "\<exists>out w' p. reaches (sync_locked pl ops sha256 source (pg_transaction view sha256) r path s) w out w'
    \<and> verified view sha256 p s (working w') \<and> dp_source_digests p = digests"
proof -
  have healthy: "healthy sha256 (working w)" and stored: "state_stored prior (working w)"
    using rep by (simp_all add: replaceable_def)
  have ok: "hashes_ok (working w)"
    using healthy by (simp add: healthy_def)
  define target where target: "target = map entry_digest (index_entries (working w))"
  note index = read_index [OF ok, folded target]
  obtain consumer where consumer: "rmap (consumer_digest sha256) (consumer_rows (raw (working w))) = Inr consumer"
    "digest_index consumer = hash_at (working w)" "distinct (map dig_timestamp consumer)"
    "consumer = [] \<longleftrightarrow> hash_at (working w) = Map.empty"
    using healthy_consumer [OF healthy] by blast
  have of: "source_of sha256 rows digests"
    by (rule polars_frames.source_rows_of [OF pl wf src])
  then have keys: "map pay_timestamp rows = map dig_timestamp digests" "distinct (map dig_timestamp digests)"
    by (simp_all add: source_of_def)
  have "list_all (\<lambda>d. is_utc (dig_timestamp d)) target"
    using ok index unfolding hashes_ok_def list_all_iff by (metis digest_index_mem)
  moreover have "target = []" if "prior = None"
  proof -
    have "digest_index target = Map.empty"
      using rep index(3) that by (simp add: replaceable_def)
    then show ?thesis
      using digest_index_dom [of target] by (cases target) auto
  qed
  ultimately obtain p where p: "plan_gold_delta pl sha256 f target prior = Inr p" "is_delta rows digests target p"
    using plan_gold_delta_ok [OF src of index(2)] by blast
  note checks = checks_before [OF rep versions target consumer(2-4) p(2) keys]
  have selected: "rbind (pl_select ops raw_selection f) (\<lambda>g. plan_gold_delta pl sha256 g target prior) = Inr p"
    using p(1) selected_frame [OF ops wf] meta by (simp add: validate_frame_metadata_def guard_Inr)
  obtain w' where apply_delta: "reaches (txn_apply_delta view sha256 POSTGRES_DATASET_ID p s) w () w'"
    using apply_delta_returns [OF w(1) healthy servable _ p(2) source_bounds [OF pl wf meta src s]] index(3) s
    unfolding checkpoint_of_def valid_sync_state_def by blast
  have "faults w' = []"
    using apply_delta by (simp add: reaches_def)
  obtain out where "GoldSyncResult POSTGRES_DATASET_ID (build_id r) (dp_inserted p) (dp_updated p) (dp_deleted p)
      (dp_unchanged_count p) = Inr out"
    by (simp add: GoldSyncResult_Inr dp_inserted_def dp_updated_def dp_deleted_def dp_unchanged_count_def)
  then have result: "reaches (lift (GoldSyncResult POSTGRES_DATASET_ID (build_id r) (dp_inserted p) (dp_updated p) (dp_deleted p)
      (dp_unchanged_count p))) w' out w'"
    by (rule reaches_lift [OF \<open>faults w' = []\<close>])
  have matching: "(if is_schema_upgrade prior s then Inr () else require_matching_digests target consumer ''consumer rows'') = Inr ()"
    using checks(3) by simp
  have "reaches (sync_locked pl ops sha256 source (pg_transaction view sha256) r path s) w out w'"
    unfolding sync_locked_def pg_transaction_def gold_sync_transaction.select_convs
    by (rule reaches_bind, rule reaches_read_state [OF w(1) stored], rule reaches_seq [OF reaches_lift [OF w(1) checks(1)]],
      rule reaches_bind, rule reaches_read_digests [OF w(1) index(1)],
      rule reaches_bind, rule reaches_read_consumer [OF w(1) consumer(1)],
      rule reaches_seq [OF reaches_lift [OF w(1) checks(2)]], rule reaches_seq [OF reaches_lift [OF w(1) matching]],
      rule reaches_bind, rule reaches_quietly [OF source w], rule reaches_seq [OF reaches_lift [OF w(1) meta]],
      rule reaches_bind, rule reaches_lift [OF w(1) selected], rule reaches_seq [OF reaches_lift [OF w(1) checks(4)]],
      rule reaches_seq [OF apply_delta], rule result)
  moreover have "verified view sha256 p s (working w')"
    using hoareD_Inr [OF apply_delta_verified refl conjunct1 [OF apply_delta [unfolded reaches_def]]] by (rule conjunct2)
  moreover have "dp_source_digests p = digests"
    using p(2) by (simp add: is_delta_def)
  ultimately show ?thesis
    by blast
qed

section \<open>The whole run returns\<close>

lemma quiet_calls:
  assumes "faults w = []"
  shows "connect w = (Inr (), w\<lparr>working := committed w, lock_held := None\<rparr>)" "open_cursor w = (Inr (), w)"
    "close_cursor w = (Inr (), w)" "advisory_lock key w = (Inr (), w\<lparr>lock_held := Some key\<rparr>)"
    "commit w = (Inr (), w\<lparr>committed := working w, lock_held := None\<rparr>)"
    "rollback w = (Inr (), w\<lparr>working := committed w, lock_held := None\<rparr>)"
    "close_connection w = (Inr (), w\<lparr>working := committed w, lock_held := None\<rparr>)" "execute_setting t w = (Inr (), w)"
  using assms by (simp_all add: connect_def open_cursor_def close_cursor_def advisory_lock_def commit_def rollback_def
      close_connection_def execute_setting_def seq_def bind_def modify_def fault_point_quiet)

lemma settings_quiet: "faults w = [] \<Longrightarrow> for_each execute_setting ss w = (Inr (), w)"
  by (induction ss) (simp_all add: ret_def seq_def bind_def quiet_calls)

lemma open_session_quiet:
  "faults w = [] \<Longrightarrow> open_session what policy w = (Inr (), w\<lparr>working := committed w, lock_held := None\<rparr>)"
  by (simp add: open_session_def seq_def bind_def try_except_def with_cursor_def try_finally_def quiet_calls settings_quiet)

lemma run_locked_returns:
  assumes w: "faults w = []"
    and m: "reaches m (w\<lparr>working := committed w, lock_held := Some key\<rparr>) x w'"
  shows "\<exists>w''. reaches (run_locked policy key m) w x w'' \<and> committed w'' = working w'"
proof -
  have q: "faults w' = []"
    using m by (simp add: reaches_def)
  have "reaches (run_locked policy key m) w x
      (w'\<lparr>committed := working w', working := working w', lock_held := None\<rparr>)"
    using m w q by (simp add: reaches_def run_locked_def seq_def bind_def open_session_quiet try_finally_def try_except_def
        with_cursor_def quiet_calls ret_def)
  then show ?thesis
    by (intro exI [of _ "w'\<lparr>committed := working w', working := working w', lock_held := None\<rparr>"]) simp
qed

lemma preflight_returns:
  assumes "faults w = []" "files w = F" "quietly F contract ()"
  shows "\<exists>w'. reaches (repo_preflight contract policy) w () w' \<and> committed w' = committed w"
proof -
  have c: "contract (w\<lparr>working := committed w, lock_held := None\<rparr>) = (Inr (), w\<lparr>working := committed w, lock_held := None\<rparr>)"
    using assms by (simp add: quietly_def)
  have "reaches (repo_preflight contract policy) w () (w\<lparr>working := committed w, lock_held := None\<rparr>)"
    using assms(1) c by (simp add: reaches_def repo_preflight_def seq_def bind_def open_session_quiet try_finally_def
        try_except_def with_cursor_def quiet_calls)
  then show ?thesis
    by (intro exI [of _ "w\<lparr>working := committed w, lock_held := None\<rparr>"]) simp
qed

text \<open>
  The lake selects a build \<open>r\<close> of this release: the catalog, the bundle check, the digest of the data
  file, the frame and the clock are read without failing.
\<close>

definition lake_offers ::
  "(path \<times> content) list \<Rightarrow> ('z lake_scheme, gold_record list) io \<Rightarrow> 'z lake_scheme gold_source \<Rightarrow>
    ('z lake_scheme, datetime) io \<Rightarrow> gold_record \<Rightarrow> string \<Rightarrow> frame \<Rightarrow> datetime \<Rightarrow> bool" where
  "lake_offers F catalog source clock r sha f now \<longleftrightarrow>
    (\<exists>records path. quietly F catalog records \<and> select_current_sync_record records = Inr r
      \<and> quietly F (src_validate_bundle source r) () \<and> required_data_path r = Inr path
      \<and> quietly F (src_sha256_path source path) sha \<and> is_sha256_hex sha \<and> quietly F (src_read_path source path) f)
    \<and> quietly F clock now \<and> is_aware now"

definition state_for :: "gold_record \<Rightarrow> string \<Rightarrow> datetime \<Rightarrow> gold_sync_state" where
  "state_for r sha now = \<lparr>st_dataset_id = POSTGRES_DATASET_ID, st_source_build_id = build_id r, st_data_sha256 = sha,
     st_schema_version = schema_version r, st_feature_version = feature_version r,
     st_row_count = (case row_count r of None \<Rightarrow> 0 | Some n \<Rightarrow> n), st_min_timestamp = min_timestamp r,
     st_max_timestamp = max_timestamp r, st_synced_at_utc = astimezone_utc now\<rparr>"

lemma desired_state_quiet:
  assumes "quietly F clock now" "is_aware now" "row_count r \<noteq> None" "valid_sync_state (state_for r sha now)"
  shows "quietly F (desired_state clock r sha) (state_for r sha now)"
proof -
  obtain n where n: "row_count r = Some n"
    using assms(3) by blast
  have "GoldSyncState POSTGRES_DATASET_ID (build_id r) sha (schema_version r) (feature_version r) n (min_timestamp r)
      (max_timestamp r) (astimezone_utc now) = Inr (state_for r sha now)"
    using assms(4) n by (simp add: GoldSyncState_Inr state_for_def)
  then show ?thesis
    using assms(1,2) n by (simp add: quietly_def desired_state_def bind_def lift_def)
qed

lemma gold_sync_reaches:
  fixes w :: "('v, 'z) pg_scheme"
  assumes pl: "polars_frames pl" and ops: "polars_expressions ops"
    and lake: "lake_offers (files w) catalog source clock r sha f now" "quietly (files w) contract ()"
    and f: "wf_frame f" "validate_frame_metadata f r = Inr ()" "source_rows_and_digests pl sha256 f = Inr (rows, digests)"
    and servable: "servable sha256 rows digests"
    and state: "valid_sync_state (state_for r sha now)"
    and db: "replaceable sha256 digests prior (state_for r sha now) (committed w)"
    and quiet: "faults w = []"
  shows "\<exists>out w' p. reaches (gold_sync pl ops sha256 catalog source (pg_repository contract view sha256 policy key) clock) w out w'
    \<and> verified view sha256 p (state_for r sha now) (committed w') \<and> dp_source_digests p = digests"
proof -
  obtain records path where reads: "quietly (files w) catalog records" "select_current_sync_record records = Inr r"
    "quietly (files w) (src_validate_bundle source r) ()" "required_data_path r = Inr path"
    "quietly (files w) (src_sha256_path source path) sha" "is_sha256_hex sha" "quietly (files w) (src_read_path source path) f"
    and clock: "quietly (files w) clock now" "is_aware now"
    using lake(1) unfolding lake_offers_def by blast
  have count: "row_count r \<noteq> None"
    using f(2) by (auto simp: validate_frame_metadata_def rbind_Inr guard_Inr split: option.splits)
  let ?s = "state_for r sha now"
  have s: "checkpoint_of r sha ?s"
    using state count by (auto simp: checkpoint_of_def state_for_def)
  have versions: "st_schema_version ?s = GOLD_SCHEMA_VERSION" "st_feature_version ?s = GOLD_FEATURE_VERSION"
    using reads(2) by (auto simp: select_current_sync_record_Inr state_for_def)
  obtain w1 where w1: "reaches (repo_preflight contract policy) w () w1" "committed w1 = committed w"
    using preflight_returns [OF quiet refl lake(2)] by blast
  have q1: "faults w1 = []" "files w1 = files w"
    using w1(1) by (simp_all add: reaches_def)
  let ?w = "w1\<lparr>working := committed w1, lock_held := Some key\<rparr>"
  obtain out w2 p where w2: "reaches (sync_locked pl ops sha256 source (pg_transaction view sha256) r path ?s) ?w out w2"
    and served: "verified view sha256 p ?s (working w2)" "dp_source_digests p = digests"
    using sync_locked_returns [OF pl ops f servable s versions, of prior ?w "files w" source path view] db w1(2) q1 reads(7)
    by auto
  obtain w3 where w3: "reaches (run_locked policy key (sync_locked pl ops sha256 source (pg_transaction view sha256) r path ?s)) w1 out w3"
    "committed w3 = working w2"
    using run_locked_returns [OF q1(1) w2] by blast
  have validated: "quietly (files w) (sync_validate_bundle source r) ()"
    using reads(3) by (simp add: quietly_def sync_validate_bundle_def try_except_def)
  note at_w = reaches_quietly [OF _ quiet refl] and at_w1 = reaches_quietly [OF _ q1]
  have hex: "sync_validate_sha256 sha = Inr ()"
    using reads(6) by (simp add: sync_validate_sha256_def)
  have "reaches (gold_sync pl ops sha256 catalog source (pg_repository contract view sha256 policy key) clock) w out w3"
    unfolding gold_sync_def pg_repository_def gold_sync_repository.select_convs
    by (rule reaches_bind, rule at_w [OF reads(1)], rule reaches_bind, rule reaches_lift [OF quiet reads(2)],
      rule reaches_seq [OF at_w [OF validated]], rule reaches_seq [OF w1(1)], rule reaches_bind, rule reaches_lift [OF q1(1) reads(4)],
      rule reaches_bind, rule at_w1 [OF reads(5)], rule reaches_seq [OF reaches_lift [OF q1(1) hex]],
      rule reaches_bind, rule at_w1 [OF desired_state_quiet [OF clock count state]], rule w3(1))
  then show ?thesis
    using served w3(2) by metis
qed

end
