(* ===== verification/Pg_Invariant.thy ===== *)
theory Pg_Invariant
  imports Pg_Sync_Theorems
begin

text \<open>
  The health of the serving tables is an invariant of synchronizations: well-formed keys, and a digest
  index that holds exactly the digests of the served rows.
\<close>

section \<open>Writes keep the keys well-formed\<close>

definition keys_ok :: "'v pg_db \<Rightarrow> bool" where
  "keys_ok db \<longleftrightarrow> raw_ok (raw db) \<and> distinct (map fst (row_hashes db))"

abbreviation keeps_keys :: "(('v, 'z) pg_scheme, 'a) io \<Rightarrow> bool" where
  "keeps_keys m \<equiv> hoare (\<lambda>w. keys_ok (working w)) m (\<lambda>_ w. keys_ok (working w)) (\<lambda>_ w. keys_ok (working w))"

lemma keeps_keys_execute:
  assumes "\<And>db. keys_ok db \<Longrightarrow> keys_ok (f db)"
  shows "keeps_keys (execute f)"
  using assms by (auto simp: hoare_def execute_def fault_point_def io_run split: list.splits option.splits)

lemma keys_ok_writes:
  assumes "keys_ok db"
  shows "keys_ok (delete_raw s t db)" "is_utc t \<Longrightarrow> keys_ok (upsert_raw s t vs db)" "keys_ok (upsert_digest ds t h db)"
    "keys_ok (delete_digest ds t db)" "keys_ok (upsert_state st db)" "keys_ok (db\<lparr>features := v\<rparr>)"
  using assms by (auto simp: keys_ok_def raw_ok_def delete_raw_def upsert_raw_def upsert_digest_def delete_digest_def
      upsert_state_def distinct_update distinct_delete table_keys)

lemma keeps_keys_read: "preserves working m \<Longrightarrow> keeps_keys m"
  by (rule preserves_hoare)

lemma keeps_keys_lift: "keeps_keys (lift r)"
  by (intro keeps_keys_read preserves_intros)

lemma keeps_keys_for_each: "(\<And>x. x \<in> set xs \<Longrightarrow> keeps_keys (f x)) \<Longrightarrow> keeps_keys (for_each f xs)"
  by (rule hoare_for_each)

lemma keeps_keys_row: "is_utc (pay_timestamp row) \<Longrightarrow> keeps_keys (apply_feature_row row)"
  unfolding apply_feature_row_def apply_series_row_def
  by (intro hoare_seq [OF keeps_keys_lift] keeps_keys_for_each hoare_bind [OF keeps_keys_lift] hoare_if
      keeps_keys_execute keys_ok_writes hoare_throw) auto

lemma keeps_keys_delta:
  assumes "list_all (\<lambda>r. is_utc (pay_timestamp r)) (dp_inserts plan @ dp_updates plan)"
  shows "keeps_keys (txn_apply_delta view sha256 ds plan s)"
proof -
  have rows: "keeps_keys (for_each apply_feature_row rs)" if "set rs \<subseteq> set (dp_inserts plan @ dp_updates plan)" for rs
    using that assms by (intro keeps_keys_for_each keeps_keys_row) (auto simp: list_all_iff)
  have deletes: "keeps_keys (for_each delete_feature_timestamp (dp_deletes plan))"
    unfolding delete_feature_timestamp_def by (intro keeps_keys_for_each keeps_keys_execute keys_ok_writes)
  have hashes: "keeps_keys (for_each (\<lambda>row. bind (lift (digest_of digests (pay_timestamp row)))
      (\<lambda>h. execute (upsert_digest ds (pay_timestamp row) h))) (dp_inserts plan @ dp_updates plan))"
    "keeps_keys (for_each (\<lambda>t. execute (delete_digest ds t)) (dp_deletes plan))" for digests
    by (intro keeps_keys_for_each hoare_bind [OF keeps_keys_lift] keeps_keys_execute keys_ok_writes; assumption)+
  have writes: "keeps_keys (write_delta ds digests plan)" for digests
    unfolding write_delta_def
    by (rule hoare_seq [OF rows hoare_seq [OF rows hoare_seq [OF deletes hoare_seq [OF hashes]]]]) auto
  have refresh: "keeps_keys (if changes_rows plan then refresh_features view else ret ())"
    unfolding refresh_features_def
    by (intro hoare_if hoare_seq [OF keeps_keys_read] keeps_keys_execute keys_ok_writes hoare_ret preserves_intros)
  show ?thesis
    unfolding txn_apply_delta_def
    by (intro hoare_bind [OF keeps_keys_lift] hoare_seq [OF writes] hoare_seq [OF refresh]
        hoare_seq [OF keeps_keys_read [OF transaction_reads_working(5)]] hoare_seq [OF keeps_keys_read [OF transaction_reads_working(6)]]
        keeps_keys_execute keys_ok_writes)
qed

section \<open>Verified tables are healthy\<close>

lemma verified_healthy:
  assumes keys: "keys_ok db" and v: "verified view sha256 plan s db" and dist: "distinct (map dig_timestamp (dp_source_digests plan))"
  shows "healthy sha256 db"
proof -
  have raw: "raw_ok (raw db)" and hashes: "distinct (map fst (row_hashes db))"
    using keys by (simp_all add: keys_ok_def)
  obtain target where target: "rmap digest_from_row (digest_rows POSTGRES_DATASET_ID db) = Inr target"
    "dict_eq (digest_dict target) (digest_dict (dp_source_digests plan))"
    using v by (auto simp: verified_def index_agrees_def)
  obtain consumer where consumer: "rmap (consumer_digest sha256) (consumer_rows (raw db)) = Inr consumer"
    "dict_eq (digest_dict consumer) (digest_dict (dp_source_digests plan))"
    using v by (auto simp: verified_def index_agrees_def)
  note ok = hashes_okI [OF hashes target(1)]
  have d: "distinct (map dig_timestamp target)" "distinct (map dig_timestamp consumer)"
    using read_index(2) [OF ok(1)] ok(2) read_consumer_index(1) [OF consumer(1)] consumer_distinct by simp_all
  have "dict_eq (digest_dict target) (digest_dict consumer)"
    using target(2) consumer(2) by (simp add: digest_dict_eq d dist)
  then show ?thesis
    by (rule checked_healthy(1) [OF raw hashes target(1) consumer(1)])
qed

lemma sync_locked_healthy:
  assumes pl: "polars_frames pl" and ops: "polars_expressions ops" and ports: "\<And>p. untouched (src_read_path source p)"
    and wf: "\<And>f. reads_at (files w) (src_read_path source path) f \<Longrightarrow> wf_frame f"
    and run: "sync_locked pl ops sha256 source (pg_transaction view sha256) r path s w = (Inr out, w')"
    and healthy: "healthy sha256 (working w)"
  shows "healthy sha256 (working w')"
proof -
  obtain prior target consumer f selected plan w1 where
    target: "rmap digest_from_row (digest_rows POSTGRES_DATASET_ID (working w)) = Inr target"
    and check: "check_target prior target consumer = Inr ()"
    and f: "reads_at (files w) (src_read_path source path) f" "validate_frame_metadata f r = Inr ()"
    and selected: "pl_select ops raw_selection f = Inr selected" "plan_gold_delta pl sha256 selected target prior = Inr plan"
    and w1: "working w1 = working w"
    and run1: "txn_apply_delta view sha256 POSTGRES_DATASET_ID plan s w1 = (Inr (), w')"
    using sync_locked_steps [OF ports run] by metis
  have ok: "hashes_ok (working w)" and keys: "keys_ok (working w)"
    using healthy by (auto simp: healthy_def hashes_ok_def keys_ok_def)
  have target': "target = map entry_digest (index_entries (working w))"
    by (rule hashes_okI(2) [OF _ target]) (use ok in \<open>simp add: hashes_ok_def\<close>)
  note index = read_index [OF ok, folded target']
  have g: "selected = f"
    using selected(1) selected_frame [OF ops wf [OF f(1)]] f(2) by (auto simp: validate_frame_metadata_def guard_Inr)
  obtain rows digests where src: "source_rows_and_digests pl sha256 f = Inr (rows, digests)"
    using plan_source_digests [OF selected(2)] g by blast
  have of: "source_of sha256 rows digests"
    by (rule polars_frames.source_rows_of [OF pl wf [OF f(1)] src])
  have "list_all (\<lambda>d. is_utc (dig_timestamp d)) target"
    using ok index unfolding hashes_ok_def list_all_iff by (metis digest_index_mem)
  moreover have "prior = None \<longrightarrow> target = []"
    using check by (auto simp: check_target_def guard_Inr)
  ultimately obtain p where p: "plan_gold_delta pl sha256 f target prior = Inr p" "is_delta rows digests target p"
    using plan_gold_delta_ok [OF src of index(2)] by blast
  have plan: "is_delta rows digests target plan"
    using p selected(2) unfolding g by simp
  have "list_all (\<lambda>r. is_utc (pay_timestamp r)) (dp_inserts plan @ dp_updates plan)"
    using plan of by (auto simp: is_delta_def source_of_def list_all_iff)
  then have "keys_ok (working w')"
    using hoareD_Inr [OF keeps_keys_delta _ run1] keys w1 by simp
  moreover have "verified view sha256 plan s (working w')"
    using hoareD_Inr [OF apply_delta_verified _ run1] by blast
  moreover have "distinct (map dig_timestamp (dp_source_digests plan))"
    using plan of by (simp add: is_delta_def source_of_def)
  ultimately show ?thesis
    by (rule verified_healthy)
qed

section \<open>Theorems\<close>

text \<open>
  C19: a synchronization is atomic, whatever call fails and wherever it fails.  If it returns, the
  committed tables serve the current build of the catalog: the digest index, the digests recomputed
  from the served rows, the summary and the checkpoint are those of the frame, the file and the
  record that were read.  If it raises, the committed tables are unchanged, or the commit took effect
  and only its acknowledgement or the cleanup failed, and they serve the current build too.  A view
  that showed the raw tables before still does.
\<close>

theorem sync_atomic:
  assumes "reading_ports catalog source clock contract"
    and "gold_sync pl ops sha256 catalog source (pg_repository contract view sha256 policy key) clock w = (res, w')"
  shows "(\<forall>out. res = Inr out \<longrightarrow>
      synchronized pl ops sha256 view catalog source (files w) (committed w) out (committed w'))
    \<and> (committed w' = committed w
      \<or> (\<exists>out. synchronized pl ops sha256 view catalog source (files w) (committed w) out (committed w')))"
proof -
  note rule = gold_sync_rule [OF assms(1), of "committed w" "files w" pl ops sha256 view policy key]
  show ?thesis
  proof (cases res)
    case (Inl e)
    then show ?thesis
      using hoareD_Inl [OF rule, of w] assms(2) by auto
  next
    case (Inr out)
    then show ?thesis
      using hoareD_Inr [OF rule, of w] assms(2) by auto
  qed
qed

text \<open>
  C20: the health of the committed tables is an invariant: after any synchronization of healthy tables,
  returning or not, every row of the digest index is the digest of the served row of its timestamp,
  every served row has one, and the keys are well-formed.
\<close>

theorem sync_keeps_healthy:
  assumes "polars_frames pl" "polars_expressions ops" "reading_ports catalog source clock contract"
    and "\<forall>p f. reads_at (files w) (src_read_path source p) f \<longrightarrow> wf_frame f"
    and "healthy sha256 (committed w)"
  shows "healthy sha256 (committed (snd (gold_sync pl ops sha256 catalog source
      (pg_repository contract view sha256 policy key) clock w)))"
proof -
  let ?run = "gold_sync pl ops sha256 catalog source (pg_repository contract view sha256 policy key) clock"
  have ports: "untouched (src_read_path source p)" for p
    using assms(3) by (simp add: reading_ports_def)
  have "hoare (\<lambda>u. committed u = committed w \<and> files u = files w) ?run (\<lambda>out u. healthy sha256 (committed u))
      (\<lambda>_ u. committed u = committed w \<or> (\<exists>out :: gold_sync_result. healthy sha256 (committed u)))"
  proof (rule gold_sync_general [OF assms(3), where Q = "\<lambda>out. healthy sha256"], rule hoareI)
    fix r path s u out u'
    assume u: "committed u = committed w \<and> working u = committed w \<and> files u = files w \<and> lock_held u = Some key"
      and run: "sync_locked pl ops sha256 source (pg_transaction view sha256) r path s u = (Inr out, u')"
    have "healthy sha256 (working u')"
      using assms(4,5) u by (intro sync_locked_healthy [OF assms(1,2) ports _ run]) auto
    then show "committed u' = committed w \<and> healthy sha256 (working u')"
      using preservesD [OF sync_locked_committed [OF ports] run] u by simp
  next
    fix r path s u e u'
    assume "committed u = committed w \<and> working u = committed w \<and> files u = files w \<and> lock_held u = Some key"
      "sync_locked pl ops sha256 source (pg_transaction view sha256) r path s u = (Inl e, u')"
    then show "committed u' = committed w"
      using preservesD [OF sync_locked_committed [OF ports]] by fastforce
  qed
  then have "committed (snd (?run w)) = committed w \<or> healthy sha256 (committed (snd (?run w)))"
    by (cases "?run w"; cases "fst (?run w)") (auto dest: hoareD_Inr hoareD_Inl)
  then show ?thesis
    using assms(5) by metis
qed

text \<open>
  C21: a synchronization returns when no call fails, the lake offers a build whose rows the tables can
  hold, and the tables are empty or those of an earlier synchronization that the build may replace.
\<close>

theorem sync_returns:
  assumes "polars_frames pl" "polars_expressions ops"
    and "lake_offers (files w) catalog source clock r sha f now" "quietly (files w) contract ()"
    and "wf_frame f" "validate_frame_metadata f r = Inr ()" "source_rows_and_digests pl sha256 f = Inr (rows, digests)"
    and "servable sha256 rows digests" "valid_sync_state (state_for r sha now)"
    and "replaceable sha256 digests prior (state_for r sha now) (committed w)" "faults w = []"
  shows "is_ok (fst (gold_sync pl ops sha256 catalog source (pg_repository contract view sha256 policy key) clock w))"
  using gold_sync_reaches [OF assms, of view policy key] by (auto simp: reaches_def)

section \<open>A first synchronization\<close>

definition demo_db :: "nat pg_db" where
  "demo_db = \<lparr>raw = (\<lambda>_. []), row_hashes = [], sync_states = [], features = 0\<rparr>"

definition demo_pg :: "nat pg" where
  "demo_pg = \<lparr>faults = [], files = [], dirs = [], temps = [], next_temp = 0, committed = demo_db, working = demo_db,
     lock_held = None, catalog_answer = (\<lambda>_. [])\<rparr>"

definition demo_view :: "(string \<Rightarrow> raw_table) \<Rightarrow> nat" where
  "demo_view r = length (r ''ciss'')"

definition demo_current :: gold_record where
  "demo_current = \<lparr>dataset_id = POSTGRES_DATASET_ID, build_id = ''20260102T030405Z'', status = COMPLETE, current = True,
     started_at_utc = Aware 0 0, completed_at_utc = Some (Aware 1 0), schema_version = 11, feature_version = 6,
     min_timestamp = Some (Aware 0 0), max_timestamp = Some (Aware 0 0), row_count = Some 1, data_path = Some ''d'',
     build_manifest_path = Some ''m'', plot_path = Some ''p'', pruned_at_utc = None\<rparr>"

definition demo_source :: "nat pg gold_source" where
  "demo_source = \<lparr>src_validate_bundle = (\<lambda>_. ret ()), src_sha256_path = (\<lambda>_. ret (demo_sha [])),
     src_read_path = (\<lambda>_. ret demo_gold)\<rparr>"

definition demo_sync :: "gold_sync_result result \<times> nat pg" where
  "demo_sync = gold_sync reference_polars reference_polars_ops demo_sha (ret [demo_current]) demo_source
     (pg_repository (ret ()) demo_view demo_sha default_timeout_policy 7) (ret (Aware 5 0)) demo_pg"

lemma demo_reading_ports: "reading_ports (ret [demo_current]) demo_source (ret (Aware 5 0)) (ret ())"
  by (auto simp: reading_ports_def untouched_def demo_source_def intro!: preserves_intros)

lemma demo_columns: "f_columns demo_gold = GOLD_COLUMNS"
  by (simp add: demo_gold_def f_columns_def comp_def GOLD_COLUMNS_def)

lemma demo_metadata: "validate_frame_metadata demo_gold demo_current = Inr ()"
proof -
  have types: "map_of (f_schema demo_gold) c = Some DFloat64" if "c \<in> set (tl GOLD_COLUMNS)" for c
    using that timestamp_not_feature by (auto simp: demo_gold_def map_of_map_restrict)
  have "column_cells demo_gold ''timestamp_m1'' = [CDatetime 0]"
    by (simp add: column_cells_def demo_gold_def)
  moreover have "schema_type demo_gold ''timestamp_m1'' = Inr DDatetimeUtc" "f_height demo_gold = 1"
    by (simp_all add: schema_type_def demo_gold_def f_height_def)
  moreover have "rfor (\<lambda>c. rbind (schema_type demo_gold c) (\<lambda>t. raise_if (t \<noteq> DFloat64) GoldSyncSourceError
      ''current Gold feature dtype differs from the canonical schema'')) (tl GOLD_COLUMNS) = Inr ()"
    using types by (simp add: rfor_Inr schema_type_def)
  ultimately show ?thesis
    by (simp add: validate_frame_metadata_def demo_columns demo_current_def timestamp_or_none_def)
qed

lemma demo_cells:
  "row_cells (demo_row None) c = (if c = ''ciss_level'' then Some 0x4034000000000000 else None)"
  if "c \<in> set (tl POSTGRES_RAW_COLUMNS)"
  using that unfolding row_cells_def demo_row_def POSTGRES_RAW_COLUMNS_def gold_columns_eval
  by (auto simp: numeral_eq_Suc)

lemma demo_servable: "servable demo_sha [demo_row None] [\<lparr>dig_timestamp = Aware 0 0, dig_sha256 = demo_sha []\<rparr>]"
proof -
  have "source_of demo_sha [demo_row None] [\<lparr>dig_timestamp = Aware 0 0, dig_sha256 = demo_sha []\<rparr>]"
    by (rule polars_frames.source_rows_of [OF ref_polars.polars_frames_axioms demo_gold_wf demo_gold_rows])
  moreover have "is_sha256_hex (demo_sha [])"
    by (simp add: is_sha256_hex_def demo_sha_def list_all_replicate)
  moreover have "row_fits_tables (demo_row None)"
  proof -
    have "level_column s \<noteq> ''ciss_level'' \<and> field_column s ''close'' \<noteq> ''ciss_level''" if "s \<in> set OHLC_SERIES" for s
      using that by (auto simp: ohlc_series_eq level_column_def field_column_def)
    moreover have "level_column s \<in> set (tl POSTGRES_RAW_COLUMNS)" "field_column s ''close'' \<in> set (tl POSTGRES_RAW_COLUMNS)"
      if "s \<in> set OHLC_SERIES" for s
      using that ohlc_in_source by (auto simp: POSTGRES_RAW_COLUMNS_def GOLD_COLUMNS_def OHLC_FIELDS_def)
    ultimately have "row_cells (demo_row None) (level_column s) = row_cells (demo_row None) (field_column s ''close'')"
      if "s \<in> set OHLC_SERIES" for s
      using that demo_cells by simp
    then show ?thesis
      by (auto simp: row_fits_tables_def demo_row_def list_all_replicate f64_finite_def f64_exponent_def)
  qed
  moreover have "\<not> null_row (pay_values (demo_row None))"
    by (simp add: null_row_def demo_row_def)
  ultimately show ?thesis
    by (simp add: servable_def)
qed

lemma demo_replaceable: "replaceable demo_sha digests None s demo_db"
proof -
  have "wide demo_db t = all_null" for t
    by (rule projected_none) (simp add: raw_at_def demo_db_def)
  then show ?thesis
    by (simp add: replaceable_def healthy_def state_stored_def row_digest_def hashes_ok_def hash_at_def demo_db_def raw_ok_def
        fun_eq_iff)
qed

lemma demo_selected: "select_current_sync_record [demo_current] = Inr demo_current"
  unfolding select_current_sync_record_Inr
  by (simp add: demo_current_def selectable_complete_def artifact_paths_complete_def artifact_paths_def GOLD_SCHEMA_VERSION_def
      GOLD_FEATURE_VERSION_def)

lemma quietly_ret: "quietly F (ret x) x"
  by (simp add: quietly_def ret_def)

lemma demo_offers: "lake_offers F (ret [demo_current]) demo_source (ret (Aware 5 0)) demo_current (demo_sha []) demo_gold (Aware 5 0)"
proof -
  have "required_data_path demo_current = Inr ''d''"
    by (simp add: required_data_path_def demo_current_def)
  moreover have "is_sha256_hex (demo_sha [])"
    by (simp add: is_sha256_hex_def demo_sha_def list_all_replicate)
  ultimately show ?thesis
    using demo_selected unfolding lake_offers_def demo_source_def
    by (intro conjI exI [of _ "[demo_current]"] exI [of _ "''d''"]) (simp_all add: quietly_ret)
qed

lemma demo_valid: "valid_sync_state (state_for demo_current (demo_sha []) (Aware 5 0))"
  by (simp add: valid_sync_state_def state_for_def demo_current_def is_sha256_hex_def demo_sha_def list_all_replicate)

theorem sync_returns_witness: "is_ok (fst demo_sync)"
  unfolding demo_sync_def
proof (rule sync_returns [OF ref_polars.polars_frames_axioms ref_ops.polars_expressions_axioms demo_offers _ demo_gold_wf
      demo_metadata demo_gold_rows demo_servable demo_valid])
  show "quietly (files demo_pg) (ret ()) ()"
    by (rule quietly_ret)
  show "replaceable demo_sha [\<lparr>dig_timestamp = Aware 0 0, dig_sha256 = demo_sha []\<rparr>] None
      (state_for demo_current (demo_sha []) (Aware 5 0)) (committed demo_pg)"
    using demo_replaceable by (simp add: demo_pg_def)
qed (simp add: demo_pg_def)

lemma demo_reaches:
  "\<exists>out w' p. reaches (gold_sync reference_polars reference_polars_ops demo_sha (ret [demo_current]) demo_source
      (pg_repository (ret ()) demo_view demo_sha default_timeout_policy 7) (ret (Aware 5 0))) demo_pg out w'
    \<and> verified demo_view demo_sha p (state_for demo_current (demo_sha []) (Aware 5 0)) (committed w')
    \<and> dp_source_digests p = [\<lparr>dig_timestamp = Aware 0 0, dig_sha256 = demo_sha []\<rparr>]"
proof (rule gold_sync_reaches [OF ref_polars.polars_frames_axioms ref_ops.polars_expressions_axioms demo_offers _ demo_gold_wf
      demo_metadata demo_gold_rows demo_servable demo_valid])
  show "quietly (files demo_pg) (ret ()) ()"
    by (rule quietly_ret)
  show "replaceable demo_sha [\<lparr>dig_timestamp = Aware 0 0, dig_sha256 = demo_sha []\<rparr>] None
      (state_for demo_current (demo_sha []) (Aware 5 0)) (committed demo_pg)"
    using demo_replaceable by (simp add: demo_pg_def)
qed (simp add: demo_pg_def)

lemma demo_returns: "\<exists>out w'. demo_sync = (Inr out, w')"
  using demo_reaches by (auto simp: demo_sync_def reaches_def)

theorem sync_atomic_witness:
  "\<exists>out w'. demo_sync = (Inr out, w') \<and> synchronized reference_polars reference_polars_ops demo_sha demo_view
    (ret [demo_current]) demo_source [] demo_db out (committed w')"
proof -
  obtain out w' where run: "demo_sync = (Inr out, w')"
    using demo_returns by blast
  have "files demo_pg = []" "committed demo_pg = demo_db"
    by (simp_all add: demo_pg_def)
  then show ?thesis
    using sync_atomic [OF demo_reading_ports run [unfolded demo_sync_def]] run by auto
qed

theorem sync_keeps_healthy_witness:
  "healthy demo_sha (committed (snd demo_sync)) \<and> is_ok (fst demo_sync)"
proof -
  have "f = demo_gold" if "reads_at F (src_read_path demo_source p) f" for F p f
    using that by (auto simp: reads_at_def demo_source_def ret_def)
  then have "\<forall>p f. reads_at (files demo_pg) (src_read_path demo_source p) f \<longrightarrow> wf_frame f"
    using demo_gold_wf by blast
  moreover have "healthy demo_sha (committed demo_pg)"
    using demo_replaceable by (simp add: replaceable_def demo_pg_def)
  ultimately have "healthy demo_sha (committed (snd demo_sync))"
    unfolding demo_sync_def
    by (intro sync_keeps_healthy [OF ref_polars.polars_frames_axioms ref_ops.polars_expressions_axioms demo_reading_ports])
  moreover obtain out w' where "demo_sync = (Inr out, w')"
    using demo_returns by blast
  ultimately show ?thesis
    by (metis fst_conv is_ok_simps(1))
qed

end
