(* ===== verification/Pg_Conformance.thy ===== *)
theory Pg_Conformance
  imports Pg_Invariant Gold_Views
begin

text \<open>
  \<open>src/application/postgres_conformance.py\<close> and \<open>src/application/postgres_conformance_service.py\<close>: the
  fail-closed report on the serving replica.  The inspector of database facts is a port; the catalog, the
  frame source and the repository are those of the synchronization.
\<close>

section \<open>Reports\<close>

definition POSTGRES_TEMPORAL_CONTRACT_VERSION :: string where
  "POSTGRES_TEMPORAL_CONTRACT_VERSION = ''pg-temporal-v1''"

record conformance_evidence =
  ev_schema_table_count :: int
  ev_role_count :: int
  ev_temporal_probe_count :: int
  ev_feature_value_row_count :: int

definition DatabaseConformanceEvidence :: "int \<Rightarrow> int \<Rightarrow> int \<Rightarrow> int \<Rightarrow> conformance_evidence result" where
  "DatabaseConformanceEvidence tables roles probes feature_rows =
    rbind (raise_if (min (min tables roles) (min probes feature_rows) < 0) ValueError
      ''PostgreSQL conformance evidence counts cannot be negative'') (\<lambda>_.
    Inr \<lparr>ev_schema_table_count = tables, ev_role_count = roles, ev_temporal_probe_count = probes,
      ev_feature_value_row_count = feature_rows\<rparr>)"

definition as_summary :: "conformance_evidence \<Rightarrow> (string \<times> int) list" where
  "as_summary e =
    [(''role_count'', ev_role_count e), (''schema_table_count'', ev_schema_table_count e),
     (''temporal_probe_count'', ev_temporal_probe_count e), (''feature_value_row_count'', ev_feature_value_row_count e)]"

record conformance_report =
  rep_status :: string
  rep_checks :: "string list"
  rep_summaries :: "(string \<times> int) list"
  rep_contract_version :: string

definition PostgresConformanceReport ::
  "string \<Rightarrow> string list \<Rightarrow> (string \<times> int) list \<Rightarrow> string \<Rightarrow> conformance_report result" where
  "PostgresConformanceReport verdict checks summaries contract_version =
    rbind (raise_if (verdict \<notin> {''PASS'', ''FAIL''}) ValueError
      ''PostgreSQL conformance status must be PASS or FAIL'') (\<lambda>_.
    rbind (raise_if (contract_version \<noteq> POSTGRES_TEMPORAL_CONTRACT_VERSION) ValueError
      ''unsupported PostgreSQL temporal contract version'') (\<lambda>_.
    rbind (raise_if (sort (remdups checks) \<noteq> checks) ValueError
      ''PostgreSQL conformance checks must be unique and sorted'') (\<lambda>_.
    rbind (raise_if (sort (map fst summaries) \<noteq> map fst summaries) ValueError
      ''PostgreSQL conformance summaries must be sorted'') (\<lambda>_.
    rbind (raise_if (list_ex (\<lambda>v. v < 0) (map snd summaries)) ValueError
      ''PostgreSQL conformance summary counts cannot be negative'') (\<lambda>_.
    Inr \<lparr>rep_status = verdict, rep_checks = checks, rep_summaries = summaries,
      rep_contract_version = contract_version\<rparr>)))))"

text \<open>\<open>json.dumps(..., ensure_ascii=True, sort_keys=True)\<close> with the default separators\<close>

fun json_items :: "string list \<Rightarrow> string" where
  "json_items [] = []"
| "json_items [x] = x"
| "json_items (x # xs) = x @ '', '' @ json_items xs"

definition json_object :: "(string \<times> string) list \<Rightarrow> string" where
  "json_object kvs = ''{'' @ json_items (map (\<lambda>(k, v). json_string k @ '': '' @ v) (sort_key fst kvs)) @ ''}''"

definition as_json :: "conformance_report \<Rightarrow> string" where
  "as_json r = json_object
    [(''checks'', ''['' @ json_items (map json_string (rep_checks r)) @ '']''),
     (''status'', json_string (rep_status r)),
     (''summaries'', json_object (map (\<lambda>(k, n). (k, string_of_int n)) (rep_summaries r))),
     (''temporal_contract_version'', json_string (rep_contract_version r))]"

section \<open>Verification\<close>

type_synonym replica_target =
  "gold_sync_state option \<times> gold_row_digest list \<times> gold_row_digest list \<times> gold_target_summary"

definition read_target :: "'w gold_sync_transaction \<Rightarrow> ('w, replica_target) io" where
  "read_target tx =
    bind (tx_read_state tx POSTGRES_DATASET_ID) (\<lambda>state.
    bind (tx_read_digests tx POSTGRES_DATASET_ID) (\<lambda>index.
    bind (tx_read_consumer_digests tx POSTGRES_DATASET_ID) (\<lambda>consumer.
    bind (tx_summary tx POSTGRES_DATASET_ID) (\<lambda>summary.
    ret (state, index, consumer, summary)))))"

definition assert_agreement ::
  "gold_record \<Rightarrow> string \<Rightarrow> gold_row_digest list \<Rightarrow> replica_target \<Rightarrow> unit result" where
  "assert_agreement r source_sha256 source_digests target =
    (case target of (state, index, consumer, summary) \<Rightarrow>
      rbind (raise_if (\<not> dict_eq (digest_dict source_digests) (digest_dict index)) ValueError
        ''digest index differs from source'') (\<lambda>_.
      rbind (raise_if (\<not> dict_eq (digest_dict source_digests) (digest_dict consumer)) ValueError
        ''consumer differs from source'') (\<lambda>_.
      rbind (GoldTargetSummary (case row_count r of None \<Rightarrow> 0 | Some n \<Rightarrow> n) (min_timestamp r) (max_timestamp r)) (\<lambda>expected.
      case state of
        None \<Rightarrow> raise ValueError ''consumer summary or state differs from source''
      | Some s \<Rightarrow>
          rbind (raise_if (summary \<noteq> expected) ValueError ''consumer summary or state differs from source'') (\<lambda>_.
          raise_if (st_source_build_id s \<noteq> build_id r \<or> st_data_sha256 s \<noteq> source_sha256
              \<or> st_schema_version s \<noteq> schema_version r \<or> st_feature_version s \<noteq> feature_version r
              \<or> st_row_count s \<noteq> ts_row_count expected \<or> st_min_timestamp s \<noteq> ts_min_timestamp expected
              \<or> st_max_timestamp s \<noteq> ts_max_timestamp expected) ValueError ''sync state differs from source'')))))"

definition source_digests_of ::
  "polars \<Rightarrow> polars_ops \<Rightarrow> (byte list \<Rightarrow> string) \<Rightarrow> frame \<Rightarrow> gold_row_digest list result" where
  "source_digests_of pl ops sha256 f =
    rbind (raise_if (f_columns f \<noteq> GOLD_COLUMNS) ValueError
      ''current Gold columns differ from the canonical schema'') (\<lambda>_.
    rbind (pl_select ops raw_selection f) (\<lambda>selected.
    rbind (source_rows_and_digests pl sha256 selected) (\<lambda>(_, digests). Inr digests)))"

text \<open>The body of the \<open>try\<close> block, with what the report uses of it.\<close>

definition gather ::
  "polars \<Rightarrow> polars_ops \<Rightarrow> (byte list \<Rightarrow> string) \<Rightarrow> ('w, gold_record list) io \<Rightarrow> 'w gold_source \<Rightarrow>
    ('w, replica_target) gold_sync_repository \<Rightarrow> ('w, conformance_evidence) io \<Rightarrow>
    ('w, conformance_evidence \<times> replica_target) io" where
  "gather pl ops sha256 catalog source repository inspector =
    bind catalog (\<lambda>records.
    bind (lift (select_current_sync_record records)) (\<lambda>r.
    bind (lift (case data_path r of None \<Rightarrow> raise ValueError ''current Gold record has no data path'' | Some p \<Rightarrow> Inr p)) (\<lambda>path.
    seq (src_validate_bundle source r)
    (bind (src_read_path source path) (\<lambda>f.
    bind (lift (source_digests_of pl ops sha256 f)) (\<lambda>source_digests.
    bind (src_sha256_path source path) (\<lambda>source_sha256.
    bind inspector (\<lambda>evidence.
    bind (rp_run_locked repository read_target) (\<lambda>target.
    seq (lift (assert_agreement r source_sha256 source_digests target))
    (ret (evidence, target)))))))))))"

definition PASS_CHECKS :: "string list" where
  "PASS_CHECKS = [''consumer'', ''digest_index'', ''feature_values'', ''roles'', ''schema'', ''session'', ''source'',
     ''state'', ''summary'', ''temporal'']"

definition pass_summaries :: "conformance_evidence \<Rightarrow> replica_target \<Rightarrow> (string \<times> int) list" where
  "pass_summaries evidence target =
    (case target of (_, index, _, summary) \<Rightarrow>
      sort ([(''consumer_row_count'', ts_row_count summary), (''digest_row_count'', int (length index))]
        @ as_summary evidence))"

definition verify ::
  "polars \<Rightarrow> polars_ops \<Rightarrow> (byte list \<Rightarrow> string) \<Rightarrow> ('w, gold_record list) io \<Rightarrow> 'w gold_source \<Rightarrow>
    ('w, replica_target) gold_sync_repository \<Rightarrow> ('w, conformance_evidence) io \<Rightarrow> ('w, conformance_report) io" where
  "verify pl ops sha256 catalog source repository inspector =
    bind (try_except
      (bind (gather pl ops sha256 catalog source repository inspector) (\<lambda>x. ret (Some x)))
      is_exception (\<lambda>_. ret None)) (\<lambda>gathered.
    lift (case gathered of
      None \<Rightarrow> PostgresConformanceReport ''FAIL'' [''verification_failed''] [] POSTGRES_TEMPORAL_CONTRACT_VERSION
    | Some (evidence, target) \<Rightarrow>
        PostgresConformanceReport ''PASS'' PASS_CHECKS (pass_summaries evidence target) POSTGRES_TEMPORAL_CONTRACT_VERSION))"

section \<open>What a report says\<close>

lemma report_Inr:
  "PostgresConformanceReport verdict checks summaries v = Inr rep \<Longrightarrow> rep_status rep = verdict \<and> rep_summaries rep = summaries"
  by (auto simp: PostgresConformanceReport_def guard_Inr)

lemma fail_report:
  "\<exists>rep. PostgresConformanceReport ''FAIL'' [''verification_failed''] [] POSTGRES_TEMPORAL_CONTRACT_VERSION = Inr rep
    \<and> rep_status rep = ''FAIL''"
  by (simp add: PostgresConformanceReport_def)

definition counted :: "(string \<times> int) list \<Rightarrow> bool" where
  "counted ss \<longleftrightarrow> (\<forall>v \<in> snd ` set ss. 0 \<le> v)"

lemma pass_checks_sorted: "sort (remdups PASS_CHECKS) = PASS_CHECKS"
  unfolding PASS_CHECKS_def by code_simp

lemma pass_report:
  assumes "counted (pass_summaries evidence target)"
  shows "\<exists>rep. PostgresConformanceReport ''PASS'' PASS_CHECKS (pass_summaries evidence target) POSTGRES_TEMPORAL_CONTRACT_VERSION = Inr rep
    \<and> rep_status rep = ''PASS''"
proof -
  have "sorted (map fst (sort kvs))" for kvs :: "(string \<times> int) list"
    unfolding sorted_map by (rule sorted_wrt_mono_rel [OF _ sorted_sort]) (auto simp: less_eq_prod_def)
  then have "sort (map fst (pass_summaries evidence target)) = map fst (pass_summaries evidence target)"
    by (cases target) (simp add: pass_summaries_def sorted_sort_id del: sort_key_simps sort_append)
  moreover have "\<not> list_ex (\<lambda>v. v < 0) (map snd (pass_summaries evidence target))"
    using assms by (auto simp: counted_def list_ex_iff)
  ultimately show ?thesis
    by (simp add: PostgresConformanceReport_def pass_checks_sorted)
qed

text \<open>The tables of the database and what a locked read returns of them.\<close>

definition target_of :: "(byte list \<Rightarrow> string) \<Rightarrow> 'v pg_db \<Rightarrow> replica_target \<Rightarrow> bool" where
  "target_of sha256 db target \<longleftrightarrow> (case target of (state, index, consumer, summary) \<Rightarrow>
    (case map_of (sync_states db) POSTGRES_DATASET_ID of
      None \<Rightarrow> state = None | Some row \<Rightarrow> (\<exists>s. state_from_row row = Inr s \<and> state = Some s))
    \<and> rmap digest_from_row (digest_rows POSTGRES_DATASET_ID db) = Inr index
    \<and> rmap (consumer_digest sha256) (consumer_rows (raw db)) = Inr consumer
    \<and> summary_from_row (summary_row (raw db)) = Inr summary)"

lemma read_target_committed: "preserves committed (read_target (pg_transaction view sha256))"
  by (auto simp: read_target_def pg_transaction_def intro!: preserves_intros)

lemma read_target_rule:
  "hoare (\<lambda>w. committed w = D \<and> working w = D \<and> files w = F \<and> lock_held w = Some key) (read_target (pg_transaction view sha256))
    (\<lambda>x w. committed w = D \<and> (working w = D \<and> target_of sha256 D x)) (\<lambda>_ w. committed w = D)"
proof (rule hoareI)
  fix w x w'
  assume w: "committed w = D \<and> working w = D \<and> files w = F \<and> lock_held w = Some key"
    and run: "read_target (pg_transaction view sha256) w = (Inr x, w')"
  have "committed w' = committed w"
    using preservesD [OF read_target_committed run] .
  moreover have "working w' = working w \<and> target_of sha256 (working w) x"
    using run by (auto simp: read_target_def pg_transaction_def bind_eq_Inr ret_def target_of_def
        dest!: txn_read_state_InrD txn_read_digests_InrD txn_read_consumer_digests_InrD txn_summary_InrD split: option.splits)
  ultimately show "committed w' = D \<and> (working w' = D \<and> target_of sha256 D x)"
    using w by simp
next
  fix w e w'
  assume w: "committed w = D \<and> working w = D \<and> files w = F \<and> lock_held w = Some key"
    and run: "read_target (pg_transaction view sha256) w = (Inl e, w')"
  have "committed w' = committed w"
    using preservesD [OF read_target_committed run] .
  then show "committed w' = D"
    using w by simp
qed

lemma locked_read_rule:
  "hoare (\<lambda>w. committed w = D \<and> files w = F) (run_locked policy key (read_target (pg_transaction view sha256)))
    (\<lambda>x w. committed w = D \<and> target_of sha256 D x) (\<lambda>_ w. committed w = D)"
  by (rule hoare_conseq [OF run_locked_rule [OF read_target_rule]]) auto

text \<open>
  The tables agree with the build \<open>r\<close>, its file digest and its frame: the digest index and the digests of
  the served rows are those of the frame, summary and checkpoint those of the record.
\<close>

definition replica_agrees ::
  "polars \<Rightarrow> polars_ops \<Rightarrow> (byte list \<Rightarrow> string) \<Rightarrow> gold_record \<Rightarrow> string \<Rightarrow> frame \<Rightarrow> 'v pg_db \<Rightarrow> bool" where
  "replica_agrees pl ops sha256 r sha f db \<longleftrightarrow> (\<exists>digests s row.
    source_digests_of pl ops sha256 f = Inr digests
    \<and> index_agrees (rmap digest_from_row (digest_rows POSTGRES_DATASET_ID db)) digests
    \<and> index_agrees (rmap (consumer_digest sha256) (consumer_rows (raw db))) digests
    \<and> summary_from_row (summary_row (raw db)) = Inr \<lparr>ts_row_count = st_row_count s,
        ts_min_timestamp = st_min_timestamp s, ts_max_timestamp = st_max_timestamp s\<rparr>
    \<and> map_of (sync_states db) POSTGRES_DATASET_ID = Some row \<and> state_from_row row = Inr s
    \<and> st_source_build_id s = build_id r \<and> st_data_sha256 s = sha
    \<and> st_schema_version s = schema_version r \<and> st_feature_version s = feature_version r
    \<and> st_row_count s = (case row_count r of None \<Rightarrow> 0 | Some n \<Rightarrow> n)
    \<and> st_min_timestamp s = min_timestamp r \<and> st_max_timestamp s = max_timestamp r)"

lemma distinct_updates:
  "distinct (map fst acc) \<Longrightarrow> distinct (map fst (foldl (\<lambda>d (k, v). AList.update k v d) acc xs))"
  by (induction xs arbitrary: acc) (auto simp: distinct_update)

lemma digest_dict_keys: "distinct (map fst (digest_dict ds))"
  unfolding digest_dict_def dict_of_def by (rule distinct_updates) simp

lemma digest_dict_sym: "dict_eq (digest_dict a) (digest_dict b) \<longleftrightarrow> dict_eq (digest_dict b) (digest_dict a)"
  by (auto simp: dict_eq_map_of digest_dict_keys)

lemma agreement_iff:
  assumes "source_digests_of pl ops sha256 f = Inr digests" "target_of sha256 db target"
  shows "assert_agreement r sha digests target = Inr () \<longleftrightarrow>
    replica_agrees pl ops sha256 r sha f db \<and> opt_all is_utc (min_timestamp r) \<and> opt_all is_utc (max_timestamp r)
    \<and> (\<forall>n. row_count r = Some n \<longrightarrow> 0 \<le> n)"
  using assms
  by (cases "row_count r"; cases "map_of (sync_states db) POSTGRES_DATASET_ID")
    (auto simp: assert_agreement_def target_of_def replica_agrees_def guard_Inr rbind_Inr GoldTargetSummary_Inr index_agrees_def
      digest_dict_sym split: option.splits)

section \<open>Soundness\<close>

text \<open>The ports only read, and the inspector returns what the constructor of the evidence accepts.\<close>

definition conformance_ports ::
  "(('v, 'z) pg_scheme, gold_record list) io \<Rightarrow> ('v, 'z) pg_scheme gold_source \<Rightarrow>
    (('v, 'z) pg_scheme, conformance_evidence) io \<Rightarrow> bool" where
  "conformance_ports catalog source inspector \<longleftrightarrow>
    untouched catalog \<and> untouched inspector
    \<and> (\<forall>r. untouched (src_validate_bundle source r))
    \<and> (\<forall>p. untouched (src_sha256_path source p) \<and> untouched (src_read_path source p))
    \<and> (\<forall>w e w'. inspector w = (Inr e, w') \<longrightarrow> (\<exists>a b c d. DatabaseConformanceEvidence a b c d = Inr e))"

definition attested ::
  "polars \<Rightarrow> polars_ops \<Rightarrow> (byte list \<Rightarrow> string) \<Rightarrow> (('v, 'z) pg_scheme, gold_record list) io \<Rightarrow>
    ('v, 'z) pg_scheme gold_source \<Rightarrow> (path \<times> content) list \<Rightarrow> 'v pg_db \<Rightarrow> bool" where
  "attested pl ops sha256 catalog source F db \<longleftrightarrow>
    (\<exists>records r path sha f. reads_at F catalog records \<and> select_current_sync_record records = Inr r
      \<and> data_path r = Some path \<and> reads_at F (src_validate_bundle source r) ()
      \<and> reads_at F (src_sha256_path source path) sha \<and> reads_at F (src_read_path source path) f
      \<and> replica_agrees pl ops sha256 r sha f db)"

lemma counted_summaries:
  assumes "DatabaseConformanceEvidence a b c d = Inr e" "assert_agreement r sha digests target = Inr ()"
  shows "counted (pass_summaries e target)"
proof -
  have set: "set (pass_summaries e (state, index, consumer, summary))
      = set ((''consumer_row_count'', ts_row_count summary) # (''digest_row_count'', int (length index)) # as_summary e)"
    for state index consumer summary
    unfolding pass_summaries_def by (simp add: set_insort_key)
  have "counted (as_summary e)"
    using assms(1) by (auto simp: DatabaseConformanceEvidence_def guard_Inr counted_def as_summary_def)
  moreover have "0 \<le> ts_row_count (snd (snd (snd target)))"
    using assms(2)
    by (cases target) (auto simp: assert_agreement_def guard_Inr rbind_Inr GoldTargetSummary_Inr split: option.splits)
  ultimately show ?thesis
    by (cases target) (simp add: counted_def set)
qed

lemma gather_rule:
  assumes ports: "conformance_ports catalog source inspector"
  shows "hoare (\<lambda>w. committed w = D \<and> files w = F)
    (gather pl ops sha256 catalog source (pg_repository contract view sha256 policy key) inspector)
    (\<lambda>x w. committed w = D \<and> attested pl ops sha256 catalog source F D \<and> counted (pass_summaries (fst x) (snd x)))
    (\<lambda>_ w. committed w = D \<or> False)"
proof -
  have p: "preserves committed catalog" "preserves files catalog" "preserves committed inspector" "preserves files inspector"
    "\<And>r. preserves committed (src_validate_bundle source r)" "\<And>r. preserves files (src_validate_bundle source r)"
    "\<And>p. preserves committed (src_sha256_path source p)" "\<And>p. preserves files (src_sha256_path source p)"
    "\<And>p. preserves committed (src_read_path source p)" "\<And>p. preserves files (src_read_path source p)"
    using ports by (auto simp: conformance_ports_def untouched_def)
  have evidence: "\<exists>a b c d. DatabaseConformanceEvidence a b c d = Inr e" if "reads_at F inspector e" for F e
    using ports that unfolding conformance_ports_def reads_at_def by blast
  have path: "(case x of None \<Rightarrow> raise ValueError m | Some p \<Rightarrow> Inr p) = Inr q \<longleftrightarrow> x = Some q" for x m and q :: string
    by (cases x) simp_all
  have last: "hoare (\<lambda>w. committed w = D \<and> target_of sha256 D t)
      (seq (lift (assert_agreement r sha digests t)) (ret (e, t)))
      (\<lambda>x w. committed w = D \<and> attested pl ops sha256 catalog source F D \<and> counted (pass_summaries (fst x) (snd x)))
      (\<lambda>_ w. committed w = D \<or> False)"
    if "reads_at F catalog records" "select_current_sync_record records = Inr r"
      "(case data_path r of None \<Rightarrow> raise ValueError ''current Gold record has no data path'' | Some p \<Rightarrow> Inr p) = Inr path"
      "reads_at F (src_validate_bundle source r) ()" "reads_at F (src_read_path source path) f"
      "source_digests_of pl ops sha256 f = Inr digests" "reads_at F (src_sha256_path source path) sha" "reads_at F inspector e"
    for records r path f digests sha e t
  proof (rule hoareI)
    fix w x w'
    assume w: "committed w = D \<and> target_of sha256 D t" and run: "seq (lift (assert_agreement r sha digests t)) (ret (e, t)) w = (Inr x, w')"
    have agree: "assert_agreement r sha digests t = Inr ()" and out: "x = (e, t)" "w' = w"
      using run by (auto simp: seq_eq_Inr lift_Inr ret_def)
    have "replica_agrees pl ops sha256 r sha f D"
      using agree w agreement_iff [OF that(6)] by blast
    then have "attested pl ops sha256 catalog source F D"
      using that unfolding attested_def path by blast
    moreover have "counted (pass_summaries e t)"
      using evidence [OF that(8)] counted_summaries [OF _ agree] by blast
    ultimately show "committed w' = D \<and> attested pl ops sha256 catalog source F D \<and> counted (pass_summaries (fst x) (snd x))"
      using w out by simp
  qed (auto simp: seq_eq_Inl lift_def ret_def)
  have final: "hoare (\<lambda>w. committed w = D \<and> files w = F)
      (bind (run_locked policy key (read_target (pg_transaction view sha256)))
        (\<lambda>t. seq (lift (assert_agreement r sha digests t)) (ret (e, t))))
      (\<lambda>x w. committed w = D \<and> attested pl ops sha256 catalog source F D \<and> counted (pass_summaries (fst x) (snd x)))
      (\<lambda>_ w. committed w = D \<or> False)"
    if "reads_at F catalog records" "select_current_sync_record records = Inr r"
      "(case data_path r of None \<Rightarrow> raise ValueError ''current Gold record has no data path'' | Some p \<Rightarrow> Inr p) = Inr path"
      "reads_at F (src_validate_bundle source r) ()" "reads_at F (src_read_path source path) f"
      "source_digests_of pl ops sha256 f = Inr digests" "reads_at F (src_sha256_path source path) sha" "reads_at F inspector e"
    for records r path f digests sha e
    by (rule hoare_bind [OF hoare_conseq [OF locked_read_rule] last [OF that]]) auto
  show ?thesis
    unfolding gather_def seq_def [of "src_validate_bundle source _"] pg_repository_def gold_sync_repository.select_convs
    by (intro final pure_step reading_step p) auto
qed

lemma verify_cases:
  assumes "verify pl ops sha256 catalog source repository inspector w = (res, w')"
  obtains (stopped) e where "gather pl ops sha256 catalog source repository inspector w = (Inl e, w')" "\<not> is_exception e" "res = Inl e"
    | (failed) e rep where "gather pl ops sha256 catalog source repository inspector w = (Inl e, w')" "is_exception e"
      "res = Inr rep" "rep_status rep = ''FAIL''"
    | (gathered) e t where "gather pl ops sha256 catalog source repository inspector w = (Inr (e, t), w')"
      "res = PostgresConformanceReport ''PASS'' PASS_CHECKS (pass_summaries e t) POSTGRES_TEMPORAL_CONTRACT_VERSION"
proof -
  obtain g w1 where g: "gather pl ops sha256 catalog source repository inspector w = (g, w1)"
    by (cases "gather pl ops sha256 catalog source repository inspector w")
  obtain rep where rep: "PostgresConformanceReport ''FAIL'' [''verification_failed''] [] POSTGRES_TEMPORAL_CONTRACT_VERSION = Inr rep"
    "rep_status rep = ''FAIL''"
    using fail_report by blast
  show ?thesis
  proof (cases g)
    case (Inl e)
    have "(res, w') = (if is_exception e then Inr rep else Inl e, w1)"
      unfolding assms [symmetric] verify_def using g Inl rep(1) by (simp add: bind_def try_except_def ret_def lift_def)
    then show ?thesis
      using g stopped [of e] failed [of e rep] rep(2) unfolding Inl by (cases "is_exception e") simp_all
  next
    case (Inr x)
    obtain e t where x: "x = (e, t)"
      by (cases x)
    have "(res, w') = (PostgresConformanceReport ''PASS'' PASS_CHECKS (pass_summaries e t) POSTGRES_TEMPORAL_CONTRACT_VERSION, w1)"
      unfolding assms [symmetric] verify_def using g Inr x by (simp add: bind_def try_except_def ret_def lift_def)
    then show ?thesis
      using g gathered [of e t] unfolding Inr x by simp
  qed
qed

text \<open>
  C37: the conformance report is sound and fail-closed.  Whatever call fails, verifying changes no committed
  table and raises nothing an \<open>except Exception\<close> would catch: it returns a report.  The report is \<open>FAIL\<close>
  or \<open>PASS\<close>, and after \<open>PASS\<close> the committed tables agree with the current build: the digest index and
  the digests recomputed from the served rows are those of its frame, the summary and the checkpoint
  are those of its record and data file.
\<close>

theorem conformance_sound:
  assumes "conformance_ports catalog source inspector"
    and "verify pl ops sha256 catalog source (pg_repository contract view sha256 policy key) inspector w = (res, w')"
  shows "committed w' = committed w
    \<and> (case res of
        Inl e \<Rightarrow> \<not> is_exception e
      | Inr rep \<Rightarrow> rep_status rep = ''FAIL''
          \<or> rep_status rep = ''PASS'' \<and> attested pl ops sha256 catalog source (files w) (committed w))"
proof -
  note rule = gather_rule [OF assms(1), of "committed w" "files w" pl ops sha256 contract view policy key]
  from assms(2) show ?thesis
  proof (cases rule: verify_cases)
    case (stopped e)
    then show ?thesis
      using hoareD_Inl [OF rule _ stopped(1)] by simp
  next
    case (failed e rep)
    then show ?thesis
      using hoareD_Inl [OF rule _ failed(1)] by simp
  next
    case (gathered e t)
    have post: "committed w' = committed w \<and> attested pl ops sha256 catalog source (files w) (committed w)
        \<and> counted (pass_summaries e t)"
      using hoareD_Inr [OF rule _ gathered(1)] by simp
    then obtain rep where "res = Inr rep" "rep_status rep = ''PASS''"
      using pass_report gathered(2) by metis
    then show ?thesis
      using post by simp
  qed
qed

section \<open>A synchronization is certified\<close>

lemma synchronized_agrees:
  assumes v: "verified view sha256 p s db" "dp_source_digests p = digests" and s: "checkpoint_of r sha s"
    and f: "source_digests_of pl ops sha256 f = Inr digests"
  shows "replica_agrees pl ops sha256 r sha f db"
proof -
  have valid: "valid_sync_state s" and r: "row_count r = Some (st_row_count s)"
    using s by (simp_all add: checkpoint_of_def)
  obtain t where t: "summary_from_row (summary_row (raw db)) = Inr t" "expected_summary s = Inr t"
    using v(1) by (auto simp: verified_def)
  have "t = \<lparr>ts_row_count = st_row_count s, ts_min_timestamp = st_min_timestamp s, ts_max_timestamp = st_max_timestamp s\<rparr>"
    using t(2) by (simp add: expected_summary_def GoldTargetSummary_Inr)
  then show ?thesis
    using v s f t(1) r state_row_roundtrip [OF valid] unfolding replica_agrees_def verified_def checkpoint_of_def
    by (intro exI [of _ digests] exI [of _ s] exI [of _ "state_params s"]) simp
qed

lemma read_target_reaches:
  assumes w: "faults w = []" and v: "verified view sha256 p s (working w)" and valid: "valid_sync_state s"
  shows "\<exists>target. reaches (read_target (pg_transaction view sha256)) w target w \<and> target_of sha256 (working w) target"
proof -
  obtain index consumer t where r: "rmap digest_from_row (digest_rows POSTGRES_DATASET_ID (working w)) = Inr index"
    "rmap (consumer_digest sha256) (consumer_rows (raw (working w))) = Inr consumer"
    "summary_from_row (summary_row (raw (working w))) = Inr t"
    using v by (auto simp: verified_def index_agrees_def)
  have stored: "map_of (sync_states (working w)) POSTGRES_DATASET_ID = Some (state_params s)"
    using v by (simp add: verified_def)
  then have "state_stored (Some s) (working w)"
    using valid by (simp add: state_stored_def)
  then have "reaches (read_target (pg_transaction view sha256)) w (Some s, index, consumer, t) w"
    unfolding read_target_def pg_transaction_def gold_sync_transaction.select_convs
    by (intro reaches_bind [OF reaches_read_state] reaches_bind [OF reaches_read_digests] reaches_bind [OF reaches_read_consumer]
        reaches_bind [OF reaches_summary] w) (simp_all add: reaches_def ret_def w r)
  moreover have "target_of sha256 (working w) (Some s, index, consumer, t)"
    using r stored state_row_roundtrip [OF valid] by (simp add: target_of_def)
  ultimately show ?thesis
    by blast
qed

lemma certified:
  fixes w :: "('v, 'z) pg_scheme"
  assumes ops: "polars_expressions ops" and lake: "lake_offers F catalog source clock r sha f now"
    and inspector: "quietly F inspector e" "DatabaseConformanceEvidence a b c d = Inr e"
    and f: "wf_frame f" "validate_frame_metadata f r = Inr ()" "source_rows_and_digests pl sha256 f = Inr (rows, digests)"
    and db: "verified view sha256 p s (committed w)" "dp_source_digests p = digests" "checkpoint_of r sha s"
    and w: "faults w = []" "files w = F"
  shows "\<exists>rep w'. verify pl ops sha256 catalog source (pg_repository contract view sha256 policy key) inspector w = (Inr rep, w')
    \<and> rep_status rep = ''PASS''"
proof -
  obtain records path where reads: "quietly F catalog records" "select_current_sync_record records = Inr r"
    "quietly F (src_validate_bundle source r) ()" "required_data_path r = Inr path"
    "quietly F (src_sha256_path source path) sha" "quietly F (src_read_path source path) f"
    using lake unfolding lake_offers_def by blast
  have cols: "f_columns f = GOLD_COLUMNS"
    using f(2) by (simp add: validate_frame_metadata_def guard_Inr)
  have digests: "source_digests_of pl ops sha256 f = Inr digests"
    using selected_frame [OF ops f(1) cols] cols f(3) by (simp add: source_digests_of_def)
  have valid: "valid_sync_state s" and count: "row_count r = Some (st_row_count s)"
    using db(3) by (simp_all add: checkpoint_of_def)
  let ?w = "w\<lparr>working := committed w, lock_held := Some key\<rparr>"
  obtain target where target: "reaches (read_target (pg_transaction view sha256)) ?w target ?w" "target_of sha256 (committed w) target"
    using read_target_reaches [of ?w view sha256 p s] db(1) valid w(1) by auto
  obtain w1 where w1: "reaches (run_locked policy key (read_target (pg_transaction view sha256))) w target w1"
    using run_locked_returns [OF w(1) target(1)] by blast
  have q1: "faults w1 = []"
    using w1 by (simp add: reaches_def)
  have "opt_all is_utc (min_timestamp r) \<and> opt_all is_utc (max_timestamp r) \<and> (\<forall>n. row_count r = Some n \<longrightarrow> 0 \<le> n)"
    using db(3) valid by (auto simp: checkpoint_of_def valid_sync_state_def)
  then have agree: "assert_agreement r sha digests target = Inr ()"
    using agreement_iff [OF digests target(2)] synchronized_agrees [OF db digests] by blast
  have path: "(case data_path r of None \<Rightarrow> raise ValueError ''current Gold record has no data path'' | Some p \<Rightarrow> Inr p) = Inr path"
    using reads(4) by (simp add: required_data_path_Inr)
  note at = reaches_quietly [OF _ w]
  have "reaches (gather pl ops sha256 catalog source (pg_repository contract view sha256 policy key) inspector) w (e, target) w1"
    unfolding gather_def pg_repository_def gold_sync_repository.select_convs
    by (rule reaches_bind [OF at [OF reads(1)]], rule reaches_bind [OF reaches_lift [OF w(1) reads(2)]],
      rule reaches_bind [OF reaches_lift [OF w(1) path]], rule reaches_seq [OF at [OF reads(3)]],
      rule reaches_bind [OF at [OF reads(6)]], rule reaches_bind [OF reaches_lift [OF w(1) digests]],
      rule reaches_bind [OF at [OF reads(5)]], rule reaches_bind [OF at [OF inspector(1)]],
      rule reaches_bind [OF w1], rule reaches_seq [OF reaches_lift [OF q1 agree]]) (simp add: reaches_def ret_def q1)
  moreover obtain rep where "PostgresConformanceReport ''PASS'' PASS_CHECKS (pass_summaries e target)
      POSTGRES_TEMPORAL_CONTRACT_VERSION = Inr rep" "rep_status rep = ''PASS''"
    using pass_report [OF counted_summaries [OF inspector(2) agree]] by blast
  ultimately have "verify pl ops sha256 catalog source (pg_repository contract view sha256 policy key) inspector w = (Inr rep, w1)"
    by (simp add: verify_def bind_def try_except_def ret_def lift_def reaches_def)
  then show ?thesis
    using \<open>rep_status rep = ''PASS''\<close> by blast
qed


section \<open>The first synchronization, certified\<close>

definition demo_evidence :: conformance_evidence where
  "demo_evidence = \<lparr>ev_schema_table_count = 3, ev_role_count = 2, ev_temporal_probe_count = 2, ev_feature_value_row_count = 0\<rparr>"

definition demo_verify :: "nat pg \<Rightarrow> conformance_report result \<times> nat pg" where
  "demo_verify = verify reference_polars reference_polars_ops demo_sha (ret [demo_current]) demo_source
     (pg_repository (ret ()) demo_view demo_sha default_timeout_policy 7) (ret demo_evidence)"

lemma demo_evidence_constructed: "DatabaseConformanceEvidence 3 2 2 0 = Inr demo_evidence"
  by (simp add: DatabaseConformanceEvidence_def demo_evidence_def)

lemma demo_conformance_ports: "conformance_ports (ret [demo_current]) demo_source (ret demo_evidence)"
  using demo_reading_ports demo_evidence_constructed unfolding conformance_ports_def reading_ports_def
  by (auto simp: untouched_def ret_def intro!: preserves_intros)


theorem conformance_sound_witness:
  "\<exists>w rep w'. demo_verify w = (Inr rep, w') \<and> rep_status rep = ''PASS''
    \<and> attested reference_polars reference_polars_ops demo_sha (ret [demo_current]) demo_source [] (committed w)"
proof -
  obtain out w p where
    sync: "reaches (gold_sync reference_polars reference_polars_ops demo_sha (ret [demo_current]) demo_source
      (pg_repository (ret ()) demo_view demo_sha default_timeout_policy 7) (ret (Aware 5 0))) demo_pg out w"
    and db: "verified demo_view demo_sha p (state_for demo_current (demo_sha []) (Aware 5 0)) (committed w)"
      "dp_source_digests p = [\<lparr>dig_timestamp = Aware 0 0, dig_sha256 = demo_sha []\<rparr>]"
    using demo_reaches by blast
  have state: "checkpoint_of demo_current (demo_sha []) (state_for demo_current (demo_sha []) (Aware 5 0))"
    using demo_valid by (simp add: checkpoint_of_def state_for_def demo_current_def)
  have w: "faults w = []" "files w = []"
    using sync by (simp_all add: reaches_def demo_pg_def)
  obtain rep w' where run: "demo_verify w = (Inr rep, w')" "rep_status rep = ''PASS''"
    using certified [OF ref_ops.polars_expressions_axioms demo_offers quietly_ret demo_evidence_constructed demo_gold_wf
        demo_metadata demo_gold_rows db state w] unfolding demo_verify_def by blast
  then show ?thesis
    using conformance_sound [OF demo_conformance_ports run(1) [unfolded demo_verify_def]] w(2) by fastforce
qed

end
