(* ===== verification/Json_Docs.thy ===== *)
theory Json_Docs
  imports Gold_Views Silver
begin

text \<open>
  JSON as the Gold sidecars use it: the documents the program writes with \<open>json.dumps\<close>, which hold no
  floats and no booleans, and the values \<open>json.loads\<close> may return.  The reader is a parameter; the locale
  \<open>json_reader\<close> states that it reads a written document back, and \<open>reference_loads\<close>, a reader of the
  documents the program writes, interprets it.
\<close>

section \<open>Writing\<close>

datatype json_doc = DNull | DInt int | DStr string | DList "json_doc list" | DDict "(string \<times> json_doc) list"

text \<open>\<open>json.dumps(value, ensure_ascii=True, separators=(",", ":"), sort_keys=True)\<close>\<close>

definition doc_field :: "string \<times> string \<Rightarrow> string" where
  "doc_field kv = json_string (fst kv) @ '':'' @ snd kv"

primrec doc_text :: "json_doc \<Rightarrow> string" where
  "doc_text DNull = ''null''"
| "doc_text (DInt i) = string_of_int i"
| "doc_text (DStr s) = json_string s"
| "doc_text (DList ds) = ''['' @ join_with '','' (map doc_text ds) @ '']''"
| "doc_text (DDict kvs) = ''{'' @ join_with '','' (map doc_field (sort_key fst (map (map_prod (\<lambda>k. k) doc_text) kvs))) @ ''}''"

text \<open>\<open>_canonical_json\<close>, whose bytes are ASCII\<close>

definition canonical_json :: "json_doc \<Rightarrow> byte list" where
  "canonical_json d = ascii_bytes (doc_text d @ [CHR 0x0A])"

section \<open>Reading\<close>

datatype parsed =
    VNull | VBool bool | VInt int | VReal f64 | VStr string | VList "parsed list" | VDict "(string \<times> parsed) list"

text \<open>The value a written document is read back as; its keys are then in the order of the text.\<close>

primrec loaded :: "json_doc \<Rightarrow> parsed" where
  "loaded DNull = VNull"
| "loaded (DInt i) = VInt i"
| "loaded (DStr s) = VStr s"
| "loaded (DList ds) = VList (map loaded ds)"
| "loaded (DDict kvs) = VDict (sort_key fst (map (map_prod (\<lambda>k. k) loaded) kvs))"

text \<open>\<open>payload.get(key)\<close>\<close>

definition dict_get :: "(string \<times> parsed) list \<Rightarrow> string \<Rightarrow> parsed" where
  "dict_get kvs k = (case map_of kvs k of None \<Rightarrow> VNull | Some v \<Rightarrow> v)"

text \<open>Python's equality of a parsed value with an integer: \<open>True == 1\<close> and \<open>1.0 == 1\<close> hold.\<close>

definition f64_is_int :: "f64 \<Rightarrow> int \<Rightarrow> bool" where
  "f64_is_int x j \<longleftrightarrow> f64_finite x \<and>
    (let e = uint (f64_exponent x);
         m = uint (and x 4503599627370495) + (if e = 0 then 0 else 4503599627370496);
         sh = (if e = 0 then 1 else e) - 1075;
         i = (if bit x 63 then - j else j)
     in if 0 \<le> sh then m * 2 ^ nat sh = i else m = i * 2 ^ nat (- sh))"

text \<open>\<open>v == d\<close>, where the documents it is used with hold no object\<close>

fun py_equal :: "parsed \<Rightarrow> json_doc \<Rightarrow> bool" where
  "py_equal VNull DNull = True"
| "py_equal (VInt i) (DInt j) = (i = j)"
| "py_equal (VBool b) (DInt j) = (of_bool b = j)"
| "py_equal (VReal x) (DInt j) = f64_is_int x j"
| "py_equal (VStr s) (DStr t) = (s = t)"
| "py_equal (VList vs) (DList ds) = list_all2 py_equal vs ds"
| "py_equal _ _ = False"

text \<open>\<open>isinstance(v, int)\<close>: booleans are integers.\<close>

definition as_python_int :: "parsed \<Rightarrow> int option" where
  "as_python_int v = (case v of VInt i \<Rightarrow> Some i | VBool b \<Rightarrow> Some (of_bool b) | _ \<Rightarrow> None)"

section \<open>Documents that can be read back\<close>

text \<open>
  A dictionary has distinct keys.  Python converts no decimal text of more than 4300 digits, and its
  reader stops at the recursion limit.
\<close>

definition digits_limit :: int where
  "digits_limit = 10 ^ 4300"

primrec doc_ok :: "json_doc \<Rightarrow> bool" where
  "doc_ok DNull = True"
| "doc_ok (DInt i) = (\<bar>i\<bar> < digits_limit)"
| "doc_ok (DStr s) = True"
| "doc_ok (DList ds) = list_all (\<lambda>b. b) (map doc_ok ds)"
| "doc_ok (DDict kvs) = (distinct (map fst kvs) \<and> list_all snd (map (map_prod (\<lambda>k. k) doc_ok) kvs))"

primrec doc_depth :: "json_doc \<Rightarrow> nat" where
  "doc_depth DNull = 0"
| "doc_depth (DInt i) = 0"
| "doc_depth (DStr s) = 0"
| "doc_depth (DList ds) = Suc (foldr max (map doc_depth ds) 0)"
| "doc_depth (DDict kvs) = Suc (foldr max (map snd (map (map_prod (\<lambda>k. k) doc_depth) kvs)) 0)"

definition json_safe :: "json_doc \<Rightarrow> bool" where
  "json_safe d \<longleftrightarrow> doc_ok d \<and> doc_depth d \<le> 100"

lemma map_of_loaded: "map_of (map (map_prod (\<lambda>k. k) loaded) kvs) k = map_option loaded (map_of kvs k)"
  by (induction kvs) auto

lemma insort_key_fst_map:
  "insort_key fst (a, h b) (map (map_prod (\<lambda>k. k) h) xs) = map (map_prod (\<lambda>k. k) h) (insort_key fst (a, b) xs)"
  by (induction xs) auto

lemma sort_key_fst_map: "sort_key fst (map (map_prod (\<lambda>k. k) h) kvs) = map (map_prod (\<lambda>k. k) h) (sort_key fst kvs)"
  by (induction kvs) (auto simp: insort_key_fst_map)

lemma dict_get_loaded:
  assumes "distinct (map fst kvs)"
  shows "dict_get (sort_key fst (map (map_prod (\<lambda>k. k) loaded) kvs)) k
    = (case map_of kvs k of None \<Rightarrow> VNull | Some d \<Rightarrow> loaded d)"
proof -
  have "distinct (map fst (sort_key fst kvs))"
    using assms by (metis mset_map mset_sort mset_eq_imp_distinct_iff)
  then have "map_of (sort_key fst kvs) = map_of kvs"
    using assms by (intro map_of_inject_set [THEN iffD2]) simp_all
  then have "map_of (sort_key fst (map (map_prod (\<lambda>k. k) loaded) kvs)) k = map_option loaded (map_of kvs k)"
    by (simp add: sort_key_fst_map map_of_loaded)
  then show ?thesis
    by (simp add: dict_get_def split: option.split)
qed

lemma py_equal_loaded: "(\<forall>kvs. d \<noteq> DDict kvs) \<Longrightarrow> (\<forall>ds. d \<noteq> DList ds) \<Longrightarrow> py_equal (loaded d) e \<longleftrightarrow> e = d"
  by (cases d; cases e) auto

lemma py_equal_strings: "py_equal (loaded (DList (map DStr xs))) (DList (map DStr ys)) \<longleftrightarrow> xs = ys"
  by (simp add: list_all2_map1 list_all2_map2 list.rel_eq)

locale json_reader =
  fixes loads :: "byte list \<Rightarrow> parsed result"
  assumes reads_back: "json_safe d \<Longrightarrow> loads (canonical_json d) = Inr (loaded d)"
begin

lemma read_object:
  assumes "json_safe (DDict kvs)"
  shows "\<exists>p. loads (canonical_json (DDict kvs)) = Inr (VDict p) \<and> sort (map fst p) = sort (map fst kvs)
    \<and> (\<forall>k. dict_get p k = (case map_of kvs k of None \<Rightarrow> VNull | Some d \<Rightarrow> loaded d))"
proof -
  let ?p = "sort_key fst (map (map_prod (\<lambda>k. k) loaded) kvs)"
  have "mset (map fst ?p) = mset (map fst kvs)"
    by (simp add: sort_key_fst_map comp_def)
  then have "sort (map fst ?p) = sort (map fst kvs)"
    by (metis properties_for_sort mset_sort sorted_sort)
  moreover have "distinct (map fst kvs)"
    using assms by (simp add: json_safe_def)
  ultimately show ?thesis
    using reads_back [OF assms] dict_get_loaded by (intro exI [of _ ?p]) simp
qed

end

end
