(* ===== verification/Gold_Sidecars.thy ===== *)
theory Gold_Sidecars
  imports Json_Docs Gold_Frame Gold_Publication Pg_Sync
begin

text \<open>
  \<open>src/application/gold_sidecars.py\<close>: the manifest of one Gold build and its builder, with the feature policies of
  \<open>macro_features.py\<close>, \<open>momentum_features.py\<close>, \<open>return_features.py\<close> and \<open>volatility_features.py\<close> it records.
  Parameters: \<open>dtype_text\<close> is \<open>str\<close> of a polars type, \<open>sha256\<close> the hexadecimal digest.
\<close>

section \<open>Feature policies\<close>

record macro_policy =
  immediate_lag :: int
  short_lag :: int
  long_lag :: int

definition MacroFeaturePolicy :: "macro_policy \<Rightarrow> macro_policy result" where
  "MacroFeaturePolicy p =
    rbind (raise_if ((immediate_lag p, short_lag p, long_lag p) \<noteq> (1, 5, 20)) ValueError
      ''macro observation lags are fixed at 1, 5, and 20'') (\<lambda>_. Inr p)"

definition MACRO_POLICY :: macro_policy where
  "MACRO_POLICY = \<lparr>immediate_lag = 1, short_lag = 5, long_lag = 20\<rparr>"

definition macro_delta_lags :: "macro_policy \<Rightarrow> (string \<times> int list) list" where
  "macro_delta_lags p =
    [(''ciss'', [immediate_lag p, short_lag p, long_lag p]),
     (''euro_hy_oas'', [immediate_lag p, short_lag p, long_lag p]),
     (''us_2y'', [immediate_lag p, long_lag p]),
     (''us_10y'', [immediate_lag p, long_lag p]),
     (''estr'', [immediate_lag p, long_lag p]),
     (''usd_broad'', [immediate_lag p, long_lag p])]"

record volatility_policy =
  delta_lags :: "int list"
  zscore_window :: int
  zscore_ddof :: int

definition VolatilityFeaturePolicy :: "volatility_policy \<Rightarrow> volatility_policy result" where
  "VolatilityFeaturePolicy p =
    rbind (raise_if (delta_lags p \<noteq> [1, 5, 20]) ValueError
      ''volatility delta lags are fixed at 1, 5, and 20 observations'') (\<lambda>_.
    rbind (raise_if (zscore_window p \<noteq> 60 \<or> zscore_ddof p \<noteq> 0) ValueError
      ''volatility z-score policy is fixed at window=60 and ddof=0'') (\<lambda>_. Inr p))"

definition VOLATILITY_POLICY :: volatility_policy where
  "VOLATILITY_POLICY = \<lparr>delta_lags = [1, 5, 20], zscore_window = 60, zscore_ddof = 0\<rparr>"

record momentum_policy =
  lag_windows :: "(int \<times> int) list"
  minimum_change_lag :: int
  momentum_ddof :: int

definition MomentumFeaturePolicy :: "momentum_policy \<Rightarrow> momentum_policy result" where
  "MomentumFeaturePolicy p =
    rbind (raise_if (lag_windows p \<noteq> [(1, 60), (5, 60), (20, 120)]) ValueError
      ''momentum lag/windows are fixed at (1, 60), (5, 60), and (20, 120)'') (\<lambda>_.
    rbind (raise_if (minimum_change_lag p \<noteq> 1 \<or> momentum_ddof p \<noteq> 0) ValueError
      ''momentum policy is fixed at one-observation changes and ddof=0'') (\<lambda>_. Inr p))"

definition MOMENTUM_POLICY :: momentum_policy where
  "MOMENTUM_POLICY = \<lparr>lag_windows = [(1, 60), (5, 60), (20, 120)], minimum_change_lag = 1, momentum_ddof = 0\<rparr>"

definition RETURN_WINDOWS :: "int list" where
  "RETURN_WINDOWS = [4, 5, 8, 10, 16, 20]"

definition int_list :: "int list \<Rightarrow> json_doc" where
  "int_list is = DList (map DInt is)"

definition gold_formula_parameters ::
  "volatility_policy \<Rightarrow> macro_policy \<Rightarrow> momentum_policy \<Rightarrow> (string \<times> json_doc) list" where
  "gold_formula_parameters volatility macro momentum =
    [(''cross_series_alignment'', DStr ''same timestamp only''),
     (''missing_data_policy'', DStr ''no fill interpolation centered window or asof carry''),
     (''observation_delta_semantics'', DStr ''source-unit absolute difference over valid observations''),
     (''volatility_delta_lags'', int_list (delta_lags volatility)),
     (''macro_delta_lags'', DDict (map (map_prod (\<lambda>s. s) int_list) (macro_delta_lags macro))),
     (''volatility_zscore'', DDict
       [(''ddof'', DInt (zscore_ddof volatility)), (''window_observations'', DInt (zscore_window volatility))]),
     (''term_structure_features'', DList (map DStr
       [''vix9d_vix_ratio'', ''vix_vix3m_ratio'', ''vix3m_minus_vix'', ''vix6m_minus_vix'', ''vix1y_minus_vix'',
        ''us_10y_minus_us_2y''])),
     (''ratio_missing_value_rule'', DStr ''null unless numerator and positive denominator exist''),
     (''momentum_autocorrelation'', DDict
       [(''lags_and_windows'', DList (map (\<lambda>(l, n). int_list [l, n]) (lag_windows momentum))),
        (''input'', DStr ''one-observation source-unit changes''),
        (''negative_values'', DStr ''clipped to zero''),
        (''ddof'', DInt (momentum_ddof momentum))]),
     (''rolling_geometric_returns'', DDict
       [(''windows_observations'', int_list RETURN_WINDOWS),
        (''input'', DStr ''one-observation simple returns derived from strictly positive levels''),
        (''output'', DStr ''cumulative geometric return as a decimal fraction''),
        (''invalid_transition'', DStr ''null'')])]"

definition GOLD_FORMULA_PARAMETERS :: "(string \<times> json_doc) list" where
  "GOLD_FORMULA_PARAMETERS = gold_formula_parameters VOLATILITY_POLICY MACRO_POLICY MOMENTUM_POLICY"

section \<open>The manifest\<close>

definition sidecar_utc_text :: "datetime \<Rightarrow> string result" where
  "sidecar_utc_text d =
    (if \<not> is_aware d then raise ValueError ''Gold sidecar timestamps must be timezone-aware''
     else Inr (iso_utc_z (dt_num d)))"

definition feature_set_sha256 ::
  "(dtype \<Rightarrow> string) \<Rightarrow> (byte list \<Rightarrow> string) \<Rightarrow> frame \<Rightarrow> int \<Rightarrow> int \<Rightarrow> (string \<times> json_doc) list \<Rightarrow> string" where
  "feature_set_sha256 dtype_text sha256 f schema_ver feature_ver parameters =
    sha256 (canonical_json (DDict
      [(''columns'', DList (map (\<lambda>(c, t). DDict [(''dtype'', DStr (dtype_text t)), (''name'', DStr c)]) (f_schema f))),
       (''feature_version'', DInt feature_ver),
       (''formula_parameters'', DDict parameters),
       (''schema_version'', DInt schema_ver)]))"

record build_manifest =
  mf_dataset_id :: string
  mf_build_id :: string
  mf_artifact_state :: string
  mf_manifest_version :: int
  mf_schema_version :: int
  mf_feature_version :: int
  mf_started_at_utc :: string
  mf_completed_at_utc :: string
  mf_row_count :: int
  mf_columns :: "string list"
  mf_min_timestamp :: "string option"
  mf_max_timestamp :: "string option"
  mf_data_path :: string
  mf_data_sha256 :: string
  mf_feature_set_hash :: string
  mf_git_commit_hash :: string
  mf_inputs :: "silver_input_signature list"
  mf_plot_path :: string

definition CURRENT_MANIFEST_VERSION :: int where
  "CURRENT_MANIFEST_VERSION = 2"

definition LEGACY_MANIFEST_VERSION :: int where
  "LEGACY_MANIFEST_VERSION = 1"

definition provenance_certified :: "build_manifest \<Rightarrow> bool" where
  "provenance_certified m \<longleftrightarrow> mf_manifest_version m = CURRENT_MANIFEST_VERSION \<and> mf_inputs m \<noteq> []"

definition doc_option :: "('a \<Rightarrow> string) \<Rightarrow> 'a option \<Rightarrow> json_doc" where
  "doc_option h v = (case v of None \<Rightarrow> DNull | Some x \<Rightarrow> DStr (h x))"

definition signature_doc :: "silver_input_signature \<Rightarrow> json_doc" where
  "signature_doc s = DDict
    [(''max_observation_date'', doc_option date_iso (sig_max_observation_date s)),
     (''min_observation_date'', doc_option date_iso (sig_min_observation_date s)),
     (''row_count'', DInt (sig_row_count s)),
     (''series_id'', DStr (sig_series_id s)),
     (''sha256'', DStr (sig_sha256 s))]"

definition manifest_dict :: "build_manifest \<Rightarrow> (string \<times> json_doc) list" where
  "manifest_dict m =
    [(''artifact_state'', DStr (mf_artifact_state m)),
     (''build_id'', DStr (mf_build_id m)),
     (''columns'', DList (map DStr (mf_columns m))),
     (''completed_at_utc'', DStr (mf_completed_at_utc m)),
     (''data_path'', DStr (mf_data_path m)),
     (''data_sha256'', DStr (mf_data_sha256 m)),
     (''dataset_id'', DStr (mf_dataset_id m)),
     (''feature_set_hash'', DStr (mf_feature_set_hash m)),
     (''feature_version'', DInt (mf_feature_version m)),
     (''git_commit_hash'', DStr (mf_git_commit_hash m)),
     (''inputs'', DList (map signature_doc (mf_inputs m))),
     (''manifest_version'', DInt (mf_manifest_version m)),
     (''max_timestamp'', doc_option (\<lambda>t. t) (mf_max_timestamp m)),
     (''min_timestamp'', doc_option (\<lambda>t. t) (mf_min_timestamp m)),
     (''plot_path'', DStr (mf_plot_path m)),
     (''row_count'', DInt (mf_row_count m)),
     (''schema_version'', DInt (mf_schema_version m)),
     (''started_at_utc'', DStr (mf_started_at_utc m))]"

definition manifest_text :: "build_manifest \<Rightarrow> string" where
  "manifest_text m = doc_text (DDict (manifest_dict m)) @ [CHR 0x0A]"

definition to_json_bytes :: "build_manifest \<Rightarrow> byte list" where
  "to_json_bytes m = ascii_bytes (manifest_text m)"

lemma to_json_bytes_canonical: "to_json_bytes m = canonical_json (DDict (manifest_dict m))"
  by (simp add: to_json_bytes_def manifest_text_def canonical_json_def)

text \<open>The field names of the data class, sorted\<close>

definition expected_manifest_keys :: "string list" where
  "expected_manifest_keys = sort
    [''dataset_id'', ''build_id'', ''artifact_state'', ''manifest_version'', ''schema_version'', ''feature_version'',
     ''started_at_utc'', ''completed_at_utc'', ''row_count'', ''columns'', ''min_timestamp'', ''max_timestamp'',
     ''data_path'', ''data_sha256'', ''feature_set_hash'', ''git_commit_hash'', ''inputs'', ''plot_path'']"

section \<open>The builder\<close>

record sidecar_builder =
  sb_git_commit_hash :: string
  sb_formula_parameters :: "(string \<times> json_doc) list"

text \<open>\<open>[0-9a-f]{40,64}\<close>\<close>

definition is_git_hash :: "string \<Rightarrow> bool" where
  "is_git_hash s \<longleftrightarrow> 40 \<le> length s \<and> length s \<le> 64 \<and> list_all (\<lambda>c. c \<in> set ''0123456789abcdef'') s"

definition TEST_GIT_FALLBACK :: string where
  "TEST_GIT_FALLBACK = replicate 40 (CHR ''0'')"

definition GoldSidecarBuilder :: "string option \<Rightarrow> bool \<Rightarrow> (string \<times> json_doc) list \<Rightarrow> sidecar_builder result" where
  "GoldSidecarBuilder git_commit_hash allow_test_git_fallback parameters =
    (case (if git_commit_hash = None \<and> allow_test_git_fallback then Some TEST_GIT_FALLBACK else git_commit_hash) of
      None \<Rightarrow> raise ValueError ''git_commit_hash is required for Gold build sidecars''
    | Some git \<Rightarrow>
        if \<not> is_git_hash git then raise ValueError ''git_commit_hash must be 40..64 lowercase hexadecimal characters''
        else Inr \<lparr>sb_git_commit_hash = git, sb_formula_parameters = parameters\<rparr>)"

definition check_signature :: "silver_input_signature \<Rightarrow> unit result" where
  "check_signature s =
    rbind (raise_if (sig_row_count s < 0) ValueError ''Gold input provenance row count cannot be negative'') (\<lambda>_.
    rbind (raise_if (\<not> is_sha256_hex (sig_sha256 s)) ValueError ''Gold input provenance SHA-256 is invalid'') (\<lambda>_.
    raise_if (case (sig_min_observation_date s, sig_max_observation_date s) of
        (Some mn, Some mx) \<Rightarrow> mx < mn | _ \<Rightarrow> False) ValueError ''Gold input provenance date bounds are invalid''))"

definition validate_inputs :: "silver_input_signature list \<Rightarrow> unit result" where
  "validate_inputs inputs =
    rbind (raise_if (map sig_series_id inputs \<noteq> GOLD_SOURCE_SERIES) ValueError
      ''Gold input provenance series order mismatch'') (\<lambda>_.
    rfor check_signature inputs)"

text \<open>The values of \<open>min\<close> and \<open>max\<close> of a timestamp column, with the check of their type\<close>

definition sidecar_bound :: "string \<Rightarrow> cell \<Rightarrow> string option result" where
  "sidecar_bound message c =
    (case c of CNull \<Rightarrow> Inr None
     | CDatetime t \<Rightarrow> rbind (sidecar_utc_text (Aware t 0)) (\<lambda>s. Inr (Some s))
     | _ \<Rightarrow> raise TypeError message)"

definition build_sidecar ::
  "(dtype \<Rightarrow> string) \<Rightarrow> (byte list \<Rightarrow> string) \<Rightarrow> sidecar_builder \<Rightarrow> frame \<Rightarrow> string \<Rightarrow> datetime \<Rightarrow> datetime \<Rightarrow>
    string \<Rightarrow> string \<Rightarrow> string \<Rightarrow> silver_input_signature list \<Rightarrow> build_manifest result" where
  "build_sidecar dtype_text sha256 B f bid started_at completed_at data_rel data_digest plot_rel inputs =
    rbind (raise_if (f_columns f \<noteq> GOLD_COLUMNS) ValueError ''Gold sidecar frame column order mismatch'') (\<lambda>_.
    rbind (sidecar_utc_text started_at) (\<lambda>started.
    rbind (sidecar_utc_text completed_at) (\<lambda>completed.
    rbind (raise_if (dt_num completed_at < dt_num started_at) ValueError
      ''Gold build completion cannot precede start'') (\<lambda>_.
    rbind (sidecar_bound ''Gold sidecar min timestamp must be datetime'' (cells_min (column_cells f ''timestamp_m1''))) (\<lambda>minimum.
    rbind (sidecar_bound ''Gold sidecar max timestamp must be datetime'' (cells_max (column_cells f ''timestamp_m1''))) (\<lambda>maximum.
    rbind (if inputs = [] then Inr LEGACY_MANIFEST_VERSION
       else rbind (validate_inputs inputs) (\<lambda>_. Inr CURRENT_MANIFEST_VERSION)) (\<lambda>version.
    Inr \<lparr>mf_dataset_id = DATASET_ID, mf_build_id = bid, mf_artifact_state = ''built'', mf_manifest_version = version,
      mf_schema_version = GOLD_SCHEMA_VERSION, mf_feature_version = GOLD_FEATURE_VERSION,
      mf_started_at_utc = started, mf_completed_at_utc = completed, mf_row_count = int (f_height f),
      mf_columns = f_columns f, mf_min_timestamp = minimum, mf_max_timestamp = maximum,
      mf_data_path = data_rel, mf_data_sha256 = data_digest,
      mf_feature_set_hash = feature_set_sha256 dtype_text sha256 f GOLD_SCHEMA_VERSION GOLD_FEATURE_VERSION
        (sb_formula_parameters B),
      mf_git_commit_hash = sb_git_commit_hash B, mf_inputs = inputs, mf_plot_path = plot_rel\<rparr>)))))))"

end
