(* ===== verification/Gold_Build_Store.thy ===== *)
theory Gold_Build_Store
  imports Gold_Frame Gold_Views
begin

text \<open>
  \<open>src/ingestion/gold_build_store.py\<close>: the immutable Parquet file of one Gold build.  The parameter
  \<open>parquet\<close> is the byte string polars' \<open>write_parquet\<close> makes of a frame, \<open>sha256\<close> the hexadecimal digest.
  The injected fault hooks are fault points.  A build directory holds files only.
\<close>

section \<open>Identifiers\<close>

text \<open>\<open>value.astimezone(UTC).strftime("%Y%m%dT%H%M%SZ")\<close>\<close>

definition build_stamp :: "int \<Rightarrow> string" where
  "build_stamp t =
    (case civil_of_days (t div us_per_day) of (y, mo, d) \<Rightarrow>
     case clock_of_us (t mod us_per_day) of (h, mi, s, us) \<Rightarrow>
       pad_int 4 y @ pad_int 2 mo @ pad_int 2 d @ ''T'' @ pad_int 2 h @ pad_int 2 mi @ pad_int 2 s @ ''Z'')"

definition next_build_id :: "('w, datetime) io \<Rightarrow> ('w, string) io" where
  "next_build_id clock = bind clock (\<lambda>now.
    lift (if \<not> is_aware now then raise ValueError ''Gold build clock must be timezone-aware''
      else Inr (build_stamp (dt_num now))))"

definition leap_year :: "int \<Rightarrow> bool" where
  "leap_year y \<longleftrightarrow> 4 dvd y \<and> (\<not> 100 dvd y \<or> 400 dvd y)"

definition days_in_month :: "int \<Rightarrow> int \<Rightarrow> int" where
  "days_in_month y m = (if m = 2 then (if leap_year y then 29 else 28) else if m \<in> {4, 6, 9, 11} then 30 else 31)"

text \<open>
  What \<open>datetime.strptime\<close> accepts and \<open>strftime\<close> writes back unchanged: the exact shape and the fields
  of a point in time, years in four digits.  The two messages of the code, without and with \<open>exactly\<close>, are not told apart.
\<close>

definition is_time_of_day :: "string \<Rightarrow> bool" where
  "is_time_of_day s \<longleftrightarrow> decimal_value (take 2 s) < 24 \<and> decimal_value (take 2 (drop 2 s)) < 60 \<and> decimal_value (drop 4 s) < 60"

definition is_calendar_date :: "string \<Rightarrow> bool" where
  "is_calendar_date s \<longleftrightarrow>
    (let y = decimal_value (take 4 s); m = decimal_value (take 2 (drop 4 s)); d = decimal_value (drop 6 s)
     in 1 \<le> y \<and> 1 \<le> m \<and> m \<le> 12 \<and> 1 \<le> d \<and> d \<le> days_in_month y m)"

definition validate_build_id :: "string \<Rightarrow> unit result" where
  "validate_build_id s =
    raise_if (\<not> (is_build_id s \<and> is_calendar_date (take 8 s) \<and> is_time_of_day (take 6 (drop 9 s)))) ValueError
      ''build_id must match YYYYMMDDTHHMMSSZ''"

section \<open>Frames\<close>

definition gold_schema :: schema where
  "gold_schema = (''timestamp_m1'', DDatetimeUtc) # map (\<lambda>c. (c, DFloat64)) (tl GOLD_COLUMNS)"

definition validate_gold_frame :: "polars \<Rightarrow> frame \<Rightarrow> unit result" where
  "validate_gold_frame pl f =
    rbind (raise_if (f_columns f \<noteq> GOLD_COLUMNS) ValueError ''Gold frame column order mismatch'') (\<lambda>_.
    rbind (raise_if (f_schema f \<noteq> gold_schema) TypeError ''Gold frame schema mismatch'') (\<lambda>_.
    rbind (raise_if (CNull \<in> set (column_cells f ''timestamp_m1'')) ValueError
      ''Gold timestamp_m1 cannot be null'') (\<lambda>_.
    rbind (raise_if (\<not> distinct (column_cells f ''timestamp_m1'')) ValueError
      ''Gold timestamp_m1 must be unique'') (\<lambda>_.
    if is_empty_frame f then Inr ()
    else rbind (pl_sort pl [''timestamp_m1''] f) (\<lambda>g.
      raise_if (g \<noteq> f) ValueError ''Gold timestamp_m1 must be strictly increasing'')))))"

text \<open>\<open>timestamps.min()\<close> and \<open>timestamps.max()\<close>, with the check of their type\<close>

definition gold_bound :: "string \<Rightarrow> cell \<Rightarrow> datetime option result" where
  "gold_bound message c =
    (case c of CNull \<Rightarrow> Inr None | CDatetime t \<Rightarrow> Inr (Some (Aware t 0)) | _ \<Rightarrow> raise TypeError message)"

section \<open>Creating a build\<close>

record gold_build_artifact =
  art_build_id :: string
  art_data_path :: path
  art_data_sha256 :: string
  art_row_count :: int
  art_min_timestamp :: "datetime option"
  art_max_timestamp :: "datetime option"

text \<open>\<open>try: m except BaseException as e: h e else: k\<close>\<close>

definition try_else :: "('w, 'a) io \<Rightarrow> (exn \<Rightarrow> ('w, 'b) io) \<Rightarrow> ('a \<Rightarrow> ('w, 'b) io) \<Rightarrow> ('w, 'b) io" where
  "try_else m h k w = (case m w of (Inl e, w') \<Rightarrow> h e w' | (Inr x, w') \<Rightarrow> k x w')"

text \<open>\<open>os.mkdir\<close>\<close>

definition os_mkdir :: "path \<Rightarrow> ('z lake_scheme, unit) io" where
  "os_mkdir d = seq fault_point (bind (gets (\<lambda>w. d \<in> set (dirs w) \<or> is_file d w)) (\<lambda>exists.
    if exists then throw (Exn FileExistsError ''File exists'') else modify (\<lambda>w. w\<lparr>dirs := dirs w @ [d]\<rparr>)))"

definition content_bytes :: "(frame \<Rightarrow> byte list) \<Rightarrow> content \<Rightarrow> byte list" where
  "content_bytes parquet c = (case c of Parquet f \<Rightarrow> parquet f | Bytes s \<Rightarrow> ascii_bytes s)"

text \<open>\<open>path.read_bytes()\<close>\<close>

definition read_bytes :: "(frame \<Rightarrow> byte list) \<Rightarrow> path \<Rightarrow> ('z lake_scheme, byte list) io" where
  "read_bytes parquet p = seq fault_point (bind (gets (file_at p)) (\<lambda>c.
    case c of None \<Rightarrow> throw (Exn FileNotFoundError ''No such file or directory'') | Some c \<Rightarrow> ret (content_bytes parquet c)))"

text \<open>
  \<open>shutil.rmtree(d, ignore_errors=True)\<close>: an \<open>OSError\<close> of a call is ignored, and the directory stays when a
  file in it does.
\<close>

definition ignoring_os_errors :: "('w, unit) io \<Rightarrow> ('w, unit) io" where
  "ignoring_os_errors m = try_except m is_os_error (\<lambda>_. ret ())"

definition list_files :: "path \<Rightarrow> 'z lake_scheme \<Rightarrow> path list" where
  "list_files d w = filter (\<lambda>p. parent p = d) (map fst (files w))"

definition rmtree :: "path \<Rightarrow> ('z lake_scheme, unit) io" where
  "rmtree d =
    seq (bind (try_except (seq fault_point (gets (list_files d))) is_os_error (\<lambda>_. ret []))
      (for_each (\<lambda>p. ignoring_os_errors (unlink_file p))))
    (ignoring_os_errors (remove_dir d))"

definition abandon :: "path \<Rightarrow> nat option \<Rightarrow> exn \<Rightarrow> ('z lake_scheme, 'a) io" where
  "abandon build_dir temp e =
    seq (case temp of None \<Rightarrow> ret () | Some t \<Rightarrow> unlink_temp t) (seq (rmtree build_dir) (throw e))"

definition write_build :: "nat \<Rightarrow> frame \<Rightarrow> path \<Rightarrow> ('z lake_scheme, unit) io" where
  "write_build t f data =
    seq fault_point (seq (write_temp t (Parquet f)) (seq fault_point (seq fault_point (os_replace t data))))"

definition verify_build ::
  "polars \<Rightarrow> (frame \<Rightarrow> byte list) \<Rightarrow> (byte list \<Rightarrow> string) \<Rightarrow> string \<Rightarrow> path \<Rightarrow> string \<Rightarrow>
    ('z lake_scheme, gold_build_artifact) io" where
  "verify_build pl parquet sha256 bid data digest =
    seq fault_point
    (bind (read_parquet data) (\<lambda>reread.
    seq (lift (validate_gold_frame pl reread))
    (bind (read_bytes parquet data) (\<lambda>payload.
    seq (lift (raise_if (sha256 payload \<noteq> digest) OSError ''Gold data SHA-256 mismatch after durable write''))
    (let timestamps = column_cells reread ''timestamp_m1'' in
     bind (lift (gold_bound ''Gold min timestamp must be datetime'' (cells_min timestamps))) (\<lambda>minimum.
     bind (lift (gold_bound ''Gold max timestamp must be datetime'' (cells_max timestamps))) (\<lambda>maximum.
     ret \<lparr>art_build_id = bid, art_data_path = data, art_data_sha256 = digest,
       art_row_count = int (f_height reread), art_min_timestamp = minimum, art_max_timestamp = maximum\<rparr>)))))))"

text \<open>The \<open>try\<close> block after the directory is made; \<open>temp_path\<close> is set between \<open>mkstemp\<close> and the rename.\<close>

definition fill_build ::
  "polars \<Rightarrow> (frame \<Rightarrow> byte list) \<Rightarrow> (byte list \<Rightarrow> string) \<Rightarrow> frame \<Rightarrow> string \<Rightarrow> path \<Rightarrow> path \<Rightarrow>
    ('z lake_scheme, gold_build_artifact) io" where
  "fill_build pl parquet sha256 f bid build_dir data =
    try_else (seq fault_point (seq fault_point mkstemp)) (abandon build_dir None) (\<lambda>t.
    try_else (write_build t f data) (abandon build_dir (Some t)) (\<lambda>_.
    try_else (verify_build pl parquet sha256 bid data (sha256 (parquet f))) (abandon build_dir None) ret))"

definition make_build_dir :: "path \<Rightarrow> string \<Rightarrow> ('z lake_scheme, unit) io" where
  "make_build_dir build_dir bid =
    seq (mkdir_parents (parent build_dir))
    (try_except (os_mkdir build_dir) (\<lambda>e. exc_class e = FileExistsError)
      (\<lambda>_. throw (Exn FileExistsError (''Gold build already exists: '' @ bid))))"

definition create_build ::
  "polars \<Rightarrow> (frame \<Rightarrow> byte list) \<Rightarrow> (byte list \<Rightarrow> string) \<Rightarrow> path \<Rightarrow> ('z lake_scheme, datetime) io \<Rightarrow> frame \<Rightarrow>
    string option \<Rightarrow> ('z lake_scheme, gold_build_artifact) io" where
  "create_build pl parquet sha256 lake_root clock f requested =
    seq (lift (validate_gold_frame pl f))
    (bind (case requested of None \<Rightarrow> next_build_id clock | Some b \<Rightarrow> ret b) (\<lambda>bid.
    seq (lift (validate_build_id bid))
    (bind (lift (gold_build_root lake_root bid)) (\<lambda>build_dir.
    bind (lift (gold_data lake_root bid)) (\<lambda>data.
    seq (make_build_dir build_dir bid) (fill_build pl parquet sha256 f bid build_dir data))))))"

section \<open>Reading\<close>

definition read_gold_path :: "polars \<Rightarrow> path \<Rightarrow> ('z lake_scheme, frame) io" where
  "read_gold_path pl p =
    bind (gets (is_file p)) (\<lambda>exists.
    seq (lift (raise_if (\<not> exists) FileNotFoundError ''Gold data file''))
    (bind (read_parquet p) (\<lambda>f. seq (lift (validate_gold_frame pl f)) (ret f))))"

definition read_build :: "polars \<Rightarrow> path \<Rightarrow> string \<Rightarrow> ('z lake_scheme, frame) io" where
  "read_build pl lake_root bid =
    seq (lift (validate_build_id bid)) (bind (lift (gold_data lake_root bid)) (read_gold_path pl))"

section \<open>Calls that do not fail\<close>

definition calm :: "'z fault_world_scheme \<Rightarrow> bool" where
  "calm w \<longleftrightarrow> (\<forall>x \<in> set (faults w). x = None)"

lemma fault_point_calm: "calm w \<Longrightarrow> \<exists>w'. fault_point w = (Inr (), w') \<and> calm w' \<and> (\<exists>fs. w' = w\<lparr>faults := fs\<rparr>)"
proof (cases "faults w")
  case Nil
  assume "calm w"
  with Nil show ?thesis
    by (intro exI [of _ w]) (auto simp: fault_point_def intro: exI [of _ "faults w"])
next
  case (Cons x fs)
  assume "calm w"
  with Cons show ?thesis
    by (intro exI [of _ "w\<lparr>faults := fs\<rparr>"]) (auto simp: fault_point_def calm_def)
qed

lemma unlink_calm: "calm w \<Longrightarrow> \<exists>w'. unlink_file p w = (Inr (), w') \<and> calm w' \<and> files w' = AList.delete p (files w)"
  using fault_point_calm [of w] by (auto simp: unlink_file_def seq_def bind_def modify_def calm_def)

lemma unlinks_calm:
  "calm w \<Longrightarrow> \<exists>w'. for_each (\<lambda>p. ignoring_os_errors (unlink_file p)) ps w = (Inr (), w') \<and> calm w'
    \<and> (\<forall>q. file_at q w' = (if q \<in> set ps then None else file_at q w))"
proof (induction ps arbitrary: w)
  case (Cons p ps)
  obtain w1 where w1: "unlink_file p w = (Inr (), w1)" "calm w1" "files w1 = AList.delete p (files w)"
    using unlink_calm [OF Cons.prems] by blast
  then have step: "ignoring_os_errors (unlink_file p) w = (Inr (), w1)"
    by (simp add: ignoring_os_errors_def try_except_def)
  have "file_at q w1 = (if q = p then None else file_at q w)" for q
    using w1(3) by (simp add: file_at_def delete_conv')
  moreover obtain w2 where "for_each (\<lambda>p. ignoring_os_errors (unlink_file p)) ps w1 = (Inr (), w2)" "calm w2"
    "\<forall>q. file_at q w2 = (if q \<in> set ps then None else file_at q w1)"
    using Cons.IH [OF w1(2)] by blast
  ultimately show ?case
    using step by (auto simp: seq_def bind_def)
qed (auto simp: ret_def)

lemma remove_dir_calm:
  "calm w \<Longrightarrow> \<exists>w'. ignoring_os_errors (remove_dir d) w = (Inr (), w') \<and> calm w' \<and> files w' = files w"
  using fault_point_calm [of w]
  by (auto simp: ignoring_os_errors_def remove_dir_def try_except_def seq_def bind_def gets_def ret_def throw_def modify_def
      is_os_error_def calm_def)

lemma list_files_mem: "p \<in> set (list_files d w) \<longleftrightarrow> parent p = d \<and> file_at p w \<noteq> None"
  by (auto simp: list_files_def file_at_def map_of_eq_None_iff image_iff)

lemma rmtree_calm:
  assumes "calm w"
  shows "\<exists>w'. rmtree d w = (Inr (), w') \<and> calm w' \<and> (\<forall>p. file_at p w' = (if parent p = d then None else file_at p w))"
proof -
  obtain w1 where w1: "fault_point w = (Inr (), w1)" "calm w1" "\<exists>fs. w1 = w\<lparr>faults := fs\<rparr>"
    using fault_point_calm [OF assms] by blast
  then have same: "files w1 = files w" "list_files d w1 = list_files d w"
    by (auto simp: list_files_def)
  obtain w2 where w2: "for_each (\<lambda>p. ignoring_os_errors (unlink_file p)) (list_files d w) w1 = (Inr (), w2)" "calm w2"
    "\<forall>q. file_at q w2 = (if q \<in> set (list_files d w) then None else file_at q w1)"
    using unlinks_calm [OF w1(2)] by blast
  obtain w3 where w3: "ignoring_os_errors (remove_dir d) w2 = (Inr (), w3)" "calm w3" "files w3 = files w2"
    using remove_dir_calm [OF w2(2)] by blast
  have "rmtree d w = (Inr (), w3)"
    using w1(1) w2(1) w3(1) by (simp add: rmtree_def seq_def bind_def try_except_def gets_def same(2))
  moreover have "file_at p w3 = (if parent p = d then None else file_at p w)" for p
  proof -
    have "file_at p w3 = file_at p w2" "file_at p w1 = file_at p w"
      using w3(3) same(1) by (simp_all add: file_at_def)
    then show ?thesis
      using w2(3) by (auto simp: list_files_mem)
  qed
  ultimately show ?thesis
    using w3(2) by blast
qed

lemma abandon_calm:
  assumes "calm w"
  shows "\<exists>w'. abandon d t e w = (Inl e, w') \<and> (\<forall>p. file_at p w' = (if parent p = d then None else file_at p w))"
proof -
  have "\<exists>w1. (case t of None \<Rightarrow> ret () | Some t \<Rightarrow> unlink_temp t) w = (Inr (), w1) \<and> calm w1 \<and> files w1 = files w"
  proof (cases t)
    case (Some n)
    then show ?thesis
      using fault_point_calm [OF assms] by (auto simp: unlink_temp_def seq_def bind_def modify_def calm_def)
  qed (use assms in \<open>simp add: ret_def\<close>)
  then obtain w1 where w1: "(case t of None \<Rightarrow> ret () | Some t \<Rightarrow> unlink_temp t) w = (Inr (), w1)" "calm w1" "files w1 = files w"
    by blast
  obtain w2 where w2: "rmtree d w1 = (Inr (), w2)" "\<forall>p. file_at p w2 = (if parent p = d then None else file_at p w1)"
    using rmtree_calm [OF w1(2)] by blast
  have "abandon d t e w = (Inl e, w2)"
    using w1(1) w2(1) by (simp add: abandon_def seq_def bind_def throw_def)
  then show ?thesis
    using w2(2) w1(3) by (auto simp: file_at_def)
qed

section \<open>Other directories\<close>

lemma preserves_for_each_set: "(\<And>x. x \<in> set xs \<Longrightarrow> preserves v (f x)) \<Longrightarrow> preserves v (for_each f xs)"
  by (induction xs) (auto intro: preserves_intros)

lemma rmtree_other [preserves_intros]:
  assumes "parent p \<noteq> d"
  shows "preserves (file_at p) (rmtree d)"
proof (rule preservesI)
  fix w r w'
  assume run: "rmtree d w = (r, w')"
  obtain x w1 where list: "try_except (seq fault_point (gets (list_files d))) is_os_error (\<lambda>_. ret []) w = (x, w1)"
    by (cases "try_except (seq fault_point (gets (list_files d))) is_os_error (\<lambda>_. ret []) w")
  have keep: "preserves (file_at p) (try_except (seq fault_point (gets (list_files d))) is_os_error (\<lambda>_. ret []))"
    "preserves (file_at p) (ignoring_os_errors (remove_dir d))"
    unfolding ignoring_os_errors_def remove_dir_def
    by (auto intro!: preserves_intros preserves_modify simp: file_at_def)
  have "\<forall>ps. x = Inr ps \<longrightarrow> (\<forall>q \<in> set ps. parent q = d)"
    using list by (auto simp: try_except_def seq_def bind_def gets_def ret_def list_files_def split: prod.splits sum.splits if_splits)
  note mem = this
  show "file_at p w' = file_at p w"
  proof (cases x)
    case (Inl e)
    then show ?thesis
      using run list preservesD [OF keep(1) list] by (simp add: rmtree_def seq_def bind_def)
  next
    case (Inr ps)
    have "preserves (file_at p) (for_each (\<lambda>p. ignoring_os_errors (unlink_file p)) ps)"
      using mem Inr assms unfolding ignoring_os_errors_def by (intro preserves_for_each_set preserves_intros) auto
    then have all: "preserves (file_at p) (seq (for_each (\<lambda>p. ignoring_os_errors (unlink_file p)) ps) (ignoring_os_errors (remove_dir d)))"
      by (intro preserves_seq keep(2))
    have "seq (for_each (\<lambda>p. ignoring_os_errors (unlink_file p)) ps) (ignoring_os_errors (remove_dir d)) w1 = (r, w')"
      using run list Inr by (simp add: rmtree_def seq_def bind_def)
    from preservesD [OF all this] show ?thesis
      using preservesD [OF keep(1) list] by simp
  qed
qed

lemma preserves_try_else [preserves_intros]:
  "preserves v m \<Longrightarrow> (\<And>e. preserves v (h e)) \<Longrightarrow> (\<And>x. preserves v (k x)) \<Longrightarrow> preserves v (try_else m h k)"
  by (rule preservesI) (auto simp: try_else_def split: prod.splits sum.splits, (metis preservesD)+)

lemma abandon_other [preserves_intros]: "parent p \<noteq> d \<Longrightarrow> preserves (file_at p) (abandon d t e)"
  unfolding abandon_def by (intro preserves_intros)

lemma read_bytes_files [preserves_intros]: "preserves files (read_bytes parquet p)"
  unfolding read_bytes_def by (intro preserves_intros)

lemma verify_build_files [preserves_intros]: "preserves files (verify_build pl parquet sha256 bid p digest)"
  unfolding verify_build_def Let_def by (intro preserves_intros)

lemma write_build_other [preserves_intros]: "p \<noteq> q \<Longrightarrow> preserves (file_at p) (write_build t f q)"
  unfolding write_build_def by (intro preserves_intros)

lemma os_mkdir_files [preserves_intros]: "preserves files (os_mkdir d)"
  unfolding os_mkdir_def by (auto intro!: preserves_intros preserves_modify)

lemma make_build_dir_files [preserves_intros]: "preserves files (make_build_dir d bid)"
  unfolding make_build_dir_def by (intro preserves_intros)

lemma fill_build_other:
  assumes "parent p \<noteq> d" "parent q = d"
  shows "preserves (file_at p) (fill_build pl parquet sha256 f bid d q)"
proof -
  have "p \<noteq> q"
    using assms by auto
  then show ?thesis
    unfolding fill_build_def using assms(1)
    by (intro preserves_intros preserves_files_file_at [OF verify_build_files]) auto
qed

section \<open>The outcomes of a creation\<close>

lemma os_mkdir_exists: "d \<in> set (dirs w) \<Longrightarrow> \<exists>e w'. os_mkdir d w = (Inl e, w')"
  by (auto simp: os_mkdir_def seq_def bind_def gets_def throw_def fault_point_def split: list.splits option.splits)

lemma mkdir_parents_dirs: "mkdir_parents p w = (r, w') \<Longrightarrow> set (dirs w) \<subseteq> set (dirs w')"
  by (auto simp: mkdir_parents_def seq_def bind_def modify_def fault_point_def split: list.splits option.splits)

lemma make_build_dir_exists:
  assumes "d \<in> set (dirs w)"
  shows "\<exists>e w'. make_build_dir d bid w = (Inl e, w')"
proof -
  obtain r w1 where r: "mkdir_parents (parent d) w = (r, w1)"
    by (cases "mkdir_parents (parent d) w")
  then have "d \<in> set (dirs w1)"
    using mkdir_parents_dirs assms by blast
  then obtain e w2 where "os_mkdir d w1 = (Inl e, w2)"
    using os_mkdir_exists by blast
  then show ?thesis
    using r by (cases r) (simp_all add: make_build_dir_def seq_def bind_def try_except_def throw_def)
qed

text \<open>Where the filling of a build fails: its temporary file then, the exception and the world.\<close>

definition fill_failure ::
  "polars \<Rightarrow> (frame \<Rightarrow> byte list) \<Rightarrow> (byte list \<Rightarrow> string) \<Rightarrow> frame \<Rightarrow> string \<Rightarrow> path \<Rightarrow> 'z lake_scheme \<Rightarrow>
    (nat option \<times> exn \<times> 'z lake_scheme) option" where
  "fill_failure pl parquet sha256 f bid data w =
    (case seq fault_point (seq fault_point mkstemp) w of
      (Inl e, w1) \<Rightarrow> Some (None, e, w1)
    | (Inr t, w1) \<Rightarrow> (case write_build t f data w1 of
        (Inl e, w2) \<Rightarrow> Some (Some t, e, w2)
      | (Inr _, w2) \<Rightarrow> (case verify_build pl parquet sha256 bid data (sha256 (parquet f)) w2 of
          (Inl e, w3) \<Rightarrow> Some (None, e, w3) | (Inr _, _) \<Rightarrow> None)))"

lemma abandon_raises: "abandon d t e w = (r, w') \<Longrightarrow> \<exists>e'. r = Inl e'"
  by (cases "(case t of None \<Rightarrow> ret () | Some t \<Rightarrow> unlink_temp t) w"; cases "fst ((case t of None \<Rightarrow> ret () | Some t \<Rightarrow> unlink_temp t) w)")
    (auto simp: abandon_def seq_def bind_def throw_def split: prod.splits sum.splits)

lemma fill_build_cases:
  assumes "fill_build pl parquet sha256 f bid d data w = (r, w')"
  obtains (failed) t e w1 e' where "fill_failure pl parquet sha256 f bid data w = Some (t, e, w1)" "abandon d t e w1 = (r, w')" "r = Inl e'"
    | (filled) t w1 w2 a where "write_build t f data w1 = (Inr (), w2)"
        "verify_build pl parquet sha256 bid data (sha256 (parquet f)) w2 = (Inr a, w')" "r = Inr a"
proof -
  obtain x w1 where 1: "seq fault_point (seq fault_point mkstemp) w = (x, w1)"
    by (cases "seq fault_point (seq fault_point mkstemp) w")
  show ?thesis
  proof (cases x)
    case (Inl e)
    then show ?thesis
      using assms 1 abandon_raises [of d None e w1 r w'] failed [of None e w1]
      by (auto simp: fill_build_def fill_failure_def try_else_def)
  next
    case (Inr t)
    obtain y w2 where 2: "write_build t f data w1 = (y, w2)"
      by (cases "write_build t f data w1")
    show ?thesis
    proof (cases y)
      case (Inl e)
      then show ?thesis
        using assms 1 2 \<open>x = Inr t\<close> abandon_raises [of d "Some t" e w2 r w'] failed [of "Some t" e w2]
        by (auto simp: fill_build_def fill_failure_def try_else_def)
    next
      case (Inr u)
      obtain z w3 where 3: "verify_build pl parquet sha256 bid data (sha256 (parquet f)) w2 = (z, w3)"
        by (cases "verify_build pl parquet sha256 bid data (sha256 (parquet f)) w2")
      show ?thesis
      proof (cases z)
        case (Inl e)
        then show ?thesis
          using assms 1 2 3 \<open>x = Inr t\<close> Inr abandon_raises [of d None e w3 r w'] failed [of None e w3]
          by (auto simp: fill_build_def fill_failure_def try_else_def)
      next
        case (Inr a)
        have "fill_build pl parquet sha256 f bid d data w = (Inr a, w3)"
          using 1 2 3 unfolding \<open>x = Inr t\<close> \<open>y = Inr u\<close> Inr by (simp add: fill_build_def try_else_def ret_def)
        then have out: "r = Inr a" "w' = w3"
          using assms by simp_all
        have "write_build t f data w1 = (Inr (), w2)"
          using 2 \<open>y = Inr u\<close> by simp
        then show ?thesis
          using filled [OF _ 3 [unfolded Inr, folded out(2)] out(1)] by blast
      qed
    qed
  qed
qed

lemma write_build_Inr:
  assumes "write_build t f data w = (Inr u, w')"
  shows "file_at data w' = Some (Parquet f)"
proof -
  obtain w1 w2 w3 w4 where "write_temp t (Parquet f) w1 = (Inr (), w2)" "fault_point w2 = (Inr (), w3)"
    "fault_point w3 = (Inr (), w4)" "os_replace t data w4 = (Inr u, w')"
    using assms by (auto simp: write_build_def io_inv)
  then have "files w' = AList.update data (Parquet f) (files w4)"
    by (metis fault_point_keeps os_replace_Inr write_temp_Inr)
  then show ?thesis
    by (simp add: file_at_def update_conv')
qed

definition build_dir :: "path \<Rightarrow> string \<Rightarrow> path" where
  "build_dir lake_root bid = gold_dataset_root lake_root @ [''versions'', ''build_id='' @ bid]"

lemma gold_data_Inr: "gold_data lake_root bid = Inr p \<longleftrightarrow> is_build_id bid \<and> p = build_dir lake_root bid @ [''data.parquet'']"
  by (auto simp: gold_data_def rbind_Inr gold_build_root_Inr build_dir_def)

lemma build_dir_Inr: "gold_build_root lake_root bid = Inr p \<longleftrightarrow> is_build_id bid \<and> p = build_dir lake_root bid"
  by (simp add: gold_build_root_Inr build_dir_def)

text \<open>A call fails while the failed creation removes its files again.\<close>

definition cleanup_disturbed ::
  "polars \<Rightarrow> (frame \<Rightarrow> byte list) \<Rightarrow> (byte list \<Rightarrow> string) \<Rightarrow> path \<Rightarrow> frame \<Rightarrow> string \<Rightarrow> 'z lake_scheme \<Rightarrow> bool" where
  "cleanup_disturbed pl parquet sha256 lake_root f bid w \<longleftrightarrow>
    (case make_build_dir (build_dir lake_root bid) bid w of
      (Inl _, _) \<Rightarrow> False
    | (Inr _, w1) \<Rightarrow> (case fill_failure pl parquet sha256 f bid (build_dir lake_root bid @ [''data.parquet'']) w1 of
        None \<Rightarrow> False | Some (_, _, w2) \<Rightarrow> \<not> calm w2))"

text \<open>What a returning creation has made.\<close>

definition build_made ::
  "polars \<Rightarrow> (frame \<Rightarrow> byte list) \<Rightarrow> (byte list \<Rightarrow> string) \<Rightarrow> path \<Rightarrow> frame \<Rightarrow> string \<Rightarrow> gold_build_artifact \<Rightarrow>
    'z lake_scheme \<Rightarrow> bool" where
  "build_made pl parquet sha256 lake_root f bid a w \<longleftrightarrow>
    validate_gold_frame pl f = Inr () \<and> validate_build_id bid = Inr ()
    \<and> file_at (art_data_path a) w = Some (Parquet f)
    \<and> art_build_id a = bid \<and> art_data_path a = build_dir lake_root bid @ [''data.parquet'']
    \<and> art_data_sha256 a = sha256 (parquet f) \<and> art_row_count a = int (f_height f)
    \<and> gold_bound ''Gold min timestamp must be datetime'' (cells_min (column_cells f ''timestamp_m1'')) = Inr (art_min_timestamp a)
    \<and> gold_bound ''Gold max timestamp must be datetime'' (cells_max (column_cells f ''timestamp_m1'')) = Inr (art_max_timestamp a)"

lemma verify_build_Inr:
  assumes "verify_build pl parquet sha256 bid p digest w = (Inr a, w')" "file_at p w = Some (Parquet f)"
  shows "validate_gold_frame pl f = Inr () \<and> file_at p w' = Some (Parquet f)
    \<and> a = \<lparr>art_build_id = bid, art_data_path = p, art_data_sha256 = digest, art_row_count = int (f_height f),
        art_min_timestamp = art_min_timestamp a, art_max_timestamp = art_max_timestamp a\<rparr>
    \<and> gold_bound ''Gold min timestamp must be datetime'' (cells_min (column_cells f ''timestamp_m1'')) = Inr (art_min_timestamp a)
    \<and> gold_bound ''Gold max timestamp must be datetime'' (cells_max (column_cells f ''timestamp_m1'')) = Inr (art_max_timestamp a)"
proof -
  have keep: "file_at p w' = file_at p w"
    by (rule preservesD [OF preserves_files_file_at [OF verify_build_files] assms(1)])
  obtain w1 g w2 where w1: "fault_point w = (Inr (), w1)" and g: "read_parquet p w1 = (Inr g, w2)"
    and valid: "validate_gold_frame pl g = Inr ()"
    and bounds: "gold_bound ''Gold min timestamp must be datetime'' (cells_min (column_cells g ''timestamp_m1'')) = Inr (art_min_timestamp a)"
      "gold_bound ''Gold max timestamp must be datetime'' (cells_max (column_cells g ''timestamp_m1'')) = Inr (art_max_timestamp a)"
    and a: "a = \<lparr>art_build_id = bid, art_data_path = p, art_data_sha256 = digest, art_row_count = int (f_height g),
        art_min_timestamp = art_min_timestamp a, art_max_timestamp = art_max_timestamp a\<rparr>"
    using assms(1) by (auto simp: verify_build_def io_inv lift_apply ret_apply Let_def)
  have "g = f"
    using read_parquet_Inr [OF g] fault_point_keeps [OF w1] assms(2) by (simp add: file_at_def)
  then show ?thesis
    using valid bounds a keep assms(2) by simp
qed

lemma create_build_cases:
  assumes "create_build pl parquet sha256 lake_root clock f (Some bid) w = (res, w')"
  obtains (early) e where "res = Inl e" "w' = w"
    | (dir) "validate_gold_frame pl f = Inr ()" "validate_build_id bid = Inr ()" "is_build_id bid"
      "seq (make_build_dir (build_dir lake_root bid) bid)
        (fill_build pl parquet sha256 f bid (build_dir lake_root bid) (build_dir lake_root bid @ [''data.parquet''])) w = (res, w')"
proof (cases "validate_gold_frame pl f")
  case (Inl e)
  then show ?thesis
    using assms early [of e] by (simp add: create_build_def seq_def bind_def lift_def)
next
  case valid: (Inr u)
  show ?thesis
  proof (cases "validate_build_id bid")
    case (Inl e)
    then show ?thesis
      using assms valid early [of e] by (simp add: create_build_def seq_def bind_def lift_def ret_def)
  next
    case (Inr v)
    have "is_build_id bid"
      using Inr by (simp add: validate_build_id_def)
    then have "gold_build_root lake_root bid = Inr (build_dir lake_root bid)"
      "gold_data lake_root bid = Inr (build_dir lake_root bid @ [''data.parquet''])"
      by (simp_all add: gold_data_Inr build_dir_Inr)
    then show ?thesis
      using assms valid Inr \<open>is_build_id bid\<close> dir by (simp add: create_build_def seq_def bind_def lift_def ret_def)
  qed
qed

text \<open>
  C39: creating a build is atomic and never overwrites, whatever call fails.  No file outside the directory
  of the build changes; an existing directory makes it raise with every file as it was.  When it returns,
  the directory holds exactly the validated frame, and the artifact states its digest, height and time
  bounds.  When it raises in a new directory, all files are as before, unless a call failed during the
  cleanup as well.
\<close>

theorem build_create_atomic:
  assumes "create_build pl parquet sha256 lake_root clock f (Some bid) w = (res, w')"
  shows "(\<forall>p. parent p \<noteq> build_dir lake_root bid \<longrightarrow> file_at p w' = file_at p w)
    \<and> (build_dir lake_root bid \<in> set (dirs w) \<longrightarrow> files w' = files w \<and> (\<exists>e. res = Inl e))
    \<and> (case res of
        Inr a \<Rightarrow> build_made pl parquet sha256 lake_root f bid a w'
      | Inl e \<Rightarrow> (\<forall>p. parent p = build_dir lake_root bid \<longrightarrow> file_at p w = None)
          \<and> \<not> cleanup_disturbed pl parquet sha256 lake_root f bid w \<longrightarrow> (\<forall>p. file_at p w' = file_at p w))"
proof -
  let ?d = "build_dir lake_root bid"
  let ?q = "?d @ [''data.parquet'']"
  from assms show ?thesis
  proof (cases rule: create_build_cases)
    case dir
    obtain r w1 where made: "make_build_dir ?d bid w = (r, w1)"
      by (cases "make_build_dir ?d bid w")
    have w1: "files w1 = files w"
      using preservesD [OF make_build_dir_files made] .
    show ?thesis
    proof (cases r)
      case (Inl e)
      then show ?thesis
        using dir(4) made w1 by (auto simp: seq_def bind_def file_at_def)
    next
      case (Inr u)
      have fresh: "?d \<notin> set (dirs w)"
        using make_build_dir_exists [of ?d w bid] made Inr by auto
      have fill: "fill_build pl parquet sha256 f bid ?d ?q w1 = (res, w')"
        using dir(4) made Inr by (simp add: seq_def bind_def)
      have "parent ?q = ?d"
        by (simp add: parent_def)
      then have other: "file_at p w' = file_at p w" if "parent p \<noteq> ?d" for p
        using preservesD [OF fill_build_other [OF that] fill] w1 by (simp add: file_at_def)
      from fill show ?thesis
      proof (cases rule: fill_build_cases)
        case (failed t e w2 e')
        have "file_at p w' = file_at p w"
          if "\<forall>p. parent p = ?d \<longrightarrow> file_at p w = None" "\<not> cleanup_disturbed pl parquet sha256 lake_root f bid w" for p
        proof -
          have "calm w2"
            using that(2) made Inr failed(1) by (simp add: cleanup_disturbed_def)
          then have "parent p = ?d \<Longrightarrow> file_at p w' = None"
            using abandon_calm [of w2 ?d t e] failed(2) by (metis prod.inject)
          then show ?thesis
            using other that(1) by (cases "parent p = ?d") simp_all
        qed
        then show ?thesis
          using failed(3) other fresh by simp
      next
        case (filled t w2 w3 a)
        have "build_made pl parquet sha256 lake_root f bid a w'"
          using verify_build_Inr [OF filled(2) write_build_Inr [OF filled(1)]] dir(1,2)
          unfolding build_made_def by (metis gold_build_artifact.select_convs(1-4))
        then show ?thesis
          using filled(3) other fresh by simp
      qed
    qed
  qed simp
qed

section \<open>A creation that returns\<close>

lemma make_build_dir_quiet:
  assumes "faults w = []" "d \<noteq> []" "d \<notin> set (dirs w)" "file_at d w = None"
  shows "\<exists>w'. make_build_dir d bid w = (Inr (), w') \<and> faults w' = [] \<and> files w' = files w
    \<and> (\<forall>p. length d < length p \<longrightarrow> p \<in> set (dirs w') \<longrightarrow> p \<in> set (dirs w))"
proof -
  define D where "D = dirs w @ filter (\<lambda>e. e \<notin> set (dirs w)) (map (\<lambda>n. take n (parent d)) [1..<Suc (length (parent d))])"
  have "d \<noteq> take n (parent d)" for n
  proof
    assume "d = take n (parent d)"
    then have "length d \<le> length (butlast d)"
      unfolding parent_def by (metis length_take min.cobounded1)
    then show False
      using assms(2) by (cases d rule: rev_cases) simp_all
  qed
  then have fresh: "d \<notin> set D"
    using assms(3) unfolding D_def set_append set_filter set_map by blast
  have "mkdir_parents (parent d) w = (Inr (), w\<lparr>dirs := D\<rparr>)"
    using assms(1) by (simp add: mkdir_parents_def seq_def bind_def modify_def fault_point_quiet D_def)
  moreover have "os_mkdir d (w\<lparr>dirs := D\<rparr>) = (Inr (), w\<lparr>dirs := D @ [d]\<rparr>)"
    using assms(1,4) fresh by (simp add: os_mkdir_def seq_def bind_def gets_def modify_def fault_point_quiet is_file_def file_at_def)
  ultimately have "make_build_dir d bid w = (Inr (), w\<lparr>dirs := D @ [d]\<rparr>)"
    by (simp add: make_build_dir_def seq_def bind_def try_except_def)
  moreover have "p \<in> set (dirs w)" if "p \<in> set (D @ [d])" "length d < length p" for p
    using that by (auto simp: D_def parent_def)
  ultimately show ?thesis
    using assms(1) by auto
qed

lemma write_build_quiet:
  assumes "faults w = []"
  shows "\<exists>w'. write_build t f q w = (Inr (), w') \<and> faults w' = [] \<and> files w' = AList.update q (Parquet f) (files w) \<and> dirs w' = dirs w"
  using assms by (auto simp: write_build_def write_temp_def os_replace_def seq_def bind_def modify_def fault_point_quiet update_conv')

lemma verify_build_quiet:
  assumes "faults w = []" "file_at q w = Some (Parquet f)" "validate_gold_frame pl f = Inr ()"
    "gold_bound ''Gold min timestamp must be datetime'' (cells_min (column_cells f ''timestamp_m1'')) = Inr mn"
    "gold_bound ''Gold max timestamp must be datetime'' (cells_max (column_cells f ''timestamp_m1'')) = Inr mx"
  shows "\<exists>a. verify_build pl parquet sha256 bid q (sha256 (parquet f)) w = (Inr a, w)"
  using assms by (simp add: verify_build_def seq_def bind_def lift_def gets_def ret_def fault_point_quiet read_parquet_def
      read_bytes_def content_bytes_def Let_def)

lemma create_build_quiet:
  assumes w: "faults w = []" "build_dir lake_root bid \<notin> set (dirs w)" "file_at (build_dir lake_root bid) w = None"
    and f: "validate_gold_frame pl f = Inr ()" "validate_build_id bid = Inr ()"
    and bounds: "gold_bound ''Gold min timestamp must be datetime'' (cells_min (column_cells f ''timestamp_m1'')) = Inr mn"
      "gold_bound ''Gold max timestamp must be datetime'' (cells_max (column_cells f ''timestamp_m1'')) = Inr mx"
  shows "\<exists>a w'. create_build pl parquet sha256 lake_root clock f (Some bid) w = (Inr a, w') \<and> faults w' = []
    \<and> files w' = AList.update (build_dir lake_root bid @ [''data.parquet'']) (Parquet f) (files w)
    \<and> (\<forall>p. length (build_dir lake_root bid) < length p \<longrightarrow> p \<in> set (dirs w') \<longrightarrow> p \<in> set (dirs w))"
proof -
  let ?d = "build_dir lake_root bid"
  let ?q = "?d @ [''data.parquet'']"
  have "is_build_id bid"
    using f(2) by (simp add: validate_build_id_def)
  then have paths: "gold_build_root lake_root bid = Inr ?d" "gold_data lake_root bid = Inr ?q"
    by (simp_all add: gold_data_Inr build_dir_Inr)
  obtain w1 where w1: "make_build_dir ?d bid w = (Inr (), w1)" "faults w1 = []" "files w1 = files w"
    "\<forall>p. length ?d < length p \<longrightarrow> p \<in> set (dirs w1) \<longrightarrow> p \<in> set (dirs w)"
    using make_build_dir_quiet [OF w(1) _ w(2,3), of bid] by (auto simp: build_dir_def)
  let ?t = "next_temp w1"
  obtain w2 where w2: "seq fault_point (seq fault_point mkstemp) w1 = (Inr ?t, w2)" "faults w2 = []" "files w2 = files w1" "dirs w2 = dirs w1"
    using w1(2) by (simp add: mkstemp_def seq_def bind_def modify_def gets_def ret_def fault_point_quiet)
  obtain w3 where w3: "write_build ?t f ?q w2 = (Inr (), w3)" "faults w3 = []" "file_at ?q w3 = Some (Parquet f)"
    "files w3 = AList.update ?q (Parquet f) (files w2)" "dirs w3 = dirs w2"
    using write_build_quiet [OF w2(2), of ?t f ?q] by (auto simp: file_at_def update_conv')
  obtain a where a: "verify_build pl parquet sha256 bid ?q (sha256 (parquet f)) w3 = (Inr a, w3)"
    using verify_build_quiet [OF w3(2,3) f(1) bounds] by blast
  have "fill_build pl parquet sha256 f bid ?d ?q w1 = (Inr a, w3)"
    using w2(1) w3(1) a by (simp add: fill_build_def try_else_def ret_def)
  then have "create_build pl parquet sha256 lake_root clock f (Some bid) w = (Inr a, w3)"
    using f paths w1(1) by (simp add: create_build_def seq_def bind_def lift_def ret_def)
  then show ?thesis
    using w1(3,4) w2(3,4) w3(2,4,5) by auto
qed

section \<open>A first build\<close>

definition empty_gold :: frame where
  "empty_gold = \<lparr>f_schema = gold_schema, f_rows = []\<rparr>"

lemma empty_gold_valid: "validate_gold_frame pl empty_gold = Inr ()"
proof -
  have "f_columns empty_gold = GOLD_COLUMNS"
    by (simp add: empty_gold_def f_columns_def gold_schema_def comp_def flip: gold_columns_tl)
  then show ?thesis
    by (simp add: validate_gold_frame_def empty_gold_def column_cells_def is_empty_frame_def f_height_def)
qed

definition demo_build_id :: string where
  "demo_build_id = ''20260102T030405Z''"

lemma demo_build_id_valid: "validate_build_id demo_build_id = Inr ()"
  by (simp add: validate_build_id_def demo_build_id_def is_build_id_def is_digit_def is_calendar_date_def is_time_of_day_def
      decimal_value_def digit_value_def days_in_month_def leap_year_def numeral_eq_Suc)

theorem build_create_atomic_witness:
  "\<exists>a w'. create_build reference_polars (\<lambda>_. []) (\<lambda>_. ''d'') [''lake''] (ret (Aware 0 0)) empty_gold (Some demo_build_id) empty_lake
      = (Inr a, w')
    \<and> file_at (build_dir [''lake''] demo_build_id @ [''data.parquet'']) w' = Some (Parquet empty_gold) \<and> art_row_count a = 0"
proof -
  have columns: "column_cells empty_gold c = []" for c
    by (simp add: column_cells_def empty_gold_def)
  have w: "faults empty_lake = []" "build_dir [''lake''] demo_build_id \<notin> set (dirs empty_lake)"
    "file_at (build_dir [''lake''] demo_build_id) empty_lake = None"
    by (simp_all add: empty_lake_def file_at_def)
  have bounds: "gold_bound m (cells_min (column_cells empty_gold ''timestamp_m1'')) = Inr None"
    "gold_bound m (cells_max (column_cells empty_gold ''timestamp_m1'')) = Inr None" for m
    by (simp_all add: columns gold_bound_def)
  obtain a w' where run: "create_build reference_polars (\<lambda>_. []) (\<lambda>_. ''d'') [''lake''] (ret (Aware 0 0)) empty_gold
      (Some demo_build_id) empty_lake = (Inr a, w')"
    using create_build_quiet [OF w empty_gold_valid demo_build_id_valid bounds] by blast
  then have "build_made reference_polars (\<lambda>_. []) (\<lambda>_. ''d'') [''lake''] empty_gold demo_build_id a w'"
    using build_create_atomic [OF run] by simp
  then show ?thesis
    using run by (auto simp: build_made_def empty_gold_def f_height_def)
qed

end
