(* ===== verification/Gold_Sidecar_Store.thy ===== *)
theory Gold_Sidecar_Store
  imports Gold_Sidecars Gold_Build_Store
begin

text \<open>
  \<open>src/ingestion/gold_sidecar_store.py\<close> and \<open>src/ingestion/gold_publication_adapters.py\<close>: the manifest and the
  profile picture beside the Parquet file of a build, their validation, and the adapter that makes a
  complete bundle.  \<open>gold_store\<close> holds what the objects are constructed with: the root of the lake, the
  builder, the profile renderer (an injected function), \<open>json.loads\<close> and the parameters of the build store.
\<close>

section \<open>Files\<close>

record gold_store =
  gs_polars :: polars
  gs_parquet :: "frame \<Rightarrow> byte list"
  gs_sha256 :: "byte list \<Rightarrow> string"
  gs_dtype_text :: "dtype \<Rightarrow> string"
  gs_loads :: "byte list \<Rightarrow> parsed result"
  gs_renderer :: "frame \<Rightarrow> string result"
  gs_root :: path
  gs_builder :: sidecar_builder

text \<open>\<open>os.link(temp_path, path)\<close> does not overwrite.\<close>

definition path_exists :: "path \<Rightarrow> 'z lake_scheme \<Rightarrow> bool" where
  "path_exists p w \<longleftrightarrow> p \<in> set (dirs w) \<or> is_file p w"

definition os_link :: "nat \<Rightarrow> path \<Rightarrow> ('z lake_scheme, unit) io" where
  "os_link t p = seq fault_point (bind (gets (path_exists p)) (\<lambda>exists.
    if exists then throw (Exn FileExistsError ''File exists'')
    else modify (\<lambda>w. case map_of (temps w) t of None \<Rightarrow> w | Some c \<Rightarrow> w\<lparr>files := AList.update p c (files w)\<rparr>)))"

definition create_bytes :: "path \<Rightarrow> string \<Rightarrow> ('z lake_scheme, unit) io" where
  "create_bytes p payload =
    seq (mkdir_parents (parent p)) (bind mkstemp (\<lambda>t.
      try_finally
        (seq fault_point (seq (write_temp t (Bytes payload)) (seq fault_point (os_link t p))))
        (unlink_temp t)))"

text \<open>\<open>path.relative_to(root).as_posix()\<close>\<close>

definition relative_posix :: "path \<Rightarrow> string \<Rightarrow> path \<Rightarrow> string result" where
  "relative_posix base message p =
    (if take (length base) p \<noteq> base then raise ValueError message
     else Inr (if length p = length base then ''.'' else join_with ''/'' (drop (length base) p)))"

definition sidecar_relative :: "gold_store \<Rightarrow> path \<Rightarrow> string result" where
  "sidecar_relative S p = relative_posix (gold_dataset_root (gs_root S)) ''Gold artifact path must be inside dataset root'' p"

section \<open>Sidecars\<close>

record sidecar_artifacts =
  sc_manifest :: build_manifest
  sc_manifest_path :: path
  sc_plot_path :: path
  sc_manifest_sha256 :: string
  sc_plot_sha256 :: string

text \<open>\<open>column.min() != artifact.min_timestamp\<close> is false.\<close>

definition bound_equals :: "cell \<Rightarrow> datetime option \<Rightarrow> bool" where
  "bound_equals c d =
    (case c of CNull \<Rightarrow> d = None
     | CDatetime t \<Rightarrow> (case d of None \<Rightarrow> False | Some x \<Rightarrow> dt_eq (Aware t 0) x)
     | _ \<Rightarrow> False)"

definition validated_frame :: "gold_store \<Rightarrow> gold_build_artifact \<Rightarrow> ('z lake_scheme, frame) io" where
  "validated_frame S a =
    bind (lift (gold_data (gs_root S) (art_build_id a))) (\<lambda>expected.
    seq (lift (raise_if (art_data_path a \<noteq> expected) ValueError ''Gold build artifact data path mismatch''))
    (bind (gets (is_file expected)) (\<lambda>exists.
    seq (lift (raise_if (\<not> exists) FileNotFoundError ''Gold data file''))
    (bind (read_bytes (gs_parquet S) expected) (\<lambda>payload.
    seq (lift (raise_if (gs_sha256 S payload \<noteq> art_data_sha256 a) ValueError
      ''Gold build artifact data SHA-256 mismatch''))
    (bind (read_build (gs_polars S) (gs_root S) (art_build_id a)) (\<lambda>f.
    let timestamps = column_cells f ''timestamp_m1'' in
    seq (lift (raise_if (int (f_height f) \<noteq> art_row_count a) ValueError ''Gold build artifact row count mismatch''))
    (seq (lift (raise_if (\<not> bound_equals (cells_min timestamps) (art_min_timestamp a)
        \<or> \<not> bound_equals (cells_max timestamps) (art_max_timestamp a)) ValueError
      ''Gold build artifact timestamp bounds mismatch''))
    (ret f)))))))))"

text \<open>
  The keys of the parsed manifest.  Its bytes have been compared with those of a manifest, so it is an
  object; \<open>sorted\<close> of any other value is taken to raise.
\<close>

definition parsed_keys :: "parsed \<Rightarrow> string list result" where
  "parsed_keys v = (case v of VDict kvs \<Rightarrow> Inr (sort (map fst kvs)) | _ \<Rightarrow> raise TypeError ''not an object'')"

definition has_key :: "parsed \<Rightarrow> string \<Rightarrow> bool" where
  "has_key v k = (case v of VDict kvs \<Rightarrow> k \<in> set (map fst kvs) | _ \<Rightarrow> False)"

definition is_png :: "string \<Rightarrow> bool" where
  "is_png s \<longleftrightarrow> take (length PNG_SIGNATURE) s = PNG_SIGNATURE"

definition bundle_feature_hash :: "gold_store \<Rightarrow> frame \<Rightarrow> build_manifest \<Rightarrow> string" where
  "bundle_feature_hash S f m = feature_set_sha256 (gs_dtype_text S) (gs_sha256 S) f (mf_schema_version m)
    (mf_feature_version m) (sb_formula_parameters (gs_builder S))"

text \<open>The checks of \<open>validate_bundle\<close> on the values it has read.\<close>

definition check_manifest ::
  "gold_store \<Rightarrow> gold_build_artifact \<Rightarrow> sidecar_artifacts \<Rightarrow> frame \<Rightarrow> parsed \<Rightarrow> unit result" where
  "check_manifest S a sc f v =
    (let m = sc_manifest sc in
     rbind (parsed_keys v) (\<lambda>keys.
     rbind (raise_if (keys \<noteq> expected_manifest_keys) ValueError ''Gold build manifest key set mismatch'') (\<lambda>_.
     rbind (raise_if (mf_artifact_state m \<noteq> ''built'') ValueError
       ''Gold build sidecar artifact_state must be built'') (\<lambda>_.
     rbind (raise_if (has_key v ''status'') ValueError
       ''Gold build manifest must not contain publication status'') (\<lambda>_.
     rbind (raise_if (mf_build_id m \<noteq> art_build_id a) ValueError ''Gold build identity mismatch'') (\<lambda>_.
     rbind (sidecar_relative S (art_data_path a)) (\<lambda>data_rel.
     rbind (raise_if (mf_data_path m \<noteq> data_rel) ValueError ''Gold build data path mismatch'') (\<lambda>_.
     rbind (sidecar_relative S (sc_plot_path sc)) (\<lambda>plot_rel.
     rbind (raise_if (mf_plot_path m \<noteq> plot_rel) ValueError ''Gold build plot path mismatch'') (\<lambda>_.
     rbind (raise_if (mf_data_sha256 m \<noteq> art_data_sha256 a) ValueError
       ''Gold build manifest data SHA-256 mismatch'') (\<lambda>_.
     rbind (raise_if (mf_row_count m \<noteq> art_row_count a) ValueError ''Gold build manifest row count mismatch'') (\<lambda>_.
     raise_if (mf_feature_set_hash m \<noteq> bundle_feature_hash S f m) ValueError
       ''Gold build feature-set hash mismatch''))))))))))))"

text \<open>\<open>plot_bytes.startswith(_PNG_SIGNATURE)\<close> on the bytes of a file\<close>

definition is_png_bytes :: "byte list \<Rightarrow> bool" where
  "is_png_bytes bs \<longleftrightarrow> take (length PNG_SIGNATURE) bs = ascii_bytes PNG_SIGNATURE"

definition validate_sidecars :: "gold_store \<Rightarrow> gold_build_artifact \<Rightarrow> sidecar_artifacts \<Rightarrow> ('z lake_scheme, unit) io" where
  "validate_sidecars S a sc =
    bind (validated_frame S a) (\<lambda>f.
    bind (lift (gold_build_manifest (gs_root S) (art_build_id a))) (\<lambda>expected_manifest.
    seq (lift (raise_if (sc_manifest_path sc \<noteq> expected_manifest) ValueError ''Gold build manifest path mismatch''))
    (bind (lift (gold_build_profile (gs_root S) (art_build_id a))) (\<lambda>expected_plot.
    seq (lift (raise_if (sc_plot_path sc \<noteq> expected_plot) ValueError ''Gold feature profile path mismatch''))
    (bind (gets (\<lambda>w. is_file (sc_manifest_path sc) w \<and> is_file (sc_plot_path sc) w)) (\<lambda>present.
    seq (lift (raise_if (\<not> present) FileNotFoundError ''Gold build bundle is incomplete''))
    (bind (read_bytes (gs_parquet S) (sc_manifest_path sc)) (\<lambda>manifest_bytes.
    seq (lift (raise_if (manifest_bytes \<noteq> to_json_bytes (sc_manifest sc)) ValueError ''Gold build manifest bytes mismatch''))
    (seq (lift (raise_if (gs_sha256 S manifest_bytes \<noteq> sc_manifest_sha256 sc) ValueError
      ''Gold build manifest SHA-256 mismatch''))
    (bind (read_bytes (gs_parquet S) (sc_plot_path sc)) (\<lambda>plot_bytes.
    seq (lift (raise_if (\<not> is_png_bytes plot_bytes) ValueError ''Gold feature profile is not a PNG''))
    (seq (lift (raise_if (gs_sha256 S plot_bytes \<noteq> sc_plot_sha256 sc) ValueError ''Gold feature profile SHA-256 mismatch''))
    (bind (lift (gs_loads S manifest_bytes)) (\<lambda>v.
    lift (check_manifest S a sc f v)))))))))))))))"

definition create_sidecars ::
  "gold_store \<Rightarrow> gold_build_artifact \<Rightarrow> datetime \<Rightarrow> datetime \<Rightarrow> silver_input_signature list \<Rightarrow>
    ('z lake_scheme, sidecar_artifacts) io" where
  "create_sidecars S a started completed inputs =
    seq (lift (raise_if (inputs = []) ValueError ''Gold sidecar creation requires certified Silver input provenance''))
    (bind (lift (gold_build_manifest (gs_root S) (art_build_id a))) (\<lambda>manifest_file.
    bind (lift (gold_build_profile (gs_root S) (art_build_id a))) (\<lambda>plot_file.
    bind (gets (\<lambda>w. path_exists manifest_file w \<or> path_exists plot_file w)) (\<lambda>exists.
    seq (lift (raise_if exists FileExistsError (''Gold sidecars already exist for build '' @ art_build_id a)))
    (bind (validated_frame S a) (\<lambda>f.
    bind (lift (gs_renderer S f)) (\<lambda>plot.
    seq (lift (raise_if (\<not> is_png plot) ValueError ''Gold feature profile renderer must return a PNG''))
    (seq fault_point (seq (create_bytes plot_file plot) (seq fault_point
    (bind (lift (sidecar_relative S (art_data_path a))) (\<lambda>data_rel.
    bind (lift (sidecar_relative S plot_file)) (\<lambda>plot_rel.
    bind (lift (build_sidecar (gs_dtype_text S) (gs_sha256 S) (gs_builder S) f (art_build_id a) started completed
      data_rel (art_data_sha256 a) plot_rel inputs)) (\<lambda>m.
    seq fault_point (seq (create_bytes manifest_file (manifest_text m)) (seq fault_point
    (let sc = \<lparr>sc_manifest = m, sc_manifest_path = manifest_file, sc_plot_path = plot_file,
        sc_manifest_sha256 = gs_sha256 S (to_json_bytes m), sc_plot_sha256 = gs_sha256 S (ascii_bytes plot)\<rparr> in
     seq (validate_sidecars S a sc) (ret sc))))))))))))))))))"

section \<open>The bundle adapter\<close>

definition bundle_relative :: "gold_store \<Rightarrow> path \<Rightarrow> string result" where
  "bundle_relative S p =
    relative_posix (gold_dataset_root (gs_root S)) ''Gold candidate artifact must be inside dataset root'' p"

definition check_candidate ::
  "gold_store \<Rightarrow> gold_build_artifact \<Rightarrow> sidecar_artifacts \<Rightarrow> silver_input_signature list \<Rightarrow> unit result" where
  "check_candidate S a sc inputs =
    (let bid = art_build_id a; m = sc_manifest sc; physical = [art_data_path a, sc_manifest_path sc, sc_plot_path sc] in
     rbind (gold_build_root (gs_root S) bid) (\<lambda>build_root.
     rbind (gold_data (gs_root S) bid) (\<lambda>expected_data.
     rbind (gold_build_manifest (gs_root S) bid) (\<lambda>expected_manifest.
     rbind (gold_build_profile (gs_root S) bid) (\<lambda>expected_plot.
     rbind (raise_if (physical \<noteq> [expected_data, expected_manifest, expected_plot]) ValueError
       ''Gold candidate physical artifact path mismatch'') (\<lambda>_.
     rbind (raise_if (list_ex (\<lambda>p. parent p \<noteq> build_root) physical) ValueError
       ''Gold candidate artifact escapes expected build directory'') (\<lambda>_.
     rbind (raise_if (mf_build_id m \<noteq> bid) ValueError ''Gold candidate build manifest build_id mismatch'') (\<lambda>_.
     rbind (raise_if (mf_schema_version m \<noteq> GOLD_SCHEMA_VERSION) ValueError
       ''Gold candidate build manifest schema_version mismatch'') (\<lambda>_.
     rbind (raise_if (mf_feature_version m \<noteq> GOLD_FEATURE_VERSION) ValueError
       ''Gold candidate build manifest feature_version mismatch'') (\<lambda>_.
     rbind (raise_if (\<not> provenance_certified m \<or> mf_inputs m \<noteq> inputs) ValueError
       ''Gold candidate input provenance mismatch'') (\<lambda>_.
     rbind (raise_if (mf_row_count m \<noteq> art_row_count a) ValueError
       ''Gold candidate build manifest row count mismatch'') (\<lambda>_.
     rbind (raise_if (mf_data_sha256 m \<noteq> art_data_sha256 a) ValueError
       ''Gold candidate build manifest data SHA-256 mismatch'') (\<lambda>_.
     rbind (bundle_relative S expected_data) (\<lambda>data_rel.
     rbind (raise_if (mf_data_path m \<noteq> data_rel) ValueError ''Gold candidate build manifest data path mismatch'') (\<lambda>_.
     rbind (bundle_relative S expected_plot) (\<lambda>plot_rel.
     raise_if (mf_plot_path m \<noteq> plot_rel) ValueError ''Gold candidate build manifest plot path mismatch''
     ))))))))))))))))"

definition validate_candidate ::
  "gold_store \<Rightarrow> gold_build_artifact \<Rightarrow> sidecar_artifacts \<Rightarrow> silver_input_signature list \<Rightarrow> ('z lake_scheme, unit) io" where
  "validate_candidate S a sc inputs =
    seq (lift (check_candidate S a sc inputs))
    (seq (validate_sidecars S a sc)
    (seq (read_build (gs_polars S) (gs_root S) (art_build_id a)) (ret ())))"

definition bundle_utc :: "datetime \<Rightarrow> datetime result" where
  "bundle_utc d =
    (if \<not> is_aware d then raise ValueError ''Gold bundle completion clock must be timezone-aware''
     else Inr (astimezone_utc d))"

definition bundle_of :: "gold_store \<Rightarrow> gold_build_artifact \<Rightarrow> sidecar_artifacts \<Rightarrow> datetime \<Rightarrow> gold_bundle result" where
  "bundle_of S a sc completed =
    rbind (bundle_relative S (art_data_path a)) (\<lambda>data_rel.
    rbind (bundle_relative S (sc_manifest_path sc)) (\<lambda>manifest_rel.
    rbind (bundle_relative S (sc_plot_path sc)) (\<lambda>plot_rel.
    Inr \<lparr>cand_build_id = art_build_id a, cand_completed_at_utc = completed,
      cand_schema_version = mf_schema_version (sc_manifest sc), cand_feature_version = mf_feature_version (sc_manifest sc),
      cand_row_count = art_row_count a, cand_min_timestamp = art_min_timestamp a,
      cand_max_timestamp = art_max_timestamp a, cand_data_path = data_rel,
      cand_build_manifest_path = manifest_rel, cand_plot_path = plot_rel\<rparr>)))"

definition create_and_validate ::
  "gold_store \<Rightarrow> ('z lake_scheme, datetime) io \<Rightarrow> frame \<Rightarrow> string \<Rightarrow> datetime \<Rightarrow> silver_input_signature list \<Rightarrow>
    ('z lake_scheme, gold_bundle) io" where
  "create_and_validate S clock f bid started inputs =
    seq (lift (raise_if (inputs = []) ValueError ''Gold publication requires certified Silver input provenance''))
    (bind (create_build (gs_polars S) (gs_parquet S) (gs_sha256 S) (gs_root S) clock f (Some bid)) (\<lambda>a.
    bind clock (\<lambda>now.
    bind (lift (bundle_utc now)) (\<lambda>completed.
    bind (create_sidecars S a started completed inputs) (\<lambda>sc.
    seq fault_point
    (seq (validate_candidate S a sc inputs)
    (lift (bundle_of S a sc completed))))))))"

end
