(* ===== verification/Gold_Source.thy ===== *)
theory Gold_Source
  imports Gold_Sidecar_Store Pg_Service
begin

text \<open>
  \<open>src/ingestion/gold_sync_source.py\<close>: the Gold build that a catalog row names, as the synchronization reads it.
  \<open>iso_date\<close> is \<open>datetime.fromisoformat(text).date()\<close>, \<open>None\<close> where it raises \<open>ValueError\<close>.  A path under the lake
  is the list of its components; the lake holds no symbolic links, so that \<open>resolve\<close> only removes \<open>..\<close>.
\<close>

section \<open>Paths\<close>

fun split_on :: "char \<Rightarrow> string \<Rightarrow> string list" where
  "split_on c [] = [[]]"
| "split_on c (x # xs) =
    (if x = c then [] # split_on c xs
     else case split_on c xs of [] \<Rightarrow> [[x]] | y # ys \<Rightarrow> (x # y) # ys)"

text \<open>\<open>Path(text)\<close> and \<open>path.is_absolute()\<close>\<close>

definition path_of_text :: "string \<Rightarrow> path" where
  "path_of_text s = filter (\<lambda>c. c \<noteq> [] \<and> c \<noteq> ''.'') (split_on (CHR ''/'') s)"

definition is_absolute_text :: "string \<Rightarrow> bool" where
  "is_absolute_text s \<longleftrightarrow> take 1 s = ''/''"

definition resolve_path :: "path \<Rightarrow> path" where
  "resolve_path p = foldl (\<lambda>q c. if c = ''..'' then butlast q else q @ [c]) [] p"

definition resolve_relative :: "gold_store \<Rightarrow> string \<Rightarrow> path result" where
  "resolve_relative S s =
    (if is_absolute_text s then raise ValueError ''Gold sync data path must be relative to the Gold dataset root''
     else
       let base = resolve_path (gold_dataset_root (gs_root S));
           candidate = resolve_path (base @ path_of_text s)
       in if take (length base) candidate \<noteq> base
          then raise ValueError ''Gold sync data path escapes the Gold dataset root'' else Inr candidate)"

section \<open>The manifest\<close>

definition source_timestamp_text :: "datetime option \<Rightarrow> string option result" where
  "source_timestamp_text v =
    (case v of
      None \<Rightarrow> Inr None
    | Some d \<Rightarrow> if \<not> is_aware d then raise ValueError ''Gold catalog timestamp must be timezone-aware''
        else Inr (Some (iso_utc_z (dt_num d))))"

definition valid_input_dates :: "(string \<Rightarrow> int option) \<Rightarrow> (string \<times> parsed) list \<Rightarrow> bool" where
  "valid_input_dates iso_date kvs =
    (case (dict_get kvs ''min_observation_date'', dict_get kvs ''max_observation_date'') of
      (VNull, mx) \<Rightarrow> mx = VNull
    | (mn, VNull) \<Rightarrow> False
    | (VStr mn, VStr mx) \<Rightarrow> (case (iso_date mn, iso_date mx) of (Some a, Some b) \<Rightarrow> a \<le> b | _ \<Rightarrow> False)
    | _ \<Rightarrow> False)"

definition is_sha256_value :: "parsed \<Rightarrow> bool" where
  "is_sha256_value v \<longleftrightarrow> (case v of VStr s \<Rightarrow> is_sha256_hex s | _ \<Rightarrow> False)"

definition valid_input :: "(string \<Rightarrow> int option) \<Rightarrow> parsed \<Rightarrow> bool" where
  "valid_input iso_date item =
    (case item of
      VDict kvs \<Rightarrow>
        (case as_python_int (dict_get kvs ''row_count'') of None \<Rightarrow> False | Some n \<Rightarrow> 0 \<le> n)
        \<and> is_sha256_value (dict_get kvs ''sha256'') \<and> valid_input_dates iso_date kvs
    | _ \<Rightarrow> False)"

definition dict_items :: "parsed list \<Rightarrow> (string \<times> parsed) list list" where
  "dict_items vs = concat (map (\<lambda>v. case v of VDict kvs \<Rightarrow> [kvs] | _ \<Rightarrow> []) vs)"

definition certified_inputs :: "parsed \<Rightarrow> bool" where
  "certified_inputs v =
    (case v of
      VList vs \<Rightarrow> list_all2 py_equal (map (\<lambda>kvs. dict_get kvs ''series_id'') (dict_items vs)) (map DStr GOLD_SOURCE_SERIES)
    | _ \<Rightarrow> False)"

definition valid_inputs :: "(string \<Rightarrow> int option) \<Rightarrow> parsed \<Rightarrow> bool" where
  "valid_inputs iso_date v =
    (case v of
      VList vs \<Rightarrow> length vs = length GOLD_SOURCE_SERIES \<and> list_all (valid_input iso_date) vs
    | _ \<Rightarrow> False)"

definition bundle_text :: "gold_record \<Rightarrow> string \<Rightarrow> string" where
  "bundle_text r name = ''versions/build_id='' @ build_id r @ ''/'' @ name"

definition expected_fields :: "gold_record \<Rightarrow> (string \<times> json_doc) list" where
  "expected_fields r =
    [(''dataset_id'', DStr (dataset_id r)), (''build_id'', DStr (build_id r)), (''artifact_state'', DStr ''built''),
     (''manifest_version'', DInt CURRENT_MANIFEST_VERSION), (''schema_version'', DInt (schema_version r)),
     (''feature_version'', DInt (feature_version r)),
     (''row_count'', case row_count r of None \<Rightarrow> DNull | Some n \<Rightarrow> DInt n),
     (''columns'', DList (map DStr GOLD_COLUMNS)), (''data_path'', DStr (bundle_text r ''data.parquet'')),
     (''plot_path'', DStr (bundle_text r ''feature_profile.png''))]"

definition check_payload :: "(string \<Rightarrow> int option) \<Rightarrow> (string \<times> parsed) list \<Rightarrow> gold_record \<Rightarrow> unit result" where
  "check_payload iso_date payload r =
    rbind (rfor (\<lambda>(k, v). raise_if (\<not> py_equal (dict_get payload k) v) ValueError
      (''Gold build manifest '' @ k @ '' mismatch'')) (expected_fields r)) (\<lambda>_.
    rbind (raise_if (data_path r \<noteq> Some (bundle_text r ''data.parquet'')
        \<or> build_manifest_path r \<noteq> Some (bundle_text r ''manifest.json'')) ValueError
      ''Gold catalog path differs from selected build identity'') (\<lambda>_.
    rbind (raise_if (schema_version r \<noteq> GOLD_SCHEMA_VERSION \<or> feature_version r \<noteq> GOLD_FEATURE_VERSION) ValueError
      ''Gold catalog semantic version is unsupported'') (\<lambda>_.
    rbind (raise_if (\<not> is_sha256_value (dict_get payload ''data_sha256'')) ValueError
      ''Gold build manifest data SHA-256 is invalid'') (\<lambda>_.
    rbind (raise_if (\<not> is_sha256_value (dict_get payload ''feature_set_hash'')) ValueError
      ''Gold build manifest feature set hash is invalid'') (\<lambda>_.
    rbind (raise_if (case dict_get payload ''git_commit_hash'' of VStr s \<Rightarrow> \<not> is_git_hash s | _ \<Rightarrow> True) ValueError
      ''Gold build manifest Git identity is invalid'') (\<lambda>_.
    rbind (source_timestamp_text (min_timestamp r)) (\<lambda>minimum.
    rbind (raise_if (\<not> py_equal (dict_get payload ''min_timestamp'') (doc_option (\<lambda>t. t) minimum)) ValueError
      ''Gold build manifest minimum timestamp mismatch'') (\<lambda>_.
    rbind (source_timestamp_text (max_timestamp r)) (\<lambda>maximum.
    rbind (raise_if (\<not> py_equal (dict_get payload ''max_timestamp'') (doc_option (\<lambda>t. t) maximum)) ValueError
      ''Gold build manifest maximum timestamp mismatch'') (\<lambda>_.
    rbind (raise_if (\<not> certified_inputs (dict_get payload ''inputs'')) ValueError
      ''Gold build manifest input provenance is not certified'') (\<lambda>_.
    raise_if (\<not> valid_inputs iso_date (dict_get payload ''inputs'')) ValueError
      ''Gold build manifest input provenance is invalid'')))))))))))"

section \<open>The source\<close>

definition artifact_texts :: "gold_record \<Rightarrow> (string \<times> string \<times> string) result" where
  "artifact_texts r =
    (case (data_path r, build_manifest_path r, plot_path r) of
      (Some d, Some m, Some p) \<Rightarrow>
        if d = [] \<or> m = [] \<or> p = [] then raise ValueError ''Gold catalog record has incomplete artifact paths''
        else Inr (d, m, p)
    | _ \<Rightarrow> raise ValueError ''Gold catalog record has incomplete artifact paths'')"

definition as_object :: "parsed \<Rightarrow> (string \<times> parsed) list result" where
  "as_object v = (case v of VDict kvs \<Rightarrow> Inr kvs | _ \<Rightarrow> raise ValueError ''Gold build manifest must be an object'')"

definition locate_bundle :: "gold_store \<Rightarrow> gold_record \<Rightarrow> (path \<times> path \<times> path) result" where
  "locate_bundle S r =
    rbind (artifact_texts r) (\<lambda>(d, m, p).
    rbind (resolve_relative S d) (\<lambda>data.
    rbind (resolve_relative S m) (\<lambda>manifest.
    rbind (resolve_relative S p) (\<lambda>plot.
    rbind (gold_build_root (gs_root S) (build_id r)) (\<lambda>b.
    if (data, manifest, plot) \<noteq> (resolve_path b @ [''data.parquet''], resolve_path b @ [''manifest.json''],
        resolve_path b @ [''feature_profile.png''])
    then raise ValueError ''Gold catalog artifact path does not match selected build''
    else Inr (data, manifest, plot))))))"

definition validate_source_bundle ::
  "(string \<Rightarrow> int option) \<Rightarrow> gold_store \<Rightarrow> gold_record \<Rightarrow> ('z lake_scheme, unit) io" where
  "validate_source_bundle iso_date S r =
    bind (lift (locate_bundle S r)) (\<lambda>(data, manifest, plot).
    bind (gets (\<lambda>w. is_file data w \<and> is_file manifest w \<and> is_file plot w)) (\<lambda>present.
    seq (lift (raise_if (\<not> present) FileNotFoundError ''Gold selected bundle artifact is missing''))
    (bind (read_bytes (gs_parquet S) manifest) (\<lambda>bytes.
    bind (lift (gs_loads S bytes)) (\<lambda>v.
    bind (lift (as_object v)) (\<lambda>payload.
    seq (lift (check_payload iso_date payload r))
    (bind (read_gold_path (gs_polars S) data) (\<lambda>f.
    bind (read_bytes (gs_parquet S) data) (\<lambda>content.
    seq (lift (raise_if (\<not> py_equal (dict_get payload ''data_sha256'') (DStr (gs_sha256 S content))) ValueError
      ''Gold selected data SHA-256 differs from build manifest''))
    (lift (raise_if (\<not> py_equal (dict_get payload ''feature_set_hash'') (DStr (feature_set_sha256 (gs_dtype_text S)
        (gs_sha256 S) f (schema_version r) (feature_version r) GOLD_FORMULA_PARAMETERS))) ValueError
      ''Gold selected feature set hash differs from build manifest'')))))))))))"

definition source_sha256_path :: "gold_store \<Rightarrow> string \<Rightarrow> ('z lake_scheme, string) io" where
  "source_sha256_path S s =
    bind (lift (resolve_relative S s)) (\<lambda>p.
    bind (gets (is_file p)) (\<lambda>exists.
    seq (lift (raise_if (\<not> exists) FileNotFoundError ''Gold data file''))
    (bind (read_bytes (gs_parquet S) p) (\<lambda>content. ret (gs_sha256 S content)))))"

definition source_read_path :: "gold_store \<Rightarrow> string \<Rightarrow> ('z lake_scheme, frame) io" where
  "source_read_path S s = bind (lift (resolve_relative S s)) (read_gold_path (gs_polars S))"

definition filesystem_source :: "(string \<Rightarrow> int option) \<Rightarrow> gold_store \<Rightarrow> 'z lake_scheme gold_source" where
  "filesystem_source iso_date S =
    \<lparr>src_validate_bundle = validate_source_bundle iso_date S, src_sha256_path = source_sha256_path S,
     src_read_path = source_read_path S\<rparr>"

end
