(* ===== verification/Json_Reader.thy ===== *)
theory Json_Reader
  imports Json_Docs
begin

text \<open>
  A reader of the documents the program writes: null, decimal integers, escaped strings, lists and
  objects without whitespace.  It interprets the locale \<open>json_reader\<close>.  The number argument bounds the
  recursion; the length of the text is enough.
\<close>

definition hex_val :: "char \<Rightarrow> nat" where
  "hex_val c = (let n = (of_char c :: nat) in if n < 58 then n - 48 else n - 87)"

definition short_escape :: "char \<Rightarrow> char option" where
  "short_escape c =
    (if c = CHR 0x22 \<or> c = CHR 0x5C then Some c
     else map_of [(CHR ''n'', CHR 0x0A), (CHR ''r'', CHR 0x0D), (CHR ''t'', CHR 0x09), (CHR ''b'', CHR 0x08), (CHR ''f'', CHR 0x0C)] c)"

text \<open>The rest of a string literal after its opening quote.\<close>

fun read_chars :: "string \<Rightarrow> (string \<times> string) option" where
  "read_chars [] = None"
| "read_chars (c # s) =
    (if c = CHR 0x22 then Some ([], s)
     else if c \<noteq> CHR 0x5C then map_option (apfst (Cons c)) (read_chars s)
     else case s of
       CHR ''u'' # _ # _ # x # y # t \<Rightarrow> map_option (apfst (Cons (char_of (16 * hex_val x + hex_val y)))) (read_chars t)
     | e # t \<Rightarrow> (case short_escape e of None \<Rightarrow> None | Some d \<Rightarrow> map_option (apfst (Cons d)) (read_chars t))
     | [] \<Rightarrow> None)"

definition read_number :: "string \<Rightarrow> (parsed \<times> string) option" where
  "read_number s =
    (case s of
      [] \<Rightarrow> None
    | c # t \<Rightarrow>
        if c = CHR ''-'' then Some (VInt (- decimal_value (takeWhile is_digit t)), dropWhile is_digit t)
        else if is_digit c then Some (VInt (decimal_value (takeWhile is_digit s)), dropWhile is_digit s)
        else None)"

fun read_doc :: "nat \<Rightarrow> string \<Rightarrow> (parsed \<times> string) option"
  and read_items :: "nat \<Rightarrow> string \<Rightarrow> (parsed list \<times> string) option"
  and read_members :: "nat \<Rightarrow> string \<Rightarrow> ((string \<times> parsed) list \<times> string) option"
where
  "read_doc 0 s = None"
| "read_doc (Suc n) s =
    (if take 4 s = ''null'' then Some (VNull, drop 4 s)
     else if take 1 s = [CHR 0x22] then map_option (apfst VStr) (read_chars (tl s))
     else if take 2 s = ''[]'' then Some (VList [], drop 2 s)
     else if take 1 s = ''['' then map_option (apfst VList) (read_items n (tl s))
     else if take 2 s = ''{}'' then Some (VDict [], drop 2 s)
     else if take 1 s = ''{'' then map_option (apfst VDict) (read_members n (tl s))
     else read_number s)"
| "read_items 0 s = None"
| "read_items (Suc n) s =
    (case read_doc n s of
      Some (v, c # t) \<Rightarrow>
        if c = CHR '','' then map_option (apfst (Cons v)) (read_items n t) else if c = CHR '']'' then Some ([v], t) else None
    | _ \<Rightarrow> None)"
| "read_members 0 s = None"
| "read_members (Suc n) s =
    (if take 1 s \<noteq> [CHR 0x22] then None
     else case read_chars (tl s) of
       Some (k, CHR '':'' # r) \<Rightarrow>
        (case read_doc n r of
          Some (v, c # t) \<Rightarrow>
            if c = CHR '','' then map_option (apfst (Cons (k, v))) (read_members n t)
            else if c = CHR ''}'' then Some ([(k, v)], t) else None
        | _ \<Rightarrow> None)
     | _ \<Rightarrow> None)"

definition reference_loads :: "byte list \<Rightarrow> parsed result" where
  "reference_loads bs =
    (let s = map (\<lambda>b. char_of (unat b)) bs
     in case read_doc (Suc (length s)) s of
       Some (v, rest) \<Rightarrow> if is_blank rest then Inr v else raise ValueError ''Extra data''
     | None \<Rightarrow> raise ValueError ''Expecting value'')"

section \<open>Strings and numbers\<close>

lemma hex_val_digit: "n < 16 \<Longrightarrow> hex_val (hex_digit n) = n"
proof -
  have "\<forall>n \<in> set [0..<16]. hex_val (hex_digit n) = n"
    by code_simp
  then show "n < 16 \<Longrightarrow> hex_val (hex_digit n) = n"
    by simp
qed

lemma char_of_hex: "char_of (16 * hex_val (hex_digit (of_char c div 16)) + hex_val (hex_digit (of_char c mod 16))) = c"
proof -
  have "(of_char c :: nat) < 256"
    by (rule nat_of_char_less_256)
  then have "(of_char c :: nat) div 16 < 16"
    by (simp add: less_mult_imp_div_less)
  then have "hex_val (hex_digit (of_char c div 16)) = of_char c div 16" "hex_val (hex_digit (of_char c mod 16)) = of_char c mod 16"
    by (simp_all add: hex_val_digit)
  then show ?thesis
    by simp
qed

lemma of_char_cases: "(of_char c :: nat) = n \<Longrightarrow> c = char_of n"
  by auto

lemma read_json_char: "read_chars (json_char c @ s) = map_option (apfst (Cons c)) (read_chars s)"
proof (cases "c = CHR 0x22 \<or> c = CHR 0x5C \<or> (of_char c :: nat) \<in> {10, 13, 9, 8, 12}")
  case True
  moreover have "char_of (10::nat) = CHR 0x0A" "char_of (13::nat) = CHR 0x0D" "char_of (9::nat) = CHR 0x09"
    "char_of (8::nat) = CHR 0x08" "char_of (12::nat) = CHR 0x0C"
    by code_simp+
  ultimately have "c = CHR 0x22 \<or> c = CHR 0x5C \<or> c = CHR 0x0A \<or> c = CHR 0x0D \<or> c = CHR 0x09 \<or> c = CHR 0x08 \<or> c = CHR 0x0C"
    by (auto dest!: of_char_cases)
  then show ?thesis
    by (elim disjE) (simp_all add: json_char_def short_escape_def)
next
  case False
  then show ?thesis
    using char_of_hex [of c] by (auto simp: json_char_def Let_def)
qed

lemma read_json_chars: "read_chars (concat (map json_char k) @ CHR 0x22 # s) = Some (k, s)"
  by (induction k) (simp_all add: read_json_char)

lemma string_of_nat_split:
  assumes "s = [] \<or> \<not> is_digit (hd s)"
  shows "takeWhile is_digit (string_of_nat n @ s) = string_of_nat n" "dropWhile is_digit (string_of_nat n @ s) = s"
proof -
  have "\<forall>c \<in> set (string_of_nat n). is_digit c"
    using string_of_nat_digits [of n] by (simp add: list_all_iff)
  then show "takeWhile is_digit (string_of_nat n @ s) = string_of_nat n" "dropWhile is_digit (string_of_nat n @ s) = s"
    using assms by (cases s; auto simp: takeWhile_append2 dropWhile_append2)+
qed

lemma read_number_int:
  assumes "s = [] \<or> \<not> is_digit (hd s)"
  shows "read_number (string_of_int i @ s) = Some (VInt i, s)"
proof -
  have digits: "decimal_value (string_of_nat n) = int n" "string_of_nat n = c # cs \<Longrightarrow> is_digit c" "string_of_nat n \<noteq> []" for n c cs
    using string_of_nat_digits [of n] by (simp_all add: decimal_value_def)
  show ?thesis
  proof (cases "i < 0")
    case True
    then show ?thesis
      using string_of_nat_split [OF assms] by (simp add: read_number_def string_of_int_def digits(1))
  next
    case False
    obtain c cs where c: "string_of_nat (nat i) = c # cs"
      using digits(3) by (cases "string_of_nat (nat i)") auto
    then have "is_digit c" "c \<noteq> CHR ''-''"
      using digits(2) by (auto simp: is_digit_def)
    then show ?thesis
      using False string_of_nat_split [OF assms, of "nat i"] digits(1) [of "nat i"] by (simp add: read_number_def string_of_int_def c)
  qed
qed

lemma int_text_start:
  "\<exists>c cs. string_of_int i = c # cs \<and> (is_digit c \<or> c = CHR ''-'')"
proof -
  have "\<exists>c cs. string_of_nat n = c # cs \<and> is_digit c" for n
    using string_of_nat_digits [of n] by (cases "string_of_nat n") auto
  then show ?thesis
    unfolding string_of_int_def by (cases "i < 0") fastforce+
qed

section \<open>Documents\<close>

text \<open>What the text of a document does not start with, and what may follow a document.\<close>

definition ends_value :: "string \<Rightarrow> bool" where
  "ends_value s \<longleftrightarrow> s = [] \<or> \<not> is_digit (hd s)"

definition read_back :: "json_doc \<Rightarrow> bool" where
  "read_back d \<longleftrightarrow> (\<forall>n s. length (doc_text d) < n \<longrightarrow> ends_value s \<longrightarrow> read_doc n (doc_text d @ s) = Some (loaded d, s))"

lemma read_backD:
  "read_back d \<Longrightarrow> length (doc_text d) < n \<Longrightarrow> ends_value s \<Longrightarrow> read_doc n (doc_text d @ s) = Some (loaded d, s)"
  by (simp add: read_back_def)

lemma ends_value_simps [simp]: "ends_value (CHR '','' # s)" "ends_value (CHR '']'' # s)" "ends_value (CHR ''}'' # s)" "ends_value []"
  by (simp_all add: ends_value_def is_digit_def)

lemma doc_text_start: "\<exists>c cs. doc_text d = c # cs \<and> c \<noteq> CHR '']'' \<and> c \<noteq> CHR ''}''"
proof (cases d)
  case (DInt i)
  then show ?thesis
    using int_text_start [of i] by (auto simp: is_digit_def)
qed (simp_all add: json_string_def)

lemma read_items_back:
  assumes "\<forall>d \<in> set ds. read_back d" "ds \<noteq> []" "length (join_with '','' (map doc_text ds)) + 1 < n"
  shows "read_items n (join_with '','' (map doc_text ds) @ CHR '']'' # s) = Some (map loaded ds, s)"
  using assms
proof (induction ds arbitrary: n)
  case (Cons d ds)
  obtain m where n: "n = Suc m"
    using Cons.prems(3) by (cases n) auto
  show ?case
  proof (cases ds)
    case Nil
    then show ?thesis
      using Cons.prems n read_backD [of d m "CHR '']'' # s"] by simp
  next
    case (Cons e es)
    let ?rest = "join_with '','' (map doc_text ds)"
    have len: "length (doc_text d) < m" "length ?rest + 1 < m"
      using Cons.prems(3) n doc_text_start [of d] unfolding Cons by auto
    have "read_doc m (doc_text d @ CHR '','' # ?rest @ CHR '']'' # s) = Some (loaded d, CHR '','' # ?rest @ CHR '']'' # s)"
      using Cons.prems(1) len(1) by (intro read_backD) simp_all
    moreover have "read_items m (?rest @ CHR '']'' # s) = Some (map loaded ds, s)"
      using Cons.prems(1) len(2) Cons by (intro Cons.IH) simp_all
    ultimately show ?thesis
      unfolding Cons n by simp
  qed
qed simp

lemma read_members_back:
  assumes "\<forall>d \<in> set (map snd kvs). read_back d" "kvs \<noteq> []"
    "length (join_with '','' (map doc_field (map (map_prod (\<lambda>k. k) doc_text) kvs))) + 1 < n"
  shows "read_members n (join_with '','' (map doc_field (map (map_prod (\<lambda>k. k) doc_text) kvs)) @ CHR ''}'' # s)
    = Some (map (map_prod (\<lambda>k. k) loaded) kvs, s)"
  using assms
proof (induction kvs arbitrary: n)
  case (Cons kd kvs)
  obtain k d where kd: "kd = (k, d)"
    by (cases kd)
  obtain m where n: "n = Suc m"
    using Cons.prems(3) by (cases n) auto
  have field: "read_members (Suc m) (doc_field (k, doc_text d) @ t) =
      (case read_doc m (doc_text d @ t) of
        Some (v, c # t) \<Rightarrow>
          if c = CHR '','' then map_option (apfst (Cons (k, v))) (read_members m t)
          else if c = CHR ''}'' then Some ([(k, v)], t) else None
      | _ \<Rightarrow> None)" for t
    using read_json_chars [of k "CHR '':'' # doc_text d @ t"] by (simp add: doc_field_def json_string_def)
  show ?case
  proof (cases kvs)
    case Nil
    then show ?thesis
      using Cons.prems field [of "CHR ''}'' # s"] read_backD [of d m "CHR ''}'' # s"] by (simp add: n kd doc_field_def)
  next
    case (Cons e es)
    let ?rest = "join_with '','' (map doc_field (map (map_prod (\<lambda>k. k) doc_text) kvs))"
    have "length (doc_field (k, doc_text d)) > length (doc_text d)"
      by (simp add: doc_field_def)
    then have len: "length (doc_text d) < m" "length ?rest + 1 < m"
      using Cons.prems(3) n unfolding Cons kd by auto
    have "read_doc m (doc_text d @ CHR '','' # ?rest @ CHR ''}'' # s) = Some (loaded d, CHR '','' # ?rest @ CHR ''}'' # s)"
      using Cons.prems(1) len(1) kd by (intro read_backD) simp_all
    moreover have "read_members m (?rest @ CHR ''}'' # s) = Some (map (map_prod (\<lambda>k. k) loaded) kvs, s)"
      using Cons.prems(1) len(2) Cons by (intro Cons.IH) simp_all
    ultimately show ?thesis
      using field [of "CHR '','' # ?rest @ CHR ''}'' # s"] unfolding n kd Cons by simp
  qed
qed simp

lemma read_back_list:
  assumes "\<forall>d \<in> set ds. read_back d"
  shows "read_back (DList ds)"
  unfolding read_back_def
proof (intro allI impI)
  fix n s
  assume "length (doc_text (DList ds)) < n"
  then obtain m where n: "n = Suc m" "length (join_with '','' (map doc_text ds)) + 1 < m"
    by (cases n) auto
  show "read_doc n (doc_text (DList ds) @ s) = Some (loaded (DList ds), s)"
  proof (cases ds)
    case Nil
    then show ?thesis
      by (simp add: n)
  next
    case (Cons e es)
    obtain c cs where c: "join_with '','' (map doc_text ds) = c # cs" "c \<noteq> CHR '']''"
      using doc_text_start [of e] by (cases es) (auto simp: Cons)
    show ?thesis
      using read_items_back [OF assms _ n(2), of s] c Cons by (simp add: n)
  qed
qed

lemma read_back_dict:
  assumes "\<forall>d \<in> set (map snd kvs). read_back d"
  shows "read_back (DDict kvs)"
  unfolding read_back_def
proof (intro allI impI)
  fix n s
  let ?kvs = "sort_key fst kvs"
  let ?text = "join_with '','' (map doc_field (map (map_prod (\<lambda>k. k) doc_text) ?kvs))"
  assume "length (doc_text (DDict kvs)) < n"
  then obtain m where n: "n = Suc m" "length ?text + 1 < m"
    by (cases n) (auto simp: sort_key_fst_map)
  show "read_doc n (doc_text (DDict kvs) @ s) = Some (loaded (DDict kvs), s)"
  proof (cases "kvs = []")
    case True
    then show ?thesis
      by (simp add: n)
  next
    case False
    then have ne: "?kvs \<noteq> []"
      by (metis set_empty set_sort)
    then obtain cs where c: "?text = CHR 0x22 # cs"
      by (cases ?kvs; cases "tl ?kvs") (auto simp: doc_field_def json_string_def)
    have "\<forall>d \<in> set (map snd ?kvs). read_back d"
      using assms by simp
    from read_members_back [OF this ne n(2), of s] show ?thesis
      using c by (simp add: n sort_key_fst_map)
  qed
qed

lemma read_back_all: "read_back d"
proof (induction d)
  case (DInt i)
  obtain c cs where c: "string_of_int i = c # cs" "is_digit c \<or> c = CHR ''-''"
    using int_text_start by blast
  then have "c \<noteq> CHR ''n'' \<and> c \<noteq> CHR 0x22 \<and> c \<noteq> CHR ''['' \<and> c \<noteq> CHR ''{''"
    by (auto simp: is_digit_def)
  then show ?case
    using read_number_int [of _ i] read_number_int [of "[]" i] c(1) unfolding read_back_def ends_value_def
    by (intro allI impI) (auto simp: less_Suc_eq_0_disj dest!: less_imp_Suc_add)
next
  case (DStr s)
  then show ?case
    using read_json_chars [of s] by (auto simp: read_back_def json_string_def dest!: less_imp_Suc_add)
next
  case (DList ds)
  then show ?case
    by (intro read_back_list) auto
next
  case (DDict kvs)
  then show ?case
    by (intro read_back_dict) fastforce
qed (auto simp: read_back_def dest!: less_imp_Suc_add)

lemma char_of_ascii: "map (\<lambda>b. char_of (unat b)) (ascii_bytes s) = s"
proof -
  have "char_of (unat (word_of_nat (of_char c) :: byte)) = c" for c
    using nat_of_char_less_256 [of c] by (simp add: unat_of_nat take_bit_eq_mod)
  then show ?thesis
    by (simp add: ascii_bytes_def comp_def)
qed

interpretation reference_reader: json_reader reference_loads
proof
  fix d
  have "read_doc (Suc (length (doc_text d) + 1)) (doc_text d @ [CHR 0x0A]) = Some (loaded d, [CHR 0x0A])"
    by (rule read_backD [OF read_back_all]) (simp_all add: ends_value_def is_digit_def)
  then show "reference_loads (canonical_json d) = Inr (loaded d)"
    by (simp add: Let_def del: read_doc.simps add: reference_loads_def canonical_json_def char_of_ascii is_blank_def is_space_def)
qed

end
