(* ===== verification/Gold_Certified.thy ===== *)
theory Gold_Certified
  imports Gold_Source Json_Reader
begin

text \<open>
  From the bundle adapter to the source of the synchronization: what a returning adapter has written, and
  that the source accepts it under the catalog row of its publication.
\<close>

section \<open>Paths of a build\<close>

lemma split_on_none: "c \<notin> set a \<Longrightarrow> split_on c a = [a]"
  by (induction a) auto

lemma split_on_sep: "c \<notin> set a \<Longrightarrow> split_on c (a @ c # b) = a # split_on c b"
  by (induction a) auto

lemma build_id_no_slash: "is_build_id bid \<Longrightarrow> CHR ''/'' \<notin> set bid"
proof -
  assume bid: "is_build_id bid"
  then have len: "length bid = 16"
    by (simp add: is_build_id_def)
  have "bid = take 8 bid @ drop 8 bid" "drop 8 bid = bid ! 8 # drop 9 bid"
    using len Cons_nth_drop_Suc [of 8 bid] by simp_all
  moreover have "drop 9 bid = take 6 (drop 9 bid) @ drop 15 bid"
    using append_take_drop_id [of 6 "drop 9 bid"] by simp
  moreover have "drop 15 bid = [bid ! 15]"
    using len Cons_nth_drop_Suc [of 15 bid] by simp
  ultimately have "set bid = set (take 8 bid) \<union> {bid ! 8} \<union> set (take 6 (drop 9 bid)) \<union> {bid ! 15}"
    by (metis Un_assoc Un_insert_left list.simps(15) set_append set_empty2 sup_bot_left)
  moreover have "\<not> is_digit (CHR ''/'')"
    by (simp add: is_digit_def)
  ultimately show ?thesis
    using bid by (auto simp: is_build_id_def list_all_iff)
qed

definition bundle_file :: "string \<Rightarrow> string \<Rightarrow> string" where
  "bundle_file bid name = ''versions/build_id='' @ bid @ ''/'' @ name"

lemma path_of_bundle_file:
  assumes "is_build_id bid" "CHR ''/'' \<notin> set name" "name \<noteq> []" "name \<noteq> ''.''"
  shows "path_of_text (bundle_file bid name) = [''versions'', ''build_id='' @ bid, name]"
proof -
  have "split_on (CHR ''/'') (''versions'' @ CHR ''/'' # (''build_id='' @ bid) @ CHR ''/'' # name)
      = [''versions'', ''build_id='' @ bid, name]"
    using build_id_no_slash [OF assms(1)] assms(2)
    by (subst split_on_sep, simp, subst split_on_sep, simp, simp add: split_on_none)
  then show ?thesis
    using assms(3,4) by (simp add: path_of_text_def bundle_file_def)
qed

lemma resolve_path_append: "resolve_path (p @ q) = foldl (\<lambda>q c. if c = ''..'' then butlast q else q @ [c]) (resolve_path p) q"
  by (simp add: resolve_path_def)

lemma resolve_root: "resolve_path R = R \<Longrightarrow> resolve_path (gold_dataset_root R) = gold_dataset_root R"
  by (simp add: gold_dataset_root_def resolve_path_append)

lemma resolve_build: "resolve_path R = R \<Longrightarrow> resolve_path (build_dir R bid) = build_dir R bid"
  by (simp add: build_dir_def gold_dataset_root_def resolve_path_append)

lemma resolve_bundle_file:
  assumes "resolve_path (gs_root S) = gs_root S" "is_build_id bid" "CHR ''/'' \<notin> set name" "name \<noteq> []" "name \<noteq> ''.''" "name \<noteq> ''..''"
  shows "resolve_relative S (bundle_file bid name) = Inr (build_dir (gs_root S) bid @ [name])"
proof -
  have "\<not> is_absolute_text (bundle_file bid name)"
    by (simp add: is_absolute_text_def bundle_file_def)
  moreover have "resolve_path (gold_dataset_root (gs_root S) @ path_of_text (bundle_file bid name)) = build_dir (gs_root S) bid @ [name]"
    using assms(6) unfolding path_of_bundle_file [OF assms(2-5)] resolve_path_append resolve_root [OF assms(1)]
    by (simp add: build_dir_def)
  ultimately show ?thesis
    using resolve_root [OF assms(1)] by (simp add: resolve_relative_def build_dir_def)
qed

lemma relative_bundle_file: "relative_posix (gold_dataset_root R) m (build_dir R bid @ [name]) = Inr (bundle_file bid name)"
  by (simp add: relative_posix_def build_dir_def bundle_file_def)

section \<open>What validation has read\<close>

lemma read_bytes_Inr: "read_bytes parquet p w = (Inr bs, w') \<Longrightarrow> \<exists>c. file_at p w = Some c \<and> bs = content_bytes parquet c"
  by (auto simp: read_bytes_def io_run fault_point_def file_at_def split: list.splits option.splits)

lemma read_gold_path_Inr:
  assumes "read_gold_path pl p w = (Inr f, w')"
  shows "file_at p w = Some (Parquet f)" "validate_gold_frame pl f = Inr ()"
  using assms by (auto simp: read_gold_path_def io_inv lift_apply ret_apply gets_apply dest!: read_parquet_Inr)

lemma read_gold_path_files [preserves_intros]: "preserves files (read_gold_path pl p)"
  unfolding read_gold_path_def by (intro preserves_intros)

lemma read_build_files [preserves_intros]: "preserves files (read_build pl R bid)"
  unfolding read_build_def by (intro preserves_intros)

lemma validated_frame_files [preserves_intros]: "preserves files (validated_frame S a)"
  unfolding validated_frame_def Let_def by (intro preserves_intros)

lemma validate_sidecars_files [preserves_intros]: "preserves files (validate_sidecars S a sc)"
  unfolding validate_sidecars_def by (intro preserves_intros)

lemma file_at_files: "preserves files m \<Longrightarrow> m w = (r, w') \<Longrightarrow> file_at p w' = file_at p w"
  unfolding file_at_def by (drule (1) preservesD) simp

lemma validated_frame_Inr:
  assumes "validated_frame S a w = (Inr g, w')"
  shows "file_at (art_data_path a) w = Some (Parquet g)"
proof -
  obtain p where p: "gold_data (gs_root S) (art_build_id a) = Inr p" "art_data_path a = p"
    and run: "\<exists>bs w1. read_bytes (gs_parquet S) p w = (Inr bs, w1) \<and> read_build (gs_polars S) (gs_root S) (art_build_id a) w1 = (Inr g, w')"
    using assms by (auto simp: validated_frame_def io_inv lift_apply ret_apply gets_apply Let_def)
  then obtain bs w1 where read: "read_bytes (gs_parquet S) p w = (Inr bs, w1)"
    and "read_build (gs_polars S) (gs_root S) (art_build_id a) w1 = (Inr g, w')"
    by blast
  then have "read_gold_path (gs_polars S) p w1 = (Inr g, w')"
    using p(1) by (auto simp: read_build_def io_inv lift_apply)
  then show ?thesis
    using read_gold_path_Inr(1) file_at_files [OF read_bytes_files read] p(2) by metis
qed

lemma validate_sidecars_Inr:
  assumes "validate_sidecars S a sc w = (Inr u, w')"
  shows "\<exists>c. file_at (sc_manifest_path sc) w = Some c \<and> content_bytes (gs_parquet S) c = to_json_bytes (sc_manifest sc)"
    "is_file (sc_plot_path sc) w"
    "gold_build_manifest (gs_root S) (art_build_id a) = Inr (sc_manifest_path sc)"
    "gold_build_profile (gs_root S) (art_build_id a) = Inr (sc_plot_path sc)"
proof -
  obtain f w1 w2 bs where f: "validated_frame S a w = (Inr f, w1)"
    and paths: "gold_build_manifest (gs_root S) (art_build_id a) = Inr (sc_manifest_path sc)"
      "gold_build_profile (gs_root S) (art_build_id a) = Inr (sc_plot_path sc)"
    and present: "is_file (sc_plot_path sc) w1"
    and bs: "read_bytes (gs_parquet S) (sc_manifest_path sc) w1 = (Inr bs, w2)" "bs = to_json_bytes (sc_manifest sc)"
    using assms by (auto simp: validate_sidecars_def io_inv lift_apply ret_apply gets_apply)
  have keep: "file_at p w1 = file_at p w" for p
    by (rule file_at_files [OF validated_frame_files f])
  show "\<exists>c. file_at (sc_manifest_path sc) w = Some c \<and> content_bytes (gs_parquet S) c = to_json_bytes (sc_manifest sc)"
    using read_bytes_Inr [OF bs(1)] bs(2) keep by auto
  show "is_file (sc_plot_path sc) w"
    using present keep by (simp add: is_file_def)
  show "gold_build_manifest (gs_root S) (art_build_id a) = Inr (sc_manifest_path sc)"
    "gold_build_profile (gs_root S) (art_build_id a) = Inr (sc_plot_path sc)"
    by (fact paths)+
qed

section \<open>What the adapter has made\<close>

lemma os_link_other [preserves_intros]: "p \<noteq> q \<Longrightarrow> preserves (file_at p) (os_link t q)"
  unfolding os_link_def
  by (auto intro!: preserves_intros preserves_modify fault_point_files simp: file_at_def update_conv' split: option.split)

lemma create_bytes_other [preserves_intros]: "p \<noteq> q \<Longrightarrow> preserves (file_at p) (create_bytes q payload)"
  unfolding create_bytes_def unlink_temp_def write_temp_def mkstemp_def mkdir_parents_def
  by (auto intro!: preserves_intros preserves_modify fault_point_files simp: file_at_def)

lemma create_sidecars_Inr:
  assumes run: "create_sidecars S a started completed inputs w = (Inr sc, w')"
    and data: "file_at (art_data_path a) w = Some (Parquet f)"
      "gold_data (gs_root S) (art_build_id a) = Inr (art_data_path a)"
  shows "\<exists>data_rel plot_rel. sidecar_relative S (art_data_path a) = Inr data_rel
      \<and> sidecar_relative S (sc_plot_path sc) = Inr plot_rel
      \<and> build_sidecar (gs_dtype_text S) (gs_sha256 S) (gs_builder S) f (art_build_id a) started completed
          data_rel (art_data_sha256 a) plot_rel inputs = Inr (sc_manifest sc)"
    "\<exists>c. file_at (sc_manifest_path sc) w' = Some c \<and> content_bytes (gs_parquet S) c = to_json_bytes (sc_manifest sc)"
    "is_file (sc_plot_path sc) w'"
    "gold_build_manifest (gs_root S) (art_build_id a) = Inr (sc_manifest_path sc)"
    "gold_build_profile (gs_root S) (art_build_id a) = Inr (sc_plot_path sc)"
    "file_at (art_data_path a) w' = Some (Parquet f)"
proof -
  obtain g w1 plot w2 w3 w4 w5 m w6 w7 w8 data_rel plot_rel where
    frame: "validated_frame S a w = (Inr g, w1)"
    and 1: "fault_point w1 = (Inr (), w2)" and plot: "create_bytes (sc_plot_path sc) plot w2 = (Inr (), w3)"
    and 2: "fault_point w3 = (Inr (), w4)"
    and rel: "sidecar_relative S (art_data_path a) = Inr data_rel" "sidecar_relative S (sc_plot_path sc) = Inr plot_rel"
    and m: "build_sidecar (gs_dtype_text S) (gs_sha256 S) (gs_builder S) g (art_build_id a) started completed
        data_rel (art_data_sha256 a) plot_rel inputs = Inr m" "sc_manifest sc = m"
    and 3: "fault_point w4 = (Inr (), w5)" and manifest: "create_bytes (sc_manifest_path sc) (manifest_text m) w5 = (Inr (), w6)"
    and 4: "fault_point w6 = (Inr (), w7)" and valid: "validate_sidecars S a sc w7 = (Inr (), w')"
    using run by (auto simp: create_sidecars_def io_inv lift_apply ret_apply gets_apply Let_def)
  have g: "g = f"
    using validated_frame_Inr [OF frame] data(1) by simp
  show "\<exists>data_rel plot_rel. sidecar_relative S (art_data_path a) = Inr data_rel
      \<and> sidecar_relative S (sc_plot_path sc) = Inr plot_rel
      \<and> build_sidecar (gs_dtype_text S) (gs_sha256 S) (gs_builder S) f (art_build_id a) started completed
          data_rel (art_data_sha256 a) plot_rel inputs = Inr (sc_manifest sc)"
    using rel m g by blast
  have keep: "file_at p w' = file_at p w7" for p
    by (rule file_at_files [OF validate_sidecars_files valid])
  show "\<exists>c. file_at (sc_manifest_path sc) w' = Some c \<and> content_bytes (gs_parquet S) c = to_json_bytes (sc_manifest sc)"
    "is_file (sc_plot_path sc) w'"
    "gold_build_manifest (gs_root S) (art_build_id a) = Inr (sc_manifest_path sc)"
    "gold_build_profile (gs_root S) (art_build_id a) = Inr (sc_plot_path sc)"
    using validate_sidecars_Inr [OF valid] keep by (simp_all add: is_file_def)
  obtain d where "d @ [''data.parquet''] = art_data_path a" "d @ [''manifest.json''] = sc_manifest_path sc"
    "d @ [''feature_profile.png''] = sc_plot_path sc"
    using data(2) validate_sidecars_Inr(3,4) [OF valid]
    by (auto simp: gold_data_def gold_build_manifest_def gold_build_profile_def rbind_Inr)
  moreover have "d @ [''data.parquet''] \<noteq> d @ [''feature_profile.png'']" "d @ [''data.parquet''] \<noteq> d @ [''manifest.json'']"
    by simp_all
  ultimately have "art_data_path a \<noteq> sc_plot_path sc" "art_data_path a \<noteq> sc_manifest_path sc"
    by metis+
  from preservesD [OF create_bytes_other [OF this(1)] plot] preservesD [OF create_bytes_other [OF this(2)] manifest]
  show "file_at (art_data_path a) w' = Some (Parquet f)"
    using keep [of "art_data_path a"] data(1) file_at_files [OF validated_frame_files frame, of "art_data_path a"]
      fault_point_keeps [OF 1] fault_point_keeps [OF 2] fault_point_keeps [OF 3] fault_point_keeps [OF 4]
    by (simp add: file_at_def)
qed

lemma build_sidecar_Inr:
  assumes "build_sidecar dtype_text sha256 B f bid started completed data_rel digest plot_rel inputs = Inr m" "inputs \<noteq> []"
  shows "f_columns f = GOLD_COLUMNS" "validate_inputs inputs = Inr ()"
    "sidecar_bound ''Gold sidecar min timestamp must be datetime'' (cells_min (column_cells f ''timestamp_m1'')) = Inr (mf_min_timestamp m)"
    "sidecar_bound ''Gold sidecar max timestamp must be datetime'' (cells_max (column_cells f ''timestamp_m1'')) = Inr (mf_max_timestamp m)"
    "mf_dataset_id m = DATASET_ID" "mf_build_id m = bid" "mf_artifact_state m = ''built''"
    "mf_manifest_version m = CURRENT_MANIFEST_VERSION" "mf_schema_version m = GOLD_SCHEMA_VERSION"
    "mf_feature_version m = GOLD_FEATURE_VERSION" "mf_row_count m = int (f_height f)" "mf_columns m = f_columns f"
    "mf_data_path m = data_rel" "mf_data_sha256 m = digest" "mf_inputs m = inputs" "mf_plot_path m = plot_rel"
    "mf_git_commit_hash m = sb_git_commit_hash B"
    "mf_feature_set_hash m = feature_set_sha256 dtype_text sha256 f GOLD_SCHEMA_VERSION GOLD_FEATURE_VERSION (sb_formula_parameters B)"
  using assms by (auto simp: build_sidecar_def rbind_Inr)

text \<open>The files of a bundle, the manifest in it, and the bundle itself.\<close>

definition bundle_stored :: "gold_store \<Rightarrow> frame \<Rightarrow> string \<Rightarrow> build_manifest \<Rightarrow> 'z lake_scheme \<Rightarrow> bool" where
  "bundle_stored S f bid m w \<longleftrightarrow>
    file_at (build_dir (gs_root S) bid @ [''data.parquet'']) w = Some (Parquet f)
    \<and> (\<exists>c. file_at (build_dir (gs_root S) bid @ [''manifest.json'']) w = Some c
        \<and> content_bytes (gs_parquet S) c = to_json_bytes m)
    \<and> is_file (build_dir (gs_root S) bid @ [''feature_profile.png'']) w"

definition bundle_describes :: "gold_store \<Rightarrow> frame \<Rightarrow> string \<Rightarrow> gold_bundle \<Rightarrow> bool" where
  "bundle_describes S f bid c \<longleftrightarrow>
    cand_build_id c = bid \<and> cand_schema_version c = GOLD_SCHEMA_VERSION
    \<and> cand_feature_version c = GOLD_FEATURE_VERSION \<and> cand_row_count c = int (f_height f)
    \<and> gold_bound ''Gold min timestamp must be datetime'' (cells_min (column_cells f ''timestamp_m1'')) = Inr (cand_min_timestamp c)
    \<and> gold_bound ''Gold max timestamp must be datetime'' (cells_max (column_cells f ''timestamp_m1'')) = Inr (cand_max_timestamp c)
    \<and> cand_data_path c = bundle_file bid ''data.parquet''
    \<and> cand_build_manifest_path c = bundle_file bid ''manifest.json''
    \<and> cand_plot_path c = bundle_file bid ''feature_profile.png''"

lemma create_and_validate_Inr:
  assumes run: "create_and_validate S clock f bid started inputs w = (Inr c, w')" and clock: "preserves files clock"
  shows "\<exists>m. inputs \<noteq> [] \<and> is_build_id bid \<and> validate_gold_frame (gs_polars S) f = Inr ()
    \<and> build_sidecar (gs_dtype_text S) (gs_sha256 S) (gs_builder S) f bid started (cand_completed_at_utc c)
        (bundle_file bid ''data.parquet'') (gs_sha256 S (gs_parquet S f)) (bundle_file bid ''feature_profile.png'') inputs = Inr m
    \<and> bundle_stored S f bid m w' \<and> bundle_describes S f bid c"
proof -
  let ?d = "build_dir (gs_root S) bid"
  obtain a w1 now w2 completed sc w3 w4 w5 where inputs: "inputs \<noteq> []"
    and build: "create_build (gs_polars S) (gs_parquet S) (gs_sha256 S) (gs_root S) clock f (Some bid) w = (Inr a, w1)"
    and now: "clock w1 = (Inr now, w2)" and sidecars: "create_sidecars S a started completed inputs w2 = (Inr sc, w3)"
    and point: "fault_point w3 = (Inr (), w4)" and valid: "validate_candidate S a sc inputs w4 = (Inr (), w5)"
    and candidate: "bundle_of S a sc completed = Inr c" and w5: "w' = w5"
    using run by (auto simp: create_and_validate_def io_inv lift_apply)
  have made: "build_made (gs_polars S) (gs_parquet S) (gs_sha256 S) (gs_root S) f bid a w1"
    using build_create_atomic [OF build] by simp
  then have a: "validate_gold_frame (gs_polars S) f = Inr ()" "file_at (art_data_path a) w1 = Some (Parquet f)"
    "art_build_id a = bid" "art_data_path a = ?d @ [''data.parquet'']" "art_data_sha256 a = gs_sha256 S (gs_parquet S f)"
    "art_row_count a = int (f_height f)" and bid: "is_build_id bid"
    unfolding build_made_def validate_build_id_def by auto
  have data: "file_at (art_data_path a) w2 = Some (Parquet f)"
    using file_at_files [OF clock now] a(2) by simp
  have "gold_data (gs_root S) (art_build_id a) = Inr (art_data_path a)"
    using bid a(3,4) by (simp add: gold_data_Inr)
  note files = create_sidecars_Inr [OF sidecars data this]
  have "gold_build_root (gs_root S) bid = Inr ?d"
    using bid by (simp add: build_dir_Inr)
  then have paths: "sc_manifest_path sc = ?d @ [''manifest.json'']" "sc_plot_path sc = ?d @ [''feature_profile.png'']"
    using files(4,5) a(3) by (simp_all add: gold_build_manifest_def gold_build_profile_def)
  have keep: "file_at p w' = file_at p w3" for p
  proof -
    have "preserves files (validate_candidate S a sc inputs)"
      unfolding validate_candidate_def by (intro preserves_intros)
    from file_at_files [OF this valid] show ?thesis
      using fault_point_keeps [OF point] w5 by (simp add: file_at_def)
  qed
  have c: "c = \<lparr>cand_build_id = bid, cand_completed_at_utc = completed,
      cand_schema_version = mf_schema_version (sc_manifest sc), cand_feature_version = mf_feature_version (sc_manifest sc),
      cand_row_count = int (f_height f), cand_min_timestamp = art_min_timestamp a,
      cand_max_timestamp = art_max_timestamp a, cand_data_path = bundle_file bid ''data.parquet'',
      cand_build_manifest_path = bundle_file bid ''manifest.json'', cand_plot_path = bundle_file bid ''feature_profile.png''\<rparr>"
    using candidate a(3,4,6) paths by (simp add: bundle_of_def bundle_relative_def relative_bundle_file)
  have m: "build_sidecar (gs_dtype_text S) (gs_sha256 S) (gs_builder S) f bid started completed
      (bundle_file bid ''data.parquet'') (gs_sha256 S (gs_parquet S f)) (bundle_file bid ''feature_profile.png'') inputs
      = Inr (sc_manifest sc)"
    using files(1) a(3,4,5) paths by (simp add: sidecar_relative_def relative_bundle_file)
  have "bundle_stored S f bid (sc_manifest sc) w'"
    unfolding bundle_stored_def is_file_def keep using files(2,3,6) paths a(4) by (simp add: is_file_def)
  moreover have "bundle_describes S f bid c"
    using made c build_sidecar_Inr(9,10) [OF m inputs] by (simp add: bundle_describes_def build_made_def)
  ultimately show ?thesis
    using inputs bid a(1) m c by auto
qed

section \<open>The manifest as it is read\<close>

text \<open>A signature as Silver gives it: both date bounds or none, and dates that are read back.\<close>

definition readable_signature :: "(string \<Rightarrow> int option) \<Rightarrow> silver_input_signature \<Rightarrow> bool" where
  "readable_signature iso_date s \<longleftrightarrow> sig_row_count s < 2 ^ 64
    \<and> (case (sig_min_observation_date s, sig_max_observation_date s) of
        (None, None) \<Rightarrow> True
      | (Some a, Some b) \<Rightarrow> iso_date (date_iso a) = Some a \<and> iso_date (date_iso b) = Some b
      | _ \<Rightarrow> False)"

lemma int_digits: "\<bar>i\<bar> < 2 ^ 64 \<Longrightarrow> \<bar>i\<bar> < digits_limit"
proof -
  have "(2 :: int) ^ 64 \<le> 10 ^ 20"
    by simp
  also have "(10 :: int) ^ 20 \<le> digits_limit"
    unfolding digits_limit_def by (rule power_increasing) simp_all
  finally show "\<bar>i\<bar> < 2 ^ 64 \<Longrightarrow> \<bar>i\<bar> < digits_limit"
    by linarith
qed

lemma signature_doc_safe:
  assumes "0 \<le> sig_row_count s" "sig_row_count s < 2 ^ 64"
  shows "doc_ok (signature_doc s)" "doc_depth (signature_doc s) = 1"
proof -
  have "\<bar>sig_row_count s\<bar> < digits_limit"
    using assms by (intro int_digits) simp
  then show "doc_ok (signature_doc s)" "doc_depth (signature_doc s) = 1"
    by (simp_all add: signature_doc_def doc_option_def split: option.split)
qed

lemma doc_option_flat [simp]: "doc_ok (doc_option h v)" "doc_depth (doc_option h v) = 0"
  by (simp_all add: doc_option_def split: option.split)

lemma foldr_max_le: "(\<And>x. x \<in> set xs \<Longrightarrow> x \<le> n) \<Longrightarrow> foldr max xs 0 \<le> (n :: nat)"
  by (induction xs) auto

lemma strings_safe: "doc_ok (DList (map DStr xs))" "doc_depth (DList (map DStr xs)) \<le> 1"
  using foldr_max_le [of "map doc_depth (map DStr xs)" 0] by (auto simp: list_all_iff)

lemma manifest_dict_keys:
  "map fst (manifest_dict m) = [''artifact_state'', ''build_id'', ''columns'', ''completed_at_utc'', ''data_path'', ''data_sha256'',
    ''dataset_id'', ''feature_set_hash'', ''feature_version'', ''git_commit_hash'', ''inputs'', ''manifest_version'',
    ''max_timestamp'', ''min_timestamp'', ''plot_path'', ''row_count'', ''schema_version'', ''started_at_utc'']"
  by (simp add: manifest_dict_def)

lemma manifest_safe:
  assumes "\<And>s. s \<in> set (mf_inputs m) \<Longrightarrow> 0 \<le> sig_row_count s \<and> sig_row_count s < 2 ^ 64"
    and "\<bar>mf_row_count m\<bar> < 2 ^ 64" "\<bar>mf_manifest_version m\<bar> < 2 ^ 64" "\<bar>mf_schema_version m\<bar> < 2 ^ 64"
      "\<bar>mf_feature_version m\<bar> < 2 ^ 64"
  shows "json_safe (DDict (manifest_dict m))"
proof -
  have "distinct (map fst (manifest_dict m))"
    unfolding manifest_dict_keys by simp
  moreover have inputs: "doc_ok (DList (map signature_doc (mf_inputs m)))" "doc_depth (DList (map signature_doc (mf_inputs m))) \<le> 2"
    using signature_doc_safe assms(1) foldr_max_le [of "map doc_depth (map signature_doc (mf_inputs m))" 1]
    by (auto simp: list_all_iff)
  moreover note assms(2-) [THEN int_digits] strings_safe [of "mf_columns m"]
  ultimately show ?thesis
    unfolding json_safe_def manifest_dict_def by (simp add: max_def)
qed

text \<open>The fields of a parsed signature.\<close>

lemma loaded_signature:
  "\<exists>kvs. loaded (signature_doc s) = VDict kvs \<and> dict_get kvs ''series_id'' = VStr (sig_series_id s)
    \<and> dict_get kvs ''row_count'' = VInt (sig_row_count s) \<and> dict_get kvs ''sha256'' = VStr (sig_sha256 s)
    \<and> dict_get kvs ''min_observation_date'' = loaded (doc_option date_iso (sig_min_observation_date s))
    \<and> dict_get kvs ''max_observation_date'' = loaded (doc_option date_iso (sig_max_observation_date s))"
proof -
  let ?d = "[(''max_observation_date'', doc_option date_iso (sig_max_observation_date s)),
     (''min_observation_date'', doc_option date_iso (sig_min_observation_date s)),
     (''row_count'', DInt (sig_row_count s)), (''series_id'', DStr (sig_series_id s)), (''sha256'', DStr (sig_sha256 s))]"
  have get: "dict_get (sort_key fst (map (map_prod (\<lambda>k. k) loaded) ?d)) k
      = (case map_of ?d k of None \<Rightarrow> VNull | Some d \<Rightarrow> loaded d)" for k
    by (rule dict_get_loaded) simp
  show ?thesis
    unfolding signature_doc_def loaded.simps by (intro exI conjI, rule refl) (simp_all only: get, simp_all)
qed

lemma check_signature_Inr:
  "check_signature s = Inr u \<Longrightarrow> 0 \<le> sig_row_count s \<and> is_sha256_hex (sig_sha256 s)
    \<and> (\<forall>a b. sig_min_observation_date s = Some a \<longrightarrow> sig_max_observation_date s = Some b \<longrightarrow> a \<le> b)"
  by (auto simp: check_signature_def rbind_Inr)

lemma valid_input_loaded:
  assumes "check_signature s = Inr ()" "readable_signature iso_date s"
  shows "valid_input iso_date (loaded (signature_doc s))"
proof -
  obtain kvs where kvs: "loaded (signature_doc s) = VDict kvs" "dict_get kvs ''row_count'' = VInt (sig_row_count s)"
    "dict_get kvs ''sha256'' = VStr (sig_sha256 s)"
    "dict_get kvs ''min_observation_date'' = loaded (doc_option date_iso (sig_min_observation_date s))"
    "dict_get kvs ''max_observation_date'' = loaded (doc_option date_iso (sig_max_observation_date s))"
    using loaded_signature [of s] by blast
  have "valid_input_dates iso_date kvs"
    using check_signature_Inr [OF assms(1)] assms(2) kvs(4,5)
    by (auto simp: valid_input_dates_def doc_option_def readable_signature_def split: option.splits)
  then show ?thesis
    using kvs(1-3) check_signature_Inr [OF assms(1)] by (simp add: valid_input_def as_python_int_def is_sha256_value_def)
qed

lemma certified_inputs_loaded:
  assumes "map sig_series_id inputs = GOLD_SOURCE_SERIES"
  shows "certified_inputs (loaded (DList (map signature_doc inputs)))"
proof -
  have "map (\<lambda>kvs. dict_get kvs ''series_id'') (dict_items (map (loaded \<circ> signature_doc) inputs)) = map VStr (map sig_series_id inputs)"
  proof (induction inputs)
    case (Cons s ss)
    then show ?case
      using loaded_signature [of s] by (auto simp: dict_items_def)
  qed (simp add: dict_items_def)
  then show ?thesis
    using assms by (simp add: certified_inputs_def list_all2_map1 list_all2_map2 list.rel_eq)
qed

section \<open>The bundle of the current row is accepted\<close>

lemma bound_texts:
  "gold_bound m c = Inr t \<Longrightarrow> sidecar_bound n c = Inr s \<Longrightarrow> source_timestamp_text t = Inr s"
  by (auto simp: gold_bound_def sidecar_bound_def source_timestamp_text_def sidecar_utc_text_def split: cell.splits)

lemma check_payload_ok:
  assumes get: "\<forall>k. dict_get payload k = (case map_of (manifest_dict m) k of None \<Rightarrow> VNull | Some d \<Rightarrow> loaded d)"
    and row: "dataset_id r = mf_dataset_id m" "build_id r = mf_build_id m" "schema_version r = mf_schema_version m"
      "feature_version r = mf_feature_version m" "row_count r = Some (mf_row_count m)"
      "data_path r = Some (bundle_text r ''data.parquet'')" "build_manifest_path r = Some (bundle_text r ''manifest.json'')"
    and m: "mf_artifact_state m = ''built''" "mf_manifest_version m = CURRENT_MANIFEST_VERSION"
      "mf_schema_version m = GOLD_SCHEMA_VERSION" "mf_feature_version m = GOLD_FEATURE_VERSION" "mf_columns m = GOLD_COLUMNS"
      "mf_data_path m = bundle_text r ''data.parquet''" "mf_plot_path m = bundle_text r ''feature_profile.png''"
      "is_sha256_hex (mf_data_sha256 m)" "is_sha256_hex (mf_feature_set_hash m)" "is_git_hash (mf_git_commit_hash m)"
    and times: "source_timestamp_text (min_timestamp r) = Inr (mf_min_timestamp m)"
      "source_timestamp_text (max_timestamp r) = Inr (mf_max_timestamp m)"
    and inputs: "certified_inputs (loaded (DList (map signature_doc (mf_inputs m))))"
      "valid_inputs iso_date (loaded (DList (map signature_doc (mf_inputs m))))"
  shows "check_payload iso_date payload r = Inr ()"
proof -
  have option: "py_equal (loaded (doc_option h v)) (doc_option h v)" for h :: "string \<Rightarrow> string" and v
    by (simp add: doc_option_def split: option.split)
  have at: "dict_get payload ''data_sha256'' = VStr (mf_data_sha256 m)"
    "dict_get payload ''feature_set_hash'' = VStr (mf_feature_set_hash m)"
    "dict_get payload ''git_commit_hash'' = VStr (mf_git_commit_hash m)"
    "dict_get payload ''min_timestamp'' = loaded (doc_option (\<lambda>t. t) (mf_min_timestamp m))"
    "dict_get payload ''max_timestamp'' = loaded (doc_option (\<lambda>t. t) (mf_max_timestamp m))"
    "dict_get payload ''inputs'' = loaded (DList (map signature_doc (mf_inputs m)))"
    by (simp_all add: get manifest_dict_def)
  have fields: "dict_get payload ''dataset_id'' = VStr (mf_dataset_id m)" "dict_get payload ''build_id'' = VStr (mf_build_id m)"
    "dict_get payload ''artifact_state'' = VStr (mf_artifact_state m)"
    "dict_get payload ''manifest_version'' = VInt (mf_manifest_version m)"
    "dict_get payload ''schema_version'' = VInt (mf_schema_version m)"
    "dict_get payload ''feature_version'' = VInt (mf_feature_version m)" "dict_get payload ''row_count'' = VInt (mf_row_count m)"
    "dict_get payload ''columns'' = VList (map VStr (mf_columns m))" "dict_get payload ''data_path'' = VStr (mf_data_path m)"
    "dict_get payload ''plot_path'' = VStr (mf_plot_path m)"
    by (simp_all add: get manifest_dict_def comp_def)
  have columns: "list_all2 py_equal (map VStr xs) (map DStr xs)" for xs
    by (simp add: list_all2_map1 list_all2_map2 list.rel_refl)
  have "rfor (\<lambda>(k, v). raise_if (\<not> py_equal (dict_get payload k) v) ValueError
      (''Gold build manifest '' @ k @ '' mismatch'')) (expected_fields r) = Inr ()"
    unfolding expected_fields_def using row m columns by (simp add: fields)
  then show ?thesis
    using row m times inputs option unfolding check_payload_def at
    by (simp add: is_sha256_value_def del: loaded.simps)
qed

text \<open>Reading when no call fails.\<close>

lemma read_bytes_quiet:
  "faults w = [] \<Longrightarrow> file_at p w = Some c \<Longrightarrow> read_bytes parquet p w = (Inr (content_bytes parquet c), w)"
  by (simp add: read_bytes_def io_run fault_point_quiet)

lemma read_gold_path_quiet:
  "faults w = [] \<Longrightarrow> file_at p w = Some (Parquet f) \<Longrightarrow> validate_gold_frame pl f = Inr () \<Longrightarrow>
    read_gold_path pl p w = (Inr f, w)"
  by (simp add: read_gold_path_def io_run fault_point_quiet is_file_def read_parquet_def)

lemma source_accepts:
  assumes quiet: "faults w = []" and root: "resolve_path (gs_root S) = gs_root S" and bid: "is_build_id (build_id r)"
    and paths: "data_path r = Some (bundle_file (build_id r) ''data.parquet'')"
      "build_manifest_path r = Some (bundle_file (build_id r) ''manifest.json'')"
      "plot_path r = Some (bundle_file (build_id r) ''feature_profile.png'')"
    and stored: "bundle_stored S f (build_id r) m w" and valid: "validate_gold_frame (gs_polars S) f = Inr ()"
    and loads: "gs_loads S (to_json_bytes m) = Inr (VDict payload)" and ok: "check_payload iso_date payload r = Inr ()"
    and hashes: "dict_get payload ''data_sha256'' = VStr (gs_sha256 S (gs_parquet S f))"
      "dict_get payload ''feature_set_hash'' = VStr (feature_set_sha256 (gs_dtype_text S) (gs_sha256 S) f
        (schema_version r) (feature_version r) GOLD_FORMULA_PARAMETERS)"
  shows "validate_source_bundle iso_date S r w = (Inr (), w)"
    "source_read_path S (bundle_file (build_id r) ''data.parquet'') w = (Inr f, w)"
    "source_sha256_path S (bundle_file (build_id r) ''data.parquet'') w = (Inr (gs_sha256 S (gs_parquet S f)), w)"
proof -
  let ?d = "build_dir (gs_root S) (build_id r)"
  have at: "resolve_relative S (bundle_file (build_id r) ''data.parquet'') = Inr (?d @ [''data.parquet''])"
    "resolve_relative S (bundle_file (build_id r) ''manifest.json'') = Inr (?d @ [''manifest.json''])"
    "resolve_relative S (bundle_file (build_id r) ''feature_profile.png'') = Inr (?d @ [''feature_profile.png''])"
    by (rule resolve_bundle_file [OF root bid]; simp)+
  have "locate_bundle S r = Inr (?d @ [''data.parquet''], ?d @ [''manifest.json''], ?d @ [''feature_profile.png''])"
    using at paths bid resolve_build [OF root] unfolding locate_bundle_def artifact_texts_def
    by (simp add: build_dir_Inr [THEN iffD2] bundle_file_def)
  moreover obtain c where manifest: "file_at (?d @ [''manifest.json'']) w = Some c" "content_bytes (gs_parquet S) c = to_json_bytes m"
    and data: "file_at (?d @ [''data.parquet'']) w = Some (Parquet f)" and plot: "is_file (?d @ [''feature_profile.png'']) w"
    using stored by (auto simp: bundle_stored_def)
  moreover have "is_file (?d @ [''data.parquet'']) w" "is_file (?d @ [''manifest.json'']) w"
    by (simp_all add: is_file_def data manifest(1))
  moreover have "read_gold_path (gs_polars S) (?d @ [''data.parquet'']) w = (Inr f, w)"
    by (rule read_gold_path_quiet [OF quiet data valid])
  moreover have "read_bytes (gs_parquet S) (?d @ [''data.parquet'']) w = (Inr (gs_parquet S f), w)"
    using read_bytes_quiet [OF quiet data] by (simp add: content_bytes_def)
  moreover have "read_bytes (gs_parquet S) (?d @ [''manifest.json'']) w = (Inr (to_json_bytes m), w)"
    using read_bytes_quiet [OF quiet manifest(1)] manifest(2) by simp
  ultimately show "validate_source_bundle iso_date S r w = (Inr (), w)"
    "source_read_path S (bundle_file (build_id r) ''data.parquet'') w = (Inr f, w)"
    "source_sha256_path S (bundle_file (build_id r) ''data.parquet'') w = (Inr (gs_sha256 S (gs_parquet S f)), w)"
    using loads ok hashes at
    by (simp_all add: validate_source_bundle_def source_read_path_def source_sha256_path_def io_run as_object_def)
qed

lemma builder_git: "GoldSidecarBuilder git fallback ps = Inr B \<Longrightarrow> is_git_hash (sb_git_commit_hash B) \<and> sb_formula_parameters B = ps"
  by (auto simp: GoldSidecarBuilder_def split: option.splits if_splits)

lemma validate_inputs_Inr:
  "validate_inputs inputs = Inr u \<Longrightarrow> map sig_series_id inputs = GOLD_SOURCE_SERIES \<and> (\<forall>s \<in> set inputs. check_signature s = Inr ())"
  by (auto simp: validate_inputs_def rbind_Inr rfor_Inr)


section \<open>A bundle that is made\<close>

lemma create_bytes_quiet:
  assumes "faults w = []" "\<not> path_exists p w" "p \<noteq> []"
  shows "\<exists>w'. create_bytes p payload w = (Inr (), w') \<and> faults w' = [] \<and> files w' = AList.update p (Bytes payload) (files w)
    \<and> (\<forall>q. length p \<le> length q \<longrightarrow> q \<in> set (dirs w') \<longrightarrow> q \<in> set (dirs w))"
proof -
  define D where "D = dirs w @ filter (\<lambda>e. e \<notin> set (dirs w)) (map (\<lambda>n. take n (parent p)) [1..<Suc (length (parent p))])"
  have D: "q \<in> set (dirs w)" if "q \<in> set D" "length p \<le> length q" for q
    using that assms(3) by (cases p rule: rev_cases) (auto simp: D_def parent_def)
  let ?t = "next_temp w"
  let ?w = "w\<lparr>dirs := D, temps := AList.update ?t (Bytes payload) (AList.update ?t (Bytes []) (temps w)), next_temp := Suc ?t\<rparr>"
  have dirs: "mkdir_parents (parent p) w = (Inr (), w\<lparr>dirs := D\<rparr>)"
    using assms(1) by (simp add: mkdir_parents_def io_run fault_point_quiet D_def)
  have "\<not> path_exists p ?w"
    using assms(2) D [of p] by (auto simp: path_exists_def is_file_def file_at_def)
  then have link: "os_link ?t p ?w = (Inr (), ?w\<lparr>files := AList.update p (Bytes payload) (files w)\<rparr>)"
    using assms(1) by (simp add: os_link_def io_run fault_point_quiet update_conv')
  have written: "write_temp ?t (Bytes payload) (w\<lparr>dirs := D, temps := AList.update ?t (Bytes []) (temps w), next_temp := Suc ?t\<rparr>)
      = (Inr (), ?w)"
    using assms(1) by (simp add: write_temp_def io_run fault_point_quiet)
  have "mkstemp (w\<lparr>dirs := D\<rparr>) = (Inr ?t, w\<lparr>dirs := D, temps := AList.update ?t (Bytes []) (temps w), next_temp := Suc ?t\<rparr>)"
    using assms(1) by (simp add: mkstemp_def io_run fault_point_quiet)
  then have "create_bytes p payload w
      = (Inr (), ?w\<lparr>files := AList.update p (Bytes payload) (files w), temps := AList.delete ?t (temps ?w)\<rparr>)"
    using assms(1) dirs link written by (simp add: create_bytes_def unlink_temp_def io_run fault_point_quiet)
  then show ?thesis
    using assms(1) D by simp
qed

lemma validated_frame_quiet:
  assumes "faults w = []" "is_build_id bid" "validate_build_id bid = Inr ()"
    and data: "file_at (build_dir (gs_root S) bid @ [''data.parquet'']) w = Some (Parquet f)"
    and valid: "validate_gold_frame (gs_polars S) f = Inr ()"
    and a: "art_build_id a = bid" "art_data_path a = build_dir (gs_root S) bid @ [''data.parquet'']"
      "art_data_sha256 a = gs_sha256 S (gs_parquet S f)" "art_row_count a = int (f_height f)"
      "bound_equals (cells_min (column_cells f ''timestamp_m1'')) (art_min_timestamp a)"
      "bound_equals (cells_max (column_cells f ''timestamp_m1'')) (art_max_timestamp a)"
  shows "validated_frame S a w = (Inr f, w)"
proof -
  have "gold_data (gs_root S) bid = Inr (build_dir (gs_root S) bid @ [''data.parquet''])"
    using assms(2) by (simp add: gold_data_Inr)
  moreover have "is_file (build_dir (gs_root S) bid @ [''data.parquet'']) w"
    using data by (simp add: is_file_def)
  moreover note read_bytes_quiet [OF assms(1) data, of "gs_parquet S"] read_gold_path_quiet [OF assms(1) data valid]
  ultimately show ?thesis
    using a assms(3) by (simp add: validated_frame_def read_build_def io_run Let_def content_bytes_def)
qed

lemma expected_keys: "expected_manifest_keys = map fst (manifest_dict m)"
  unfolding manifest_dict_keys by code_simp

lemma sort_manifest_keys: "sort (map fst (manifest_dict m)) = expected_manifest_keys"
proof -
  have "sorted (map fst (manifest_dict m))"
    unfolding expected_keys [symmetric] expected_manifest_keys_def by (rule sorted_sort)
  then show ?thesis
    by (simp add: expected_keys [of m] sorted_sort_id)
qed

text \<open>What a build that has just been made looks like to the sidecar store.\<close>

definition artifact_of :: "gold_store \<Rightarrow> frame \<Rightarrow> string \<Rightarrow> gold_build_artifact \<Rightarrow> bool" where
  "artifact_of S f bid a \<longleftrightarrow>
    validate_gold_frame (gs_polars S) f = Inr () \<and> validate_build_id bid = Inr ()
    \<and> art_build_id a = bid \<and> art_data_path a = build_dir (gs_root S) bid @ [''data.parquet'']
    \<and> art_data_sha256 a = gs_sha256 S (gs_parquet S f) \<and> art_row_count a = int (f_height f)
    \<and> bound_equals (cells_min (column_cells f ''timestamp_m1'')) (art_min_timestamp a)
    \<and> bound_equals (cells_max (column_cells f ''timestamp_m1'')) (art_max_timestamp a)"

lemma artifact_of_made:
  assumes "build_made (gs_polars S) (gs_parquet S) (gs_sha256 S) (gs_root S) f bid a w"
  shows "artifact_of S f bid a"
proof -
  have "gold_bound msg x = Inr y \<Longrightarrow> bound_equals x y" for msg x y
    by (auto simp: gold_bound_def bound_equals_def split: cell.splits)
  then show ?thesis
    using assms unfolding artifact_of_def build_made_def by blast
qed

lemma build_paths:
  assumes "is_build_id bid"
  shows "gold_data R bid = Inr (build_dir R bid @ [''data.parquet''])"
    "gold_build_manifest R bid = Inr (build_dir R bid @ [''manifest.json''])"
    "gold_build_profile R bid = Inr (build_dir R bid @ [''feature_profile.png''])"
  using assms by (simp_all add: gold_data_def gold_build_manifest_def gold_build_profile_def build_dir_Inr [THEN iffD2])

definition sidecars_of :: "gold_store \<Rightarrow> string \<Rightarrow> build_manifest \<Rightarrow> string \<Rightarrow> sidecar_artifacts" where
  "sidecars_of S bid m plot = \<lparr>sc_manifest = m, sc_manifest_path = build_dir (gs_root S) bid @ [''manifest.json''],
    sc_plot_path = build_dir (gs_root S) bid @ [''feature_profile.png''],
    sc_manifest_sha256 = gs_sha256 S (to_json_bytes m), sc_plot_sha256 = gs_sha256 S (ascii_bytes plot)\<rparr>"

lemma check_manifest_ok:
  assumes a: "artifact_of S f bid a" and inputs: "inputs \<noteq> []"
    and m: "build_sidecar (gs_dtype_text S) (gs_sha256 S) (gs_builder S) f bid started completed
      (bundle_file bid ''data.parquet'') (gs_sha256 S (gs_parquet S f)) (bundle_file bid ''feature_profile.png'') inputs = Inr m"
    and keys: "sort (map fst p) = sort (map fst (manifest_dict m))"
  shows "check_manifest S a (sidecars_of S bid m plot) f (VDict p) = Inr ()"
proof -
  note manifest = build_sidecar_Inr [OF m inputs]
  have "''status'' \<notin> set (map fst (manifest_dict m))"
    unfolding manifest_dict_keys by simp
  then have "''status'' \<notin> fst ` set p"
    using keys by (metis list.set_map set_sort)
  then show ?thesis
    using a keys unfolding check_manifest_def sidecars_of_def
    by (simp add: Let_def parsed_keys_def has_key_def sort_manifest_keys manifest artifact_of_def sidecar_relative_def
        relative_bundle_file bundle_feature_hash_def)
qed

lemma validate_sidecars_quiet:
  assumes quiet: "faults w = []" and a: "artifact_of S f bid a" and inputs: "inputs \<noteq> []"
    and m: "build_sidecar (gs_dtype_text S) (gs_sha256 S) (gs_builder S) f bid started completed
      (bundle_file bid ''data.parquet'') (gs_sha256 S (gs_parquet S f)) (bundle_file bid ''feature_profile.png'') inputs = Inr m"
    and safe: "json_safe (DDict (manifest_dict m))" and reader: "json_reader (gs_loads S)" and png: "is_png plot"
    and at: "file_at (build_dir (gs_root S) bid @ [''data.parquet'']) w = Some (Parquet f)"
      "file_at (build_dir (gs_root S) bid @ [''manifest.json'']) w = Some (Bytes (manifest_text m))"
      "file_at (build_dir (gs_root S) bid @ [''feature_profile.png'']) w = Some (Bytes plot)"
  shows "validate_sidecars S a (sidecars_of S bid m plot) w = (Inr (), w)"
proof -
  have bid: "is_build_id bid" "validate_build_id bid = Inr ()" "art_build_id a = bid"
    using a by (simp_all add: artifact_of_def validate_build_id_def)
  have frame: "validated_frame S a w = (Inr f, w)"
    using a by (intro validated_frame_quiet [OF quiet bid(1,2) at(1)]) (simp_all add: artifact_of_def)
  obtain p where p: "gs_loads S (to_json_bytes m) = Inr (VDict p)" "sort (map fst p) = sort (map fst (manifest_dict m))"
    using json_reader.read_object [OF reader safe] by (auto simp: to_json_bytes_canonical)
  have "is_png_bytes (ascii_bytes plot)"
    using png by (simp add: is_png_bytes_def is_png_def ascii_bytes_def take_map)
  moreover have "read_bytes (gs_parquet S) (build_dir (gs_root S) bid @ [''manifest.json'']) w = (Inr (to_json_bytes m), w)"
    "read_bytes (gs_parquet S) (build_dir (gs_root S) bid @ [''feature_profile.png'']) w = (Inr (ascii_bytes plot), w)"
    using read_bytes_quiet [OF quiet at(2)] read_bytes_quiet [OF quiet at(3)] by (simp_all add: content_bytes_def to_json_bytes_def)
  moreover have "is_file (build_dir (gs_root S) bid @ [''manifest.json'']) w" "is_file (build_dir (gs_root S) bid @ [''feature_profile.png'']) w"
    by (simp_all add: is_file_def at)
  ultimately show ?thesis
    using frame p(1) check_manifest_ok [OF a inputs m p(2), of plot] build_paths [OF bid(1)] bid(3)
    by (simp add: validate_sidecars_def io_run sidecars_of_def)
qed

lemma create_sidecars_quiet:
  assumes quiet: "faults w = []" and a: "artifact_of S f bid a" and inputs: "inputs \<noteq> []"
    and m: "build_sidecar (gs_dtype_text S) (gs_sha256 S) (gs_builder S) f bid started completed
      (bundle_file bid ''data.parquet'') (gs_sha256 S (gs_parquet S f)) (bundle_file bid ''feature_profile.png'') inputs = Inr m"
    and safe: "json_safe (DDict (manifest_dict m))" and reader: "json_reader (gs_loads S)"
    and png: "gs_renderer S f = Inr plot" "is_png plot"
    and data: "file_at (build_dir (gs_root S) bid @ [''data.parquet'']) w = Some (Parquet f)"
    and fresh: "\<not> path_exists (build_dir (gs_root S) bid @ [''manifest.json'']) w"
      "\<not> path_exists (build_dir (gs_root S) bid @ [''feature_profile.png'']) w"
  shows "\<exists>w'. create_sidecars S a started completed inputs w = (Inr (sidecars_of S bid m plot), w')
    \<and> validate_sidecars S a (sidecars_of S bid m plot) w' = (Inr (), w') \<and> faults w' = []
    \<and> file_at (build_dir (gs_root S) bid @ [''data.parquet'']) w' = Some (Parquet f)"
proof -
  let ?d = "build_dir (gs_root S) bid"
  have bid: "is_build_id bid" "validate_build_id bid = Inr ()" "art_build_id a = bid"
    using a by (simp_all add: artifact_of_def validate_build_id_def)
  have frame: "validated_frame S a w = (Inr f, w)"
    using a by (intro validated_frame_quiet [OF quiet bid(1,2) data]) (simp_all add: artifact_of_def)
  obtain w1 where w1: "create_bytes (?d @ [''feature_profile.png'']) plot w = (Inr (), w1)" "faults w1 = []"
    "files w1 = AList.update (?d @ [''feature_profile.png'']) (Bytes plot) (files w)"
    "\<forall>q. length (?d @ [''feature_profile.png'']) \<le> length q \<longrightarrow> q \<in> set (dirs w1) \<longrightarrow> q \<in> set (dirs w)"
    using create_bytes_quiet [OF quiet fresh(2)] by blast
  have "\<not> path_exists (?d @ [''manifest.json'']) w1"
    using fresh(1) w1(3,4) by (auto simp: path_exists_def is_file_def file_at_def update_conv')
  then obtain w2 where w2: "create_bytes (?d @ [''manifest.json'']) (manifest_text m) w1 = (Inr (), w2)" "faults w2 = []"
    "files w2 = AList.update (?d @ [''manifest.json'']) (Bytes (manifest_text m)) (files w1)"
    using create_bytes_quiet [OF w1(2)] by blast
  have at: "file_at (?d @ [''data.parquet'']) w2 = Some (Parquet f)"
    "file_at (?d @ [''manifest.json'']) w2 = Some (Bytes (manifest_text m))"
    "file_at (?d @ [''feature_profile.png'']) w2 = Some (Bytes plot)"
    using data w1(3) w2(3) by (simp_all add: file_at_def update_conv')
  note ok = validate_sidecars_quiet [OF w2(2) a inputs m safe reader png(2) at]
  have "sidecar_relative S (?d @ [name]) = Inr (bundle_file bid name)" for name
    by (simp add: sidecar_relative_def relative_bundle_file)
  moreover have "art_data_path a = ?d @ [''data.parquet'']" "art_data_sha256 a = gs_sha256 S (gs_parquet S f)"
    using a by (simp_all add: artifact_of_def)
  ultimately have "create_sidecars S a started completed inputs w = (Inr (sidecars_of S bid m plot), w2)"
    using frame inputs fresh png m w1(1,2) w2(1,2) quiet ok [unfolded sidecars_of_def] build_paths [OF bid(1)] bid(3)
    by (simp add: create_sidecars_def io_run fault_point_quiet sidecars_of_def Let_def)
  then show ?thesis
    using ok w2(2) at(1) by blast
qed

lemma check_candidate_ok:
  assumes a: "artifact_of S f bid a" and inputs: "inputs \<noteq> []"
    and m: "build_sidecar (gs_dtype_text S) (gs_sha256 S) (gs_builder S) f bid started completed
      (bundle_file bid ''data.parquet'') (gs_sha256 S (gs_parquet S f)) (bundle_file bid ''feature_profile.png'') inputs = Inr m"
  shows "check_candidate S a (sidecars_of S bid m plot) inputs = Inr ()"
proof -
  have bid: "is_build_id bid"
    using a by (simp add: artifact_of_def validate_build_id_def)
  have "gold_build_root (gs_root S) bid = Inr (build_dir (gs_root S) bid)"
    using bid by (simp add: build_dir_Inr)
  then show ?thesis
    using a build_paths [OF bid] build_sidecar_Inr [OF m inputs] inputs
    by (simp add: check_candidate_def Let_def artifact_of_def sidecars_of_def bundle_relative_def relative_bundle_file
        provenance_certified_def parent_def)
qed

text \<open>When no call fails and the build is new, the adapter returns.\<close>

lemma create_and_validate_quiet:
  assumes w: "faults w = []" "files w = []" "\<forall>p. length (gs_root S) \<le> length p \<longrightarrow> p \<notin> set (dirs w)"
    and f: "validate_gold_frame (gs_polars S) f = Inr ()" "validate_build_id bid = Inr ()"
      "gold_bound ''Gold min timestamp must be datetime'' (cells_min (column_cells f ''timestamp_m1'')) = Inr mn"
      "gold_bound ''Gold max timestamp must be datetime'' (cells_max (column_cells f ''timestamp_m1'')) = Inr mx"
    and inputs: "inputs \<noteq> []"
    and m: "build_sidecar (gs_dtype_text S) (gs_sha256 S) (gs_builder S) f bid started (Aware t 0)
      (bundle_file bid ''data.parquet'') (gs_sha256 S (gs_parquet S f)) (bundle_file bid ''feature_profile.png'') inputs = Inr m"
    and safe: "json_safe (DDict (manifest_dict m))" and reader: "json_reader (gs_loads S)"
    and png: "gs_renderer S f = Inr plot" "is_png plot"
  shows "\<exists>c w'. create_and_validate S (ret (Aware t 0)) f bid started inputs w = (Inr c, w')"
proof -
  let ?d = "build_dir (gs_root S) bid"
  have new: "?d @ q \<notin> set (dirs w)" "file_at p w = None" for p q
    using w(2,3) by (simp_all add: file_at_def build_dir_def gold_dataset_root_def)
  obtain a w1 where w1: "create_build (gs_polars S) (gs_parquet S) (gs_sha256 S) (gs_root S) (ret (Aware t 0)) f (Some bid) w = (Inr a, w1)"
      "faults w1 = []" "files w1 = [(?d @ [''data.parquet''], Parquet f)]"
      "\<forall>p. length ?d < length p \<longrightarrow> p \<in> set (dirs w1) \<longrightarrow> p \<in> set (dirs w)"
    using create_build_quiet [OF w(1) new(1) [of "[]", simplified] new(2) f,
      of "gs_parquet S" "gs_sha256 S" "ret (Aware t 0)"] w(2) by auto
  have a: "artifact_of S f bid a"
    using build_create_atomic [OF w1(1)] by (auto intro: artifact_of_made)
  have dirs: "?d @ [x] \<notin> set (dirs w1)" for x
    using w1(4) new(1) [of "[x]"] by (metis length_append_singleton lessI)
  have "\<not> path_exists (?d @ [''manifest.json'']) w1" "\<not> path_exists (?d @ [''feature_profile.png'']) w1"
    using w1(3) dirs by (auto simp: path_exists_def is_file_def file_at_def)
  moreover have data: "file_at (?d @ [''data.parquet'']) w1 = Some (Parquet f)"
    by (simp add: file_at_def w1(3))
  ultimately obtain w2 where w2: "create_sidecars S a started (Aware t 0) inputs w1 = (Inr (sidecars_of S bid m plot), w2)"
      "validate_sidecars S a (sidecars_of S bid m plot) w2 = (Inr (), w2)" "faults w2 = []"
      "file_at (?d @ [''data.parquet'']) w2 = Some (Parquet f)"
    using create_sidecars_quiet [OF w1(2) a inputs m safe reader png] by blast
  have bid: "is_build_id bid" "art_build_id a = bid" "art_data_path a = ?d @ [''data.parquet'']"
    using a by (simp_all add: artifact_of_def validate_build_id_def)
  have "read_build (gs_polars S) (gs_root S) bid w2 = (Inr f, w2)"
    using f(2) build_paths(1) [OF bid(1)] read_gold_path_quiet [OF w2(3,4) f(1)] by (simp add: read_build_def io_run)
  then have "validate_candidate S a (sidecars_of S bid m plot) inputs w2 = (Inr (), w2)"
    using check_candidate_ok [OF a inputs m] w2(2) bid(2) by (simp add: validate_candidate_def io_run)
  moreover obtain c where "bundle_of S a (sidecars_of S bid m plot) (Aware t 0) = Inr c"
    using bid(3) by (simp add: bundle_of_def bundle_relative_def sidecars_of_def relative_bundle_file)
  ultimately show ?thesis
    using w1(1) w2(1,3) inputs by (simp add: create_and_validate_def bundle_utc_def io_run fault_point_quiet)
qed

section \<open>A first bundle\<close>

definition demo_store :: gold_store where
  "demo_store = \<lparr>gs_polars = reference_polars, gs_parquet = \<lambda>_. [], gs_sha256 = \<lambda>_. replicate 64 (CHR ''0''),
    gs_dtype_text = \<lambda>_. ''Float64'', gs_loads = reference_loads, gs_renderer = \<lambda>_. Inr PNG_SIGNATURE,
    gs_root = [''lake''], gs_builder = \<lparr>sb_git_commit_hash = TEST_GIT_FALLBACK, sb_formula_parameters = GOLD_FORMULA_PARAMETERS\<rparr>\<rparr>"

definition demo_inputs :: "silver_input_signature list" where
  "demo_inputs = map (\<lambda>s. \<lparr>sig_series_id = s, sig_row_count = 1, sig_min_observation_date = Some 719163,
    sig_max_observation_date = Some 719163, sig_sha256 = replicate 64 (CHR ''0'')\<rparr>) GOLD_SOURCE_SERIES"

definition demo_iso_date :: "string \<Rightarrow> int option" where
  "demo_iso_date s = (if s = date_iso 719163 then Some 719163 else None)"

lemma demo_digest: "is_sha256_hex (gs_sha256 demo_store bs)"
  by (simp add: demo_store_def is_sha256_hex_def list_all_replicate)

lemma demo_inputs_ok: "demo_inputs \<noteq> []" "validate_inputs demo_inputs = Inr ()"
  "\<And>s. s \<in> set demo_inputs \<Longrightarrow> readable_signature demo_iso_date s"
proof -
  show "demo_inputs \<noteq> []"
    using registry_ids by (auto simp: demo_inputs_def GOLD_SOURCE_SERIES_def series_registry_eq)
  have "check_signature s = Inr ()" if "s \<in> set demo_inputs" for s
    using that by (auto simp: demo_inputs_def check_signature_def is_sha256_hex_def list_all_replicate)
  then show "validate_inputs demo_inputs = Inr ()"
    by (simp add: validate_inputs_def rfor_Inr demo_inputs_def comp_def)
  show "\<And>s. s \<in> set demo_inputs \<Longrightarrow> readable_signature demo_iso_date s"
    by (auto simp: demo_inputs_def readable_signature_def demo_iso_date_def)
qed

lemma demo_builder: "GoldSidecarBuilder None True GOLD_FORMULA_PARAMETERS = Inr (gs_builder demo_store)"
  by (simp add: GoldSidecarBuilder_def demo_store_def is_git_hash_def TEST_GIT_FALLBACK_def list_all_replicate)

lemma demo_bundle:
  "\<exists>c w'. create_and_validate demo_store (ret (Aware 0 0)) empty_gold demo_build_id (Aware 0 0) demo_inputs empty_lake = (Inr c, w')"
proof -
  have columns: "column_cells empty_gold x = []" for x
    by (simp add: column_cells_def empty_gold_def)
  have "f_columns empty_gold = GOLD_COLUMNS"
    by (simp add: empty_gold_def f_columns_def gold_schema_def comp_def flip: gold_columns_tl)
  then obtain m where m: "build_sidecar (gs_dtype_text demo_store) (gs_sha256 demo_store) (gs_builder demo_store) empty_gold demo_build_id
      (Aware 0 0) (Aware 0 0) (bundle_file demo_build_id ''data.parquet'')
      (gs_sha256 demo_store (gs_parquet demo_store empty_gold)) (bundle_file demo_build_id ''feature_profile.png'') demo_inputs = Inr m"
    by (simp add: build_sidecar_def sidecar_utc_text_def sidecar_bound_def columns demo_inputs_ok)
  note manifest = build_sidecar_Inr [OF m demo_inputs_ok(1)]
  have "json_safe (DDict (manifest_dict m))"
    by (rule manifest_safe) (auto simp: manifest CURRENT_MANIFEST_VERSION_def GOLD_SCHEMA_VERSION_def GOLD_FEATURE_VERSION_def
        demo_inputs_def f_height_def empty_gold_def)
  moreover have "json_reader (gs_loads demo_store)"
    using reference_reader.json_reader_axioms by (simp add: demo_store_def)
  moreover have "is_png PNG_SIGNATURE"
    unfolding is_png_def by (rule take_all) simp
  ultimately show ?thesis
    using empty_gold_valid demo_build_id_valid demo_inputs_ok(1)
    by (intro create_and_validate_quiet [OF _ _ _ _ _ _ _ _ m])
      (simp_all add: empty_lake_def demo_store_def columns gold_bound_def)
qed


end
