(* ===== verification/Feature_Catalog.thy ===== *)
theory Feature_Catalog
  imports Gold_Sidecars
begin

text \<open>
  \<open>src/application/macro_feature_catalog.py\<close>: the closed list of the derived feature columns of the serving views, its
  validation and its fingerprint, and the column contracts of \<open>momentum_features.py\<close>, \<open>return_features.py\<close> and
  \<open>trend_features.py\<close>.  The features themselves are computed by SQL views.
\<close>

section \<open>Windows\<close>

definition LOG_RETURN_WINDOWS :: "int list" where
  "LOG_RETURN_WINDOWS = [1, 2, 3, 4, 5, 8, 10, 20]"

definition RETURN_MEAN_WINDOWS :: "int list" where
  "RETURN_MEAN_WINDOWS = [5, 10, 20]"

definition VOLATILITY_WINDOWS :: "int list" where
  "VOLATILITY_WINDOWS = [5, 8, 10, 20, 32, 40, 96]"

definition RETURN_AUTOCORRELATION_LAG_WINDOWS :: "(int \<times> int) list" where
  "RETURN_AUTOCORRELATION_LAG_WINDOWS = [(1, 96), (4, 96), (8, 192)]"

definition VOLATILITY_ZSCORE_WINDOW :: int where
  "VOLATILITY_ZSCORE_WINDOW = 96"

definition LEVEL_ZSCORE_WINDOW :: int where
  "LEVEL_ZSCORE_WINDOW = 96"

definition SMA_RATIO_WINDOWS :: "(int \<times> int) list" where
  "SMA_RATIO_WINDOWS = [(5, 15), (5, 20), (10, 20), (10, 40)]"

definition RSI_WINDOWS :: "int list" where
  "RSI_WINDOWS = [3, 5, 7, 14]"

definition RSI_COMPOSITE_INTERNAL_WINDOW :: int where
  "RSI_COMPOSITE_INTERNAL_WINDOW = 15"

definition ROC_WINDOWS :: "int list" where
  "ROC_WINDOWS = [1, 2, 3, 4, 5, 8, 10, 20]"

definition DRAWDOWN_WINDOWS :: "int list" where
  "DRAWDOWN_WINDOWS = [20, 32, 60, 96]"

definition EMA_OUTPUT_SUFFIXES :: "string list" where
  "EMA_OUTPUT_SUFFIXES = [''ema5_distance'', ''ema9_distance'', ''ema21_distance'', ''ema5_ema21_spread'',
    ''ema9_slope_3'', ''ema5_ema9_cross'']"

definition MACD_OUTPUT_SUFFIXES :: "string list" where
  "MACD_OUTPUT_SUFFIXES = [''macd_line_relative'', ''macd_hist_relative'', ''macd_hist_delta_3'']"

section \<open>Column contracts\<close>

definition each_series :: "string list \<Rightarrow> 'b list \<Rightarrow> (string \<Rightarrow> 'b \<Rightarrow> string) \<Rightarrow> string list" where
  "each_series series xs name = concat (map (\<lambda>s. map (name s) xs) series)"

text \<open>\<open>f"{window}obs"\<close>\<close>

definition obs_text :: "int \<Rightarrow> string" where
  "obs_text n = string_of_int n @ ''obs''"

definition validate_return_windows :: "int list \<Rightarrow> unit result" where
  "validate_return_windows ws = raise_if (list_ex (\<lambda>n. n < 1) ws) ValueError ''return windows must be positive''"

definition return_feature_columns :: "string list \<Rightarrow> int list \<Rightarrow> string list result" where
  "return_feature_columns series ws = rbind (validate_return_windows ws) (\<lambda>_.
    Inr (each_series series ws (\<lambda>s n. s @ ''_return_geom_'' @ obs_text n @ ''_pct'')))"

definition log_return_feature_columns :: "string list \<Rightarrow> int list \<Rightarrow> string list result" where
  "log_return_feature_columns series ws = rbind (validate_return_windows ws) (\<lambda>_.
    Inr (each_series series ws (\<lambda>s n. s @ ''_log_return_'' @ obs_text n)))"

definition return_mean_feature_columns :: "string list \<Rightarrow> int list \<Rightarrow> string list result" where
  "return_mean_feature_columns series ws = rbind (validate_return_windows ws) (\<lambda>_.
    Inr (each_series series ws (\<lambda>s n. s @ ''_return_mean_'' @ obs_text n)))"

definition volatility_feature_columns :: "string list \<Rightarrow> int list \<Rightarrow> string list result" where
  "volatility_feature_columns series ws = rbind (validate_return_windows ws) (\<lambda>_.
    Inr (each_series series ws (\<lambda>s n. s @ ''_volatility_'' @ obs_text n)))"

definition validate_trend_windows :: "int list \<Rightarrow> unit result" where
  "validate_trend_windows ws = raise_if (list_ex (\<lambda>n. n < 1) ws) ValueError ''trend windows must be positive''"

definition sma_ratio_feature_columns :: "string list \<Rightarrow> (int \<times> int) list \<Rightarrow> string list result" where
  "sma_ratio_feature_columns series ws =
    rbind (raise_if (list_ex (\<lambda>(short, long). short < 1 \<or> long < 1 \<or> short > long) ws) ValueError
      ''SMA ratio windows must be positive and ordered'') (\<lambda>_.
    Inr (each_series series ws (\<lambda>s (short, long). s @ ''_sma_ratio_'' @ string_of_int short @ ''_'' @ string_of_int long)))"

definition rsi_feature_columns :: "string list \<Rightarrow> int list \<Rightarrow> string list result" where
  "rsi_feature_columns series ws = rbind (validate_trend_windows ws) (\<lambda>_.
    Inr (each_series series ws (\<lambda>s n. s @ ''_rsi_'' @ obs_text n)))"

definition roc_feature_columns :: "string list \<Rightarrow> int list \<Rightarrow> string list result" where
  "roc_feature_columns series ws = rbind (validate_trend_windows ws) (\<lambda>_.
    Inr (each_series series ws (\<lambda>s n. s @ ''_roc_'' @ obs_text n)))"

definition drawdown_feature_columns :: "string list \<Rightarrow> int list \<Rightarrow> string list result" where
  "drawdown_feature_columns series ws = rbind (validate_trend_windows ws) (\<lambda>_.
    Inr (each_series series ws (\<lambda>s n. s @ ''_drawdown_'' @ obs_text n)))"

definition ema_feature_columns :: "string list \<Rightarrow> string list" where
  "ema_feature_columns series = each_series series EMA_OUTPUT_SUFFIXES (\<lambda>s x. s @ ''_'' @ x)"

definition macd_feature_columns :: "string list \<Rightarrow> string list" where
  "macd_feature_columns series = each_series series MACD_OUTPUT_SUFFIXES (\<lambda>s x. s @ ''_'' @ x)"

definition momentum_feature_columns :: "string list \<Rightarrow> momentum_policy \<Rightarrow> string list" where
  "momentum_feature_columns series policy = each_series series (lag_windows policy)
    (\<lambda>s (lag, n). s @ ''_momentum_autocorr_'' @ string_of_int lag @ ''_'' @ obs_text n)"

section \<open>Series\<close>

definition VOLATILITY_SERIES :: "string list" where
  "VOLATILITY_SERIES = [''vix'', ''vix9d'', ''vix3m'', ''vix6m'', ''vix1y'', ''vstoxx'', ''move'']"

definition MACRO_SERIES :: "string list" where
  "MACRO_SERIES = [''ciss'', ''euro_hy_oas'', ''us_2y'', ''us_10y'', ''estr'', ''usd_broad'']"

definition RAW_SERIES :: "string list" where
  "RAW_SERIES = VOLATILITY_SERIES @ MACRO_SERIES"

definition REGISTERED_RAW_SERIES :: "string list" where
  "REGISTERED_RAW_SERIES = map fst SERIES_REGISTRY"

definition SIGNED_LEVEL_SERIES :: "string list" where
  "SIGNED_LEVEL_SERIES = [''estr'']"

definition PRICE_FEATURE_SERIES :: "string list" where
  "PRICE_FEATURE_SERIES = filter (\<lambda>s. s \<notin> set SIGNED_LEVEL_SERIES) RAW_SERIES"

definition EXTENDED_RAW_SERIES :: "string list" where
  "EXTENDED_RAW_SERIES = filter (\<lambda>s. s \<notin> set RAW_SERIES) REGISTERED_RAW_SERIES"

definition EXTENDED_PRICE_FEATURE_SERIES :: "string list" where
  "EXTENDED_PRICE_FEATURE_SERIES = filter (\<lambda>s. s \<notin> set SIGNED_LEVEL_SERIES) EXTENDED_RAW_SERIES"

definition RAW_COLUMNS :: "string list" where
  "RAW_COLUMNS = map (\<lambda>s. s @ ''_log_level'') PRICE_FEATURE_SERIES"

definition PRICE_FEATURE_FAMILIES :: "string list" where
  "PRICE_FEATURE_FAMILIES = [''raw_log'', ''log_return'', ''geometric_return'', ''return_mean'', ''volatility'', ''sma_ratio'',
    ''wilder_rsi'', ''roc'', ''drawdown'', ''ema_trend'', ''macd'', ''rsi_composite'', ''roc_acceleration'', ''price_zscore'',
    ''return_autocorrelation'']"

definition OHLC_BAR_FEATURE_FAMILIES :: "string list" where
  "OHLC_BAR_FEATURE_FAMILIES = [''high_low_range'', ''intraday_return'', ''overnight_gap'']"

definition OHLC_STOCHASTIC_SUFFIXES :: "string list" where
  "OHLC_STOCHASTIC_SUFFIXES = [''stoch_k_5'', ''stoch_d_5_3'', ''stoch_k_14'', ''stoch_d_14_3'', ''stoch_kd_spread_5'',
    ''stoch_k_slope_3'']"

definition OHLC_DONCHIAN_SUFFIXES :: "string list" where
  "OHLC_DONCHIAN_SUFFIXES = [''donchian_breakout_up'', ''donchian_breakout_down'']"

definition OHLC_BAR_WINDOWS :: "int list" where
  "OHLC_BAR_WINDOWS = [1, 5]"

section \<open>The catalog\<close>

record feature_spec =
  spec_name :: string
  spec_family :: string
  spec_series :: "string option"
  spec_formula :: string
  spec_postgres_type :: string

text \<open>\<open>MacroFeatureSpec(name, family, series, formula)\<close>\<close>

definition MacroFeatureSpec :: "string \<Rightarrow> string \<Rightarrow> string option \<Rightarrow> string \<Rightarrow> feature_spec" where
  "MacroFeatureSpec name family series formula = \<lparr>spec_name = name, spec_family = family, spec_series = series,
    spec_formula = formula, spec_postgres_type = ''double precision''\<rparr>"

text \<open>\<open>{...}[suffix]\<close>; the tables have an entry for every suffix they are used with.\<close>

definition formula_of :: "(string \<times> string) list \<Rightarrow> string \<Rightarrow> string" where
  "formula_of table k = (case map_of table k of None \<Rightarrow> [] | Some v \<Rightarrow> v)"

definition ohlc_of :: "string list \<Rightarrow> bool \<Rightarrow> string list" where
  "ohlc_of raw include_ohlc = (if include_ohlc then filter (\<lambda>s. s \<in> set raw) OHLC_SERIES else [])"

definition raw_log_spec :: "string \<Rightarrow> feature_spec" where
  "raw_log_spec s = MacroFeatureSpec (s @ ''_log_level'') ''raw_log'' (Some s) ''ln(source level) when source level is positive''"

definition raw_ohlc_specs :: "string \<Rightarrow> feature_spec list" where
  "raw_ohlc_specs s = map (\<lambda>field. MacroFeatureSpec (s @ ''_'' @ field) ''raw_ohlc'' (Some s)
    (''source '' @ field @ '' passthrough from native OHLC observation'')) OHLC_FIELDS"

definition bar_formulas :: "(string \<times> string) list" where
  "bar_formulas =
    [(''high_low_range'', ''mean((high-low)/close) over valid OHLC metrics''),
     (''intraday_return'', ''mean((close-open)/open) over valid OHLC metrics''),
     (''overnight_gap'', ''mean((open[t]-most recent prior finite close)/'' @
       ''most recent prior finite close) over valid open-close pairs'')]"

definition stochastic_formulas :: "(string \<times> string) list" where
  "stochastic_formulas =
    [(''stoch_k_5'', ''100*(close-min(low,5))/(max(high,5)-min(low,5))''),
     (''stoch_d_5_3'', ''mean(stoch_k_5 over three consecutive source observations)''),
     (''stoch_k_14'', ''100*(close-min(low,14))/(max(high,14)-min(low,14))''),
     (''stoch_d_14_3'', ''mean(stoch_k_14 over three consecutive source observations)''),
     (''stoch_kd_spread_5'', ''stoch_k_5-stoch_d_5_3''),
     (''stoch_k_slope_3'', ''(stoch_k_5(t)-stoch_k_5(t-3 source rows))/3'')]"

definition donchian_spec :: "string \<Rightarrow> string \<Rightarrow> feature_spec" where
  "donchian_spec s suffix = (MacroFeatureSpec (s @ ''_'' @ suffix) ''donchian'' (Some s)
    (if drop (length suffix - 2) suffix = ''up'' then ''current high strictly exceeds prior 20 valid source highs''
     else ''current low is strictly below prior 20 valid source lows''))\<lparr>spec_postgres_type := ''boolean''\<rparr>"

definition ohlc_specs :: "string \<Rightarrow> feature_spec list" where
  "ohlc_specs s =
    concat (map (\<lambda>(family, formula). map (\<lambda>n. MacroFeatureSpec (s @ ''_'' @ family @ ''_'' @ obs_text n) family (Some s) formula)
      OHLC_BAR_WINDOWS) bar_formulas)
    @ map (\<lambda>x. MacroFeatureSpec (s @ ''_'' @ x) ''stochastic'' (Some s) (formula_of stochastic_formulas x)) OHLC_STOCHASTIC_SUFFIXES
    @ map (donchian_spec s) OHLC_DONCHIAN_SUFFIXES"

definition delta_spec :: "string \<Rightarrow> int \<Rightarrow> feature_spec" where
  "delta_spec s lag = MacroFeatureSpec (s @ ''_delta_'' @ obs_text lag) ''delta'' (Some s)
    (''level(t)-level(t-'' @ string_of_int lag @ '' valid observations)'')"

definition volatility_specs :: "string \<Rightarrow> feature_spec list" where
  "volatility_specs s = map (delta_spec s) [1, 5, 20]
    @ [MacroFeatureSpec (s @ ''_zscore_60obs'') ''zscore'' (Some s) ''population z-score over 60 valid observations'']"

definition cross_specs :: "feature_spec list" where
  "cross_specs =
    [MacroFeatureSpec ''vix9d_vix_ratio'' ''term_structure'' None ''vix9d/vix'',
     MacroFeatureSpec ''vix_vix3m_ratio'' ''term_structure'' None ''vix/vix3m'',
     MacroFeatureSpec ''vix9d_vix3m_log_ratio'' ''term_structure'' None ''ln(vix9d/vix3m)'',
     MacroFeatureSpec ''vix3m_minus_vix'' ''term_structure'' None ''vix3m-vix'',
     MacroFeatureSpec ''vix6m_minus_vix'' ''term_structure'' None ''vix6m-vix'',
     MacroFeatureSpec ''vix1y_minus_vix'' ''term_structure'' None ''vix1y-vix'',
     MacroFeatureSpec ''us_10y_minus_us_2y'' ''cross_series'' None ''us_10y-us_2y'']"

definition ema_formulas :: "(string \<times> string) list" where
  "ema_formulas =
    [(''ema5_distance'', ''level/EMA(5)-1 over positive source observations''),
     (''ema9_distance'', ''level/EMA(9)-1 over positive source observations''),
     (''ema21_distance'', ''level/EMA(21)-1 over positive source observations''),
     (''ema5_ema21_spread'', ''(EMA(5)-EMA(21))/level''),
     (''ema9_slope_3'', ''(EMA(9)(t)-EMA(9)(t-3 source rows))/(3*level)''),
     (''ema5_ema9_cross'', ''1/-1 for upward/downward EMA(5)/EMA(9) crossing over source rows, else 0'')]"

definition macd_formulas :: "(string \<times> string) list" where
  "macd_formulas =
    [(''macd_line_relative'', ''(EMA(12)-EMA(26))/positive level; EMAs use source observations''),
     (''macd_hist_relative'', ''(EMA(12)-EMA(26)-EMA(9 signal))/positive level; '' @ ''EMAs use source observations''),
     (''macd_hist_delta_3'', ''relative MACD histogram(t)-histogram(t-3 source rows)'')]"

definition momentum_spec :: "string \<Rightarrow> int \<times> int \<Rightarrow> feature_spec" where
  "momentum_spec s = (\<lambda>(lag, n). MacroFeatureSpec (s @ ''_momentum_autocorr_'' @ string_of_int lag @ ''_'' @ obs_text n)
    ''momentum_autocorrelation'' (Some s)
    (''positive autocorrelation of one-observation changes, lag='' @ string_of_int lag @ '', window='' @ string_of_int n))"

definition composite_specs :: "string \<Rightarrow> feature_spec list" where
  "composite_specs s =
    [MacroFeatureSpec (s @ ''_rsi_ratio_5_15'') ''rsi_composite'' (Some s)
       (''Wilder RSI(5)/Wilder RSI(15); RSI(15) internal only; null for undefined '' @ ''or zero denominator''),
     MacroFeatureSpec (s @ ''_rsi5_slope_3'') ''rsi_composite'' (Some s)
       ''(Wilder RSI(5)(t)-Wilder RSI(5)(t-3 valid observations))/3'',
     MacroFeatureSpec (s @ ''_rsi5_delta_1'') ''rsi_composite'' (Some s)
       ''Wilder RSI(5)(t)-Wilder RSI(5)(t-1 valid observation)'',
     MacroFeatureSpec (s @ ''_roc_acceleration_4_8'') ''roc_acceleration'' (Some s)
       ''ROC(4)-ROC(8), where ROC(n)=level(t)/level(t-n)-1'',
     MacroFeatureSpec (s @ ''_volatility_zscore_'' @ string_of_int VOLATILITY_ZSCORE_WINDOW) ''price_zscore'' (Some s)
       (''sample z-score of volatility(8) over trailing 96 valid volatility '' @ ''observations''),
     MacroFeatureSpec (s @ ''_level_zscore_'' @ string_of_int LEVEL_ZSCORE_WINDOW) ''price_zscore'' (Some s)
       (''(positive level-trailing mean)/trailing sample standard deviation over '' @ ''96 valid levels'')]"

definition price_specs :: "string \<Rightarrow> feature_spec list" where
  "price_specs s =
    map (\<lambda>(short, long). MacroFeatureSpec (s @ ''_sma_ratio_'' @ string_of_int short @ ''_'' @ string_of_int long) ''sma_ratio'' (Some s)
      (''sma(level,'' @ string_of_int short @ '')/sma(level,'' @ string_of_int long @ '')'')) SMA_RATIO_WINDOWS
    @ map (\<lambda>n. MacroFeatureSpec (s @ ''_rsi_'' @ obs_text n) ''wilder_rsi'' (Some s)
      (''Wilder RSI over '' @ string_of_int n @ '' observations'')) RSI_WINDOWS
    @ map (\<lambda>n. MacroFeatureSpec (s @ ''_roc_'' @ obs_text n) ''roc'' (Some s)
      (''level(t)/level(t-'' @ string_of_int n @ '' valid observations)-1'')) ROC_WINDOWS
    @ map (\<lambda>n. MacroFeatureSpec (s @ ''_drawdown_'' @ obs_text n) ''drawdown'' (Some s)
      (''level(t)/rolling_max(level,'' @ string_of_int n @ '')-1'')) DRAWDOWN_WINDOWS
    @ map (\<lambda>x. MacroFeatureSpec (s @ ''_'' @ x) ''ema_trend'' (Some s) (formula_of ema_formulas x)) EMA_OUTPUT_SUFFIXES
    @ map (\<lambda>x. MacroFeatureSpec (s @ ''_'' @ x) ''macd'' (Some s) (formula_of macd_formulas x)) MACD_OUTPUT_SUFFIXES
    @ map (\<lambda>n. MacroFeatureSpec (s @ ''_log_return_'' @ obs_text n) ''log_return'' (Some s)
      (''ln(level(t)/level(t-'' @ string_of_int n @ '' valid observations))'')) LOG_RETURN_WINDOWS
    @ map (\<lambda>n. MacroFeatureSpec (s @ ''_return_mean_'' @ obs_text n) ''return_mean'' (Some s)
      (''mean of one-observation log returns over '' @ string_of_int n @ '' valid observations'')) RETURN_MEAN_WINDOWS
    @ map (\<lambda>n. MacroFeatureSpec (s @ ''_volatility_'' @ obs_text n) ''volatility'' (Some s)
      (''sample standard deviation of one-observation log returns over '' @ string_of_int n @ '' valid observations''))
      VOLATILITY_WINDOWS
    @ map (momentum_spec s) (lag_windows MOMENTUM_POLICY)
    @ composite_specs s
    @ map (\<lambda>(lag, n). MacroFeatureSpec (s @ ''_momentum_autocorr_lag'' @ string_of_int lag @ ''_window'' @ string_of_int n)
      ''return_autocorrelation'' (Some s)
      (''signed Pearson correlation of 1-observation log returns at lag '' @ string_of_int lag @ '' '' @ ''over ''
        @ string_of_int n @ '' complete valid pairs; lag is measured before pair filtering'')) RETURN_AUTOCORRELATION_LAG_WINDOWS"

definition geometric_specs :: "string \<Rightarrow> feature_spec list" where
  "geometric_specs s = map (\<lambda>n. MacroFeatureSpec (s @ ''_return_geom_'' @ obs_text n @ ''_pct'') ''geometric_return'' (Some s)
    (''exp(sum of one-observation log returns over '' @ string_of_int n @ '' valid observations)-1; decimal fraction'')) RETURN_WINDOWS"

definition source_specs :: "string list \<Rightarrow> string list \<Rightarrow> bool \<Rightarrow> bool \<Rightarrow> feature_spec list" where
  "source_specs raw price include_ohlc include_cross_series =
    map raw_log_spec price
    @ concat (map raw_ohlc_specs (ohlc_of raw include_ohlc))
    @ concat (map ohlc_specs (ohlc_of raw include_ohlc))
    @ concat (map volatility_specs (filter (\<lambda>s. s \<in> set raw) VOLATILITY_SERIES))
    @ concat (map (\<lambda>(s, lags). map (delta_spec s) lags) (filter (\<lambda>(s, _). s \<in> set raw) (macro_delta_lags MACRO_POLICY)))
    @ (if include_cross_series then cross_specs else [])
    @ concat (map price_specs price)
    @ concat (map geometric_specs price)
    @ concat (map (\<lambda>s. map (momentum_spec s) (lag_windows MOMENTUM_POLICY)) (filter (\<lambda>s. s \<in> set raw) SIGNED_LEVEL_SERIES))"

definition FEATURE_CATALOG :: "feature_spec list" where
  "FEATURE_CATALOG = source_specs RAW_SERIES PRICE_FEATURE_SERIES True True"

definition EXTENDED_FEATURE_CATALOG :: "feature_spec list" where
  "EXTENDED_FEATURE_CATALOG = source_specs EXTENDED_RAW_SERIES EXTENDED_PRICE_FEATURE_SERIES False False"

definition FEATURE_COLUMNS :: "string list" where
  "FEATURE_COLUMNS = ''timestamp_m1'' # map spec_name FEATURE_CATALOG"

definition EXTENDED_FEATURE_COLUMNS :: "string list" where
  "EXTENDED_FEATURE_COLUMNS = ''timestamp_m1'' # map spec_name EXTENDED_FEATURE_CATALOG"

definition is_value_spec :: "feature_spec \<Rightarrow> bool" where
  "is_value_spec x \<longleftrightarrow> spec_family x \<noteq> ''raw_ohlc''"

definition FEATURE_VALUE_CATALOG :: "feature_spec list" where
  "FEATURE_VALUE_CATALOG = filter is_value_spec (FEATURE_CATALOG @ EXTENDED_FEATURE_CATALOG)"

definition FEATURE_VALUE_NAMES :: "string list" where
  "FEATURE_VALUE_NAMES = map spec_name FEATURE_VALUE_CATALOG"

definition FEATURE_VALUE_PRIMARY_NAMES :: "string list" where
  "FEATURE_VALUE_PRIMARY_NAMES = map spec_name (filter is_value_spec FEATURE_CATALOG)"

definition FEATURE_VALUE_EXTENDED_NAMES :: "string list" where
  "FEATURE_VALUE_EXTENDED_NAMES = map spec_name (filter is_value_spec EXTENDED_FEATURE_CATALOG)"

text \<open>The types of the columns; a later entry of the comprehension replaces an earlier one.\<close>

definition postgres_types :: "feature_spec list \<Rightarrow> string \<rightharpoonup> string" where
  "postgres_types catalog = map_of (rev (map (\<lambda>x. (spec_name x, spec_postgres_type x)) catalog))"

definition FEATURE_POSTGRES_TYPES :: "string \<rightharpoonup> string" where
  "FEATURE_POSTGRES_TYPES = postgres_types FEATURE_CATALOG"

definition EXTENDED_FEATURE_POSTGRES_TYPES :: "string \<rightharpoonup> string" where
  "EXTENDED_FEATURE_POSTGRES_TYPES = postgres_types EXTENDED_FEATURE_CATALOG"

section \<open>Validation\<close>

definition of_family :: "string \<Rightarrow> feature_spec list \<Rightarrow> feature_spec list" where
  "of_family family catalog = filter (\<lambda>x. spec_family x = family) catalog"

text \<open>\<open>{spec.series for spec in ...}\<close> is the set of these series.\<close>

definition series_are :: "feature_spec list \<Rightarrow> string list \<Rightarrow> bool" where
  "series_are specs series \<longleftrightarrow> set (map spec_series specs) = set (map Some series)"

definition check_bar_family :: "feature_spec list \<Rightarrow> string list \<Rightarrow> string \<Rightarrow> unit result" where
  "check_bar_family catalog ohlc family =
    rbind (raise_if (map spec_name (of_family family catalog)
        \<noteq> each_series ohlc OHLC_BAR_WINDOWS (\<lambda>s n. s @ ''_'' @ family @ ''_'' @ obs_text n)) ValueError
      (''macro feature catalog '' @ family @ '' domain/coverage mismatch'')) (\<lambda>_.
    raise_if (\<not> series_are (of_family family catalog) ohlc) ValueError
      (''macro feature catalog '' @ family @ '' series mismatch''))"

definition check_suffix_family :: "feature_spec list \<Rightarrow> string list \<Rightarrow> string \<times> string list \<Rightarrow> unit result" where
  "check_suffix_family catalog ohlc = (\<lambda>(family, suffixes).
    rbind (raise_if (map spec_name (of_family family catalog) \<noteq> each_series ohlc suffixes (\<lambda>s x. s @ ''_'' @ x)) ValueError
      (''macro feature catalog '' @ family @ '' domain/coverage mismatch'')) (\<lambda>_.
    rbind (raise_if (\<not> series_are (of_family family catalog) ohlc) ValueError
      (''macro feature catalog '' @ family @ '' series mismatch'')) (\<lambda>_.
    raise_if (list_ex (\<lambda>x. spec_postgres_type x \<noteq> (if family = ''donchian'' then ''boolean'' else ''double precision''))
        (of_family family catalog)) ValueError
      (''macro feature catalog '' @ family @ '' type mismatch''))))"

definition is_fed :: "string \<Rightarrow> bool" where
  "is_fed s \<longleftrightarrow> take 4 s = ''fed_''"

definition validate_feature_catalog :: "feature_spec list \<Rightarrow> string list \<Rightarrow> string list \<Rightarrow> bool \<Rightarrow> unit result" where
  "validate_feature_catalog catalog price raw include_ohlc =
    (let names = map spec_name catalog; ohlc = ohlc_of raw include_ohlc in
     rbind (raise_if (\<not> distinct names) ValueError ''macro feature catalog contains duplicate columns'') (\<lambda>_.
     rbind (raise_if (list_ex (\<lambda>x. spec_name x = [] \<or> spec_family x = [] \<or> spec_formula x = []) catalog) ValueError
       ''macro feature catalog contains incomplete metadata'') (\<lambda>_.
     rbind (raise_if (map spec_name (of_family ''raw_log'' catalog) \<noteq> map (\<lambda>s. s @ ''_log_level'') price) ValueError
       ''macro feature catalog raw-log order/coverage mismatch'') (\<lambda>_.
     rbind (raise_if (map spec_name (of_family ''raw_ohlc'' catalog) \<noteq> each_series ohlc OHLC_FIELDS (\<lambda>s x. s @ ''_'' @ x)) ValueError
       ''macro feature catalog raw-OHLC order/coverage mismatch'') (\<lambda>_.
     rbind (rfor (check_bar_family catalog ohlc) OHLC_BAR_FEATURE_FAMILIES) (\<lambda>_.
     rbind (rfor (check_suffix_family catalog ohlc)
       [(''stochastic'', OHLC_STOCHASTIC_SUFFIXES), (''donchian'', OHLC_DONCHIAN_SUFFIXES)]) (\<lambda>_.
     rbind (raise_if (list_ex (\<lambda>x. spec_postgres_type x \<notin> {''double precision'', ''boolean''}) catalog) ValueError
       ''macro feature catalog contains an unsupported PostgreSQL type'') (\<lambda>_.
     rbind (rfor (\<lambda>family. raise_if (\<not> series_are (of_family family catalog) price) ValueError
         (''macro feature catalog '' @ family @ '' domain/coverage mismatch'')) PRICE_FEATURE_FAMILIES) (\<lambda>_.
     rbind (raise_if (\<not> series_are (of_family ''momentum_autocorrelation'' catalog) raw) ValueError
       ''macro feature catalog momentum domain/coverage mismatch'') (\<lambda>_.
     rbind (raise_if (''foo_log_level'' \<in> set names) ValueError ''unapproved wildcard feature in macro feature catalog'') (\<lambda>_.
     rbind (raise_if (list_ex (\<lambda>x. is_fed (spec_name x) \<or> is_fed (spec_family x)) catalog) ValueError
       ''retired Fed-policy output cannot be in the macro feature catalog'') (\<lambda>_.
     raise_if (RSI_COMPOSITE_INTERNAL_WINDOW \<in> set RSI_WINDOWS) ValueError
       ''internal composite RSI period must not become a public RSI output''))))))))))))"

section \<open>Fingerprints\<close>

definition spec_doc :: "feature_spec \<Rightarrow> json_doc" where
  "spec_doc x = DDict
    [(''name'', DStr (spec_name x)), (''family'', DStr (spec_family x)), (''series'', doc_option (\<lambda>s. s) (spec_series x)),
     (''formula'', DStr (spec_formula x)), (''postgres_type'', DStr (spec_postgres_type x))]"

definition feature_catalog_payload :: "feature_spec list \<Rightarrow> string list \<Rightarrow> string list \<Rightarrow> bool \<Rightarrow> json_doc list result" where
  "feature_catalog_payload catalog price raw include_ohlc =
    rbind (validate_feature_catalog catalog price raw include_ohlc) (\<lambda>_. Inr (map spec_doc catalog))"

definition feature_catalog_fingerprint ::
  "(byte list \<Rightarrow> string) \<Rightarrow> feature_spec list \<Rightarrow> int \<Rightarrow> string list \<Rightarrow> string list \<Rightarrow> bool \<Rightarrow> string result" where
  "feature_catalog_fingerprint sha256 catalog version price raw include_ohlc =
    rbind (feature_catalog_payload catalog price raw include_ohlc) (\<lambda>columns.
    Inr (sha256 (ascii_bytes (doc_text (DDict [(''version'', DInt version), (''columns'', DList columns)])))))"

definition MACRO_FEATURE_VIEW_VERSION :: int where
  "MACRO_FEATURE_VIEW_VERSION = 17"

definition EXTENDED_MACRO_FEATURE_VIEW_VERSION :: int where
  "EXTENDED_MACRO_FEATURE_VIEW_VERSION = 2"

definition FEATURE_VALUE_SCHEMA_VERSION :: int where
  "FEATURE_VALUE_SCHEMA_VERSION = 2"

definition FEATURE_VALUE_CATALOG_FINGERPRINT :: "(byte list \<Rightarrow> string) \<Rightarrow> string" where
  "FEATURE_VALUE_CATALOG_FINGERPRINT sha256 = sha256 (ascii_bytes (doc_text (DDict
    [(''version'', DInt FEATURE_VALUE_SCHEMA_VERSION), (''features'', DList (map spec_doc FEATURE_VALUE_CATALOG))])))"

text \<open>The checks at the import of the module, with the two fingerprints of the views.\<close>

definition load_feature_catalog :: "(byte list \<Rightarrow> string) \<Rightarrow> (string \<times> string) result" where
  "load_feature_catalog sha256 =
    rbind (raise_if (\<not> distinct FEATURE_VALUE_NAMES) ValueError ''long-form feature catalog contains duplicate names'') (\<lambda>_.
    rbind (validate_feature_catalog FEATURE_CATALOG PRICE_FEATURE_SERIES RAW_SERIES True) (\<lambda>_.
    rbind (feature_catalog_fingerprint sha256 FEATURE_CATALOG MACRO_FEATURE_VIEW_VERSION PRICE_FEATURE_SERIES RAW_SERIES True) (\<lambda>view.
    rbind (validate_feature_catalog EXTENDED_FEATURE_CATALOG EXTENDED_PRICE_FEATURE_SERIES EXTENDED_RAW_SERIES False) (\<lambda>_.
    rbind (feature_catalog_fingerprint sha256 EXTENDED_FEATURE_CATALOG EXTENDED_MACRO_FEATURE_VIEW_VERSION
      EXTENDED_PRICE_FEATURE_SERIES EXTENDED_RAW_SERIES False) (\<lambda>extended. Inr (view, extended))))))"

section \<open>Parity with the SQL projection\<close>

text \<open>
  \<open>src/application/macro_feature_parity.py\<close>: a column occurs in the SQL text with no identifier character
  before or after it.
\<close>

definition is_identifier_char :: "char \<Rightarrow> bool" where
  "is_identifier_char c \<longleftrightarrow> is_digit c \<or> c = CHR ''_'' \<or> c \<in> set ''abcdefghijklmnopqrstuvwxyzABCDEFGHIJKLMNOPQRSTUVWXYZ''"

fun occurs_in :: "bool \<Rightarrow> string \<Rightarrow> string \<Rightarrow> bool" where
  "occurs_in inside column sql =
    (\<not> inside \<and> take (length column) sql = column \<and> \<not> list_ex is_identifier_char (take 1 (drop (length column) sql))
     \<or> (case sql of [] \<Rightarrow> False | c # rest \<Rightarrow> occurs_in (is_identifier_char c) column rest))"

declare occurs_in.simps [simp del]

record parity_report =
  compared_columns :: "string list"
  missing_columns :: "string list"

definition parity_passed :: "parity_report \<Rightarrow> bool" where
  "parity_passed r \<longleftrightarrow> missing_columns r = []"

definition compare_catalog_to_sql :: "string \<Rightarrow> string list \<Rightarrow> parity_report" where
  "compare_catalog_to_sql sql columns =
    \<lparr>compared_columns = filter (\<lambda>c. occurs_in False c sql) columns,
     missing_columns = filter (\<lambda>c. \<not> occurs_in False c sql) columns\<rparr>"

text \<open>An occurrence is a place in the text with a boundary on both sides.\<close>

definition bounded :: "bool \<Rightarrow> string \<Rightarrow> string \<Rightarrow> bool" where
  "bounded inside before after \<longleftrightarrow> \<not> (if before = [] then inside else is_identifier_char (last before))
    \<and> (after = [] \<or> \<not> is_identifier_char (hd after))"

lemma bounded_Cons: "bounded inside (c # before) after = bounded (is_identifier_char c) before after"
  by (simp add: bounded_def)

lemma bounded_Nil: "bounded inside [] after \<longleftrightarrow> \<not> inside \<and> \<not> list_ex is_identifier_char (take 1 after)"
  by (cases after) (simp_all add: bounded_def)

lemma occurs_here:
  "(\<not> inside \<and> take (length column) sql = column \<and> \<not> list_ex is_identifier_char (take 1 (drop (length column) sql)))
    \<longleftrightarrow> (\<exists>after. sql = column @ after \<and> bounded inside [] after)"
  unfolding bounded_Nil by (metis append_eq_conv_conj)

lemma occurs_in_iff:
  "occurs_in inside column sql \<longleftrightarrow> (\<exists>before after. sql = before @ column @ after \<and> bounded inside before after)"
proof (induction sql arbitrary: inside)
  case Nil
  show ?case
    by (simp only: occurs_in.simps occurs_here) simp
next
  case (Cons c sql)
  have "(\<exists>before after. c # sql = before @ column @ after \<and> bounded inside before after)
    \<longleftrightarrow> (\<exists>after. c # sql = column @ after \<and> bounded inside [] after)
      \<or> (\<exists>before after. sql = before @ column @ after \<and> bounded (is_identifier_char c) before after)"
    (is "?at \<longleftrightarrow> ?here \<or> ?later")
  proof
    assume ?at
    then obtain before after where *: "c # sql = before @ column @ after" "bounded inside before after"
      by blast
    then show "?here \<or> ?later"
      by (cases before) (auto simp: bounded_Cons)
  next
    assume "?here \<or> ?later"
    then show ?at
      by (metis append_Cons append_Nil bounded_Cons)
  qed
  then show ?case
    by (simp only: occurs_in.simps [of inside] occurs_here list.case Cons.IH)
qed

lemma parity_passed_iff:
  "parity_passed (compare_catalog_to_sql sql columns) \<longleftrightarrow>
    (\<forall>column \<in> set columns. \<exists>before after. sql = before @ column @ after \<and> bounded False before after)"
  by (simp add: parity_passed_def compare_catalog_to_sql_def filter_empty_conv occurs_in_iff)

text \<open>The names of the long-form catalog are those of the two views, in this order.\<close>

lemma value_names_split: "FEATURE_VALUE_NAMES = FEATURE_VALUE_PRIMARY_NAMES @ FEATURE_VALUE_EXTENDED_NAMES"
  by (simp add: FEATURE_VALUE_NAMES_def FEATURE_VALUE_CATALOG_def FEATURE_VALUE_PRIMARY_NAMES_def FEATURE_VALUE_EXTENDED_NAMES_def)

end
