(* ===== verification/Feature_Catalog_Valid.thy ===== *)
theory Feature_Catalog_Valid
  imports Feature_Catalog
begin

text \<open>
  The feature catalogs pass their validation, name no column twice, and agree with the column contracts of
  the feature modules.
\<close>

section \<open>Families of a catalog\<close>

named_theorems family_simps

lemma of_family_append [family_simps]: "of_family F (xs @ ys) = of_family F xs @ of_family F ys"
  by (simp add: of_family_def)

lemma of_family_Nil [family_simps]: "of_family F [] = []"
  by (simp add: of_family_def)

lemma of_family_concat [family_simps]: "of_family F (concat (map g ss)) = concat (map (\<lambda>s. of_family F (g s)) ss)"
  by (induction ss) (simp_all add: of_family_def)

lemma spec_simps [simp]:
  "spec_name (MacroFeatureSpec n G s f) = n" "spec_family (MacroFeatureSpec n G s f) = G"
  "spec_series (MacroFeatureSpec n G s f) = s" "spec_formula (MacroFeatureSpec n G s f) = f"
  "spec_postgres_type (MacroFeatureSpec n G s f) = ''double precision''"
  by (simp_all add: MacroFeatureSpec_def)

lemma of_family_const: "(\<And>x. x \<in> set xs \<Longrightarrow> spec_family x = G) \<Longrightarrow> of_family F xs = (if F = G then xs else [])"
  by (auto simp: of_family_def filter_id_conv filter_empty_conv)

lemma of_family_none: "(\<And>x. x \<in> set xs \<Longrightarrow> spec_family x \<noteq> F) \<Longrightarrow> of_family F xs = []"
  by (auto simp: of_family_def filter_empty_conv)

lemma of_family_Cons: "of_family F (x # xs) = (if spec_family x = F then x # of_family F xs else of_family F xs)"
  by (simp add: of_family_def)

lemma of_family_windows:
  "of_family F (map (\<lambda>x. MacroFeatureSpec (n x) G (s x) (f x)) xs)
    = (if F = G then map (\<lambda>x. MacroFeatureSpec (n x) G (s x) (f x)) xs else [])"
  "of_family F (map (\<lambda>(a, b). MacroFeatureSpec (m a b) G (t a b) (h a b)) ps)
    = (if F = G then map (\<lambda>(a, b). MacroFeatureSpec (m a b) G (t a b) (h a b)) ps else [])"
  by (rule of_family_const; force)+

lemma momentum_family:
  "of_family F (map (momentum_spec s) ps) = (if F = ''momentum_autocorrelation'' then map (momentum_spec s) ps else [])"
  by (rule of_family_const) (auto simp: momentum_spec_def)

lemma concat_map_Nil: "(\<And>s. s \<in> set ss \<Longrightarrow> g s = []) \<Longrightarrow> concat (map g ss) = []"
  by (induction ss) auto

text \<open>The families each part of the catalog holds.\<close>

lemma price_families:
  "map spec_family (price_specs s) = map spec_family (price_specs [])"
  "list_all (\<lambda>F. F = ''raw_log'' \<or> F = ''geometric_return'' \<or> F \<in> set (map spec_family (price_specs []))) PRICE_FEATURE_FAMILIES"
  "list_all (\<lambda>F. F \<in> set (PRICE_FEATURE_FAMILIES @ [''momentum_autocorrelation'']) - {''raw_log'', ''geometric_return''})
    (map spec_family (price_specs []))"
  subgoal by (simp add: price_specs_def composite_specs_def momentum_spec_def comp_def split_def)
  by code_simp+

lemma part_families:
  "x \<in> set (raw_ohlc_specs s) \<Longrightarrow> spec_family x = ''raw_ohlc''"
  "x \<in> set (ohlc_specs s) \<Longrightarrow> spec_family x \<in> set (OHLC_BAR_FEATURE_FAMILIES @ [''stochastic'', ''donchian''])"
  "x \<in> set (volatility_specs s) \<Longrightarrow> spec_family x \<in> {''delta'', ''zscore''}"
  "x \<in> set (map (delta_spec s) lags) \<Longrightarrow> spec_family x = ''delta''"
  "x \<in> set cross_specs \<Longrightarrow> spec_family x \<in> {''term_structure'', ''cross_series''}"
  "x \<in> set (geometric_specs s) \<Longrightarrow> spec_family x = ''geometric_return''"
  "x \<in> set (map (momentum_spec s) ps) \<Longrightarrow> spec_family x = ''momentum_autocorrelation''"
  by (auto simp: raw_ohlc_specs_def ohlc_specs_def bar_formulas_def OHLC_BAR_FEATURE_FAMILIES_def donchian_spec_def
      volatility_specs_def delta_spec_def cross_specs_def geometric_specs_def momentum_spec_def)

lemma price_part_families:
  "x \<in> set (price_specs s) \<Longrightarrow> spec_family x \<in> set (PRICE_FEATURE_FAMILIES @ [''momentum_autocorrelation'']) - {''raw_log'', ''geometric_return''}"
  using price_families(3) unfolding price_families(1) [of s, symmetric] list_all_iff list.set_map by blast

text \<open>Hence a part has no column of any other family.\<close>

lemma part_none:
  "F \<noteq> ''raw_log'' \<Longrightarrow> of_family F (map raw_log_spec ss) = []"
  "F \<noteq> ''raw_ohlc'' \<Longrightarrow> of_family F (raw_ohlc_specs s) = []"
  "F \<notin> set (OHLC_BAR_FEATURE_FAMILIES @ [''stochastic'', ''donchian'']) \<Longrightarrow> of_family F (ohlc_specs s) = []"
  "F \<notin> {''delta'', ''zscore''} \<Longrightarrow> of_family F (volatility_specs s) = []"
  "F \<noteq> ''delta'' \<Longrightarrow> of_family F (map (delta_spec s) lags) = []"
  "F \<notin> {''term_structure'', ''cross_series''} \<Longrightarrow> of_family F cross_specs = []"
  "F \<noteq> ''geometric_return'' \<Longrightarrow> of_family F (geometric_specs s) = []"
  "F \<noteq> ''momentum_autocorrelation'' \<Longrightarrow> of_family F (map (momentum_spec s) ps) = []"
  "F \<notin> set (PRICE_FEATURE_FAMILIES @ [''momentum_autocorrelation'']) - {''raw_log'', ''geometric_return''} \<Longrightarrow> of_family F (price_specs s) = []"
  by (rule of_family_none, (drule part_families price_part_families)?, force simp: raw_log_spec_def)+

lemma part_all:
  "of_family ''raw_log'' (map raw_log_spec ss) = map raw_log_spec ss"
  "of_family ''raw_ohlc'' (raw_ohlc_specs s) = raw_ohlc_specs s"
  "of_family ''geometric_return'' (geometric_specs s) = geometric_specs s"
  by (simp_all add: of_family_def filter_id_conv part_families) (simp add: raw_log_spec_def)

lemmas source_parts = source_specs_def family_simps concat_map_Nil split_def part_none part_all momentum_family

lemma source_price_family:
  assumes "F \<in> set PRICE_FEATURE_FAMILIES" "F \<noteq> ''raw_log''" "F \<noteq> ''geometric_return''"
  shows "of_family F (source_specs raw price h c) = concat (map (\<lambda>s. of_family F (price_specs s)) price)"
proof -
  have "F \<notin> set ([''raw_ohlc'', ''delta'', ''zscore'', ''term_structure'', ''cross_series'', ''momentum_autocorrelation'']
      @ OHLC_BAR_FEATURE_FAMILIES @ [''stochastic'', ''donchian''])"
    using assms(1) unfolding PRICE_FEATURE_FAMILIES_def OHLC_BAR_FEATURE_FAMILIES_def by auto
  then show ?thesis
    using assms(2, 3) by (simp add: source_parts)
qed

lemma source_raw_log: "of_family ''raw_log'' (source_specs raw price h c) = map raw_log_spec price"
  by (simp add: source_parts OHLC_BAR_FEATURE_FAMILIES_def)

lemma source_geometric: "of_family ''geometric_return'' (source_specs raw price h c) = concat (map geometric_specs price)"
  by (simp add: source_parts OHLC_BAR_FEATURE_FAMILIES_def)

lemma source_momentum:
  "of_family ''momentum_autocorrelation'' (source_specs raw price h c)
    = concat (map (\<lambda>s. map (momentum_spec s) (lag_windows MOMENTUM_POLICY)) (price @ filter (\<lambda>s. s \<in> set raw) SIGNED_LEVEL_SERIES))"
proof -
  have "of_family ''momentum_autocorrelation'' (price_specs s) = map (momentum_spec s) (lag_windows MOMENTUM_POLICY)" for s
    by (simp add: price_specs_def family_simps of_family_windows momentum_family composite_specs_def of_family_Cons)
  then show ?thesis
    by (simp add: source_parts OHLC_BAR_FEATURE_FAMILIES_def)
qed

lemma source_ohlc_family:
  assumes "F \<in> set (OHLC_BAR_FEATURE_FAMILIES @ [''stochastic'', ''donchian''])"
  shows "of_family F (source_specs raw price h c) = concat (map (\<lambda>s. of_family F (ohlc_specs s)) (ohlc_of raw h))"
proof -
  have "F \<notin> set ([''raw_log'', ''raw_ohlc'', ''delta'', ''zscore'', ''term_structure'', ''cross_series'', ''momentum_autocorrelation'']
      @ PRICE_FEATURE_FAMILIES)"
    using assms unfolding PRICE_FEATURE_FAMILIES_def OHLC_BAR_FEATURE_FAMILIES_def by auto
  then show ?thesis
    by (simp add: source_parts PRICE_FEATURE_FAMILIES_def)
qed

lemma source_raw_ohlc: "of_family ''raw_ohlc'' (source_specs raw price h c) = concat (map raw_ohlc_specs (ohlc_of raw h))"
  by (simp add: source_parts OHLC_BAR_FEATURE_FAMILIES_def PRICE_FEATURE_FAMILIES_def)

section \<open>The names of a family\<close>

lemma names_concat: "map spec_name (concat (map g ss)) = concat (map (\<lambda>s. map spec_name (g s)) ss)"
  by (induction ss) auto

lemma names_pairs: "spec_name (case p of (a, b) \<Rightarrow> MacroFeatureSpec (m a b) G (t a b) (h a b)) = (case p of (a, b) \<Rightarrow> m a b)"
  by (simp add: split_def)

lemmas part_names = names_concat each_series_def comp_def names_pairs

lemma price_family_names:
  "map spec_name (of_family ''sma_ratio'' (source_specs raw price h c))
    = each_series price SMA_RATIO_WINDOWS (\<lambda>s (short, long). s @ ''_sma_ratio_'' @ string_of_int short @ ''_'' @ string_of_int long)"
  "map spec_name (of_family ''wilder_rsi'' (source_specs raw price h c))
    = each_series price RSI_WINDOWS (\<lambda>s n. s @ ''_rsi_'' @ obs_text n)"
  "map spec_name (of_family ''roc'' (source_specs raw price h c))
    = each_series price ROC_WINDOWS (\<lambda>s n. s @ ''_roc_'' @ obs_text n)"
  "map spec_name (of_family ''drawdown'' (source_specs raw price h c))
    = each_series price DRAWDOWN_WINDOWS (\<lambda>s n. s @ ''_drawdown_'' @ obs_text n)"
  "map spec_name (of_family ''ema_trend'' (source_specs raw price h c)) = ema_feature_columns price"
  "map spec_name (of_family ''macd'' (source_specs raw price h c)) = macd_feature_columns price"
  "map spec_name (of_family ''log_return'' (source_specs raw price h c))
    = each_series price LOG_RETURN_WINDOWS (\<lambda>s n. s @ ''_log_return_'' @ obs_text n)"
  "map spec_name (of_family ''return_mean'' (source_specs raw price h c))
    = each_series price RETURN_MEAN_WINDOWS (\<lambda>s n. s @ ''_return_mean_'' @ obs_text n)"
  "map spec_name (of_family ''volatility'' (source_specs raw price h c))
    = each_series price VOLATILITY_WINDOWS (\<lambda>s n. s @ ''_volatility_'' @ obs_text n)"
  by (subst source_price_family; (simp add: PRICE_FEATURE_FAMILIES_def)?;
      simp add: price_specs_def family_simps of_family_windows composite_specs_def of_family_Cons part_names
        momentum_family ema_feature_columns_def macd_feature_columns_def)+

lemma geometric_names:
  "map spec_name (of_family ''geometric_return'' (source_specs raw price h c))
    = each_series price RETURN_WINDOWS (\<lambda>s n. s @ ''_return_geom_'' @ obs_text n @ ''_pct'')"
  by (simp add: source_geometric geometric_specs_def part_names)

lemma raw_log_names: "map spec_name (of_family ''raw_log'' (source_specs raw price h c)) = map (\<lambda>s. s @ ''_log_level'') price"
  by (simp add: source_raw_log raw_log_spec_def comp_def)

lemma momentum_names:
  "map spec_name (of_family ''momentum_autocorrelation'' (source_specs raw price h c))
    = momentum_feature_columns (price @ filter (\<lambda>s. s \<in> set raw) SIGNED_LEVEL_SERIES) MOMENTUM_POLICY"
  unfolding source_momentum momentum_feature_columns_def by (simp add: part_names momentum_spec_def split_def)

lemma raw_ohlc_names:
  "map spec_name (of_family ''raw_ohlc'' (source_specs raw price h c)) = each_series (ohlc_of raw h) OHLC_FIELDS (\<lambda>s x. s @ ''_'' @ x)"
  by (simp add: source_raw_ohlc raw_ohlc_specs_def part_names)

lemma donchian_family:
  "of_family F (map (donchian_spec s) xs) = (if F = ''donchian'' then map (donchian_spec s) xs else [])"
  by (rule of_family_const) (auto simp: donchian_spec_def)

lemma ohlc_family_specs:
  "family \<in> set OHLC_BAR_FEATURE_FAMILIES \<Longrightarrow> map spec_name (of_family family (ohlc_specs s))
    = map (\<lambda>n. s @ ''_'' @ family @ ''_'' @ obs_text n) OHLC_BAR_WINDOWS"
  "of_family ''stochastic'' (ohlc_specs s) = map (\<lambda>x. MacroFeatureSpec (s @ ''_'' @ x) ''stochastic'' (Some s)
    (formula_of stochastic_formulas x)) OHLC_STOCHASTIC_SUFFIXES"
  "of_family ''donchian'' (ohlc_specs s) = map (donchian_spec s) OHLC_DONCHIAN_SUFFIXES"
  by (auto simp: ohlc_specs_def family_simps of_family_windows donchian_family bar_formulas_def OHLC_BAR_FEATURE_FAMILIES_def comp_def)

lemma bar_names:
  "family \<in> set OHLC_BAR_FEATURE_FAMILIES \<Longrightarrow> map spec_name (of_family family (source_specs raw price h c))
    = each_series (ohlc_of raw h) OHLC_BAR_WINDOWS (\<lambda>s n. s @ ''_'' @ family @ ''_'' @ obs_text n)"
  by (subst source_ohlc_family) (simp_all add: names_concat each_series_def ohlc_family_specs)

lemma suffix_names:
  "map spec_name (of_family ''stochastic'' (source_specs raw price h c))
    = each_series (ohlc_of raw h) OHLC_STOCHASTIC_SUFFIXES (\<lambda>s x. s @ ''_'' @ x)"
  "map spec_name (of_family ''donchian'' (source_specs raw price h c))
    = each_series (ohlc_of raw h) OHLC_DONCHIAN_SUFFIXES (\<lambda>s x. s @ ''_'' @ x)"
  by (subst source_ohlc_family; simp add: part_names ohlc_family_specs donchian_spec_def)+

section \<open>The series of a family\<close>

lemma series_are_concat:
  assumes "\<And>s. s \<in> set ss \<Longrightarrow> g s \<noteq> [] \<and> (\<forall>x \<in> set (g s). spec_series x = Some s)"
  shows "series_are (concat (map g ss)) ss"
proof -
  have "spec_series ` set (g s) = {Some s}" if "s \<in> set ss" for s
    using assms [OF that] by (cases "g s") auto
  then show ?thesis
    by (auto simp: series_are_def image_UN)
qed

lemma part_series:
  "x \<in> set (price_specs s) \<Longrightarrow> spec_series x = Some s" "x \<in> set (geometric_specs s) \<Longrightarrow> spec_series x = Some s"
  "x \<in> set (ohlc_specs s) \<Longrightarrow> spec_series x = Some s"
  by (auto simp: price_specs_def composite_specs_def momentum_spec_def geometric_specs_def ohlc_specs_def donchian_spec_def)

lemmas window_defs = LOG_RETURN_WINDOWS_def RETURN_MEAN_WINDOWS_def VOLATILITY_WINDOWS_def RETURN_AUTOCORRELATION_LAG_WINDOWS_def
  SMA_RATIO_WINDOWS_def RSI_WINDOWS_def ROC_WINDOWS_def DRAWDOWN_WINDOWS_def EMA_OUTPUT_SUFFIXES_def MACD_OUTPUT_SUFFIXES_def
  RETURN_WINDOWS_def OHLC_BAR_WINDOWS_def OHLC_STOCHASTIC_SUFFIXES_def OHLC_DONCHIAN_SUFFIXES_def

lemma price_family_present:
  assumes "F \<in> set PRICE_FEATURE_FAMILIES" "F \<noteq> ''raw_log''" "F \<noteq> ''geometric_return''"
  shows "of_family F (price_specs s) \<noteq> []"
proof -
  have "F \<in> set (map spec_family (price_specs s))"
    using assms price_families(2) unfolding price_families(1) [of s] list_all_iff by blast
  then show ?thesis
    by (auto simp: of_family_def filter_empty_conv)
qed

lemma price_series_are:
  assumes "F \<in> set PRICE_FEATURE_FAMILIES"
  shows "series_are (of_family F (source_specs raw price h c)) price"
proof (cases "F = ''raw_log'' \<or> F = ''geometric_return''")
  case True
  then show ?thesis
  proof
    assume "F = ''raw_log''"
    then show ?thesis
      by (auto simp: source_raw_log series_are_def raw_log_spec_def)
  next
    assume "F = ''geometric_return''"
    moreover have "geometric_specs s \<noteq> []" for s
      by (simp add: geometric_specs_def RETURN_WINDOWS_def)
    ultimately show ?thesis
      using part_series(2) by (simp add: source_geometric series_are_concat)
  qed
next
  case False
  then show ?thesis
    using assms price_family_present [OF assms] part_series(1)
    by (subst source_price_family) (auto intro!: series_are_concat simp: of_family_def)
qed

lemma momentum_series_are:
  "series_are (of_family ''momentum_autocorrelation'' (source_specs raw price h c)) (price @ filter (\<lambda>s. s \<in> set raw) SIGNED_LEVEL_SERIES)"
  unfolding source_momentum
  by (rule series_are_concat) (auto simp: MOMENTUM_POLICY_def momentum_spec_def)

lemma ohlc_series_are:
  assumes "F \<in> set (OHLC_BAR_FEATURE_FAMILIES @ [''stochastic'', ''donchian''])"
  shows "series_are (of_family F (source_specs raw price h c)) (ohlc_of raw h)"
proof -
  have "\<exists>x \<in> set (ohlc_specs s). spec_family x = F" for s
    using assms unfolding OHLC_BAR_FEATURE_FAMILIES_def ohlc_specs_def window_defs bar_formulas_def
    by (auto simp: donchian_spec_def)
  then have "of_family F (ohlc_specs s) \<noteq> []" for s
    by (auto simp: of_family_def filter_empty_conv)
  then show ?thesis
    unfolding source_ohlc_family [OF assms] by (intro series_are_concat) (auto simp: of_family_def part_series)
qed

end
