(* ===== verification/Feature_Catalog_Names.thy ===== *)
theory Feature_Catalog_Names
  imports Feature_Catalog_Valid
begin

text \<open>
  No column of the feature catalogs is named twice.  A name is a series followed by a suffix; the suffixes of
  the parts of a catalog differ, and no series followed by a suffix is another series followed by one.
\<close>

section \<open>Suffixes\<close>

definition raw_log_suffixes :: "string list" where
  "raw_log_suffixes = [spec_name (raw_log_spec [])]"

definition raw_ohlc_suffixes :: "string list" where
  "raw_ohlc_suffixes = map spec_name (raw_ohlc_specs [])"

definition ohlc_suffixes :: "string list" where
  "ohlc_suffixes = map spec_name (ohlc_specs [])"

definition level_suffixes :: "string list" where
  "level_suffixes = map spec_name (volatility_specs [])"

definition price_suffixes :: "string list" where
  "price_suffixes = map spec_name (price_specs [])"

definition geometric_suffixes :: "string list" where
  "geometric_suffixes = map spec_name (geometric_specs [])"

definition momentum_suffixes :: "string list" where
  "momentum_suffixes = map (\<lambda>p. spec_name (momentum_spec [] p)) (lag_windows MOMENTUM_POLICY)"

definition all_suffixes :: "string list" where
  "all_suffixes = raw_log_suffixes @ raw_ohlc_suffixes @ ohlc_suffixes @ level_suffixes @ price_suffixes @ geometric_suffixes"

definition name_of :: "string \<times> string \<Rightarrow> string" where
  "name_of = (\<lambda>(s, x). s @ x)"

lemma part_name_suffixes:
  "spec_name (raw_log_spec s) = s @ hd raw_log_suffixes"
  "map spec_name (raw_ohlc_specs s) = map (\<lambda>x. s @ x) raw_ohlc_suffixes"
  "map spec_name (ohlc_specs s) = map (\<lambda>x. s @ x) ohlc_suffixes"
  "map spec_name (volatility_specs s) = map (\<lambda>x. s @ x) level_suffixes"
  "map spec_name (price_specs s) = map (\<lambda>x. s @ x) price_suffixes"
  "map spec_name (geometric_specs s) = map (\<lambda>x. s @ x) geometric_suffixes"
  "map spec_name (map (momentum_spec s) (lag_windows MOMENTUM_POLICY)) = map (\<lambda>x. s @ x) momentum_suffixes"
  "map spec_name (map (delta_spec s) lags) = map (\<lambda>l. s @ ''_delta_'' @ obs_text l) lags"
  by (simp_all add: raw_log_suffixes_def raw_ohlc_suffixes_def ohlc_suffixes_def level_suffixes_def price_suffixes_def
      geometric_suffixes_def momentum_suffixes_def raw_log_spec_def raw_ohlc_specs_def ohlc_specs_def volatility_specs_def delta_spec_def
      price_specs_def composite_specs_def momentum_spec_def geometric_specs_def donchian_spec_def bar_formulas_def comp_def split_def)

lemma suffixes_distinct: "distinct all_suffixes"
  by code_simp

lemma momentum_suffixes_price: "set momentum_suffixes \<subseteq> set price_suffixes" "distinct momentum_suffixes"
  by code_simp+

definition registered_ids :: "string list" where
  "registered_ids =
    [''vix'', ''vix9d'', ''vix3m'', ''vix6m'', ''vix1y'', ''vstoxx'', ''vstoxx1m'', ''vstoxx2m'', ''vstoxx3m'', ''move'', ''ciss'',
     ''ciss_money'', ''ciss_bonds'', ''ciss_equity'', ''ciss_financials'', ''estr'', ''euro_hy_oas'', ''euro_hy_yield'',
     ''euro_hy_ytw'', ''euro_hy_total_return'', ''us_2y'', ''us_10y'', ''usd_broad'', ''us_3m'', ''us_5y'']"

lemma registered_raw: "REGISTERED_RAW_SERIES = registered_ids"
  using registry_ids by (simp add: REGISTERED_RAW_SERIES_def series_registry_eq registered_ids_def comp_def)

text \<open>What a longer series has after a shorter one that it starts with begins no suffix.\<close>

definition no_overlap :: "string \<Rightarrow> string \<Rightarrow> bool" where
  "no_overlap s t \<longleftrightarrow> s = t \<or> take (length s) t \<noteq> s
    \<or> list_all (\<lambda>x. take (length t - length s) x \<noteq> drop (length s) t) all_suffixes"

lemma no_overlap_ids: "list_all (\<lambda>s. list_all (no_overlap s) registered_ids) registered_ids"
  by code_simp

lemma cross_names_apart:
  "list_all (\<lambda>c. list_all (\<lambda>s. take (length s) c \<noteq> s \<or> drop (length s) c \<notin> set all_suffixes) registered_ids) (map spec_name cross_specs)"
  "distinct (map spec_name cross_specs)"
  by code_simp+

section \<open>Names as pairs\<close>

lemma name_of_inj:
  assumes "s \<in> set registered_ids" "t \<in> set registered_ids" "x \<in> set all_suffixes" "y \<in> set all_suffixes" "s @ x = t @ y"
  shows "s = t \<and> x = y"
proof -
  have apart: "no_overlap s t" "no_overlap t s"
    using no_overlap_ids assms(1,2) by (auto simp: list_all_iff)
  have "s = t"
  proof (cases "length s \<le> length t")
    case True
    then obtain u where u: "t = s @ u" "x = u @ y"
      using assms(5) by (metis append_eq_append_conv_if append_eq_conv_conj append_take_drop_id)
    then show ?thesis
      using apart(1) assms(3) by (auto simp: no_overlap_def list_all_iff)
  next
    case False
    then obtain u where u: "s = t @ u" "y = u @ x"
      using assms(5) by (metis append_eq_append_conv_if append_eq_conv_conj append_take_drop_id)
    then show ?thesis
      using apart(2) assms(4) by (auto simp: no_overlap_def list_all_iff)
  qed
  then show ?thesis
    using assms(5) by simp
qed

definition macro_pairs :: "string list \<Rightarrow> (string \<times> string) list" where
  "macro_pairs raw = concat (map (\<lambda>(s, lags). map (\<lambda>l. (s, ''_delta_'' @ obs_text l)) lags)
    (filter (\<lambda>(s, _). s \<in> set raw) (macro_delta_lags MACRO_POLICY)))"

definition front_pairs :: "string list \<Rightarrow> string list \<Rightarrow> bool \<Rightarrow> (string \<times> string) list" where
  "front_pairs raw price h = List.product price raw_log_suffixes @ List.product (ohlc_of raw h) raw_ohlc_suffixes
    @ List.product (ohlc_of raw h) ohlc_suffixes @ List.product (filter (\<lambda>s. s \<in> set raw) VOLATILITY_SERIES) level_suffixes
    @ macro_pairs raw"

definition back_pairs :: "string list \<Rightarrow> string list \<Rightarrow> (string \<times> string) list" where
  "back_pairs raw price = List.product price price_suffixes @ List.product price geometric_suffixes
    @ List.product (filter (\<lambda>s. s \<in> set raw) SIGNED_LEVEL_SERIES) momentum_suffixes"

lemma names_product: "concat (map (\<lambda>s. map (\<lambda>x. s @ x) xs) ss) = map name_of (List.product ss xs)"
  by (induction ss) (simp_all add: name_of_def)

lemma source_names:
  "map spec_name (source_specs raw price h c) = map name_of (front_pairs raw price h)
    @ (if c then map spec_name cross_specs else []) @ map name_of (back_pairs raw price)"
proof -
  have "map spec_name (map raw_log_spec price) = map name_of (List.product price raw_log_suffixes)"
    by (induction price) (simp_all add: name_of_def raw_log_suffixes_def raw_log_spec_def)
  moreover have "map spec_name (concat (map (\<lambda>(s, lags). map (delta_spec s) lags) ps))
      = map name_of (concat (map (\<lambda>(s, lags). map (\<lambda>l. (s, ''_delta_'' @ obs_text l)) lags) ps))" for ps
    by (induction ps) (auto simp: name_of_def delta_spec_def)
  ultimately show ?thesis
    unfolding source_specs_def front_pairs_def back_pairs_def macro_pairs_def map_append names_concat part_name_suffixes names_product
    by simp
qed

lemma distinct_keyed:
  assumes "distinct (map fst ps)" "\<And>p. p \<in> set ps \<Longrightarrow> distinct (map h (snd p))"
  shows "distinct (concat (map (\<lambda>(s, ls). map (\<lambda>l. (s, h l)) ls) ps))"
  using assms
proof (induction ps)
  case (Cons p ps)
  have "distinct (map (\<lambda>l. (fst p, h l)) (snd p))"
    using Cons.prems(2) [of p] by (simp add: distinct_map inj_on_def)
  moreover have "set (map (\<lambda>l. (fst p, h l)) (snd p)) \<inter> set (concat (map (\<lambda>(s, ls). map (\<lambda>l. (s, h l)) ls) ps)) = {}"
    using Cons.prems(1) by (force simp: image_iff)
  ultimately show ?case
    using Cons by (simp add: split_def)
qed simp

lemma macro_pairs_facts:
  "distinct (macro_pairs raw)" "fst ` set (macro_pairs raw) \<subseteq> set MACRO_SERIES \<inter> set raw"
  "snd ` set (macro_pairs raw) \<subseteq> set level_suffixes"
proof -
  have lags: "snd p \<in> {[1, 5, 20], [1, 20]}" "fst p \<in> set MACRO_SERIES" if "p \<in> set (macro_delta_lags MACRO_POLICY)" for p
    using that by (auto simp: macro_delta_lags_def MACRO_POLICY_def MACRO_SERIES_def)
  have texts: "distinct (map (\<lambda>l. ''_delta_'' @ obs_text l) [1, 5, 20])"
    "set (map (\<lambda>l. ''_delta_'' @ obs_text l) [1, 5, 20]) \<subseteq> set level_suffixes"
    by code_simp+
  have "distinct (map fst (macro_delta_lags MACRO_POLICY))"
    by (simp add: macro_delta_lags_def)
  moreover have "distinct (map (\<lambda>l. ''_delta_'' @ obs_text l) (snd p))" if "p \<in> set (macro_delta_lags MACRO_POLICY)" for p
    using lags(1) [OF that] texts(1) by (elim insertE) simp_all
  ultimately show "distinct (macro_pairs raw)"
    unfolding macro_pairs_def by (intro distinct_keyed distinct_map_filter) simp_all
  show "fst ` set (macro_pairs raw) \<subseteq> set MACRO_SERIES \<inter> set raw"
    using lags(2) by (auto simp: macro_pairs_def)
  have "''_delta_'' @ obs_text l \<in> set level_suffixes" if "p \<in> set (macro_delta_lags MACRO_POLICY)" "l \<in> set (snd p)" for p l
    using lags(1) [OF that(1)] that(2) texts(2) by (elim insertE) auto
  then show "snd ` set (macro_pairs raw) \<subseteq> set level_suffixes"
    by (force simp: macro_pairs_def)
qed

lemma product_snd: "snd ` set (List.product ss xs) \<subseteq> set xs"
  by auto

lemma front_pairs_distinct:
  assumes "distinct price"
  shows "distinct (front_pairs raw price h)" "snd ` set (front_pairs raw price h)
    \<subseteq> set raw_log_suffixes \<union> set raw_ohlc_suffixes \<union> set ohlc_suffixes \<union> set level_suffixes"
proof -
  have d: "distinct raw_log_suffixes" "distinct raw_ohlc_suffixes" "distinct ohlc_suffixes" "distinct level_suffixes"
    "set raw_log_suffixes \<inter> (set raw_ohlc_suffixes \<union> set ohlc_suffixes \<union> set level_suffixes) = {}"
    "set raw_ohlc_suffixes \<inter> (set ohlc_suffixes \<union> set level_suffixes) = {}" "set ohlc_suffixes \<inter> set level_suffixes = {}"
    using suffixes_distinct by (auto simp: all_suffixes_def)
  have series: "distinct (ohlc_of raw h)" "distinct (filter (\<lambda>s. s \<in> set raw) VOLATILITY_SERIES)" "set VOLATILITY_SERIES \<inter> set MACRO_SERIES = {}"
    by (simp_all add: ohlc_of_def ohlc_series_eq VOLATILITY_SERIES_def MACRO_SERIES_def)
  have macro: "p \<in> set (macro_pairs raw) \<Longrightarrow> fst p \<in> set MACRO_SERIES \<and> snd p \<in> set level_suffixes" for p
    using macro_pairs_facts by blast
  show "distinct (front_pairs raw price h)"
    unfolding front_pairs_def distinct_append set_append set_product
    using assms d series macro_pairs_facts(1) macro by (intro conjI distinct_product) fastforce+
  show "snd ` set (front_pairs raw price h) \<subseteq> set raw_log_suffixes \<union> set raw_ohlc_suffixes \<union> set ohlc_suffixes \<union> set level_suffixes"
    using macro by (auto simp: front_pairs_def)
qed

lemma back_pairs_distinct:
  assumes "distinct price" "set price \<inter> set SIGNED_LEVEL_SERIES = {}"
  shows "distinct (back_pairs raw price)" "snd ` set (back_pairs raw price) \<subseteq> set price_suffixes \<union> set geometric_suffixes"
proof -
  have d: "distinct price_suffixes" "distinct geometric_suffixes" "set price_suffixes \<inter> set geometric_suffixes = {}"
    using suffixes_distinct by (auto simp: all_suffixes_def)
  have series: "distinct (filter (\<lambda>s. s \<in> set raw) SIGNED_LEVEL_SERIES)"
    by (simp add: SIGNED_LEVEL_SERIES_def)
  show "distinct (back_pairs raw price)"
    unfolding back_pairs_def distinct_append set_append set_product
    using assms d series momentum_suffixes_price by (intro conjI distinct_product) fastforce+
  show "snd ` set (back_pairs raw price) \<subseteq> set price_suffixes \<union> set geometric_suffixes"
    using momentum_suffixes_price by (auto simp: back_pairs_def)
qed

lemma pairs_distinct:
  assumes "distinct price" "set price \<inter> set SIGNED_LEVEL_SERIES = {}"
  shows "distinct (front_pairs raw price h @ back_pairs raw price)"
    "snd ` set (front_pairs raw price h @ back_pairs raw price) \<subseteq> set all_suffixes"
proof -
  have "(set raw_log_suffixes \<union> set raw_ohlc_suffixes \<union> set ohlc_suffixes \<union> set level_suffixes)
      \<inter> (set price_suffixes \<union> set geometric_suffixes) = {}"
    using suffixes_distinct by (auto simp: all_suffixes_def)
  then have "set (front_pairs raw price h) \<inter> set (back_pairs raw price) = {}"
    using front_pairs_distinct(2) [OF assms(1)] back_pairs_distinct(2) [OF assms] by blast
  then show "distinct (front_pairs raw price h @ back_pairs raw price)"
    using front_pairs_distinct(1) [OF assms(1)] back_pairs_distinct(1) [OF assms] by simp
  show "snd ` set (front_pairs raw price h @ back_pairs raw price) \<subseteq> set all_suffixes"
    using front_pairs_distinct(2) [OF assms(1)] back_pairs_distinct(2) [OF assms]
    unfolding all_suffixes_def set_append image_Un by blast
qed

lemma pairs_series:
  assumes "set price \<subseteq> set raw"
  shows "fst ` set (front_pairs raw price h @ back_pairs raw price) \<subseteq> set raw"
  using assms macro_pairs_facts(2) [of raw] by (auto simp: front_pairs_def back_pairs_def ohlc_of_def split: if_splits)

section \<open>The two catalogs\<close>

lemma name_of_inj_on: "inj_on name_of (set registered_ids \<times> set all_suffixes)"
  using name_of_inj by (auto simp: inj_on_def name_of_def)

lemma primary_series:
  "distinct PRICE_FEATURE_SERIES" "set PRICE_FEATURE_SERIES \<subseteq> set RAW_SERIES" "set RAW_SERIES \<subseteq> set registered_ids"
  "set PRICE_FEATURE_SERIES \<inter> set SIGNED_LEVEL_SERIES = {}"
  "set (PRICE_FEATURE_SERIES @ filter (\<lambda>s. s \<in> set RAW_SERIES) SIGNED_LEVEL_SERIES) = set RAW_SERIES"
  by (auto simp: PRICE_FEATURE_SERIES_def RAW_SERIES_def VOLATILITY_SERIES_def MACRO_SERIES_def SIGNED_LEVEL_SERIES_def registered_ids_def)

lemma extended_series:
  "distinct EXTENDED_PRICE_FEATURE_SERIES" "set EXTENDED_PRICE_FEATURE_SERIES \<subseteq> set EXTENDED_RAW_SERIES"
  "set EXTENDED_RAW_SERIES \<subseteq> set registered_ids" "set EXTENDED_PRICE_FEATURE_SERIES \<inter> set SIGNED_LEVEL_SERIES = {}"
  "set RAW_SERIES \<inter> set EXTENDED_RAW_SERIES = {}"
  "set (EXTENDED_PRICE_FEATURE_SERIES @ filter (\<lambda>s. s \<in> set EXTENDED_RAW_SERIES) SIGNED_LEVEL_SERIES) = set EXTENDED_RAW_SERIES"
  by (auto simp: EXTENDED_PRICE_FEATURE_SERIES_def EXTENDED_RAW_SERIES_def registered_raw registered_ids_def RAW_SERIES_def
      VOLATILITY_SERIES_def MACRO_SERIES_def SIGNED_LEVEL_SERIES_def)

text \<open>All names of both catalogs, without the cross-series ones, as one list of pairs.\<close>

definition both_pairs :: "(string \<times> string) list" where
  "both_pairs = (front_pairs RAW_SERIES PRICE_FEATURE_SERIES True @ back_pairs RAW_SERIES PRICE_FEATURE_SERIES)
    @ (front_pairs EXTENDED_RAW_SERIES EXTENDED_PRICE_FEATURE_SERIES False @ back_pairs EXTENDED_RAW_SERIES EXTENDED_PRICE_FEATURE_SERIES)"

lemma both_pairs_facts: "distinct both_pairs" "set both_pairs \<subseteq> set registered_ids \<times> set all_suffixes"
proof -
  let ?p = "front_pairs RAW_SERIES PRICE_FEATURE_SERIES True @ back_pairs RAW_SERIES PRICE_FEATURE_SERIES"
  let ?e = "front_pairs EXTENDED_RAW_SERIES EXTENDED_PRICE_FEATURE_SERIES False @ back_pairs EXTENDED_RAW_SERIES EXTENDED_PRICE_FEATURE_SERIES"
  note p = pairs_distinct [OF primary_series(1,4), of RAW_SERIES True] pairs_series [OF primary_series(2), of True]
  note e = pairs_distinct [OF extended_series(1,4), of EXTENDED_RAW_SERIES False] pairs_series [OF extended_series(2), of False]
  have "set ?p \<inter> set ?e = {}"
    using p(3) e(3) extended_series(5) by blast
  then show "distinct both_pairs"
    unfolding both_pairs_def distinct_append [of ?p ?e] using p(1) e(1) by (intro conjI)
  have "fst ` set both_pairs = fst ` set ?p \<union> fst ` set ?e" "snd ` set both_pairs = snd ` set ?p \<union> snd ` set ?e"
    unfolding both_pairs_def set_append [of ?p ?e] by (rule image_Un)+
  then have "fst ` set both_pairs \<subseteq> set registered_ids" "snd ` set both_pairs \<subseteq> set all_suffixes"
    using p(2,3) e(2,3) primary_series(3) extended_series(3) by (simp_all only: Un_subset_iff) (meson subset_trans)+
  then show "set both_pairs \<subseteq> set registered_ids \<times> set all_suffixes"
    by force
qed

lemma both_names: "mset (map spec_name (FEATURE_CATALOG @ EXTENDED_FEATURE_CATALOG))
  = mset (map name_of both_pairs @ map spec_name cross_specs)"
  by (simp add: FEATURE_CATALOG_def EXTENDED_FEATURE_CATALOG_def source_names both_pairs_def del: map_map)

lemma catalog_names_distinct: "distinct (map spec_name (FEATURE_CATALOG @ EXTENDED_FEATURE_CATALOG))"
proof -
  have "distinct (map name_of both_pairs)"
    using both_pairs_facts name_of_inj_on by (simp add: distinct_map inj_on_subset)
  moreover have "name_of p \<notin> set (map spec_name cross_specs)" if "p \<in> set both_pairs" for p
  proof
    assume cross: "name_of p \<in> set (map spec_name cross_specs)"
    have p: "fst p \<in> set registered_ids" "snd p \<in> set all_suffixes"
      using both_pairs_facts(2) that by auto
    then have "take (length (fst p)) (name_of p) \<noteq> fst p \<or> drop (length (fst p)) (name_of p) \<notin> set all_suffixes"
      using cross_names_apart(1) cross unfolding list_all_iff by blast
    then show False
      using p(2) by (simp add: name_of_def split_def)
  qed
  ultimately have "distinct (map name_of both_pairs @ map spec_name cross_specs)"
    using cross_names_apart(2) by auto
  then show ?thesis
    using both_names mset_eq_imp_distinct_iff by blast
qed

end
