(* ===== verification/Feature_Catalog_Load.thy ===== *)
theory Feature_Catalog_Load
  imports Feature_Catalog_Names
begin

text \<open>
  The import of the feature catalog: its checks pass, its columns are distinct, and each column contract of
  the feature modules names exactly the columns of its family, in the order of the catalog.
\<close>

section \<open>Metadata\<close>

definition complete_spec :: "feature_spec \<Rightarrow> bool" where
  "complete_spec x \<longleftrightarrow> spec_family x \<noteq> [] \<and> spec_formula x \<noteq> [] \<and> \<not> is_fed (spec_family x)
    \<and> spec_postgres_type x \<in> {''double precision'', ''boolean''}"

text \<open>The metadata of a price feature but for its name and series does not depend on the series.\<close>

definition spec_meta :: "feature_spec \<Rightarrow> string \<times> string \<times> string" where
  "spec_meta x = (spec_family x, spec_formula x, spec_postgres_type x)"

lemma spec_meta_simps: "spec_meta (MacroFeatureSpec n F s f) = (F, f, ''double precision'')"
  by (simp add: spec_meta_def)

lemma complete_meta: "spec_meta x = spec_meta y \<Longrightarrow> complete_spec x = complete_spec y"
  by (simp add: complete_spec_def spec_meta_def)

lemma price_meta: "map spec_meta (price_specs s) = map spec_meta (price_specs [])"
  by (simp add: price_specs_def composite_specs_def momentum_spec_def comp_def split_def spec_meta_simps)

lemma price_complete: "list_all complete_spec (price_specs [])"
  by code_simp

lemma part_complete:
  "complete_spec (raw_log_spec s)" "x \<in> set (raw_ohlc_specs s) \<Longrightarrow> complete_spec x" "x \<in> set (ohlc_specs s) \<Longrightarrow> complete_spec x"
  "x \<in> set (volatility_specs s) \<Longrightarrow> complete_spec x" "complete_spec (delta_spec s l)" "x \<in> set cross_specs \<Longrightarrow> complete_spec x"
  "x \<in> set (geometric_specs s) \<Longrightarrow> complete_spec x" "complete_spec (momentum_spec s p)"
  by (auto simp: complete_spec_def is_fed_def raw_log_spec_def raw_ohlc_specs_def ohlc_specs_def bar_formulas_def donchian_spec_def
      stochastic_formulas_def formula_of_def volatility_specs_def delta_spec_def cross_specs_def
      geometric_specs_def momentum_spec_def window_defs split: prod.split)

lemma price_part_complete: "x \<in> set (price_specs s) \<Longrightarrow> complete_spec x"
proof -
  assume "x \<in> set (price_specs s)"
  then have "spec_meta x \<in> set (map spec_meta (price_specs []))"
    unfolding price_meta [of s, symmetric] list.set_map by (rule imageI)
  then show ?thesis
    using price_complete complete_meta unfolding list_all_iff list.set_map by blast
qed

lemma source_complete: "x \<in> set (source_specs raw price h c) \<Longrightarrow> complete_spec x"
  using part_complete price_part_complete by (fastforce simp: source_specs_def split: if_splits)

lemma registered_heads: "list_all (\<lambda>s. s \<noteq> [] \<and> hd s \<notin> set ''ft'') (registered_ids @ map spec_name cross_specs)"
  by code_simp

lemma name_heads:
  assumes "x \<in> set (FEATURE_CATALOG @ EXTENDED_FEATURE_CATALOG)"
  shows "spec_name x \<noteq> []" "hd (spec_name x) \<notin> set ''ft''"
proof -
  have "spec_name x \<in> set (map spec_name (FEATURE_CATALOG @ EXTENDED_FEATURE_CATALOG))"
    unfolding list.set_map using assms by (rule imageI)
  then have "spec_name x \<in> set (map name_of both_pairs @ map spec_name cross_specs)"
    using both_names by (metis set_mset_mset)
  then consider p where "p \<in> set both_pairs" "spec_name x = fst p @ snd p" | "spec_name x \<in> set (map spec_name cross_specs)"
    by (auto simp: name_of_def)
  then have "\<exists>s y. spec_name x = s @ y \<and> s \<in> set (registered_ids @ map spec_name cross_specs)"
  proof cases
    case (1 p)
    then show ?thesis
      using both_pairs_facts(2) by fastforce
  next
    case 2
    then show ?thesis
      by (intro exI [of _ "spec_name x"] exI [of _ "[]"]) simp
  qed
  then obtain s y where "spec_name x = s @ y" "s \<noteq> [] \<and> hd s \<notin> set ''ft''"
    using registered_heads unfolding list_all_iff by blast
  then show "spec_name x \<noteq> []" "hd (spec_name x) \<notin> set ''ft''"
    by simp_all
qed

lemma not_named: "(\<And>x. x \<in> set xs \<Longrightarrow> spec_name x \<noteq> n) \<Longrightarrow> n \<notin> set (map spec_name xs)"
  by auto

section \<open>Validation\<close>

lemma ohlc_types:
  "x \<in> set (of_family ''stochastic'' (source_specs raw price h c)) \<Longrightarrow> spec_postgres_type x = ''double precision''"
  "x \<in> set (of_family ''donchian'' (source_specs raw price h c)) \<Longrightarrow> spec_postgres_type x = ''boolean''"
  by (subst (asm) source_ohlc_family; auto simp: ohlc_family_specs donchian_spec_def)+

lemma validate_source_specs:
  assumes names: "distinct (map spec_name (source_specs raw price h c))"
    and heads: "\<And>x. x \<in> set (source_specs raw price h c) \<Longrightarrow> spec_name x \<noteq> [] \<and> hd (spec_name x) \<notin> set ''ft''"
    and signed: "set (price @ filter (\<lambda>s. s \<in> set raw) SIGNED_LEVEL_SERIES) = set raw"
  shows "validate_feature_catalog (source_specs raw price h c) price raw h = Inr ()"
proof -
  let ?cat = "source_specs raw price h c"
  have meta: "list_all (\<lambda>x. spec_name x \<noteq> [] \<and> spec_family x \<noteq> [] \<and> spec_formula x \<noteq> []
      \<and> spec_postgres_type x \<in> {''double precision'', ''boolean''} \<and> \<not> is_fed (spec_name x) \<and> \<not> is_fed (spec_family x)) ?cat"
    using heads source_complete [of _ raw price h c] unfolding list_all_iff complete_spec_def
    by (auto simp: is_fed_def) (metis hd_Cons_tl list.sel(1) take_Cons_numeral list.distinct(1))
  have "''foo_log_level'' \<notin> set (map spec_name ?cat)"
  proof
    assume "''foo_log_level'' \<in> set (map spec_name ?cat)"
    then obtain x where "x \<in> set ?cat" "spec_name x = ''foo_log_level''"
      unfolding list.set_map by (elim imageE) simp
    then show False
      using heads [of x] by simp
  qed
  moreover have "rfor (check_bar_family ?cat (ohlc_of raw h)) OHLC_BAR_FEATURE_FAMILIES = Inr ()"
    by (simp add: rfor_Inr check_bar_family_def bar_names ohlc_series_are)
  moreover have "rfor (check_suffix_family ?cat (ohlc_of raw h))
      [(''stochastic'', OHLC_STOCHASTIC_SUFFIXES), (''donchian'', OHLC_DONCHIAN_SUFFIXES)] = Inr ()"
    using ohlc_types [of _ raw price h c] by (simp add: check_suffix_family_def suffix_names ohlc_series_are list_ex_iff)
  moreover have "rfor (\<lambda>family. raise_if (\<not> series_are (of_family family ?cat) price) ValueError
      (''macro feature catalog '' @ family @ '' domain/coverage mismatch'')) PRICE_FEATURE_FAMILIES = Inr ()"
    by (simp add: rfor_Inr price_series_are)
  moreover have "series_are (of_family ''momentum_autocorrelation'' ?cat) raw"
    using momentum_series_are [of raw price h c] unfolding series_are_def list.set_map signed .
  moreover have "RSI_COMPOSITE_INTERNAL_WINDOW \<notin> set RSI_WINDOWS"
    by (simp add: RSI_COMPOSITE_INTERNAL_WINDOW_def RSI_WINDOWS_def)
  moreover have "\<not> list_ex (\<lambda>x. spec_name x = [] \<or> spec_family x = [] \<or> spec_formula x = []) ?cat"
    "\<not> list_ex (\<lambda>x. spec_postgres_type x \<notin> {''double precision'', ''boolean''}) ?cat"
    "\<not> list_ex (\<lambda>x. is_fed (spec_name x) \<or> is_fed (spec_family x)) ?cat"
    using meta unfolding list_all_iff list_ex_iff by blast+
  ultimately show ?thesis
    using names unfolding validate_feature_catalog_def Let_def raw_log_names raw_ohlc_names rbind_raise_if
    by (simp only: simp_thms if_False rbind.simps raise_if_simps not_not if_True)
qed

lemma catalogs_valid:
  "validate_feature_catalog FEATURE_CATALOG PRICE_FEATURE_SERIES RAW_SERIES True = Inr ()"
  "validate_feature_catalog EXTENDED_FEATURE_CATALOG EXTENDED_PRICE_FEATURE_SERIES EXTENDED_RAW_SERIES False = Inr ()"
proof -
  have names: "distinct (map spec_name FEATURE_CATALOG)" "distinct (map spec_name EXTENDED_FEATURE_CATALOG)"
    using catalog_names_distinct unfolding map_append distinct_append by blast+
  have heads: "spec_name x \<noteq> [] \<and> hd (spec_name x) \<notin> set ''ft''" if "x \<in> set FEATURE_CATALOG \<union> set EXTENDED_FEATURE_CATALOG" for x
    using name_heads [of x] that unfolding set_append by blast
  show "validate_feature_catalog FEATURE_CATALOG PRICE_FEATURE_SERIES RAW_SERIES True = Inr ()"
    using names(1) heads unfolding FEATURE_CATALOG_def by (intro validate_source_specs [OF _ _ primary_series(5)]) blast+
  show "validate_feature_catalog EXTENDED_FEATURE_CATALOG EXTENDED_PRICE_FEATURE_SERIES EXTENDED_RAW_SERIES False = Inr ()"
    using names(2) heads unfolding EXTENDED_FEATURE_CATALOG_def by (intro validate_source_specs [OF _ _ extended_series(6)]) blast+
qed

section \<open>The column contracts\<close>

text \<open>Each family with what its feature module names for it.\<close>

definition column_contracts :: "string list \<Rightarrow> string list \<Rightarrow> (string \<times> string list result) list" where
  "column_contracts price momentum =
    [(''geometric_return'', return_feature_columns price RETURN_WINDOWS),
     (''log_return'', log_return_feature_columns price LOG_RETURN_WINDOWS),
     (''return_mean'', return_mean_feature_columns price RETURN_MEAN_WINDOWS),
     (''volatility'', volatility_feature_columns price VOLATILITY_WINDOWS),
     (''sma_ratio'', sma_ratio_feature_columns price SMA_RATIO_WINDOWS),
     (''wilder_rsi'', rsi_feature_columns price RSI_WINDOWS),
     (''roc'', roc_feature_columns price ROC_WINDOWS),
     (''drawdown'', drawdown_feature_columns price DRAWDOWN_WINDOWS),
     (''ema_trend'', Inr (ema_feature_columns price)),
     (''macd'', Inr (macd_feature_columns price)),
     (''momentum_autocorrelation'', Inr (momentum_feature_columns momentum MOMENTUM_POLICY))]"

lemma contracts_hold:
  "list_all (\<lambda>(family, columns). columns = Inr (map spec_name (of_family family (source_specs raw price h c))))
    (column_contracts price (price @ filter (\<lambda>s. s \<in> set raw) SIGNED_LEVEL_SERIES))"
proof -
  have "list_ex (\<lambda>n. n < 1) (RETURN_WINDOWS @ LOG_RETURN_WINDOWS @ RETURN_MEAN_WINDOWS @ VOLATILITY_WINDOWS @ RSI_WINDOWS
      @ ROC_WINDOWS @ DRAWDOWN_WINDOWS) = False" "list_ex (\<lambda>(short, long). short < 1 \<or> long < 1 \<or> short > long) SMA_RATIO_WINDOWS = False"
    by code_simp+
  then show ?thesis
    by (simp add: column_contracts_def return_feature_columns_def log_return_feature_columns_def return_mean_feature_columns_def
        volatility_feature_columns_def sma_ratio_feature_columns_def rsi_feature_columns_def roc_feature_columns_def
        drawdown_feature_columns_def validate_return_windows_def validate_trend_windows_def price_family_names geometric_names momentum_names)
qed

text \<open>
  C10: the feature catalog loads.  Both catalogs pass their validation, no column of either view and no name of
  the long-form catalog occurs twice, and the column contract of every feature module lists exactly the
  columns of its family in the primary catalog.
\<close>

theorem feature_catalog_loads:
  "is_ok (load_feature_catalog sha256) \<and> distinct FEATURE_COLUMNS \<and> distinct EXTENDED_FEATURE_COLUMNS \<and> distinct FEATURE_VALUE_NAMES
    \<and> list_all (\<lambda>(family, columns). columns = Inr (map spec_name (of_family family FEATURE_CATALOG)))
        (column_contracts PRICE_FEATURE_SERIES (PRICE_FEATURE_SERIES @ SIGNED_LEVEL_SERIES))"
proof -
  have names: "distinct (map spec_name FEATURE_CATALOG)" "distinct (map spec_name EXTENDED_FEATURE_CATALOG)"
    using catalog_names_distinct unfolding map_append distinct_append by blast+
  have "spec_name x \<noteq> ''timestamp_m1''" if "x \<in> set (FEATURE_CATALOG @ EXTENDED_FEATURE_CATALOG)" for x
    using name_heads(2) [OF that] by (cases "spec_name x") auto
  then have "''timestamp_m1'' \<notin> set (map spec_name (FEATURE_CATALOG @ EXTENDED_FEATURE_CATALOG))"
    by (rule not_named)
  then have "''timestamp_m1'' \<notin> set (map spec_name FEATURE_CATALOG)" "''timestamp_m1'' \<notin> set (map spec_name EXTENDED_FEATURE_CATALOG)"
    unfolding map_append set_append Un_iff by simp_all
  then have columns: "distinct FEATURE_COLUMNS" "distinct EXTENDED_FEATURE_COLUMNS"
    unfolding FEATURE_COLUMNS_def EXTENDED_FEATURE_COLUMNS_def using names by simp_all
  have value_names: "distinct FEATURE_VALUE_NAMES"
    unfolding FEATURE_VALUE_NAMES_def FEATURE_VALUE_CATALOG_def by (rule distinct_map_filter [OF catalog_names_distinct])
  have "is_ok (load_feature_catalog sha256)"
    unfolding load_feature_catalog_def feature_catalog_fingerprint_def feature_catalog_payload_def
    by (simp add: catalogs_valid value_names)
  moreover have "filter (\<lambda>s. s \<in> set RAW_SERIES) SIGNED_LEVEL_SERIES = SIGNED_LEVEL_SERIES"
    by (simp add: RAW_SERIES_def MACRO_SERIES_def SIGNED_LEVEL_SERIES_def)
  ultimately show ?thesis
    using columns value_names contracts_hold [of RAW_SERIES PRICE_FEATURE_SERIES True True] unfolding FEATURE_CATALOG_def by simp
qed

end
