(* ===== verification/Spec2Isabelle.thy ===== *)
theory Spec2Isabelle
  imports Gold_Lake Bronze_Table Http_Transport Daily_Runs Silver_Files Registry Planner Retry_Policy Silver Gold_Assembly Pg_Conformance Gold_Certified Feature_Catalog_Load
begin

text \<open>
  Verification of macro-loader (\<open>src/\<close>), a Python program that loads market series from public providers into
  a lake of Parquet files and serves one derived table from PostgreSQL.  This theory imports all others.

  \<^bold>\<open>The program.\<close>  A run plans a bounded request per series, fetches it, merges the rows into the monthly Bronze
  files and records the run and the ingestion state; rebuilds the canonical Silver files; joins all series
  into one Gold frame; publishes it as an immutable build whose row in the Gold catalog becomes the current
  one; prunes old builds; and finally synchronizes the current build into PostgreSQL by row digests.

  \<^bold>\<open>The model.\<close>  Python functions are HOL functions.  A function that may raise returns \<open>'a result\<close>, a sum of an
  exception (class and message) and a value; code with effects is a function \<open>('w, 'a) io\<close> of an explicit world
  that may raise after having changed it.  The world carries a fault plan: every system call and every
  call of the database client consumes one entry and raises if the entry says so.  A theorem about all
  worlds therefore covers a failure, or an interrupt, at any such call.  Dates are ordinals, datetimes
  microseconds with a zone, doubles their 64 bits; Python's integers are \<open>int\<close>; the advisory lock key is a signed
  64-bit word.  Debug logging is left out.  Thread pools are modelled by the order of their results:
  interleavings of the series of one batch are outside the model.

  \<^bold>\<open>Parameters.\<close>  polars is a parameter everywhere: building and sorting frames (\<open>polars\<close>), column expressions and
  joins (\<open>polars_ops\<close>), concatenation and keyed joins (\<open>polars_tables\<close>).  The locales \<open>polars_frames\<close>, \<open>polars_expressions\<close>
  and \<open>polars_joins\<close> state its documented behaviour, and list-based instances interpret them.  Further parameters
  are SHA-256, \<open>write_csv\<close>, \<open>write_parquet\<close> as bytes, \<open>str\<close> of a polars type, \<open>json.loads\<close>, \<open>datetime.fromisoformat\<close>, the httpx client, \<open>float\<close> on header texts, the query of the materialized view, the
  schema preflight of the database, and the ports the source itself declares: providers, clocks, the bundle port,
  the profile renderer, the mirror and event sinks.

  \<^bold>\<open>The theories.\<close>
  \<^item> \<open>Base\<close>, \<open>Py_Time\<close>, \<open>Py_Text\<close>, \<open>Py_Float\<close>: exceptions, the two kinds of computation, a Hoare calculus with exceptional
    postconditions, \<open>datetime\<close>, texts and the calendar, IEEE doubles.
  \<^item> \<open>Frame\<close>, \<open>Polars_Ops\<close>, \<open>Frame_Keys\<close>: tables and the operations of polars on them.
  \<^item> \<open>Contracts\<close>, \<open>Registry\<close>, \<open>Planner\<close>, \<open>Retry_Policy\<close>, \<open>Http_Transport\<close> (\<open>application/contracts.py\<close>, \<open>registry.py\<close>,
    \<open>planner.py\<close>, \<open>state.py\<close>, \<open>retry.py\<close>, \<open>ingestion/httpx_adapter.py\<close>): what may be requested, and one request with
    bounded retries.  C7 to C9, C11, C12, C23, C24.
  \<^item> \<open>Lake_Files\<close>, \<open>Lake_Paths\<close>, \<open>Snapshots\<close>, \<open>Ingestion_Records\<close>, \<open>Ingestion_Repositories\<close>, \<open>Frame_Merge\<close>, \<open>Monthly_Files\<close>
    (\<open>parquet_repository.py\<close>, \<open>paths.py\<close>, \<open>operational_repository.py\<close>, \<open>state_repository.py\<close>): the file system, atomic writes,
    the snapshot tables through the locale \<open>snapshot_codec\<close>, the keyed merge, the monthly files.  C25 to C28.
  \<^item> \<open>Bronze_Uow\<close>, \<open>Bronze_Commit\<close>, \<open>Bronze_Table\<close>, \<open>Lake_Faults\<close>, \<open>Bronze_Orchestration\<close>, \<open>Bronze_Runs\<close> (\<open>bronze_uow.py\<close>,
    \<open>bronze_orchestration.py\<close>): staging and the compensated commit, and the runs of a batch.  C29 to C32.
  \<^item> \<open>Silver\<close>, \<open>Silver_Files\<close>, \<open>Gold_Frame\<close>, \<open>Gold_Assembly\<close> (\<open>silver.py\<close>, \<open>silver_repository.py\<close>, \<open>gold_frame.py\<close>): C13, C14, C35, C36.
  \<^item> \<open>Gold_Catalog\<close>, \<open>Gold_Catalog_Port\<close>, \<open>Gold_Catalog_Repository\<close>, \<open>Gold_Publication\<close>, \<open>Gold_Retention\<close>, \<open>Gold_Views\<close>, \<open>Gold_Lake\<close>
    (\<open>gold_catalog.py\<close>, \<open>gold_catalog_repository.py\<close>, \<open>gold_publication.py\<close>, \<open>gold_retention.py\<close>, \<open>gold_retention_store.py\<close>,
    \<open>gold_materialized_views.py\<close>): the catalog port is a locale; publication and retention are proved over it and then on
    the Parquet catalog of the lake.  C1 to C6.
  \<^item> \<open>Gold_Build_Store\<close>, \<open>Gold_Sidecars\<close>, \<open>Gold_Sidecar_Store\<close>, \<open>Gold_Source\<close>, \<open>Gold_Certified\<close> (\<open>gold_build_store.py\<close>,
    \<open>gold_sidecars.py\<close>, \<open>gold_sidecar_store.py\<close>, \<open>gold_publication_adapters.py\<close>, \<open>gold_sync_source.py\<close>): one immutable build, its
    manifest and profile, and its validation before a synchronization.  \<open>Json_Docs\<close> and \<open>Json_Reader\<close> hold the JSON
    they write and the locale \<open>json_reader\<close> of what is read back.  C39, C40.
  \<^item> \<open>Feature_Catalog\<close>, \<open>Feature_Catalog_Valid\<close>, \<open>Feature_Catalog_Names\<close>, \<open>Feature_Catalog_Load\<close> (\<open>macro_feature_catalog.py\<close>,
    \<open>macro_feature_parity.py\<close>, \<open>return_features.py\<close>, \<open>trend_features.py\<close>, \<open>momentum_features.py\<close>, \<open>macro_features.py\<close>): the
    columns of the serving views, their families, the distinctness of their names, and the checks at import.  C10.
  \<^item> \<open>Daily_Pipeline\<close>, \<open>Daily_Runs\<close> (\<open>daily_pipeline.py\<close>): the commands and their order.  C33, C34.
  \<^item> \<open>Pg_Sync\<close>, \<open>Pg_Delta\<close>, \<open>Pg_Config\<close>, \<open>Pg_Store\<close>, \<open>Pg_Repository\<close>, \<open>Pg_Service\<close> (\<open>postgres_sync.py\<close>, \<open>postgres_delta.py\<close>,
    \<open>postgres_gold_repository.py\<close>, \<open>postgres_sync_service.py\<close>): the values, the delta, the settings, the meaning of the statements
    on tables and transactions, one synchronization.  \<open>Pg_Verified\<close>, \<open>Pg_Apply\<close>, \<open>Pg_Tables\<close>, \<open>Pg_Synchronization\<close>,
    \<open>Pg_Liveness\<close>, \<open>Pg_Returns\<close>, \<open>Pg_Sync_Theorems\<close>, \<open>Pg_Invariant\<close>: what it commits, that it returns, what it keeps.
    C15 to C22.
  \<^item> \<open>Pg_Conformance\<close> (\<open>postgres_conformance.py\<close>, \<open>postgres_conformance_service.py\<close>): the independent check of the replica.
    C37, C38.

  \<^bold>\<open>Loops.\<close>  Every loop of the modelled code runs over a list, except the retries of a request, which are bounded by
  the attempts of the policy; no fuel is used and every definition is total.

  \<^bold>\<open>Not modelled.\<close>  The command line and its output (\<open>api/\<close>), logging, thread pools; the five providers, which parse remote
  CSV and JSON (their port is a parameter); the values of the derived features, which the SQL text of a view computes; DDL,
  migrations, role provisioning and the inspection of the system catalogs of PostgreSQL, which are SQL text interpreted
  by the server; operator scripts, the reconstruction procedure and the mirror, which run subprocesses; the drawing of the
  feature profile.
\<close>

end
